(* ===== verification/Prelude.thy ===== *)
theory Prelude
  imports Main "HOL-Library.Word" "HOL-Library.Monad_Syntax"
begin

text \<open>
  Shared vocabulary of the development: the machine types of the console
  microcontroller (a 32-bit ARM with unsigned \<^verbatim>\<open>char\<close>), the collections that the
  component proofs extend, and generic lemmas on words and lists.

  Convention: a function of the model returns \<^term>\<open>None\<close> exactly when the C or C++ code it
  translates has no defined result, because it reads or writes outside an object or does not
  return. A theorem \<open>\<exists>y. f x = Some y\<close> therefore states both memory safety and termination.
\<close>

unbundle bit_operations_syntax

section \<open>Machine types\<close>

type_synonym byte = "8 word"
type_synonym u16 = "16 word"
type_synonym u32 = "32 word"
type_synonym u64 = "64 word"

section \<open>Collections\<close>

named_theorems unat_simps "rules that move word arithmetic to natural numbers"
named_theorems frame_simps "fields an operation leaves alone"

section \<open>Words\<close>

lemma unat_less_size: "unat (w :: 'a::len word) < 2 ^ LENGTH('a)"
  by (rule unsigned_less)

lemma unat_byte_lt [simp]: "unat (b :: byte) < 256"
  using unat_less_size [of b] by simp

lemma unat_u16_lt [simp]: "unat (w :: u16) < 65536"
  using unat_less_size [of w] by simp

lemma unat_u32_lt [simp]: "unat (w :: u32) < 4294967296"
  using unat_less_size [of w] by simp

lemma unat_ucast_8_32 [simp, unat_simps]: "unat (ucast (b :: byte) :: u32) = unat b"
  by (simp add: unsigned_ucast_eq take_bit_eq_mod mod_less [OF less_trans [OF unat_byte_lt]])

lemma unat_ucast_16_32 [simp, unat_simps]: "unat (ucast (w :: u16) :: u32) = unat w"
  by (simp add: unsigned_ucast_eq take_bit_eq_mod mod_less [OF less_trans [OF unat_u16_lt]])

lemma unat_ucast_32_8: "unat (ucast (w :: u32) :: byte) = unat w mod 256"
  by (simp add: unsigned_ucast_eq take_bit_eq_mod)

lemma unat_add_small:
  "unat (a :: 'a::len word) + unat b < 2 ^ LENGTH('a) \<Longrightarrow> unat (a + b) = unat a + unat b"
  by (simp add: unat_word_ariths)

lemma unat_sub_small: "b \<le> a \<Longrightarrow> unat (a - b) = unat a - unat (b :: 'a::len word)"
  by (rule unat_sub)

lemma unat_of_nat_u32: "n < 4294967296 \<Longrightarrow> unat (of_nat n :: u32) = n"
  by (simp add: unsigned_of_nat take_bit_nat_eq_self)

lemma unat_of_nat_byte: "n < 256 \<Longrightarrow> unat (of_nat n :: byte) = n"
  by (simp add: unsigned_of_nat take_bit_nat_eq_self)

section \<open>Arrays\<close>

text \<open>
  A C array is a list of fixed length. Reading or writing outside it has no defined result.
\<close>

definition aget :: "'a list \<Rightarrow> u32 \<Rightarrow> 'a option" where
  "aget a i = (if unat i < length a then Some (a ! unat i) else None)"

definition aput :: "'a list \<Rightarrow> u32 \<Rightarrow> 'a \<Rightarrow> 'a list option" where
  "aput a i v = (if unat i < length a then Some (a[unat i := v]) else None)"

lemma aget_in [simp]: "unat i < length a \<Longrightarrow> aget a i = Some (a ! unat i)"
  by (simp add: aget_def)

lemma aput_in [simp]: "unat i < length a \<Longrightarrow> aput a i v = Some (a[unat i := v])"
  by (simp add: aput_def)

lemma aput_length: "aput a i v = Some b \<Longrightarrow> length b = length a"
  by (auto simp: aput_def split: if_splits)

text \<open>\<^verbatim>\<open>memmove\<close> inside one array; both ranges must lie in it.\<close>

definition amove :: "'a list \<Rightarrow> u32 \<Rightarrow> u32 \<Rightarrow> u32 \<Rightarrow> 'a list option" where
  "amove a dst src n =
     (if unat dst + unat n \<le> length a \<and> unat src + unat n \<le> length a
      then Some (take (unat dst) a @ take (unat n) (drop (unat src) a) @ drop (unat dst + unat n) a)
      else None)"

lemma amove_length: "amove a dst src n = Some b \<Longrightarrow> length b = length a"
  by (auto simp: amove_def split: if_splits)

end
