(* ===== verification/Hist.thy ===== *)
theory Hist
  imports Prelude
begin

text \<open>
  The command-line history of \<^verbatim>\<open>code/cmdlinelib/hist.cpp\<close>: a ring of 128 bytes that holds
  the recent commands, oldest first, each as a length byte followed by its characters, and a zero
  byte after the newest. \<open>h_head\<close> is the oldest entry, \<open>h_tail\<close> the terminating zero and
  \<open>h_index\<close> how many entries the user has walked back.

  The abstract contract is a list of commands and that index. The last part states it as a
  locale and interprets it on the ring.
\<close>

section \<open>The ring buffer\<close>

record hist_t =
  h_buffer :: "byte list"
  h_head :: u32
  h_tail :: u32
  h_index :: u32

datatype dir_t = up | down

definition bufsize :: u32 where
  "bufsize = 128"

definition hist_new :: hist_t where
  "hist_new = \<lparr>h_buffer = replicate 128 0, h_head = 0, h_tail = 0, h_index = 0\<rparr>"

definition wrap :: "u32 \<Rightarrow> u32" where
  "wrap i = (if bufsize \<le> i then i - bufsize else i)"

partial_function (option) findfree :: "u32 \<Rightarrow> hist_t \<Rightarrow> hist_t option" where
  "findfree n h = do {
     b \<leftarrow> aget (h_buffer h) (h_head h);
     if b = 0 then Some h
     else if (if h_tail h < h_head h then n < h_head h - h_tail h - 1
              else n < bufsize + h_head h - h_tail h - 1)
       then Some h
     else findfree n (h\<lparr>h_head := wrap (h_head h + ucast b + 1)\<rparr>)
   }"

fun save_copy :: "byte list \<Rightarrow> nat \<Rightarrow> nat \<Rightarrow> hist_t \<Rightarrow> hist_t option" where
  "save_copy cmdline i 0 h = Some h"
| "save_copy cmdline i (Suc n) h = do {
     c \<leftarrow> aget cmdline (of_nat i);
     b \<leftarrow> aput (h_buffer h) (h_tail h) c;
     save_copy cmdline (Suc i) n (h\<lparr>h_buffer := b, h_tail := wrap (h_tail h + 1)\<rparr>)
   }"

definition save :: "hist_t \<Rightarrow> byte list \<Rightarrow> byte \<Rightarrow> hist_t option" where
  "save h cmdline n =
     (if bufsize - 2 < ucast n \<or> n = 0 then Some h
      else do {
        h \<leftarrow> findfree (ucast n) h;
        b0 \<leftarrow> aget (h_buffer h) (h_head h);
        h \<leftarrow> (if b0 = 0 then do {
                b \<leftarrow> aput (h_buffer h) (h_head h) n;
                Some (h\<lparr>h_buffer := b\<rparr>) }
              else Some h);
        b \<leftarrow> aput (h_buffer h) (h_tail h) n;
        h \<leftarrow> save_copy cmdline 0 (unat n) (h\<lparr>h_buffer := b, h_tail := wrap (h_tail h + 1)\<rparr>);
        b \<leftarrow> aput (h_buffer h) (h_tail h) 0;
        Some (h\<lparr>h_buffer := b, h_index := 0\<rparr>)
      })"

partial_function (option) entries_loop :: "byte list \<Rightarrow> u32 \<Rightarrow> u32 \<Rightarrow> u32 option" where
  "entries_loop b header i = do {
     s \<leftarrow> aget b header;
     if s = 0 then Some i
     else entries_loop b (wrap (header + ucast s + 1)) (i + 1)
   }"

definition entries :: "hist_t \<Rightarrow> u32 option" where
  "entries h = entries_loop (h_buffer h) (h_head h) 0"

partial_function (option) find_loop ::
    "byte list \<Rightarrow> u32 \<Rightarrow> u32 \<Rightarrow> u32 \<Rightarrow> u32 \<Rightarrow> u32 option" where
  "find_loop b num idx header i = do {
     s \<leftarrow> aget b header;
     if s = 0 then Some header
     else if num - i = idx then Some header
     else find_loop b num idx (wrap (header + ucast s + 1)) (i + 1)
   }"

definition find_header :: "hist_t \<Rightarrow> u32 \<Rightarrow> u32 \<Rightarrow> u32 option" where
  "find_header h num idx = find_loop (h_buffer h) num idx (h_head h) 0"

fun copy_loop :: "byte list \<Rightarrow> nat \<Rightarrow> nat \<Rightarrow> u32 \<Rightarrow> byte list \<Rightarrow> byte list option" where
  "copy_loop b i 0 temp dest = Some dest"
| "copy_loop b i (Suc n) temp dest = do {
     c \<leftarrow> aget b temp;
     dest \<leftarrow> aput dest (of_nat i) c;
     copy_loop b (Suc i) n (wrap (temp + 1)) dest
   }"

definition copybuffer :: "hist_t \<Rightarrow> byte list \<Rightarrow> u32 \<Rightarrow> (byte list \<times> int) option" where
  "copybuffer h dest header = do {
     s \<leftarrow> aget (h_buffer h) header;
     dest \<leftarrow> copy_loop (h_buffer h) 0 (unat s) (wrap (header + 1)) dest;
     Some (dest, uint s)
   }"

fun recall :: "hist_t \<Rightarrow> byte list \<Rightarrow> dir_t \<Rightarrow> (hist_t \<times> byte list \<times> int) option" where
  "recall h cmdline up = do {
     num \<leftarrow> entries h;
     header \<leftarrow> find_header h (num - 1) (h_index h);
     b \<leftarrow> aget (h_buffer h) header;
     if h_index h \<le> num \<and> b \<noteq> 0 then do {
       (dest, n) \<leftarrow> copybuffer h cmdline header;
       Some (h\<lparr>h_index := h_index h + 1\<rparr>, dest, n) }
     else Some (h, cmdline, -1)
   }"
| "recall h cmdline down = do {
     num \<leftarrow> entries h;
     header \<leftarrow> find_header h (num + 1) (h_index h);
     if 0 < h_index h then do {
       (dest, n) \<leftarrow> copybuffer h cmdline header;
       Some (h\<lparr>h_index := h_index h - 1\<rparr>, dest, n) }
     else Some (h, cmdline, 0)
   }"

section \<open>Abstract specification\<close>

text \<open>The byte layout of a list of commands, oldest first, and what a stretch of the ring holds.\<close>

fun enc :: "byte list list \<Rightarrow> byte list" where
  "enc [] = []"
| "enc (c # cs) = of_nat (length c) # c @ enc cs"

definition ring :: "byte list \<Rightarrow> nat \<Rightarrow> nat \<Rightarrow> byte list" where
  "ring b p n = map (\<lambda>i. b ! ((p + i) mod 128)) [0..<n]"

definition hist_rep :: "hist_t \<Rightarrow> byte list list \<Rightarrow> bool" where
  "hist_rep h cs \<longleftrightarrow>
     length (h_buffer h) = 128 \<and> unat (h_head h) < 128 \<and> unat (h_tail h) < 128 \<and>
     (\<forall>c \<in> set cs. 0 < length c) \<and> length (enc cs) < 128 \<and>
     unat (h_tail h) = (unat (h_head h) + length (enc cs)) mod 128 \<and>
     ring (h_buffer h) (unat (h_head h)) (Suc (length (enc cs))) = enc cs @ [0] \<and>
     unat (h_index h) \<le> length cs"

text \<open>Oldest commands are dropped until \<open>n\<close> characters, a length byte and the final zero fit.\<close>

fun make_room :: "nat \<Rightarrow> byte list list \<Rightarrow> byte list list" where
  "make_room n [] = []"
| "make_room n (c # cs) =
     (if n + 1 + length (enc (c # cs)) < 128 then c # cs else make_room n cs)"

section \<open>Ring arithmetic\<close>

lemma unat_bufsize [simp]: "unat bufsize = 128"
  by (simp add: bufsize_def)

lemma unat_wrap: "unat i < 256 \<Longrightarrow> unat (wrap i) = unat i mod 128"
proof (cases "bufsize \<le> i")
  case True
  moreover assume "unat i < 256"
  ultimately show ?thesis
    by (simp add: wrap_def unat_sub_small word_le_nat_alt mod_if)
next
  case False
  then show ?thesis by (simp add: wrap_def word_le_nat_alt)
qed

lemma unat_wrap_add:
  "unat p < 128 \<Longrightarrow> unat n < 127 \<Longrightarrow> unat (wrap (p + n + 1)) = (unat p + unat n + 1) mod 128"
  for p n :: u32
  by (subst unat_wrap) (simp_all add: unat_word_ariths)

lemma unat_wrap_1: "unat p < 128 \<Longrightarrow> unat (wrap (p + 1)) = (unat p + 1) mod 128"
  by (subst unat_wrap) (simp_all add: unat_word_ariths)

lemma length_ring [simp]: "length (ring b p n) = n"
  by (simp add: ring_def)

lemma nth_ring [simp]: "i < n \<Longrightarrow> ring b p n ! i = b ! ((p + i) mod 128)"
  by (simp add: ring_def)

lemma ring_Suc: "ring b p (Suc n) = ring b p n @ [b ! ((p + n) mod 128)]"
  by (simp add: ring_def)

lemma ring_add: "ring b p (m + n) = ring b p m @ ring b ((p + m) mod 128) n"
  by (induction n) (simp_all add: ring_Suc mod_simps add.assoc ring_def)

lemma ring_mod: "ring b (p mod 128) n = ring b p n"
  by (simp add: ring_def mod_simps)

lemma mod128_neq: "i < n \<Longrightarrow> n < 128 \<Longrightarrow> (p + i) mod 128 \<noteq> (p + n) mod (128 :: nat)"
proof
  assume *: "i < n" "n < 128" "(p + i) mod 128 = (p + n) mod 128"
  then have "128 dvd (p + n) - (p + i)"
    by (metis mod_eq_dvd_iff_nat add_le_mono less_imp_le order_refl)
  with * show False by (auto dest: dvd_imp_le)
qed

lemma ring_append:
  assumes "length b = 128" "n < 128"
  shows "ring (b[(p + n) mod 128 := v]) p (Suc n) = ring b p n @ [v]"
proof (rule nth_equalityI)
  fix i assume "i < length (ring (b[(p + n) mod 128 := v]) p (Suc n))"
  then have "i < n \<or> i = n" by auto
  with assms mod128_neq [of i n p]
  show "ring (b[(p + n) mod 128 := v]) p (Suc n) ! i = (ring b p n @ [v]) ! i"
    by (auto simp: nth_append nth_list_update)
qed simp

lemma ring_append_at:
  "length b = 128 \<Longrightarrow> k = (p + n) mod 128 \<Longrightarrow> n < 128 \<Longrightarrow> ring (b[k := v]) p (Suc n) = ring b p n @ [v]"
  by (simp add: ring_append)

section \<open>Reading the ring\<close>

lemma enc_append [simp]: "enc (cs @ ds) = enc cs @ enc ds"
  by (induction cs) auto

lemma length_enc_ge: "c \<in> set cs \<Longrightarrow> length c < length (enc cs)"
  by (induction cs) auto

lemma length_cs_le_enc: "length cs \<le> length (enc cs)"
  by (induction cs) auto

lemma append3_eqD:
  "xs @ ys @ zs = xs' @ ys' @ zs' \<Longrightarrow> length xs = length xs' \<Longrightarrow> length ys = length ys'
    \<Longrightarrow> xs = xs' \<and> ys = ys' \<and> zs = zs'"
  by simp

text \<open>A ring position that holds the entry \<open>c\<close>.\<close>

lemma ring_entry:
  assumes r: "ring b p (Suc (length (enc (c # cs)))) = enc (c # cs) @ [0]"
  shows "b ! (p mod 128) = of_nat (length c)"
    and "ring b ((p + 1) mod 128) (length c) = c"
    and "ring b ((p + length c + 1) mod 128) (Suc (length (enc cs))) = enc cs @ [0]"
proof -
  have "ring b p (1 + (length c + Suc (length (enc cs)))) = [of_nat (length c)] @ c @ (enc cs @ [0])"
    using r by simp
  then have "ring b p 1 @ ring b ((p + 1) mod 128) (length c) @
      ring b (((p + 1) mod 128 + length c) mod 128) (Suc (length (enc cs)))
      = [of_nat (length c)] @ c @ (enc cs @ [0])"
    by (simp only: ring_add)
  then have "ring b p 1 = [of_nat (length c)] \<and> ring b ((p + 1) mod 128) (length c) = c \<and>
    ring b (((p + 1) mod 128 + length c) mod 128) (Suc (length (enc cs))) = enc cs @ [0]"
    by (rule append3_eqD) simp_all
  then show "b ! (p mod 128) = of_nat (length c)"
    and "ring b ((p + 1) mod 128) (length c) = c"
    and "ring b ((p + length c + 1) mod 128) (Suc (length (enc cs))) = enc cs @ [0]"
    by (simp_all add: ring_def mod_simps ac_simps)
qed

lemma of_nat_byte_eq_0: "n < 256 \<Longrightarrow> (of_nat n :: byte) = 0 \<longleftrightarrow> n = 0"
  by (metis unat_of_nat_byte unat_eq_zero)

text \<open>What a walk along the ring sees: either the end, or the first entry and the rest.\<close>

definition at_entries :: "byte list \<Rightarrow> u32 \<Rightarrow> byte list list \<Rightarrow> bool" where
  "at_entries b p cs \<longleftrightarrow>
     length b = 128 \<and> unat p < 128 \<and> (\<forall>c \<in> set cs. 0 < length c) \<and> length (enc cs) < 128 \<and>
     ring b (unat p) (Suc (length (enc cs))) = enc cs @ [0]"

lemma at_entries_Nil: "at_entries b p [] \<Longrightarrow> aget b p = Some 0"
  by (auto simp: at_entries_def ring_def)

lemma at_entries_Cons:
  assumes "at_entries b p (c # cs)"
  shows "aget b p = Some (of_nat (length c))" "(of_nat (length c) :: byte) \<noteq> 0"
    and "unat (of_nat (length c) :: byte) = length c"
    and "unat (wrap (p + ucast (of_nat (length c) :: byte) + 1)) = (unat p + length c + 1) mod 128"
    and "at_entries b (wrap (p + ucast (of_nat (length c) :: byte) + 1)) cs"
proof -
  have *: "length b = 128" "unat p < 128" "0 < length c" "length c < 127"
    using assms by (auto simp: at_entries_def)
  note r = ring_entry [of b "unat p" c cs]
  show "aget b p = Some (of_nat (length c))"
    using assms r(1) * by (simp add: at_entries_def)
  show "(of_nat (length c) :: byte) \<noteq> 0"
    using * of_nat_byte_eq_0 [of "length c"] by simp
  show l: "unat (of_nat (length c) :: byte) = length c"
    using * by (intro unat_of_nat_byte) simp
  show w: "unat (wrap (p + ucast (of_nat (length c) :: byte) + 1)) = (unat p + length c + 1) mod 128"
    using * l by (simp add: unat_wrap_add)
  show "at_entries b (wrap (p + ucast (of_nat (length c) :: byte) + 1)) cs"
    using assms r(3) w by (simp add: at_entries_def)
qed

lemma hist_rep_at_entries: "hist_rep h cs \<Longrightarrow> at_entries (h_buffer h) (h_head h) cs"
  by (simp add: hist_rep_def at_entries_def)

lemma entries_loop_count:
  "at_entries b p cs \<Longrightarrow> entries_loop b p i = Some (i + of_nat (length cs))"
proof (induction cs arbitrary: p i)
  case Nil
  then show ?case by (simp add: entries_loop.simps at_entries_Nil)
next
  case (Cons c cs)
  then show ?case
    using Cons.IH [OF at_entries_Cons(5) [OF Cons.prems], of "i + 1"]
    by (simp add: entries_loop.simps [of b p] at_entries_Cons add.commute add.left_commute)
qed

lemma entries_count: "hist_rep h cs \<Longrightarrow> entries h = Some (of_nat (length cs))"
  by (simp add: entries_def entries_loop_count [OF hist_rep_at_entries])

text \<open>The walk stops at entry number \<open>num - idx\<close>, or at the end when there is none.\<close>

lemma find_loop_walk:
  assumes "at_entries b p cs" "num - i - idx = of_nat k" "k < 4294967296"
  shows "\<exists>q. find_loop b num idx p i = Some q \<and> at_entries b q (drop k cs)"
  using assms
proof (induction cs arbitrary: p i k)
  case Nil
  then show ?case by (auto simp: find_loop.simps at_entries_Nil)
next
  case (Cons c cs)
  note e = at_entries_Cons [OF Cons.prems(1)]
  show ?case
  proof (cases k)
    case 0
    then have "num - i = idx" using Cons.prems(2) by simp
    with e Cons.prems(1) 0 show ?thesis by (simp add: find_loop.simps [of b num idx p])
  next
    case (Suc k')
    have "num - i \<noteq> idx"
    proof
      assume "num - i = idx"
      then have "(of_nat k :: u32) = 0" using Cons.prems(2) by simp
      then have "k = 0" using Cons.prems(3)
        by (metis unat_of_nat_u32 unat_eq_zero)
      with Suc show False by simp
    qed
    moreover have "num - (i + 1) - idx = of_nat k'"
      using Cons.prems(2) Suc by (simp add: algebra_simps)
    ultimately show ?thesis
      using Cons.IH [OF e(5), of "i + 1" k'] Cons.prems(3) Suc e(1,2)
      by (simp add: find_loop.simps [of b num idx p])
  qed
qed

section \<open>Saving a command\<close>

lemma room_test:
  assumes "unat p < 128" "unat t = (unat p + e) mod 128" "e < 128"
  shows "(if t < p then n < p - t - 1 else n < bufsize + p - t - 1) \<longleftrightarrow> unat n + 1 + e < 128"
proof (cases "unat p + e < 128")
  case True
  then have t: "unat t = unat p + e" using assms by simp
  then have "\<not> t < p" by (simp add: word_less_nat_alt)
  moreover have "unat (bufsize + p) = 128 + unat p"
    using assms(1) by (simp add: unat_add_small)
  then have "unat (bufsize + p - t - 1) = 127 - e"
    using t assms(3) by (simp add: unat_sub_small word_le_nat_alt unat_add_small)
  ultimately show ?thesis by (auto simp: word_less_nat_alt)
next
  case False
  then have t: "unat t + 128 = unat p + e"
    using assms by (simp add: mod_if split: if_splits)
  then have "t < p" using assms(3) by (simp add: word_less_nat_alt)
  moreover then have "unat (p - t - 1) = unat p - unat t - 1"
    by (simp add: unat_sub_small word_le_nat_alt word_less_nat_alt)
  ultimately show ?thesis using t assms(3) by (auto simp: word_less_nat_alt)
qed

lemma findfree_makes_room:
  assumes "at_entries (h_buffer h) (h_head h) cs"
    and "unat (h_tail h) = (unat (h_head h) + length (enc cs)) mod 128"
  shows "\<exists>p. findfree n h = Some (h\<lparr>h_head := p\<rparr>) \<and>
    at_entries (h_buffer h) p (make_room (unat n) cs) \<and>
    unat (h_tail h) = (unat p + length (enc (make_room (unat n) cs))) mod 128"
  using assms
proof (induction cs arbitrary: h)
  case Nil
  then show ?case by (auto simp: findfree.simps at_entries_Nil intro!: exI [of _ "h_head h"])
next
  case (Cons c cs)
  note e = at_entries_Cons [OF Cons.prems(1)]
  have test: "(if h_tail h < h_head h then n < h_head h - h_tail h - 1
      else n < bufsize + h_head h - h_tail h - 1) \<longleftrightarrow> unat n + 1 + length (enc (c # cs)) < 128"
    using Cons.prems by (intro room_test) (auto simp: at_entries_def)
  show ?case
  proof (cases "unat n + 1 + length (enc (c # cs)) < 128")
    case True
    with e test Cons.prems show ?thesis
      by (auto simp: findfree.simps [of n h] intro!: exI [of _ "h_head h"])
  next
    case False
    define h' where "h' = h\<lparr>h_head := wrap (h_head h + ucast (of_nat (length c) :: byte) + 1)\<rparr>"
    have "unat (h_tail h') = (unat (h_head h') + length (enc cs)) mod 128"
      using Cons.prems(2) e(4) by (simp add: h'_def mod_simps ac_simps)
    with Cons.IH [of h'] e(5) obtain p where p: "findfree n h' = Some (h'\<lparr>h_head := p\<rparr>)"
        "at_entries (h_buffer h) p (make_room (unat n) cs)"
        "unat (h_tail h) = (unat p + length (enc (make_room (unat n) cs))) mod 128"
      by (auto simp: h'_def)
    have "findfree n h = findfree n h'"
      using e test False by (simp add: findfree.simps [of n h] h'_def)
    with p False show ?thesis by (auto simp: h'_def)
  qed
qed

lemma make_room_fits: "n \<le> 126 \<Longrightarrow> n + 1 + length (enc (make_room n cs)) < 128"
  by (induction n cs rule: make_room.induct) auto

lemma set_make_room: "set (make_room n cs) \<subseteq> set cs"
  by (induction n cs rule: make_room.induct) auto

text \<open>Copying keeps what the ring already holds and appends the characters after it.\<close>

lemma save_copy_appends:
  assumes "length (h_buffer h) = 128" "unat (h_tail h) = (p + m) mod 128" "m + n < 128"
    and "i + n \<le> length cmd" "length cmd < 4294967296"
  shows "\<exists>b t. save_copy cmd i n h = Some (h\<lparr>h_buffer := b, h_tail := t\<rparr>) \<and> length b = 128 \<and>
    unat t = (p + (m + n)) mod 128 \<and> ring b p (m + n) = ring (h_buffer h) p m @ take n (drop i cmd)"
  using assms
proof (induction n arbitrary: i m h)
  case 0
  then show ?case by (auto intro!: exI [of _ "h_buffer h"] exI [of _ "h_tail h"])
next
  case (Suc n)
  define h' where "h' = h\<lparr>h_buffer := (h_buffer h)[unat (h_tail h) := cmd ! i],
    h_tail := wrap (h_tail h + 1)\<rparr>"
  have i: "unat (of_nat i :: u32) = i"
    using Suc.prems by (intro unat_of_nat_u32) simp
  have t: "unat (h_tail h) < 128" using Suc.prems(2) by simp
  have step: "save_copy cmd i (Suc n) h = save_copy cmd (Suc i) n h'"
    using Suc.prems i t by (simp add: h'_def)
  have "unat (h_tail h') = (p + Suc m) mod 128"
    using t Suc.prems(2) by (simp add: h'_def unat_wrap_1 mod_simps)
  moreover have "length (h_buffer h') = 128" using Suc.prems(1) by (simp add: h'_def)
  ultimately obtain b t' where b: "save_copy cmd (Suc i) n h' = Some (h'\<lparr>h_buffer := b, h_tail := t'\<rparr>)"
      "length b = 128" "unat t' = (p + (Suc m + n)) mod 128"
      "ring b p (Suc m + n) = ring (h_buffer h') p (Suc m) @ take n (drop (Suc i) cmd)"
    using Suc.IH [of h' "Suc m" "Suc i"] Suc.prems by auto
  have "ring (h_buffer h') p (Suc m) = ring (h_buffer h) p m @ [cmd ! i]"
    using Suc.prems by (simp add: h'_def ring_append)
  moreover have "take (Suc n) (drop i cmd) = cmd ! i # take n (drop (Suc i) cmd)"
    using Suc.prems by (simp add: Cons_nth_drop_Suc [symmetric])
  ultimately show ?case using b step
    by (intro exI [of _ b] exI [of _ t']) (simp add: h'_def)
qed

text \<open>
  The abstract effect: nothing for an empty or over-long line, otherwise the oldest commands make
  room and the line becomes the newest one.
\<close>

definition save_spec :: "byte list list \<Rightarrow> byte list \<Rightarrow> byte list list" where
  "save_spec cs c = (if c = [] \<or> 126 < length c then cs else make_room (length c) cs @ [c])"

lemma save_refines:
  assumes rep: "hist_rep h cs" and n: "unat n \<le> length cmd" and len: "length cmd < 4294967296"
  shows "\<exists>h'. save h cmd n = Some h' \<and> hist_rep h' (save_spec cs (take (unat n) cmd)) \<and>
    (if n = 0 \<or> 126 < unat n then h' = h else h_index h' = 0)"
proof (cases "bufsize - 2 < ucast n \<or> n = 0")
  case True
  then have "unat n = 0 \<or> 126 < unat n"
    by (auto simp: bufsize_def word_less_nat_alt unat_sub_small)
  with True rep n show ?thesis by (auto simp: save_def save_spec_def unat_eq_zero)
next
  case False
  then have n_pos: "0 < unat n" by (simp add: unat_gt_0)
  from False have n126: "unat n \<le> 126"
    by (simp add: bufsize_def word_less_nat_alt)
  let ?room = "make_room (unat n) cs" and ?c = "take (unat n) cmd"
  obtain p where ff: "findfree (ucast n) h = Some (h\<lparr>h_head := p\<rparr>)"
      and at: "at_entries (h_buffer h) p ?room"
      and tl: "unat (h_tail h) = (unat p + length (enc ?room)) mod 128"
    using findfree_makes_room [OF hist_rep_at_entries [OF rep], of "ucast n"] rep
    by (auto simp: hist_rep_def)
  let ?E = "length (enc ?room)"
  have fits: "?E + Suc (unat n) < 128"
    using make_room_fits [OF n126, of cs] by simp
  have b128: "length (h_buffer h) = 128" and p128: "unat p < 128"
    and ring0: "ring (h_buffer h) (unat p) ?E = enc ?room"
    using at by (auto simp: at_entries_def ring_Suc)
  have t128: "unat (h_tail h) < 128" using tl by simp
  define b1 where "b1 = (if h_buffer h ! unat p = 0 then (h_buffer h)[unat p := n] else h_buffer h)"
  have b1: "length b1 = 128" "ring b1 (unat p) ?E = enc ?room"
  proof -
    show "length b1 = 128" using b128 by (simp add: b1_def)
    show "ring b1 (unat p) ?E = enc ?room"
    proof (cases ?room)
      case Nil
      then show ?thesis by (simp add: ring_def)
    next
      case (Cons c ds)
      then have "h_buffer h ! unat p \<noteq> 0"
        using at_entries_Cons(1,2) [of "h_buffer h" p c ds] at b128 p128 by simp
      with ring0 show ?thesis by (simp add: b1_def)
    qed
  qed
  define h2 where "h2 = h\<lparr>h_head := p, h_buffer := b1[unat (h_tail h) := n], h_tail := wrap (h_tail h + 1)\<rparr>"
  have h2: "length (h_buffer h2) = 128" "unat (h_tail h2) = (unat p + Suc ?E) mod 128"
    "ring (h_buffer h2) (unat p) (Suc ?E) = enc ?room @ [n]"
    using b1 t128 tl fits by (simp_all add: h2_def unat_wrap_1 mod_simps ring_append)
  obtain b t where cp: "save_copy cmd 0 (unat n) h2 = Some (h2\<lparr>h_buffer := b, h_tail := t\<rparr>)"
      "length b = 128" "unat t = (unat p + (Suc ?E + unat n)) mod 128"
      "ring b (unat p) (Suc ?E + unat n) = (enc ?room @ [n]) @ ?c"
    using save_copy_appends [OF h2(1,2), of "unat n" 0 cmd] h2(3) fits n len by auto
  define h3 where "h3 = h2\<lparr>h_buffer := b[unat t := 0], h_tail := t, h_index := 0\<rparr>"
  have "save h cmd n = Some h3"
    using False ff b128 p128 b1(1) t128 cp(1,2,3)
    by (simp add: save_def b1_def h2_def h3_def split: if_splits)
  moreover have "hist_rep h3 (?room @ [?c])"
  proof -
    have e: "enc (?room @ [?c]) = (enc ?room @ [n]) @ ?c"
      using n n126 by (simp add: min_absorb2)
    have "Suc ?E + unat n = length (enc (?room @ [?c]))" using n by simp
    moreover have "ring (b[unat t := 0]) (unat p) (Suc (Suc ?E + unat n)) = ring b (unat p) (Suc ?E + unat n) @ [0]"
      using cp(2,3) fits by (intro ring_append_at) simp_all
    moreover have "\<forall>c \<in> set ?room. 0 < length c"
      using at by (simp add: at_entries_def)
    ultimately show ?thesis
      using cp p128 n fits n_pos e by (auto simp: hist_rep_def h3_def h2_def)
  qed
  ultimately show ?thesis
    using n n_pos n126 by (auto simp: save_spec_def h3_def)
qed

section \<open>Recalling a command\<close>

lemma copy_loop_copies:
  assumes "length b = 128" "unat temp < 128" "i + n \<le> length dest" "length dest < 4294967296"
  shows "copy_loop b i n temp dest =
    Some (take i dest @ ring b (unat temp) n @ drop (i + n) dest)"
  using assms
proof (induction n arbitrary: i temp dest)
  case 0
  then show ?case by (simp add: ring_def)
next
  case (Suc n)
  let ?d = "dest[i := b ! unat temp]"
  have i: "unat (of_nat i :: u32) = i"
    using Suc.prems by (intro unat_of_nat_u32) simp
  have t: "unat (wrap (temp + 1)) = (unat temp + 1) mod 128"
    using Suc.prems(2) by (rule unat_wrap_1)
  then have "copy_loop b (Suc i) n (wrap (temp + 1)) ?d =
      Some (take (Suc i) ?d @ ring b (unat (wrap (temp + 1))) n @ drop (Suc i + n) ?d)"
    using Suc.prems by (intro Suc.IH) simp_all
  moreover have "take (Suc i) ?d = take i dest @ [b ! unat temp]"
    using Suc.prems by (simp add: take_Suc_conv_app_nth)
  moreover have "ring b (unat temp) (Suc n) = [b ! unat temp] @ ring b (unat (wrap (temp + 1))) n"
    using ring_add [of b "unat temp" 1 n] t Suc.prems(2) by (simp add: ring_def)
  ultimately show ?case using Suc.prems i by simp
qed

lemma copybuffer_entry:
  assumes "at_entries (h_buffer h) q (c # cs)" "length c \<le> length dest" "length dest < 4294967296"
  shows "copybuffer h dest q = Some (c @ drop (length c) dest, int (length c))"
proof -
  note e = at_entries_Cons [OF assms(1)]
  have *: "length (h_buffer h) = 128" "unat q < 128"
    using assms(1) by (auto simp: at_entries_def)
  have "ring (h_buffer h) (unat (wrap (q + 1))) (length c) = c"
    using ring_entry(2) [of "h_buffer h" "unat q" c cs] assms(1) * by (simp add: at_entries_def unat_wrap_1)
  moreover have "unat (wrap (q + 1)) < 128" using * by (simp add: unat_wrap_1)
  ultimately have "copy_loop (h_buffer h) 0 (length c) (wrap (q + 1)) dest
      = Some (c @ drop (length c) dest)"
    using copy_loop_copies [of "h_buffer h" "wrap (q + 1)" 0 "length c" dest] assms(2,3) * by simp
  then show ?thesis
    unfolding copybuffer_def e(1) by (simp only: bind.bind_lunit e(3)) (simp add: uint_nat e(3))
qed

lemma copybuffer_end:
  "at_entries (h_buffer h) q [] \<Longrightarrow> copybuffer h dest q = Some (dest, 0)"
  by (simp add: copybuffer_def at_entries_Nil)

text \<open>
  The abstract effect of the two directions on the list \<open>cs\<close> and the index \<open>k\<close>: the new index
  and what is shown: \<open>None\<close> leaves the line alone and returns -1.
\<close>

fun recall_spec :: "byte list list \<Rightarrow> nat \<Rightarrow> dir_t \<Rightarrow> nat \<times> byte list option" where
  "recall_spec cs k up = (if k < length cs then (k + 1, Some (cs ! (length cs - 1 - k))) else (k, None))"
| "recall_spec cs k down =
     (if k \<le> 1 then (0, Some []) else (k - 1, Some (cs ! (length cs + 1 - k))))"

lemma hist_rep_length: "hist_rep h cs \<Longrightarrow> length cs < 128"
  using length_cs_le_enc [of cs] by (simp add: hist_rep_def)

lemma find_header_walk:
  assumes "hist_rep h cs" "num - idx = of_nat k" "k < 4294967296"
  shows "\<exists>q. find_header h num idx = Some q \<and> at_entries (h_buffer h) q (drop k cs)"
  using find_loop_walk [OF hist_rep_at_entries [OF assms(1)], of num 0 idx k] assms(2,3)
  by (simp add: find_header_def)

lemma aget_at_entries_ge: "at_entries b q cs \<Longrightarrow> \<exists>v. aget b q = Some v \<and> (v = 0 \<longleftrightarrow> cs = [])"
  by (cases cs) (auto simp: at_entries_Nil at_entries_Cons dest: at_entries_Cons(2))

lemma u32_diff_of_nat:
  "n < 4294967296 \<Longrightarrow> k \<le> n \<Longrightarrow> (of_nat n - of_nat k :: u32) = of_nat (n - k)"
  by (simp add: of_nat_diff)

lemma recall_up:
  assumes rep: "hist_rep h cs" and len: "\<forall>c \<in> set cs. length c \<le> length dest" "length dest < 4294967296"
    and k: "k = unat (h_index h)"
  shows "\<exists>h' d n. recall h dest up = Some (h', d, n) \<and> hist_rep h' cs \<and>
    h_index h' = of_nat (fst (recall_spec cs k up)) \<and>
    (case snd (recall_spec cs k up) of None \<Rightarrow> d = dest \<and> n = -1
     | Some c \<Rightarrow> d = c @ drop (length c) dest \<and> n = int (length c))"
proof -
  let ?N = "length cs"
  have N: "?N < 128" using rep by (rule hist_rep_length)
  have kN: "k \<le> ?N" using rep k by (simp add: hist_rep_def)
  have idx: "h_index h = of_nat k" using k by simp
  show ?thesis
  proof (cases "k < ?N")
    case True
    have "(of_nat ?N - 1 - h_index h :: u32) = of_nat (?N - 1 - k)"
      using True by (simp add: idx of_nat_diff)
    then obtain q where q: "find_header h (of_nat ?N - 1) (h_index h) = Some q"
        "at_entries (h_buffer h) q (drop (?N - 1 - k) cs)"
      using find_header_walk [OF rep] N by fastforce
    have d: "drop (?N - 1 - k) cs = cs ! (?N - 1 - k) # drop (?N - k) cs"
      using True by (simp add: Cons_nth_drop_Suc [symmetric] Suc_diff_Suc)
    note e = at_entries_Cons [OF q(2) [unfolded d]]
    have "copybuffer h dest q = Some (cs ! (?N - 1 - k) @ drop (length (cs ! (?N - 1 - k))) dest,
        int (length (cs ! (?N - 1 - k))))"
      using True len by (intro copybuffer_entry [OF q(2) [unfolded d]]) simp_all
    moreover have "h_index h \<le> of_nat ?N"
      using kN N k by (simp add: word_le_nat_alt unat_of_nat_u32)
    moreover have "hist_rep (h\<lparr>h_index := h_index h + 1\<rparr>) cs"
      using rep True N k by (simp add: hist_rep_def unat_word_ariths)
    ultimately show ?thesis
      using True q(1) e(1,2) entries_count [OF rep] by (simp add: idx)
  next
    case False
    then have "k = ?N" using kN by simp
    then have "(of_nat ?N - 1 - h_index h :: u32) = of_nat 4294967295"
      by (simp add: idx)
    then obtain q where q: "find_header h (of_nat ?N - 1) (h_index h) = Some q"
        "at_entries (h_buffer h) q (drop 4294967295 cs)"
      using find_header_walk [OF rep, of _ _ 4294967295] by fastforce
    then have "aget (h_buffer h) q = Some 0" using N by (simp add: at_entries_Nil)
    with False q(1) entries_count [OF rep] rep show ?thesis by (simp add: idx)
  qed
qed

lemma recall_down:
  assumes rep: "hist_rep h cs" and len: "\<forall>c \<in> set cs. length c \<le> length dest" "length dest < 4294967296"
    and k: "k = unat (h_index h)"
  shows "\<exists>h' d n. recall h dest down = Some (h', d, n) \<and> hist_rep h' cs \<and>
    h_index h' = of_nat (fst (recall_spec cs k down)) \<and>
    (case snd (recall_spec cs k down) of None \<Rightarrow> d = dest \<and> n = -1
     | Some c \<Rightarrow> d = c @ drop (length c) dest \<and> n = int (length c))"
proof -
  let ?N = "length cs"
  have N: "?N < 128" using rep by (rule hist_rep_length)
  have kN: "k \<le> ?N" using rep k by (simp add: hist_rep_def)
  have idx: "h_index h = of_nat k" using k by simp
  have "(of_nat ?N + 1 - h_index h :: u32) = of_nat (?N + 1 - k)"
    using kN by (simp add: idx of_nat_diff)
  then obtain q where q: "find_header h (of_nat ?N + 1) (h_index h) = Some q"
      "at_entries (h_buffer h) q (drop (?N + 1 - k) cs)"
    using find_header_walk [OF rep] N by fastforce
  have pos: "0 < h_index h \<longleftrightarrow> 0 < k" using k by (simp add: word_less_nat_alt)
  have rep': "hist_rep (h\<lparr>h_index := h_index h - 1\<rparr>) cs" if "0 < k"
    using rep that k by (auto simp: hist_rep_def unat_sub_small word_le_nat_alt)
  consider "k = 0" | "k = 1" | "1 < k" by linarith
  then show ?thesis
  proof cases
    case 1
    then show ?thesis using q(1) entries_count [OF rep] rep pos by (simp add: idx)
  next
    case 2
    then have "copybuffer h dest q = Some (dest, 0)"
      using q(2) by (simp add: copybuffer_end)
    with 2 rep' q(1) entries_count [OF rep] show ?thesis by (simp add: idx)
  next
    case 3
    let ?c = "cs ! (?N + 1 - k)"
    have d: "drop (?N + 1 - k) cs = ?c # drop (?N + 2 - k) cs"
      using 3 kN by (simp add: Cons_nth_drop_Suc [symmetric] Suc_diff_le)
    have "?c \<in> set cs" using 3 kN by (intro nth_mem) linarith
    then have "copybuffer h dest q = Some (?c @ drop (length ?c) dest, int (length ?c))"
      using len by (intro copybuffer_entry [OF q(2) [unfolded d]]) simp_all
    moreover have "(h_index h - 1 :: u32) = of_nat (k - 1)" using 3 by (simp add: idx of_nat_diff)
    ultimately show ?thesis
      using 3 rep' q(1) entries_count [OF rep] pos by simp
  qed
qed

lemma recall_refines:
  assumes "hist_rep h cs" "\<forall>c \<in> set cs. length c \<le> length dest" "length dest < 4294967296"
  shows "\<exists>h' d n. recall h dest dir = Some (h', d, n) \<and> hist_rep h' cs \<and>
    h_index h' = of_nat (fst (recall_spec cs (unat (h_index h)) dir)) \<and>
    (case snd (recall_spec cs (unat (h_index h)) dir) of None \<Rightarrow> d = dest \<and> n = -1
     | Some c \<Rightarrow> d = c @ drop (length c) dest \<and> n = int (length c))"
  using recall_up [OF assms refl] recall_down [OF assms refl] by (cases dir) blast+

section \<open>The interface the command line uses\<close>

text \<open>
  What a client may rely on: \<open>rep h cs k\<close> says that \<open>h\<close> stores the commands \<open>cs\<close> with the
  user \<open>k\<close> steps back. \<open>sav\<close> stores a line, \<open>rec\<close> walks and returns the line to show.
  Capacity is not promised beyond the newest command.
\<close>

locale command_history =
  fixes rep :: "'h \<Rightarrow> byte list list \<Rightarrow> nat \<Rightarrow> bool"
    and sav :: "'h \<Rightarrow> byte list \<Rightarrow> 'h option"
    and rec :: "'h \<Rightarrow> dir_t \<Rightarrow> ('h \<times> byte list option) option"
    and room :: "nat"
  assumes sav_new: "rep h cs k \<Longrightarrow> 0 < length c \<Longrightarrow> length c \<le> room \<Longrightarrow>
      \<exists>h' ds. sav h c = Some h' \<and> rep h' (ds @ [c]) 0 \<and> set ds \<subseteq> set cs"
    and rec_up: "rep h cs k \<Longrightarrow> k < length cs \<Longrightarrow>
      \<exists>h'. rec h up = Some (h', Some (cs ! (length cs - 1 - k))) \<and> rep h' cs (Suc k)"
    and rec_top: "rep h cs k \<Longrightarrow> \<not> k < length cs \<Longrightarrow>
      \<exists>h'. rec h up = Some (h', None) \<and> rep h' cs k"
    and rec_down: "rep h cs k \<Longrightarrow> 1 < k \<Longrightarrow>
      \<exists>h'. rec h down = Some (h', Some (cs ! (length cs + 1 - k))) \<and> rep h' cs (k - 1)"
    and rec_bottom: "rep h cs k \<Longrightarrow> k \<le> 1 \<Longrightarrow>
      \<exists>h'. rec h down = Some (h', Some []) \<and> rep h' cs 0"
begin

lemma sav_then_up:
  assumes "rep h cs k" "0 < length c" "length c \<le> room"
  shows "\<exists>h1 h2. sav h c = Some h1 \<and> rec h1 up = Some (h2, Some c)"
proof -
  obtain h1 ds where s: "sav h c = Some h1" "rep h1 (ds @ [c]) 0"
    using sav_new [OF assms] by blast
  then have "0 < length (ds @ [c])" by simp
  from rec_up [OF s(2) this] obtain h2 where "rec h1 up = Some (h2, Some c)" by auto
  with s(1) show ?thesis by blast
qed

lemma up_then_down:
  assumes "rep h cs k" "0 < k" "k < length cs"
  shows "\<exists>h1 h2. rec h up = Some (h1, Some (cs ! (length cs - 1 - k))) \<and>
    rec h1 down = Some (h2, Some (cs ! (length cs - k))) \<and> rep h2 cs k"
proof -
  obtain h1 where u: "rec h up = Some (h1, Some (cs ! (length cs - 1 - k)))" "rep h1 cs (Suc k)"
    using rec_up assms by blast
  with assms(2) rec_down [OF u(2)] show ?thesis by auto
qed

text \<open>Walking all the way back shows every stored command, newest first, and stops there.\<close>

fun ups :: "nat \<Rightarrow> 'h \<Rightarrow> ('h \<times> byte list option list) option" where
  "ups 0 h = Some (h, [])"
| "ups (Suc n) h = do { (h, l) \<leftarrow> rec h up; (h, ls) \<leftarrow> ups n h; Some (h, l # ls) }"

lemma ups_walk:
  "rep h cs k \<Longrightarrow> k + n \<le> length cs \<Longrightarrow>
    \<exists>h'. ups n h = Some (h', map (\<lambda>i. Some (cs ! (length cs - 1 - (k + i)))) [0..<n]) \<and> rep h' cs (k + n)"
proof (induction n arbitrary: h k)
  case 0
  then show ?case by auto
next
  case (Suc n)
  then obtain h1 where "rec h up = Some (h1, Some (cs ! (length cs - 1 - k)))" "rep h1 cs (Suc k)"
    using rec_up by (metis add_lessD1 less_eq_Suc_le add_Suc_right)
  moreover from this Suc obtain h2 where
    "ups n h1 = Some (h2, map (\<lambda>i. Some (cs ! (length cs - 1 - (Suc k + i)))) [0..<n])"
    "rep h2 cs (Suc k + n)" by fastforce
  moreover have "map (\<lambda>i. Some (cs ! (length cs - 1 - (k + i)))) [0..<Suc n] =
      Some (cs ! (length cs - 1 - k)) # map (\<lambda>i. Some (cs ! (length cs - 1 - (Suc k + i)))) [0..<n]"
    by (simp add: upt_conv_Cons map_Suc_upt [symmetric] del: upt_Suc)
  ultimately show ?case by simp
qed

lemma ups_all:
  assumes "rep h cs 0"
  shows "\<exists>h'. ups (length cs) h = Some (h', map Some (rev cs))"
proof -
  have "map (\<lambda>i. Some (cs ! (length cs - 1 - (0 + i)))) [0..<length cs] = map Some (rev cs)"
    by (rule nth_equalityI) (simp_all add: rev_nth)
  with ups_walk [OF assms, of "length cs"] show ?thesis by fastforce
qed

end

text \<open>
  The ring provides the interface for lines of a fixed-size command buffer: 79 characters and the
  terminating zero of \<^verbatim>\<open>char cmdline[80]\<close>.
\<close>

definition line_rep :: "hist_t \<Rightarrow> byte list list \<Rightarrow> nat \<Rightarrow> bool" where
  "line_rep h cs k \<longleftrightarrow> hist_rep h cs \<and> unat (h_index h) = k \<and> (\<forall>c \<in> set cs. length c \<le> 79)"

definition line_save :: "hist_t \<Rightarrow> byte list \<Rightarrow> hist_t option" where
  "line_save h c = save h c (of_nat (length c))"

definition line_recall :: "hist_t \<Rightarrow> dir_t \<Rightarrow> (hist_t \<times> byte list option) option" where
  "line_recall h dir = do {
     (h, d, n) \<leftarrow> recall h (replicate 80 0) dir;
     Some (h, if n < 0 then None else Some (take (nat n) d))
   }"

lemma line_recall_spec:
  assumes "line_rep h cs k"
  shows "\<exists>h'. line_recall h dir = Some (h', snd (recall_spec cs k dir)) \<and>
    line_rep h' cs (fst (recall_spec cs k dir))"
proof -
  have N: "length cs < 128" and kN: "k \<le> length cs"
    using assms hist_rep_length by (auto simp: line_rep_def hist_rep_def)
  then have bound: "fst (recall_spec cs k dir) < 4294967296"
    by (cases dir) auto
  obtain h' d n where r: "recall h (replicate 80 0) dir = Some (h', d, n)" "hist_rep h' cs"
    "h_index h' = of_nat (fst (recall_spec cs k dir))"
    "case snd (recall_spec cs k dir) of None \<Rightarrow> d = replicate 80 0 \<and> n = -1
     | Some c \<Rightarrow> d = c @ drop (length c) (replicate 80 0) \<and> n = int (length c)"
    using recall_refines [of h cs "replicate 80 0" dir] assms by (fastforce simp: line_rep_def)
  then show ?thesis
    using assms bound by (auto simp: line_recall_def line_rep_def unat_of_nat_u32 split: option.splits)
qed

interpretation hist: command_history line_rep line_save line_recall 79
proof
  fix h cs k and c :: "byte list"
  assume *: "line_rep h cs k" "0 < length c" "length c \<le> 79"
  then have "unat (of_nat (length c) :: byte) = length c"
    by (intro unat_of_nat_byte) simp
  with * obtain h' where s: "save h c (of_nat (length c)) = Some h'" "hist_rep h' (save_spec cs c)"
      "h_index h' = 0"
    using save_refines [of h cs "of_nat (length c)" c] by (fastforce simp: line_rep_def split: if_splits)
  moreover have "save_spec cs c = make_room (length c) cs @ [c]"
    using * by (auto simp: save_spec_def)
    ultimately show "\<exists>h' ds. line_save h c = Some h' \<and> line_rep h' (ds @ [c]) 0 \<and> set ds \<subseteq> set cs"
    using * set_make_room by (fastforce simp: line_save_def line_rep_def)
qed (auto dest: line_recall_spec [where dir = up] line_recall_spec [where dir = down])

section \<open>Properties\<close>

text \<open>C24: saving a line in the 128-byte ring refines the list specification. For every ring that
  represents a list of commands the code terminates, stays inside the ring and drops exactly as
  many of the oldest commands as the new line needs.\<close>

theorem history_save_refines:
  assumes "hist_rep h cs" "unat n \<le> length cmd" "length cmd < 4294967296"
  shows "\<exists>h'. save h cmd n = Some h' \<and> hist_rep h' (save_spec cs (take (unat n) cmd))"
  using save_refines [OF assms] by blast

theorem history_save_refines_witness:
  "\<exists>h'. save hist_new [98, 116] 2 = Some h' \<and> hist_rep h' [[98, 116]]"
proof -
  have "hist_rep hist_new []" by (simp add: hist_rep_def hist_new_def ring_def)
  from history_save_refines [OF this, of 2 "[98, 116]"] show ?thesis
    by (simp add: save_spec_def)
qed

text \<open>C25: walking through the history refines the list specification in both directions: the
  entry shown, the new position, the copied bytes and the return value, including the answer -1
  at the oldest entry and 0 below the newest.\<close>

theorem history_recall_refines:
  assumes "hist_rep h cs" "\<forall>c \<in> set cs. length c \<le> length dest" "length dest < 4294967296"
  shows "\<exists>h' d n. recall h dest dir = Some (h', d, n) \<and> hist_rep h' cs \<and>
    h_index h' = of_nat (fst (recall_spec cs (unat (h_index h)) dir)) \<and>
    (case snd (recall_spec cs (unat (h_index h)) dir) of None \<Rightarrow> d = dest \<and> n = -1
     | Some c \<Rightarrow> d = c @ drop (length c) dest \<and> n = int (length c))"
  using assms by (rule recall_refines)

theorem history_recall_refines_witness:
  "\<exists>h h' d. save hist_new [98, 116] 2 = Some h \<and> recall h (replicate 80 0) up = Some (h', [98, 116] @ d, 2)"
proof -
  have "hist_rep hist_new []" by (simp add: hist_rep_def hist_new_def ring_def)
  from save_refines [OF this, of 2 "[98, 116]"] obtain h where
    h: "save hist_new [98, 116] 2 = Some h" "hist_rep h [[98, 116]]" "h_index h = 0"
    by (auto simp: save_spec_def)
  from history_recall_refines [OF h(2), of "replicate 80 0" up] h(1,3) show ?thesis by auto
qed

text \<open>C26: a line of 1 to 79 characters that has just been saved is what the next step back
  shows, whatever the ring held before.\<close>

theorem history_save_recall:
  assumes "line_rep h cs k" "0 < length c" "length c \<le> 79"
  shows "\<exists>h1 h2. line_save h c = Some h1 \<and> line_recall h1 up = Some (h2, Some c)"
  using assms by (rule hist.sav_then_up)

theorem history_save_recall_witness:
  "\<exists>h1 h2. line_save hist_new [104, 101] = Some h1 \<and> line_recall h1 up = Some (h2, Some [104, 101])"
proof -
  have "line_rep hist_new [] 0" by (simp add: line_rep_def hist_rep_def hist_new_def ring_def)
  from history_save_recall [OF this, of "[104, 101]"] show ?thesis by simp
qed

text \<open>The loops are executable.\<close>

declare findfree.simps [code]
  entries_loop.simps [code]
  find_loop.simps [code]

end
