(* ===== verification/Cmdline.thy ===== *)
theory Cmdline
  imports Hist
begin

text \<open>
  The command-line editor of \<^verbatim>\<open>code/cmdlinelib/cmdline.cpp\<close> and its cursor
  (\<^verbatim>\<open>cursor.hpp\<close>): the bytes received from a terminal drive a state machine for escape
  sequences and edit an 80-byte line in place. What the code prints is a trace of terminal events,
  what it hands to the command processor a list of executed lines.

  The second half states the editor a user expects, a line and a cursor position, and shows that
  the code implements it for every key but \<^verbatim>\<open>^T\<close> at the ends of the line.
\<close>

section \<open>The cursor\<close>

text \<open>The escape sequences and characters \<^verbatim>\<open>cursor.hpp\<close> prints.\<close>

datatype tty =
    TFwd byte      \<comment> \<open>ESC [ n C\<close>
  | TBack byte     \<comment> \<open>ESC [ n D\<close>
  | TErase         \<comment> \<open>ESC [ K\<close>
  | TSave          \<comment> \<open>ESC [ s\<close>
  | TRestore       \<comment> \<open>ESC [ u\<close>
  | TChar byte
  | TDump          \<comment> \<open>the history dump of PF1\<close>

record cursor_t =
  c_pos :: byte
  c_sav :: byte
  c_out :: "tty list"

definition cursor_new :: cursor_t where
  "cursor_new = \<lparr>c_pos = 0, c_sav = 0, c_out = []\<rparr>"

text \<open>\<^verbatim>\<open>sizeof(PROMPT) - 1\<close> for the prompt \<^verbatim>\<open>KS10> \<close>.\<close>

definition ps :: u32 where
  "ps = 6"

definition tty_put :: "tty \<Rightarrow> cursor_t \<Rightarrow> cursor_t" where
  "tty_put t c = c\<lparr>c_out := c_out c @ [t]\<rparr>"

definition cur_fwd :: "byte \<Rightarrow> cursor_t \<Rightarrow> cursor_t" where
  "cur_fwd n c = (if n \<noteq> 0 then tty_put (TFwd n) (c\<lparr>c_pos := c_pos c + n\<rparr>) else c)"

definition cur_back :: "byte \<Rightarrow> cursor_t \<Rightarrow> cursor_t" where
  "cur_back n c = (if n \<noteq> 0 then tty_put (TBack n) (c\<lparr>c_pos := c_pos c - n\<rparr>) else c)"

definition cur_move :: "byte \<Rightarrow> cursor_t \<Rightarrow> cursor_t" where
  "cur_move p c = (cur_fwd (ucast (ps + ucast p)) (cur_back 99 c))\<lparr>c_pos := p\<rparr>"

definition cur_eraseeol :: "cursor_t \<Rightarrow> cursor_t" where
  "cur_eraseeol c = tty_put TErase c"

definition cur_save :: "cursor_t \<Rightarrow> cursor_t" where
  "cur_save c = tty_put TSave (c\<lparr>c_sav := c_pos c\<rparr>)"

definition cur_restore :: "cursor_t \<Rightarrow> cursor_t" where
  "cur_restore c = tty_put TRestore (c\<lparr>c_pos := c_sav c\<rparr>)"

definition cur_putchar :: "byte \<Rightarrow> cursor_t \<Rightarrow> cursor_t" where
  "cur_putchar ch c =
     (let c = tty_put (TChar ch) c in
      if ch = 7 then c
      else if ch = 8 then c\<lparr>c_pos := c_pos c - 1\<rparr>
      else if ch = 10 then c\<lparr>c_pos := 0\<rparr>
      else c\<lparr>c_pos := c_pos c + 1\<rparr>)"

section \<open>The editor\<close>

datatype state_t =
  stateNONE | stateESC | stateESCBRK | statePFN | stateHOME | stateINS | stateEND | statePGUP | statePGDN

text \<open>
  \<open>cl_exec\<close> collects what \<^verbatim>\<open>taskExecute\<close> is given: the command processor may write to
  the buffer it receives, but the caller clears that buffer afterwards.
\<close>

record cmdline_t =
  cl_state :: state_t
  cl_line :: "byte list"
  cl_len :: u32
  cl_cur :: cursor_t
  cl_hist :: hist_t
  cl_exec :: "byte list list"

abbreviation cl_pos :: "cmdline_t \<Rightarrow> byte" where
  "cl_pos s \<equiv> c_pos (cl_cur s)"

definition on_cursor :: "(cursor_t \<Rightarrow> cursor_t) \<Rightarrow> cmdline_t \<Rightarrow> cmdline_t" where
  "on_cursor f s = s\<lparr>cl_cur := f (cl_cur s)\<rparr>"

text \<open>The line \<^verbatim>\<open>ds unit=2;bt 1\<close> with which the constructor fills the history.\<close>

definition boot_cmd :: "byte list" where
  "boot_cmd = [100, 115, 32, 117, 110, 105, 116, 61, 50, 59, 98, 116, 32, 49]"

definition cmdline_new :: "cmdline_t option" where
  "cmdline_new = do {
     h \<leftarrow> save hist_new (boot_cmd @ [0]) 14;
     Some \<lparr>cl_state = stateNONE, cl_line = replicate 80 0, cl_len = 0, cl_cur = cursor_new,
           cl_hist = h, cl_exec = []\<rparr> }"

partial_function (option) update_loop :: "byte list \<Rightarrow> u32 \<Rightarrow> byte \<Rightarrow> cursor_t \<Rightarrow> cursor_t option" where
  "update_loop line len i c =
     (if ucast i < len then do {
        ch \<leftarrow> aget line (ucast i);
        update_loop line len (i + 1) (cur_putchar ch c) }
      else Some c)"

definition update :: "cmdline_t \<Rightarrow> cmdline_t option" where
  "update s = do {
     let c = cur_eraseeol (cur_save (cl_cur s));
     c \<leftarrow> update_loop (cl_line s) (cl_len s) (c_pos c) c;
     Some (s\<lparr>cl_cur := cur_restore c\<rparr>) }"

definition get_hist :: "dir_t \<Rightarrow> cmdline_t \<Rightarrow> cmdline_t option" where
  "get_hist dir s = do {
     (h, line, len) \<leftarrow> recall (cl_hist s) (cl_line s) dir;
     let s = s\<lparr>cl_hist := h, cl_line := line\<rparr>;
     if 0 \<le> len then do {
       let s = on_cursor (cur_move 0) (s\<lparr>cl_len := of_int len\<rparr>);
       s \<leftarrow> update s;
       Some (on_cursor (cur_fwd (ucast (cl_len s))) s) }
     else Some s }"

definition inschar :: "byte \<Rightarrow> cmdline_t \<Rightarrow> cmdline_t option" where
  "inschar ch s =
     (if cl_len s < 80 - 1 then do {
        let curpos = (ucast (cl_pos s) :: u32);
        line \<leftarrow> amove (cl_line s) (curpos + 1) curpos (cl_len s - curpos);
        line \<leftarrow> aput line curpos ch;
        let s = on_cursor (cur_putchar ch) (s\<lparr>cl_line := line\<rparr>);
        let s = s\<lparr>cl_len := cl_len s + 1\<rparr>;
        if curpos \<noteq> cl_len s then update s else Some s }
      else Some s)"

definition delchar :: "cmdline_t \<Rightarrow> cmdline_t option" where
  "delchar s =
     (let curpos = (ucast (cl_pos s) :: u32) in
      if curpos \<noteq> cl_len s then do {
        line \<leftarrow> amove (cl_line s) curpos (curpos + 1) (cl_len s - curpos - 1);
        let s = s\<lparr>cl_len := cl_len s - 1\<rparr>;
        line \<leftarrow> aput line (cl_len s) 0;
        update (s\<lparr>cl_line := line\<rparr>) }
      else Some s)"

definition backspace :: "cmdline_t \<Rightarrow> cmdline_t option" where
  "backspace s =
     (let curpos = (ucast (cl_pos s) :: u32) in
      if 0 < curpos then do {
        line \<leftarrow> amove (cl_line s) (curpos - 1) curpos (cl_len s - curpos + 1);
        let s = s\<lparr>cl_len := cl_len s - 1\<rparr>;
        line \<leftarrow> aput line (cl_len s) 0;
        update (on_cursor (cur_back 1) (s\<lparr>cl_line := line\<rparr>)) }
      else Some s)"

definition transpose :: "cmdline_t \<Rightarrow> cmdline_t option" where
  "transpose s = do {
     let curpos = (ucast (cl_pos s) :: u32);
     temp \<leftarrow> aget (cl_line s) curpos;
     prev \<leftarrow> aget (cl_line s) (curpos - 1);
     line \<leftarrow> aput (cl_line s) curpos prev;
     line \<leftarrow> aput line (curpos - 1) temp;
     s \<leftarrow> update (on_cursor (cur_back 1) (s\<lparr>cl_line := line\<rparr>));
     Some (on_cursor (cur_fwd 1) s) }"

definition newline :: "cmdline_t \<Rightarrow> cmdline_t option" where
  "newline s = do {
     h \<leftarrow> save (cl_hist s) (cl_line s) (ucast (cl_len s));
     line \<leftarrow> aput (cl_line s) (cl_len s) 0;
     let s = on_cursor (cur_putchar 10) (s\<lparr>cl_hist := h, cl_line := line\<rparr>);
     let s = s\<lparr>cl_len := 0, cl_exec := cl_exec s @ [takeWhile (\<lambda>c. c \<noteq> 0) (cl_line s)]\<rparr>;
     Some (s\<lparr>cl_line := replicate 80 0\<rparr>) }"

definition isprint :: "byte \<Rightarrow> bool" where
  "isprint ch \<longleftrightarrow> 32 \<le> ch \<and> ch < 127"

definition cur_left :: "cmdline_t \<Rightarrow> cmdline_t" where
  "cur_left s = (if 0 < cl_pos s then on_cursor (cur_back 1) s else s)"

definition cur_right :: "cmdline_t \<Rightarrow> cmdline_t" where
  "cur_right s = (if ucast (cl_pos s) < cl_len s then on_cursor (cur_fwd 1) s else s)"

definition process_NONE :: "byte \<Rightarrow> cmdline_t \<Rightarrow> cmdline_t option" where
  "process_NONE ch s =
     (if ch = 0x0d then newline s
      else if ch = 0x0a then Some s
      else if ch = 0x01 then Some (on_cursor (cur_move 0) s)
      else if ch = 0x02 then Some (cur_left s)
      else if ch = 0x04 \<or> ch = 0x7f then delchar s
      else if ch = 0x05 then Some (on_cursor (cur_move (ucast (cl_len s))) s)
      else if ch = 0x06 then Some (cur_right s)
      else if ch = 0x07 then Some (on_cursor (tty_put (TChar ch)) s)
      else if ch = 0x0b then
        (let s = on_cursor cur_eraseeol s in Some (s\<lparr>cl_len := ucast (cl_pos s)\<rparr>))
      else if ch = 0x0c then do {
        s \<leftarrow> update (on_cursor (cur_move 0) s);
        Some (on_cursor (cur_fwd (ucast (cl_len s))) s) }
      else if ch = 0x0e then get_hist down s
      else if ch = 0x10 then get_hist up s
      else if ch = 0x14 then transpose s
      else if ch = 0x15 then Some ((on_cursor (cur_eraseeol \<circ> cur_move 0) s)\<lparr>cl_len := 0\<rparr>)
      else if ch = 0x1b then Some (s\<lparr>cl_state := stateESC\<rparr>)
      else if ch = 0x03 \<or> ch = 0x08 then backspace s
      else if isprint ch then inschar ch s
      else Some s)"

definition process_ESC :: "byte \<Rightarrow> cmdline_t \<Rightarrow> cmdline_t option" where
  "process_ESC ch s =
     (if ch = 0x5b then Some (s\<lparr>cl_state := stateESCBRK\<rparr>)
      else if ch = 0x4f then Some (s\<lparr>cl_state := statePFN\<rparr>)
      else Some (s\<lparr>cl_state := stateNONE\<rparr>))"

definition to_none :: "cmdline_t \<Rightarrow> cmdline_t" where
  "to_none s = s\<lparr>cl_state := stateNONE\<rparr>"

definition process_ESCBRK :: "byte \<Rightarrow> cmdline_t \<Rightarrow> cmdline_t option" where
  "process_ESCBRK ch s =
     (if ch = 0x41 then map_option to_none (get_hist up s)
      else if ch = 0x42 then map_option to_none (get_hist down s)
      else if ch = 0x43 then Some (to_none (cur_right s))
      else if ch = 0x44 then Some (to_none (cur_left s))
      else if ch = 0x31 then Some (s\<lparr>cl_state := stateHOME\<rparr>)
      else if ch = 0x32 then Some (s\<lparr>cl_state := stateINS\<rparr>)
      else if ch = 0x34 then Some (s\<lparr>cl_state := stateEND\<rparr>)
      else if ch = 0x35 then Some (s\<lparr>cl_state := statePGUP\<rparr>)
      else if ch = 0x36 then Some (s\<lparr>cl_state := statePGDN\<rparr>)
      else Some (to_none s))"

definition process_PFN :: "byte \<Rightarrow> cmdline_t \<Rightarrow> cmdline_t option" where
  "process_PFN ch s = Some (to_none (if ch = 0x50 then on_cursor (tty_put TDump) s else s))"

definition process :: "u32 \<Rightarrow> cmdline_t \<Rightarrow> cmdline_t option" where
  "process inp s =
     (let ch = (ucast (inp AND 0xff) :: byte) in
      case cl_state s of
        stateNONE \<Rightarrow> process_NONE ch s
      | stateESC \<Rightarrow> process_ESC ch s
      | stateESCBRK \<Rightarrow> process_ESCBRK ch s
      | statePFN \<Rightarrow> process_PFN ch s
      | stateHOME \<Rightarrow> Some (to_none (if ch = 0x7e then on_cursor (cur_move 0) s else s))
      | stateINS \<Rightarrow> Some (to_none s)
      | stateEND \<Rightarrow> Some (to_none (if ch = 0x7e then on_cursor (cur_move (ucast (cl_len s))) s else s))
      | statePGUP \<Rightarrow> Some (to_none s)
      | statePGDN \<Rightarrow> Some (to_none s))"

fun process_all :: "u32 list \<Rightarrow> cmdline_t \<Rightarrow> cmdline_t option" where
  "process_all [] s = Some s"
| "process_all (k # ks) s = do { s \<leftarrow> process k s; process_all ks s }"

section \<open>The editor a user expects\<close>

text \<open>
  A line of printable characters, a cursor position between two of them, the commands stored so
  far with the number of steps walked back, and the commands executed.
\<close>

record editor =
  ed_state :: state_t
  ed_line :: "byte list"
  ed_pos :: nat
  ed_cmds :: "byte list list"
  ed_back :: nat
  ed_done :: "byte list list"

definition ed_insert :: "byte \<Rightarrow> editor \<Rightarrow> editor" where
  "ed_insert ch e =
     (if length (ed_line e) < 79
      then e\<lparr>ed_line := take (ed_pos e) (ed_line e) @ ch # drop (ed_pos e) (ed_line e),
             ed_pos := ed_pos e + 1\<rparr>
      else e)"

definition ed_delete :: "nat \<Rightarrow> editor \<Rightarrow> editor" where
  "ed_delete i e = e\<lparr>ed_line := take i (ed_line e) @ drop (Suc i) (ed_line e)\<rparr>"

definition ed_backspace :: "editor \<Rightarrow> editor" where
  "ed_backspace e = (if 0 < ed_pos e then (ed_delete (ed_pos e - 1) e)\<lparr>ed_pos := ed_pos e - 1\<rparr> else e)"

definition ed_transpose :: "editor \<Rightarrow> editor" where
  "ed_transpose e =
     e\<lparr>ed_line := (ed_line e)[ed_pos e := ed_line e ! (ed_pos e - 1), ed_pos e - 1 := ed_line e ! ed_pos e]\<rparr>"

definition ed_recall :: "dir_t \<Rightarrow> editor \<Rightarrow> editor" where
  "ed_recall dir e =
     (case recall_spec (ed_cmds e) (ed_back e) dir of
        (k, None) \<Rightarrow> e\<lparr>ed_back := k\<rparr>
      | (k, Some c) \<Rightarrow> e\<lparr>ed_back := k, ed_line := c, ed_pos := length c\<rparr>)"

text \<open>
  Return executes the line as it was typed: the comment of \<^verbatim>\<open>newline()\<close> speaks of a conversion to upper case, of which the
  code has nothing.
\<close>

definition ed_enter :: "editor \<Rightarrow> editor" where
  "ed_enter e =
     e\<lparr>ed_cmds := save_spec (ed_cmds e) (ed_line e),
       ed_back := (if ed_line e = [] then ed_back e else 0),
       ed_done := ed_done e @ [ed_line e], ed_line := [], ed_pos := 0\<rparr>"

definition ed_left :: "editor \<Rightarrow> editor" where
  "ed_left e = e\<lparr>ed_pos := ed_pos e - 1\<rparr>"

definition ed_right :: "editor \<Rightarrow> editor" where
  "ed_right e = e\<lparr>ed_pos := min (ed_pos e + 1) (length (ed_line e))\<rparr>"

definition ed_home :: "editor \<Rightarrow> editor" where
  "ed_home e = e\<lparr>ed_pos := 0\<rparr>"

definition ed_end :: "editor \<Rightarrow> editor" where
  "ed_end e = e\<lparr>ed_pos := length (ed_line e)\<rparr>"

definition ed_key_NONE :: "byte \<Rightarrow> editor \<Rightarrow> editor" where
  "ed_key_NONE ch e =
     (if ch = 0x0d then ed_enter e
      else if ch = 0x01 then ed_home e
      else if ch = 0x02 then ed_left e
      else if ch = 0x04 \<or> ch = 0x7f then ed_delete (ed_pos e) e
      else if ch = 0x05 \<or> ch = 0x0c then ed_end e
      else if ch = 0x06 then ed_right e
      else if ch = 0x0b then e\<lparr>ed_line := take (ed_pos e) (ed_line e)\<rparr>
      else if ch = 0x0e then ed_recall down e
      else if ch = 0x10 then ed_recall up e
      else if ch = 0x14 then ed_transpose e
      else if ch = 0x15 then e\<lparr>ed_line := [], ed_pos := 0\<rparr>
      else if ch = 0x1b then e\<lparr>ed_state := stateESC\<rparr>
      else if ch = 0x03 \<or> ch = 0x08 then ed_backspace e
      else if isprint ch then ed_insert ch e
      else e)"

text \<open>The state the escape sequence decoder moves to, and what the last byte of a sequence does.\<close>

fun esc_next :: "state_t \<Rightarrow> byte \<Rightarrow> state_t" where
  "esc_next stateESC ch = (if ch = 0x5b then stateESCBRK else if ch = 0x4f then statePFN else stateNONE)"
| "esc_next stateESCBRK ch =
     (if ch = 0x31 then stateHOME else if ch = 0x32 then stateINS else if ch = 0x34 then stateEND
      else if ch = 0x35 then statePGUP else if ch = 0x36 then statePGDN else stateNONE)"
| "esc_next _ ch = stateNONE"

fun esc_action :: "state_t \<Rightarrow> byte \<Rightarrow> editor \<Rightarrow> editor" where
  "esc_action stateESCBRK ch e =
     (if ch = 0x41 then ed_recall up e else if ch = 0x42 then ed_recall down e
      else if ch = 0x43 then ed_right e else if ch = 0x44 then ed_left e else e)"
| "esc_action stateHOME ch e = (if ch = 0x7e then ed_home e else e)"
| "esc_action stateEND ch e = (if ch = 0x7e then ed_end e else e)"
| "esc_action _ ch e = e"

definition ed_key :: "byte \<Rightarrow> editor \<Rightarrow> editor" where
  "ed_key ch e =
     (if ed_state e = stateNONE then ed_key_NONE ch e
      else (esc_action (ed_state e) ch e)\<lparr>ed_state := esc_next (ed_state e) ch\<rparr>)"

text \<open>The code's state implements an editor state.\<close>

definition ed_rep :: "cmdline_t \<Rightarrow> editor \<Rightarrow> bool" where
  "ed_rep s e \<longleftrightarrow>
     cl_state s = ed_state e \<and> cl_exec s = ed_done e \<and>
     length (cl_line s) = 80 \<and> length (ed_line e) \<le> 79 \<and> unat (cl_len s) = length (ed_line e) \<and>
     take (length (ed_line e)) (cl_line s) = ed_line e \<and>
     unat (cl_pos s) = ed_pos e \<and> ed_pos e \<le> length (ed_line e) \<and>
     list_all isprint (ed_line e) \<and>
     hist_rep (cl_hist s) (ed_cmds e) \<and> unat (h_index (cl_hist s)) = ed_back e \<and>
     (\<forall>c \<in> set (ed_cmds e). length c \<le> 79 \<and> list_all isprint c)"

section \<open>Cursor and redraw\<close>

lemmas cursor_defs = cur_fwd_def cur_back_def cur_move_def cur_eraseeol_def cur_save_def
  cur_restore_def cur_putchar_def tty_put_def

lemma on_cursor_sel [simp, frame_simps]:
  "cl_state (on_cursor f s) = cl_state s" "cl_line (on_cursor f s) = cl_line s"
  "cl_len (on_cursor f s) = cl_len s" "cl_hist (on_cursor f s) = cl_hist s"
  "cl_exec (on_cursor f s) = cl_exec s" "cl_cur (on_cursor f s) = f (cl_cur s)"
  by (simp_all add: on_cursor_def)

lemma c_pos_cursor [simp]:
  "c_pos (cur_fwd n c) = c_pos c + n" "c_pos (cur_back n c) = c_pos c - n"
  "c_pos (cur_move p c) = p" "c_pos (cur_eraseeol c) = c_pos c" "c_pos (cur_save c) = c_pos c"
  "c_pos (cur_restore c) = c_sav c" "c_pos (tty_put t c) = c_pos c"
  "c_sav (cur_save c) = c_pos c" "c_sav (cur_eraseeol c) = c_sav c" "c_sav (cur_putchar ch c) = c_sav c"
  by (auto simp: cursor_defs Let_def)

lemma c_pos_putchar: "isprint ch \<Longrightarrow> c_pos (cur_putchar ch c) = c_pos c + 1"
  by (auto simp: cur_putchar_def tty_put_def isprint_def Let_def)

lemma unat_Suc_byte: "unat (i :: byte) < 255 \<Longrightarrow> unat (i + 1) = Suc (unat i)"
  by (simp add: unat_add_small)

lemma update_loop_ends:
  "unat len \<le> length line \<Longrightarrow> unat len < 256 \<Longrightarrow>
    \<exists>c'. update_loop line len i c = Some c' \<and> c_sav c' = c_sav c"
proof (induction "unat len - unat i" arbitrary: i c)
  case 0
  then have "\<not> ucast i < len" by (simp add: word_less_nat_alt)
  then show ?case by (simp add: update_loop.simps)
next
  case (Suc n)
  then have i: "ucast i < len" "unat i < unat len" "unat i < 255" by (simp_all add: word_less_nat_alt)
  then have "n = unat len - unat (i + 1)" using Suc.hyps(2) by (simp add: unat_Suc_byte)
  from Suc.hyps(1) [OF this Suc.prems, of "cur_putchar (line ! unat i) c"] i Suc.prems
  show ?case by (simp add: update_loop.simps [of line len i])
qed

lemma update_redraws:
  "unat (cl_len s) \<le> length (cl_line s) \<Longrightarrow> unat (cl_len s) < 256 \<Longrightarrow>
    \<exists>c. update s = Some (s\<lparr>cl_cur := c\<rparr>) \<and> c_pos c = cl_pos s"
  using update_loop_ends [of "cl_len s" "cl_line s" "cl_pos s" "cur_eraseeol (cur_save (cl_cur s))"]
  by (auto simp: update_def)

lemma ed_rep_update:
  assumes "ed_rep s e"
  shows "\<exists>s'. update s = Some s' \<and> ed_rep s' e \<and> cl_len s' = cl_len s \<and> cl_pos s' = cl_pos s"
proof -
  have "unat (cl_len s) \<le> length (cl_line s)" "unat (cl_len s) < 256"
    using assms by (auto simp: ed_rep_def)
  from update_redraws [OF this] assms show ?thesis by (auto simp: ed_rep_def)
qed

section \<open>Each operation implements its editor step\<close>

lemma ed_rep_bounds:
  assumes "ed_rep s e"
  shows "unat (cl_len s) \<le> 79" "unat (cl_pos s) \<le> unat (cl_len s)" "length (cl_line s) = 80"
    "unat (ucast (cl_pos s) :: u32) = ed_pos e"
  using assms by (auto simp: ed_rep_def)

lemma ed_rep_take:
  assumes "ed_rep s e" "k \<le> length (ed_line e)"
  shows "take k (cl_line s) = take k (ed_line e)"
proof -
  have "take k (take (length (ed_line e)) (cl_line s)) = take k (ed_line e)"
    using assms(1) by (simp add: ed_rep_def del: take_take)
  with assms(2) show ?thesis by (simp add: min_absorb1)
qed

lemma list_all_take_drop [simp]:
  "list_all P xs \<Longrightarrow> list_all P (take n xs)" "list_all P xs \<Longrightarrow> list_all P (drop n xs)"
  by (auto simp: list_all_iff dest: in_set_takeD in_set_dropD)

text \<open>Opening and closing a one-character gap in the array.\<close>

lemma amove_open_gap:
  assumes "unat p \<le> unat n" "unat n < length a" "unat n < 4294967295"
  shows "\<exists>b. amove a (p + 1) p (n - p) = Some b \<and> length b = length a \<and>
    take (unat n + 1) (b[unat p := v]) = take (unat p) a @ v # drop (unat p) (take (unat n) a)"
proof -
  have p1: "unat (p + 1) = unat p + 1" using assms by (simp add: unat_add_small)
  have np: "unat (n - p) = unat n - unat p" using assms by (simp add: unat_sub_small word_le_nat_alt)
  let ?b = "take (unat p + 1) a @ take (unat n - unat p) (drop (unat p) a) @ drop (unat n + 1) a"
  have "amove a (p + 1) p (n - p) = Some ?b"
    using assms p1 np by (simp add: amove_def)
  moreover have "take (unat n + 1) (?b[unat p := v]) =
      take (unat p) a @ v # drop (unat p) (take (unat n) a)"
    using assms by (intro nth_equalityI) (auto simp: nth_append nth_list_update nth_Cons')
  ultimately show ?thesis using assms by auto
qed

lemma amove_close_gap:
  assumes "unat p < unat n" "unat n < length a"
  shows "\<exists>b. amove a p (p + 1) (n - p - 1) = Some b \<and> length b = length a \<and>
    take (unat n - 1) (b[unat n - 1 := v]) = take (unat p) a @ drop (Suc (unat p)) (take (unat n) a)"
proof -
  have p1: "unat (p + 1) = unat p + 1"
  proof -
    have "unat p + 1 < 4294967296" using assms(1) unat_u32_lt [of n] by linarith
    then show ?thesis by (simp add: unat_add_small)
  qed
  have np: "unat (n - p - 1) = unat n - unat p - 1"
  proof -
    have "unat (n - p) = unat n - unat p" using assms by (simp add: unat_sub_small word_le_nat_alt)
    then show ?thesis using assms by (subst unat_sub_small) (auto simp: word_le_nat_alt)
  qed
  let ?b = "take (unat p) a @ take (unat n - unat p - 1) (drop (unat p + 1) a) @ drop (unat n - 1) a"
  have "amove a p (p + 1) (n - p - 1) = Some ?b"
    using assms p1 np by (simp add: amove_def)
  moreover have "take (unat n - 1) (?b[unat n - 1 := v]) =
      take (unat p) a @ drop (Suc (unat p)) (take (unat n) a)"
    using assms by (intro nth_equalityI) (auto simp: nth_append nth_list_update)
  ultimately show ?thesis using assms by auto
qed

lemma inschar_ok:
  assumes rep: "ed_rep s e" and ch: "isprint ch"
  shows "\<exists>s'. inschar ch s = Some s' \<and> ed_rep s' (ed_insert ch e)"
proof (cases "length (ed_line e) < 79")
  case False
  then have "\<not> cl_len s < 79" using rep by (auto simp: ed_rep_def word_less_nat_alt)
  with False rep show ?thesis by (simp add: inschar_def ed_insert_def)
next
  case True
  let ?p = "ucast (cl_pos s) :: u32"
  have less: "cl_len s < 79" using rep True by (simp add: ed_rep_def word_less_nat_alt)
  note b = ed_rep_bounds [OF rep]
  have p: "unat ?p = ed_pos e" and n: "unat (cl_len s) = length (ed_line e)"
    and pn: "ed_pos e \<le> length (ed_line e)" and l: "length (cl_line s) = 80"
    using rep by (auto simp: ed_rep_def)
  obtain a where a: "amove (cl_line s) (?p + 1) ?p (cl_len s - ?p) = Some a" "length a = 80"
    "take (length (ed_line e) + 1) (a[ed_pos e := ch]) =
      take (ed_pos e) (ed_line e) @ ch # drop (ed_pos e) (ed_line e)"
    using amove_open_gap [of ?p "cl_len s" "cl_line s" ch] p n pn l True
      ed_rep_take [OF rep pn] ed_rep_take [OF rep order_refl] by auto
  define s1 where "s1 = (on_cursor (cur_putchar ch) (s\<lparr>cl_line := a[ed_pos e := ch]\<rparr>))\<lparr>cl_len := cl_len s + 1\<rparr>"
  have n1: "unat (cl_len s + 1) = length (ed_line e) + 1"
    using True n by (simp add: unat_add_small)
  have pos1: "unat (cl_pos s + 1) = ed_pos e + 1"
    using rep True by (subst unat_Suc_byte) (auto simp: ed_rep_def)
  have rep1: "ed_rep s1 (ed_insert ch e)"
    using rep True a ch n1 pos1
    by (auto simp: ed_rep_def s1_def ed_insert_def c_pos_putchar)
  have "?p \<noteq> cl_len s1"
  proof
    assume "?p = cl_len s1"
    then have "unat ?p = unat (cl_len s + 1)" by (simp add: s1_def)
    with p n1 pn show False by simp
  qed
  then have "inschar ch s = update s1"
    using less a p True pn by (simp add: inschar_def s1_def Let_def)
  with ed_rep_update [OF rep1] show ?thesis by auto
qed

lemma delchar_ok:
  assumes rep: "ed_rep s e"
  shows "\<exists>s'. delchar s = Some s' \<and> ed_rep s' (ed_delete (ed_pos e) e)"
proof (cases "ed_pos e = length (ed_line e)")
  case True
  then have "ucast (cl_pos s) = cl_len s"
    using rep by (auto simp: ed_rep_def word_unat_eq_iff)
  with True rep show ?thesis by (simp add: delchar_def ed_delete_def)
next
  case False
  let ?p = "ucast (cl_pos s) :: u32"
  have p: "unat ?p = ed_pos e" and n: "unat (cl_len s) = length (ed_line e)"
    and pn: "ed_pos e < length (ed_line e)" and l: "length (cl_line s) = 80"
    using rep False by (auto simp: ed_rep_def)
  have n1: "unat (cl_len s - 1) = length (ed_line e) - 1"
    using n pn by (subst unat_sub_small) (auto simp: word_le_nat_alt)
  obtain a where a: "amove (cl_line s) ?p (?p + 1) (cl_len s - ?p - 1) = Some a" "length a = 80"
    "take (length (ed_line e) - 1) (a[length (ed_line e) - 1 := 0]) =
      take (ed_pos e) (ed_line e) @ drop (Suc (ed_pos e)) (ed_line e)"
    using amove_close_gap [of ?p "cl_len s" "cl_line s" 0] p n pn l ed_rep_bounds(1) [OF rep]
      ed_rep_take [OF rep less_imp_le [OF pn]] ed_rep_take [OF rep order_refl] by auto
  define s1 where "s1 = s\<lparr>cl_len := cl_len s - 1, cl_line := a[length (ed_line e) - 1 := 0]\<rparr>"
  have "ed_rep s1 (ed_delete (ed_pos e) e)"
    using rep pn a n1
    by (auto simp: ed_rep_def s1_def ed_delete_def)
  moreover have "?p \<noteq> cl_len s" using p n pn by (metis less_irrefl)
  then have "delchar s = update s1"
    using a n1 n ed_rep_bounds(1) [OF rep] by (simp add: delchar_def s1_def Let_def)
  ultimately show ?thesis using ed_rep_update by fastforce
qed

lemma amove_shift_left:
  assumes "0 < unat p" "unat p \<le> unat n" "unat n < length a" "unat n < 4294967295"
  shows "\<exists>b. amove a (p - 1) p (n - p + 1) = Some b \<and> length b = length a \<and>
    take (unat n - 1) (b[unat n - 1 := v]) = take (unat p - 1) a @ drop (unat p) (take (unat n) a)"
proof -
  have q: "unat (p - 1) = unat p - 1"
    using assms by (subst unat_sub_small) (auto simp: word_le_nat_alt)
  have cnt: "unat (n - p + 1) = unat n - unat p + 1"
    using assms by (subst unat_add_small) (auto simp: unat_sub_small word_le_nat_alt)
  let ?b = "take (unat p - 1) a @ take (unat n - unat p + 1) (drop (unat p) a) @ drop (unat n) a"
  have "unat p - 1 + (unat n - unat p + 1) = unat n" "unat p + (unat n - unat p + 1) \<le> length a"
    using assms by auto
  then have "amove a (p - 1) p (n - p + 1) = Some ?b"
    using assms q cnt by (simp add: amove_def)
  moreover have "take (unat n - 1) (?b[unat n - 1 := v]) =
      take (unat p - 1) a @ drop (unat p) (take (unat n) a)"
    using assms by (intro nth_equalityI) (auto simp: nth_append nth_list_update)
  ultimately show ?thesis using assms by auto
qed

lemma backspace_ok:
  assumes rep: "ed_rep s e"
  shows "\<exists>s'. backspace s = Some s' \<and> ed_rep s' (ed_backspace e)"
proof (cases "ed_pos e = 0")
  case True
  then have "cl_pos s = 0" using rep by (simp add: ed_rep_def unat_eq_zero)
  with True rep show ?thesis by (simp add: backspace_def ed_backspace_def)
next
  case False
  let ?p = "ucast (cl_pos s) :: u32" and ?n = "length (ed_line e)"
  have p: "unat ?p = ed_pos e" and n: "unat (cl_len s) = ?n" and pn: "ed_pos e \<le> ?n"
    and l: "length (cl_line s) = 80" and n79: "?n \<le> 79"
    using rep by (auto simp: ed_rep_def)
  have n1: "unat (cl_len s - 1) = ?n - 1"
    using n pn False by (subst unat_sub_small) (auto simp: word_le_nat_alt)
  have pos1: "unat (cl_pos s - 1) = ed_pos e - 1"
    using rep False by (subst unat_sub_small) (auto simp: ed_rep_def word_le_nat_alt)
  obtain a where a: "amove (cl_line s) (?p - 1) ?p (cl_len s - ?p + 1) = Some a" "length a = 80"
    "take (?n - 1) (a[?n - 1 := 0]) = take (ed_pos e - 1) (ed_line e) @ drop (ed_pos e) (ed_line e)"
    using amove_shift_left [of ?p "cl_len s" "cl_line s" 0] p n pn l n79 False
      ed_rep_take [OF rep, of "ed_pos e - 1"] ed_rep_take [OF rep order_refl] by auto
  define s1 where "s1 = on_cursor (cur_back 1) (s\<lparr>cl_len := cl_len s - 1, cl_line := a[?n - 1 := 0]\<rparr>)"
  have "ed_rep s1 (ed_backspace e)"
    using rep False a n1 pos1 pn
    by (auto simp: ed_rep_def s1_def ed_backspace_def ed_delete_def min_def)
  moreover have "0 < ?p" using p False by (simp add: word_less_nat_alt)
  then have "backspace s = update s1"
    using a n1 n79 by (simp add: backspace_def s1_def Let_def)
  ultimately show ?thesis using ed_rep_update by fastforce
qed

lemma transpose_ok:
  assumes rep: "ed_rep s e" and pos: "0 < ed_pos e" "ed_pos e < length (ed_line e)"
  shows "\<exists>s'. transpose s = Some s' \<and> ed_rep s' (ed_transpose e)"
proof -
  let ?p = "ucast (cl_pos s) :: u32" and ?i = "ed_pos e" and ?n = "length (ed_line e)"
  have p: "unat ?p = ?i" and n: "unat (cl_len s) = ?n" and l: "length (cl_line s) = 80" and n79: "?n \<le> 79"
    using rep by (auto simp: ed_rep_def)
  have q: "unat (?p - 1) = ?i - 1"
    using p pos by (subst unat_sub_small) (auto simp: word_le_nat_alt)
  have pos1: "unat (cl_pos s - 1) = ?i - 1"
    using rep pos by (subst unat_sub_small) (auto simp: ed_rep_def word_le_nat_alt)
  have line: "ed_line e ! j = cl_line s ! j" if "j < ?n" for j
    using ed_rep_take [OF rep order_refl] that by (metis nth_take)
  let ?l = "(cl_line s)[?i := cl_line s ! (?i - 1), ?i - 1 := cl_line s ! ?i]"
  define s1 where "s1 = on_cursor (cur_back 1) (s\<lparr>cl_line := ?l\<rparr>)"
  have "take ?n ?l = (take ?n (cl_line s))[?i := cl_line s ! (?i - 1), ?i - 1 := cl_line s ! ?i]"
    by (simp add: take_update_swap)
  then have t: "take ?n ?l = (ed_line e)[?i := ed_line e ! (?i - 1), ?i - 1 := ed_line e ! ?i]"
    using ed_rep_take [OF rep order_refl] line pos by simp
  have print: "list_all isprint ((ed_line e)[?i := ed_line e ! (?i - 1), ?i - 1 := ed_line e ! ?i])"
    using rep pos by (auto simp: ed_rep_def list_all_length nth_list_update)
  have rep1: "ed_rep s1 ((ed_transpose e)\<lparr>ed_pos := ?i - 1\<rparr>)"
    using rep pos t print pos1 by (auto simp: ed_rep_def s1_def ed_transpose_def)
  obtain s2 where s2: "update s1 = Some s2" "ed_rep s2 ((ed_transpose e)\<lparr>ed_pos := ?i - 1\<rparr>)"
    "cl_pos s2 = cl_pos s1"
    using ed_rep_update [OF rep1] by blast
  have "transpose s = Some (on_cursor (cur_fwd 1) s2)"
    using p q l n79 pos s2(1) by (simp add: transpose_def s1_def Let_def)
  moreover have "cl_pos s2 + 1 = cl_pos s" using s2(3) by (simp add: s1_def)
  then have "ed_rep (on_cursor (cur_fwd 1) s2) (ed_transpose e)"
    using s2(2) rep pos by (auto simp: ed_rep_def ed_transpose_def)
  ultimately show ?thesis by blast
qed

text \<open>At the left end \<^verbatim>\<open>^T\<close> reads the byte before the array.\<close>

lemma transpose_underrun: "length (cl_line s) = 80 \<Longrightarrow> cl_pos s = 0 \<Longrightarrow> transpose s = None"
  by (simp add: transpose_def Let_def aget_def unsigned_minus_1_eq_mask mask_eq_exp_minus_1)

lemma get_hist_ok:
  assumes rep: "ed_rep s e"
  shows "\<exists>s'. get_hist dir s = Some s' \<and> ed_rep s' (ed_recall dir e)"
proof -
  let ?r = "recall_spec (ed_cmds e) (ed_back e) dir"
  have hr: "hist_rep (cl_hist s) (ed_cmds e)" and bk: "unat (h_index (cl_hist s)) = ed_back e"
    and lens: "\<forall>c \<in> set (ed_cmds e). length c \<le> 79 \<and> list_all isprint c"
    and l: "length (cl_line s) = 80"
    using rep by (auto simp: ed_rep_def)
  obtain h d n where r: "recall (cl_hist s) (cl_line s) dir = Some (h, d, n)" "hist_rep h (ed_cmds e)"
    "h_index h = of_nat (fst ?r)"
    "case snd ?r of None \<Rightarrow> d = cl_line s \<and> n = -1
     | Some c \<Rightarrow> d = c @ drop (length c) (cl_line s) \<and> n = int (length c)"
    using recall_refines [OF hr, of "cl_line s" dir] lens l bk by fastforce
  have N: "length (ed_cmds e) < 128" "ed_back e \<le> length (ed_cmds e)"
    using hist_rep_length [OF hr] hr bk by (auto simp: hist_rep_def)
  then have k: "fst ?r < 4294967296" by (cases dir) auto
  then have idx: "unat (h_index h) = fst ?r" using r(3) by (simp add: unat_of_nat_u32)
  show ?thesis
  proof (cases "snd ?r")
    case None
    with r idx rep show ?thesis
      by (auto simp: get_hist_def ed_recall_def ed_rep_def split: prod.splits)
  next
    case (Some c)
    have c: "length c \<le> 79" "list_all isprint c"
    proof -
      have "c = [] \<or> c \<in> set (ed_cmds e)"
        using Some N by (cases dir) (auto split: if_splits)
      with lens show "length c \<le> 79" "list_all isprint c" by auto
    qed
    have n: "unat (of_nat (length c) :: u32) = length c" "unat (of_nat (length c) :: byte) = length c"
      using c(1) by (auto intro!: unat_of_nat_u32 unat_of_nat_byte)
    have uc: "(ucast (of_nat (length c) :: u32) :: byte) = of_nat (length c)"
      using c(1) n by (simp add: word_unat_eq_iff unat_ucast_32_8)
    define s1 where "s1 = on_cursor (cur_move 0)
      (s\<lparr>cl_hist := h, cl_line := c @ drop (length c) (cl_line s), cl_len := of_nat (length c)\<rparr>)"
    let ?e = "e\<lparr>ed_back := fst ?r, ed_line := c\<rparr>"
    have rep1: "ed_rep s1 (?e\<lparr>ed_pos := 0\<rparr>)"
      using rep r(2) idx c n l by (auto simp: ed_rep_def s1_def)
    obtain s2 where s2: "update s1 = Some s2" "ed_rep s2 (?e\<lparr>ed_pos := 0\<rparr>)" "cl_len s2 = cl_len s1"
      using ed_rep_update [OF rep1] by blast
    have len2: "cl_len s2 = of_nat (length c)" using s2(3) by (simp add: s1_def)
    have "cl_pos s2 = 0" using s2(2) by (simp add: ed_rep_def unat_eq_zero)
    then have rep3: "ed_rep (on_cursor (cur_fwd (of_nat (length c))) s2) (?e\<lparr>ed_pos := length c\<rparr>)"
      using s2(2) n c by (auto simp: ed_rep_def)
    have "get_hist dir s = Some (on_cursor (cur_fwd (of_nat (length c))) s2)"
      using r(1,4) Some s2(1) uc len2 by (simp add: get_hist_def s1_def Let_def)
    with rep3 Some show ?thesis by (cases ?r) (auto simp: ed_recall_def)
  qed
qed

lemma takeWhile_printable:
  "list_all isprint xs \<Longrightarrow> takeWhile (\<lambda>c. c \<noteq> 0) (xs @ 0 # ys) = xs"
  by (induction xs) (auto simp: isprint_def)

lemma newline_ok:
  assumes rep: "ed_rep s e"
  shows "\<exists>s'. newline s = Some s' \<and> ed_rep s' (ed_enter e)"
proof -
  let ?n = "length (ed_line e)"
  have n: "unat (cl_len s) = ?n" "?n \<le> 79" and l: "length (cl_line s) = 80"
    and tk: "take ?n (cl_line s) = ed_line e"
    and hr: "hist_rep (cl_hist s) (ed_cmds e)"
    and lens: "\<forall>c \<in> set (ed_cmds e). length c \<le> 79 \<and> list_all isprint c"
    and print: "list_all isprint (ed_line e)"
    using rep by (auto simp: ed_rep_def)
  have sz: "unat (ucast (cl_len s) :: byte) = ?n"
    using n by (simp add: unat_ucast_32_8)
  obtain h where h: "save (cl_hist s) (cl_line s) (ucast (cl_len s)) = Some h"
    "hist_rep h (save_spec (ed_cmds e) (ed_line e))"
    "unat (h_index h) = (if ed_line e = [] then ed_back e else 0)"
    using save_refines [OF hr, of "ucast (cl_len s)" "cl_line s"] sz l n tk rep
    by (fastforce simp: ed_rep_def unat_eq_zero [symmetric])
  have "(cl_line s)[?n := 0] = take ?n (cl_line s) @ 0 # drop (Suc ?n) (cl_line s)"
    using l n by (simp add: upd_conv_take_nth_drop)
  then have ex: "takeWhile (\<lambda>c. c \<noteq> 0) ((cl_line s)[?n := 0]) = ed_line e"
    using tk print by (simp add: takeWhile_printable)
  have "set (save_spec (ed_cmds e) (ed_line e)) \<subseteq> insert (ed_line e) (set (ed_cmds e))"
    using set_make_room [of ?n "ed_cmds e"] by (auto simp: save_spec_def)
  then have lens': "\<forall>c \<in> set (save_spec (ed_cmds e) (ed_line e)). length c \<le> 79 \<and> list_all isprint c"
    using lens print n by blast
  show ?thesis
    using rep h ex lens' n l by (auto simp: newline_def ed_rep_def ed_enter_def cur_putchar_def tty_put_def)
qed

lemma ed_rep_left: "ed_rep s e \<Longrightarrow> ed_rep (cur_left s) (ed_left e)"
  by (auto simp: ed_rep_def cur_left_def ed_left_def word_less_nat_alt unat_sub_small word_le_nat_alt unat_eq_zero)

lemma ed_rep_right: "ed_rep s e \<Longrightarrow> ed_rep (cur_right s) (ed_right e)"
  by (auto simp: ed_rep_def cur_right_def ed_right_def word_less_nat_alt unat_Suc_byte min_def)

lemma ed_rep_home: "ed_rep s e \<Longrightarrow> ed_rep (on_cursor (cur_move 0) s) (ed_home e)"
  by (auto simp: ed_rep_def ed_home_def)

lemma ed_rep_end: "ed_rep s e \<Longrightarrow> ed_rep (on_cursor (cur_move (ucast (cl_len s))) s) (ed_end e)"
  by (auto simp: ed_rep_def ed_end_def unat_ucast_32_8)

lemma ed_rep_state: "ed_rep s e \<Longrightarrow> ed_rep (s\<lparr>cl_state := st\<rparr>) (e\<lparr>ed_state := st\<rparr>)"
  by (auto simp: ed_rep_def)

lemma ed_rep_tty: "ed_rep s e \<Longrightarrow> ed_rep (on_cursor (tty_put t) s) e"
  by (auto simp: ed_rep_def)

lemma redraw_ok:
  assumes rep: "ed_rep s e"
  shows "\<exists>s'. update (on_cursor (cur_move 0) s) = Some s' \<and>
    ed_rep (on_cursor (cur_fwd (ucast (cl_len s'))) s') (ed_end e)"
proof -
  obtain s' where s': "update (on_cursor (cur_move 0) s) = Some s'" "ed_rep s' (ed_home e)"
    using ed_rep_update [OF ed_rep_home [OF rep]] by blast
  moreover have "cl_pos s' = 0" using s'(2) by (simp add: ed_rep_def ed_home_def unat_eq_zero)
  ultimately show ?thesis by (auto simp: ed_rep_def ed_home_def ed_end_def unat_ucast_32_8)
qed

lemma ed_rep_kill:
  assumes "ed_rep s e"
  shows "ed_rep ((on_cursor cur_eraseeol s)\<lparr>cl_len := ucast (cl_pos s)\<rparr>)
    (e\<lparr>ed_line := take (ed_pos e) (ed_line e)\<rparr>)"
  using assms ed_rep_take [OF assms, of "ed_pos e"] by (auto simp: ed_rep_def min_def)

lemma ed_rep_clear:
  "ed_rep s e \<Longrightarrow> ed_rep ((on_cursor (cur_eraseeol \<circ> cur_move 0) s)\<lparr>cl_len := 0\<rparr>) (e\<lparr>ed_line := [], ed_pos := 0\<rparr>)"
  by (auto simp: ed_rep_def)

section \<open>The command line implements the editor\<close>

definition key_defined :: "byte \<Rightarrow> editor \<Rightarrow> bool" where
  "key_defined ch e \<longleftrightarrow>
     ed_state e = stateNONE \<and> ch = 0x14 \<longrightarrow> 0 < ed_pos e \<and> ed_pos e < length (ed_line e)"

lemma process_NONE_ok:
  assumes rep: "ed_rep s e" and "ed_state e = stateNONE" and "key_defined ch e"
  shows "\<exists>s'. process_NONE ch s = Some s' \<and> ed_rep s' (ed_key_NONE ch e)"
  using assms newline_ok [OF rep] delchar_ok [OF rep] get_hist_ok [OF rep] backspace_ok [OF rep]
    transpose_ok [OF rep] inschar_ok [OF rep, of ch] ed_rep_left [OF rep] ed_rep_right [OF rep]
    ed_rep_home [OF rep] ed_rep_end [OF rep] ed_rep_state [OF rep, of stateESC] ed_rep_tty [OF rep]
    redraw_ok [OF rep] ed_rep_kill [OF rep] ed_rep_clear [OF rep]
  unfolding process_NONE_def ed_key_NONE_def key_defined_def
  by (auto simp: Let_def isprint_def)

lemma process_ok:
  assumes rep: "ed_rep s e" and "key_defined (ucast inp) e"
  shows "\<exists>s'. process inp s = Some s' \<and> ed_rep s' (ed_key (ucast inp) e)"
proof -
  have "(ucast (inp AND mask 8) :: byte) = ucast inp"
    by (intro bit_word_eqI) (simp add: bit_simps)
  then have ch: "(ucast (inp AND 0xff) :: byte) = ucast inp"
    by (simp add: mask_eq_exp_minus_1)
  let ?ch = "ucast inp :: byte"
  have st: "cl_state s = ed_state e" using rep by (simp add: ed_rep_def)
  show ?thesis
  proof (cases "ed_state e")
    case stateNONE
    with process_NONE_ok [OF rep _ assms(2)] st ch show ?thesis
      by (simp add: process_def ed_key_def)
  next
    case stateESCBRK
    obtain su sd where u: "get_hist up s = Some su" "ed_rep su (ed_recall up e)"
      "get_hist down s = Some sd" "ed_rep sd (ed_recall down e)"
      using get_hist_ok [OF rep] by blast
    show ?thesis
      using stateESCBRK u st ch ed_rep_state [OF u(2)] ed_rep_state [OF u(4)] ed_rep_state [OF rep]
        ed_rep_state [OF ed_rep_left [OF rep]] ed_rep_state [OF ed_rep_right [OF rep]]
      by (simp add: process_def ed_key_def process_ESCBRK_def to_none_def)
  qed (use st ch ed_rep_state [OF rep] ed_rep_state [OF ed_rep_tty [OF rep]]
        ed_rep_state [OF ed_rep_home [OF rep]] ed_rep_state [OF ed_rep_end [OF rep]] in
      \<open>simp add: process_def ed_key_def process_ESC_def process_PFN_def to_none_def\<close>)+
qed

text \<open>A stream of keys all of whose transpositions fall inside the line.\<close>

fun keys_defined :: "u32 list \<Rightarrow> editor \<Rightarrow> bool" where
  "keys_defined [] e = True"
| "keys_defined (k # ks) e = (key_defined (ucast k) e \<and> keys_defined ks (ed_key (ucast k) e))"

fun ed_keys :: "u32 list \<Rightarrow> editor \<Rightarrow> editor" where
  "ed_keys [] e = e"
| "ed_keys (k # ks) e = ed_keys ks (ed_key (ucast k) e)"

lemma process_all_ok:
  "ed_rep s e \<Longrightarrow> keys_defined ks e \<Longrightarrow> \<exists>s'. process_all ks s = Some s' \<and> ed_rep s' (ed_keys ks e)"
proof (induction ks arbitrary: s e)
  case Nil
  then show ?case by simp
next
  case (Cons k ks)
  then obtain s1 where "process k s = Some s1" "ed_rep s1 (ed_key (ucast k) e)"
    using process_ok by fastforce
  with Cons show ?case by simp
qed

lemma keys_defined_no_transpose: "\<forall>k \<in> set ks. (ucast k :: byte) \<noteq> 0x14 \<Longrightarrow> keys_defined ks e"
  by (induction ks arbitrary: e) (auto simp: key_defined_def)

definition ed_init :: editor where
  "ed_init = \<lparr>ed_state = stateNONE, ed_line = [], ed_pos = 0, ed_cmds = [boot_cmd], ed_back = 0, ed_done = []\<rparr>"

lemma hist_rep_new: "hist_rep hist_new []"
  by (simp add: hist_rep_def hist_new_def ring_def)

lemma cmdline_new_ok: "\<exists>s. cmdline_new = Some s \<and> ed_rep s ed_init"
proof -
  have "save_spec [] boot_cmd = [boot_cmd]" by (simp add: save_spec_def boot_cmd_def)
  moreover have "take 14 (boot_cmd @ [0]) = boot_cmd" "14 \<le> length (boot_cmd @ [0])"
    by (simp_all add: boot_cmd_def)
  ultimately obtain h where h: "save hist_new (boot_cmd @ [0]) 14 = Some h" "hist_rep h [boot_cmd]"
    "h_index h = 0"
    using save_refines [OF hist_rep_new, of 14 "boot_cmd @ [0]"] by fastforce
  have "list_all isprint boot_cmd" "length boot_cmd \<le> 79" by (simp_all add: boot_cmd_def isprint_def)
  with h show ?thesis
    by (auto simp: cmdline_new_def ed_rep_def ed_init_def cursor_new_def)
qed

lemma ed_keys_append: "ed_keys (ks @ ls) e = ed_keys ls (ed_keys ks e)"
  by (induction ks arbitrary: e) auto

lemma ed_key_printable: "isprint ch \<Longrightarrow> ed_state e = stateNONE \<Longrightarrow> ed_key ch e = ed_insert ch e"
  by (auto simp: ed_key_def ed_key_NONE_def isprint_def word_le_nat_alt)

lemma ucast_byte_u32 [simp]: "(ucast (ucast (b :: byte) :: u32) :: byte) = b"
  by (rule bit_word_eqI) (simp add: bit_simps)

lemma ed_keys_type:
  assumes "list_all isprint cs" "ed_state e = stateNONE" "ed_pos e = length (ed_line e)"
    "length (ed_line e) + length cs \<le> 79"
  shows "ed_keys (map ucast cs) e = e\<lparr>ed_line := ed_line e @ cs, ed_pos := ed_pos e + length cs\<rparr>"
  using assms
proof (induction cs arbitrary: e)
  case Nil
  then show ?case by simp
next
  case (Cons c cs)
  then have "ed_key c e = e\<lparr>ed_line := ed_line e @ [c], ed_pos := ed_pos e + 1\<rparr>"
    by (simp add: ed_key_printable ed_insert_def)
  with Cons show ?case by simp
qed

section \<open>Properties\<close>

text \<open>C20: the command line implements the abstract editor. Whatever keys arrive, as long as
  every \<^verbatim>\<open>^T\<close> is typed strictly inside the line, the code returns without touching memory
  outside its buffers and its state represents the editor state reached by the same keys:
  line, cursor, history, executed commands and escape-sequence state. The editor follows the code where its comments say
  something else: lines are executed in the case they were typed in (the comment of \<^verbatim>\<open>newline()\<close> has them converted to upper
  case), and the backspace keys are \<^verbatim>\<open>^C\<close> and \<^verbatim>\<open>^H\<close> (the comment names \<^verbatim>\<open>^I\<close>, which is ignored).\<close>

theorem cmdline_refines_editor:
  assumes "ed_rep s e" "keys_defined ks e"
  shows "\<exists>s'. process_all ks s = Some s' \<and> ed_rep s' (ed_keys ks e)"
  using assms by (rule process_all_ok)

theorem cmdline_refines_editor_witness:
  "\<exists>s s'. ed_rep s ed_init \<and> process_all [97, 98, 2, 20, 13] s = Some s' \<and>
    ed_done (ed_keys [97, 98, 2, 20, 13] ed_init) = [[98, 97]]"
proof -
  obtain s where s: "ed_rep s ed_init" using cmdline_new_ok by blast
  moreover have "keys_defined [97, 98, 2, 20, 13] ed_init"
    by (simp add: key_defined_def ed_init_def ed_key_def ed_key_NONE_def ed_insert_def ed_left_def
        isprint_def ed_transpose_def)
  moreover have "ed_done (ed_keys [97, 98, 2, 20, 13] ed_init) = [[98, 97]]"
    by (simp add: ed_init_def ed_key_def ed_key_NONE_def ed_insert_def ed_left_def
        isprint_def ed_transpose_def ed_enter_def)
  ultimately show ?thesis using cmdline_refines_editor by blast
qed

text \<open>C21: from power-up no key stream without \<^verbatim>\<open>^T\<close> can make the command line
  overrun its buffers or hang: it always returns, with the cursor inside a line of at most 79
  characters.\<close>

theorem cmdline_safe_without_transpose:
  assumes "cmdline_new = Some s" "\<forall>k \<in> set ks. (ucast k :: byte) \<noteq> 0x14"
  shows "\<exists>s'. process_all ks s = Some s' \<and> unat (cl_pos s') \<le> unat (cl_len s') \<and>
    unat (cl_len s') \<le> 79 \<and> length (cl_line s') = 80"
proof -
  have "ed_rep s ed_init" using cmdline_new_ok assms(1) by (metis option.inject)
  from process_all_ok [OF this keys_defined_no_transpose [OF assms(2)]] ed_rep_bounds
  show ?thesis by blast
qed

theorem cmdline_safe_without_transpose_witness:
  "\<exists>s s'. cmdline_new = Some s \<and> process_all [0x1b, 0x5b, 0x41, 0x7f, 8, 0x0d] s = Some s'"
proof -
  obtain s where s: "cmdline_new = Some s" using cmdline_new_ok by blast
  with cmdline_safe_without_transpose [OF s, of "[0x1b, 0x5b, 0x41, 0x7f, 8, 0x0d]"]
  show ?thesis by auto
qed

text \<open>C22: typing a printable line of at most 79 characters on an empty line and pressing return
  executes exactly that line, once, stores it as the newest command and leaves an empty line. Nothing converts it to upper
  case, as the comment of \<^verbatim>\<open>newline()\<close> has it.\<close>

theorem cmdline_executes_typed_line:
  assumes "ed_rep s e" "ed_state e = stateNONE" "ed_line e = []"
    and "list_all isprint cs" "length cs \<le> 79"
  shows "\<exists>s'. process_all (map ucast cs @ [0x0d]) s = Some s' \<and> cl_exec s' = cl_exec s @ [cs] \<and>
    cl_len s' = 0 \<and> hist_rep (cl_hist s') (save_spec (ed_cmds e) cs)"
proof -
  have pos: "ed_pos e = 0" using assms(1,3) by (simp add: ed_rep_def)
  have "\<forall>k \<in> set (map ucast cs @ [0x0d]). (ucast (k :: u32) :: byte) \<noteq> 0x14"
    using assms(4) by (auto simp: isprint_def list_all_iff)
  then obtain s' where s': "process_all (map ucast cs @ [0x0d]) s = Some s'"
    "ed_rep s' (ed_keys (map ucast cs @ [0x0d]) e)"
    using process_all_ok [OF assms(1) keys_defined_no_transpose] by blast
  have "ed_keys (map ucast cs @ [0x0d]) e = ed_enter (e\<lparr>ed_line := cs, ed_pos := length cs\<rparr>)"
    using assms pos by (simp add: ed_keys_append ed_keys_type ed_key_def ed_key_NONE_def)
  with s' assms(1) show ?thesis
    by (auto simp: ed_rep_def ed_enter_def unat_eq_zero)
qed

theorem cmdline_executes_typed_line_witness:
  "\<exists>s s'. cmdline_new = Some s \<and> process_all (map ucast [104, 108, 116 :: byte] @ [0x0d]) s = Some s' \<and>
    cl_exec s' = cl_exec s @ [[104, 108, 116]]"
proof -
  obtain s where s: "cmdline_new = Some s" "ed_rep s ed_init" using cmdline_new_ok by blast
  with cmdline_executes_typed_line [OF s(2), of "[104, 108, 116]"] show ?thesis
    by (auto simp: ed_init_def isprint_def)
qed

text \<open>C23: \<^verbatim>\<open>^T\<close> with the cursor in the first column has no defined result: the code
  exchanges \<^verbatim>\<open>cmdline[0]\<close> with the byte in front of the array. It is reachable with one
  key from power-up.\<close>

theorem transpose_at_column_zero_undefined:
  "\<exists>s. cmdline_new = Some s \<and> cl_state s = stateNONE \<and> process 0x14 s = None"
proof -
  obtain s where s: "cmdline_new = Some s" "ed_rep s ed_init" using cmdline_new_ok by blast
  then have st: "cl_state s = stateNONE" "cl_pos s = 0" "length (cl_line s) = 80"
    by (auto simp: ed_rep_def ed_init_def unat_eq_zero)
  have "transpose s = None" using st transpose_underrun by blast
  then have "process 0x14 s = None" using st(1) by (simp add: process_def process_NONE_def)
  with s(1) st(1) show ?thesis by blast
qed

text \<open>The loops are executable.\<close>

declare update_loop.simps [code]

end
