(* ===== verification/FatBase.thy ===== *)
theory FatBase
  imports Prelude
begin

text \<open>
  Data model of the FAT file system module \<^verbatim>\<open>code/fatfslib\<close> in the configuration of
  \<^verbatim>\<open>ffconf.h\<close>: one volume, 512-byte sectors, the tiny configuration (one window buffer shared
  by FAT, directories and file data), no long file names, no locking. \<^verbatim>\<open>BYTE\<close>,
  \<^verbatim>\<open>WORD\<close> and \<^verbatim>\<open>DWORD\<close> are words of 8, 16 and 32 bits.

  The module reaches the medium only through the five functions of \<^verbatim>\<open>diskio.h\<close>. They are a
  record of operations on an abstract device state \<open>'w\<close>, so that the module is modelled for any
  device and instantiated with the console's own \<^verbatim>\<open>diskio.c\<close> in theory \<open>DiskIO\<close>.
\<close>

section \<open>Result codes\<close>

datatype FRESULT =
    FR_OK | FR_DISK_ERR | FR_INT_ERR | FR_NOT_READY | FR_NO_FILE | FR_NO_PATH | FR_INVALID_NAME
  | FR_DENIED | FR_EXIST | FR_INVALID_OBJECT | FR_WRITE_PROTECTED | FR_INVALID_DRIVE
  | FR_NOT_ENABLED | FR_NO_FILESYSTEM | FR_MKFS_ABORTED | FR_TIMEOUT | FR_LOCKED
  | FR_NOT_ENOUGH_CORE | FR_TOO_MANY_OPEN_FILES | FR_INVALID_PARAMETER

datatype DRESULT = RES_OK | RES_ERROR | RES_WRPRT | RES_NOTRDY | RES_PARERR

section \<open>The disk interface\<close>

text \<open>
  Drive number, buffer, first sector and sector count, as in \<^verbatim>\<open>diskio.h\<close>. A read returns
  the buffer as it leaves it; a sector is 512 bytes.
\<close>

record 'w disk_ops =
  d_initialize :: "byte \<Rightarrow> 'w \<Rightarrow> byte \<times> 'w"
  d_status :: "byte \<Rightarrow> 'w \<Rightarrow> byte"
  d_read :: "byte \<Rightarrow> byte list \<Rightarrow> u32 \<Rightarrow> byte \<Rightarrow> 'w \<Rightarrow> DRESULT \<times> byte list \<times> 'w"
  d_write :: "byte \<Rightarrow> byte list \<Rightarrow> u32 \<Rightarrow> byte \<Rightarrow> 'w \<Rightarrow> DRESULT \<times> 'w"
  d_ioctl :: "byte \<Rightarrow> byte \<Rightarrow> 'w \<Rightarrow> DRESULT \<times> 'w"

definition STA_NOINIT :: byte where "STA_NOINIT = 1"
definition STA_PROTECT :: byte where "STA_PROTECT = 4"
definition CTRL_SYNC :: byte where "CTRL_SYNC = 0"

text \<open>The time stamp given to files: the console has no clock, and \<^verbatim>\<open>diskio.c\<close> returns a fixed one.\<close>

definition get_fattime :: u32 where
  "get_fattime = push_bit 25 (2017 - 1980) OR push_bit 21 6 OR push_bit 16 21 OR push_bit 11 12 OR
     push_bit 5 0 OR drop_bit 1 0"

section \<open>The file system object\<close>

record fatfs =
  fs_type :: byte
  fs_drv :: byte
  fs_csize :: byte
  fs_n_fats :: byte
  fs_wflag :: byte
  fs_fsi_flag :: byte
  fs_id :: u16
  fs_n_rootdir :: u16
  fs_last_clust :: u32
  fs_free_clust :: u32
  fs_fsi_sector :: u32
  fs_n_fatent :: u32
  fs_fsize :: u32
  fs_volbase :: u32
  fs_fatbase :: u32
  fs_dirbase :: u32
  fs_database :: u32
  fs_winsect :: u32
  fs_win :: "byte list"

definition FS_FAT12 :: byte where "FS_FAT12 = 1"
definition FS_FAT16 :: byte where "FS_FAT16 = 2"
definition FS_FAT32 :: byte where "FS_FAT32 = 3"

lemmas fs_types = FS_FAT12_def FS_FAT16_def FS_FAT32_def

text \<open>A file system object together with the device it works on.\<close>

record 'w vol =
  v_fs :: fatfs
  v_dsk :: 'w

abbreviation upd_fs :: "(fatfs \<Rightarrow> fatfs) \<Rightarrow> 'w vol \<Rightarrow> 'w vol" where
  "upd_fs f v \<equiv> v\<lparr>v_fs := f (v_fs v)\<rparr>"

section \<open>Memory helpers\<close>

text \<open>Byte strings: copy, fill, compare and search. Ranges are in bounds at every call.\<close>

definition mem_cpy :: "byte list \<Rightarrow> nat \<Rightarrow> byte list \<Rightarrow> nat \<Rightarrow> nat \<Rightarrow> byte list" where
  "mem_cpy d i s j n = take i d @ take n (drop j s) @ drop (i + n) d"

definition mem_set :: "byte list \<Rightarrow> nat \<Rightarrow> byte \<Rightarrow> nat \<Rightarrow> byte list" where
  "mem_set d i v n = take i d @ replicate n v @ drop (i + n) d"

fun mem_cmp :: "byte list \<Rightarrow> byte list \<Rightarrow> nat \<Rightarrow> int" where
  "mem_cmp d s 0 = 0"
| "mem_cmp (d # ds) (s # ss) (Suc n) =
     (let r = uint d - uint s in if r = 0 then mem_cmp ds ss n else r)"
| "mem_cmp _ _ (Suc n) = 0"

text \<open>The string ends at its first zero byte; the result is the character found or zero.\<close>

fun chk_chr :: "byte list \<Rightarrow> byte \<Rightarrow> byte" where
  "chk_chr [] c = 0"
| "chk_chr (x # xs) c = (if x = 0 \<or> x = c then x else chk_chr xs c)"

text \<open>Little-endian access, \<^verbatim>\<open>LD_WORD\<close>, \<^verbatim>\<open>LD_DWORD\<close>, \<^verbatim>\<open>ST_WORD\<close>, \<^verbatim>\<open>ST_DWORD\<close>.\<close>

definition ld_word :: "byte list \<Rightarrow> nat \<Rightarrow> u16" where
  "ld_word b p = push_bit 8 (ucast (b ! (p + 1))) OR ucast (b ! p)"

definition ld_dword :: "byte list \<Rightarrow> nat \<Rightarrow> u32" where
  "ld_dword b p = push_bit 24 (ucast (b ! (p + 3))) OR push_bit 16 (ucast (b ! (p + 2))) OR
     push_bit 8 (ucast (b ! (p + 1))) OR ucast (b ! p)"

definition st_word :: "byte list \<Rightarrow> nat \<Rightarrow> u16 \<Rightarrow> byte list" where
  "st_word b p v = b[p := ucast v, p + 1 := ucast (drop_bit 8 v)]"

definition st_dword :: "byte list \<Rightarrow> nat \<Rightarrow> u32 \<Rightarrow> byte list" where
  "st_dword b p v = b[p := ucast v, p + 1 := ucast (drop_bit 8 (ucast v :: u16)),
     p + 2 := ucast (drop_bit 16 v), p + 3 := ucast (drop_bit 24 v)]"

lemma length_st [simp]:
  "length (st_word b p v) = length b" "length (st_dword b p w) = length b"
  by (simp_all add: st_word_def st_dword_def)

lemma ld_st_word [simp]: "p + 1 < length b \<Longrightarrow> ld_word (st_word b p v) p = v"
  by (rule bit_word_eqI) (auto simp: ld_word_def st_word_def bit_simps)

lemma ld_st_dword [simp]: "p + 3 < length b \<Longrightarrow> ld_dword (st_dword b p v) p = v"
proof (rule bit_word_eqI)
  fix n assume p: "p + 3 < length b" and "n < LENGTH(32)"
  then consider "n < 8" | "8 \<le> n" "n < 16" | "16 \<le> n" "n < 24" | "24 \<le> n" "n < 32"
    by fastforce
  then show "bit (ld_dword (st_dword b p v) p) n = bit v n"
    by cases (use p in \<open>auto simp: ld_dword_def st_dword_def bit_simps\<close>)
qed

lemma nth_st_word_other: "i \<noteq> p \<Longrightarrow> i \<noteq> p + 1 \<Longrightarrow> st_word b p v ! i = b ! i"
  by (simp add: st_word_def)

lemma nth_st_dword_other: "i < p \<or> p + 3 < i \<Longrightarrow> st_dword b p v ! i = b ! i"
  by (auto simp: st_dword_def)

lemma ld_word_cong: "b ! p = c ! p \<Longrightarrow> b ! (p + 1) = c ! (p + 1) \<Longrightarrow> ld_word b p = ld_word c p"
  by (simp add: ld_word_def)

lemma ld_dword_cong: "(\<And>i. p \<le> i \<Longrightarrow> i \<le> p + 3 \<Longrightarrow> b ! i = c ! i) \<Longrightarrow> ld_dword b p = ld_dword c p"
  by (simp add: ld_dword_def)

lemma length_mem_set [simp]: "i + n \<le> length d \<Longrightarrow> length (mem_set d i v n) = length d"
  by (simp add: mem_set_def)

lemma length_mem_cpy [simp]:
  "i + n \<le> length d \<Longrightarrow> j + n \<le> length s \<Longrightarrow> length (mem_cpy d i s j n) = length d"
  by (simp add: mem_cpy_def)

lemma mem_cmp_eq_0:
  "n \<le> length d \<Longrightarrow> n \<le> length s \<Longrightarrow> mem_cmp d s n = 0 \<longleftrightarrow> take n d = take n s"
proof (induction n arbitrary: d s)
  case 0
  then show ?case by simp
next
  case (Suc n)
  then obtain x xs y ys where "d = x # xs" "s = y # ys"
    by (metis Suc_le_length_iff)
  with Suc show ?case by (auto simp: Let_def word_uint_eq_iff)
qed

end
