(* ===== verification/FatWindow.thy ===== *)
theory FatWindow
  imports FatBase
begin

text \<open>
  The sector window of \<^verbatim>\<open>ff.c\<close>: one 512-byte buffer through which FAT sectors, directory
  sectors and file data pass, written back when dirty and mirrored to all FAT copies.

  What the rest of the module relies on is the logical contents of the volume, \<open>view\<close>: the window
  where it is, the medium elsewhere. The locale \<open>block_device\<close> states what a device promises; in
  it, moving or flushing the window never changes the logical contents outside the FAT copies.
\<close>

section \<open>Operations\<close>

fun sync_copies :: "'w disk_ops \<Rightarrow> nat \<Rightarrow> u32 \<Rightarrow> 'w vol \<Rightarrow> 'w vol" where
  "sync_copies ops 0 wsect v = v"
| "sync_copies ops (Suc n) wsect v =
     (let fs = v_fs v; wsect = wsect + fs_fsize fs;
          (r, d) = d_write ops (fs_drv fs) (fs_win fs) wsect 1 (v_dsk v)
      in sync_copies ops n wsect (v\<lparr>v_dsk := d\<rparr>))"

definition sync_window :: "'w disk_ops \<Rightarrow> 'w vol \<Rightarrow> FRESULT \<times> 'w vol" where
  "sync_window ops v =
     (let fs = v_fs v in
      if fs_wflag fs \<noteq> 0 then
        let wsect = fs_winsect fs;
            (r, d) = d_write ops (fs_drv fs) (fs_win fs) wsect 1 (v_dsk v)
        in if r \<noteq> RES_OK then (FR_DISK_ERR, v\<lparr>v_dsk := d\<rparr>)
           else let v = v\<lparr>v_fs := fs\<lparr>fs_wflag := 0\<rparr>, v_dsk := d\<rparr>
                in (FR_OK, if fs_fatbase fs \<le> wsect \<and> wsect < fs_fatbase fs + fs_fsize fs
                           then sync_copies ops (unat (fs_n_fats fs) - 1) wsect v else v)
      else (FR_OK, v))"

definition move_window :: "'w disk_ops \<Rightarrow> u32 \<Rightarrow> 'w vol \<Rightarrow> FRESULT \<times> 'w vol" where
  "move_window ops sector v =
     (if sector \<noteq> fs_winsect (v_fs v) then
        let (res, v) = sync_window ops v
        in if res \<noteq> FR_OK then (FR_DISK_ERR, v)
           else let fs = v_fs v;
                    (r, win, d) = d_read ops (fs_drv fs) (fs_win fs) sector 1 (v_dsk v);
                    v = v\<lparr>v_fs := fs\<lparr>fs_win := win\<rparr>, v_dsk := d\<rparr>
                in if r \<noteq> RES_OK then (FR_DISK_ERR, v)
                   else (FR_OK, upd_fs (fs_winsect_update (\<lambda>_. sector)) v)
      else (FR_OK, v))"

definition fsinfo_sector :: "fatfs \<Rightarrow> byte list" where
  "fsinfo_sector fs =
     (let w = mem_set (fs_win fs) 0 0 512;
          w = st_word w 510 0xAA55;
          w = st_dword w 0 0x41615252;
          w = st_dword w 484 0x61417272;
          w = st_dword w 488 (fs_free_clust fs)
      in st_dword w 492 (fs_last_clust fs))"

definition sync_fs :: "'w disk_ops \<Rightarrow> 'w vol \<Rightarrow> FRESULT \<times> 'w vol" where
  "sync_fs ops v =
     (let (res, v) = sync_window ops v
      in if res = FR_OK then
           let fs = v_fs v;
               v = (if fs_type fs = FS_FAT32 \<and> fs_fsi_flag fs \<noteq> 0 then
                      let win = fsinfo_sector fs;
                          (r, d) = d_write ops (fs_drv fs) win (fs_fsi_sector fs) 1 (v_dsk v)
                      in v\<lparr>v_fs := fs\<lparr>fs_winsect := 0, fs_win := win, fs_fsi_flag := 0\<rparr>, v_dsk := d\<rparr>
                    else v);
               (r, d) = d_ioctl ops (fs_drv (v_fs v)) CTRL_SYNC (v_dsk v)
           in (if r \<noteq> RES_OK then FR_DISK_ERR else res, v\<lparr>v_dsk := d\<rparr>)
         else (res, v))"

section \<open>What a device promises\<close>

text \<open>
  \<open>sec w s\<close> is what sector \<open>s\<close> of the medium holds; a device that is \<open>ready\<close> shows 512 bytes for
  every sector. On a ready device, reading changes nothing; a successful read or write of one sector
  transfers it; a failed write may spoil only the sectors it names; a failed read of one sector
  leaves the buffer alone. Nothing is promised about operations succeeding, nor about what a
  transfer of several sectors at once delivers (see theory \<open>DiskIO\<close> for the reason).
\<close>

definition ready :: "('w \<Rightarrow> u32 \<Rightarrow> byte list) \<Rightarrow> 'w \<Rightarrow> bool" where
  "ready sc w \<longleftrightarrow> (\<forall>s. length (sc w s) = 512)"

locale block_device =
  fixes ops :: "'w disk_ops"
    and sec :: "'w \<Rightarrow> u32 \<Rightarrow> byte list"
  assumes read_keeps: "ready sec w \<Longrightarrow> d_read ops 0 buf s n w = (r, buf', w') \<Longrightarrow> sec w' = sec w"
    and read_length: "ready sec w \<Longrightarrow> d_read ops 0 buf s n w = (r, buf', w') \<Longrightarrow>
      512 * unat n \<le> length buf \<Longrightarrow> length buf' = length buf"
    and read_one: "ready sec w \<Longrightarrow> d_read ops 0 buf s 1 w = (RES_OK, buf', w') \<Longrightarrow>
      length buf = 512 \<Longrightarrow> buf' = sec w s"
    and read_fail: "ready sec w \<Longrightarrow> d_read ops 0 buf s 1 w = (r, buf', w') \<Longrightarrow> r \<noteq> RES_OK \<Longrightarrow>
      length buf = 512 \<Longrightarrow> buf' = buf"
    and write_ready: "ready sec w \<Longrightarrow> d_write ops 0 buf s n w = (r, w') \<Longrightarrow>
      512 * unat n \<le> length buf \<Longrightarrow> ready sec w'"
    and write_one: "ready sec w \<Longrightarrow> d_write ops 0 buf s 1 w = (RES_OK, w') \<Longrightarrow>
      length buf = 512 \<Longrightarrow> sec w' s = buf"
    and write_frame: "ready sec w \<Longrightarrow> d_write ops 0 buf s n w = (r, w') \<Longrightarrow>
      512 * unat n \<le> length buf \<Longrightarrow> (\<forall>i < unat n. t \<noteq> s + of_nat i) \<Longrightarrow> sec w' t = sec w t"
    and ioctl_keeps: "ready sec w \<Longrightarrow> d_ioctl ops 0 c w = (r, w') \<Longrightarrow> sec w' = sec w"
begin

lemma read_one_length: "ready sec w \<Longrightarrow> d_read ops 0 buf s 1 w = (r, buf', w') \<Longrightarrow>
    length buf = 512 \<Longrightarrow> length buf' = 512"
  using read_length [of w buf s 1 r buf' w'] by simp

lemma write_one_frame:
  "ready sec w \<Longrightarrow> d_write ops 0 buf s 1 w = (r, w') \<Longrightarrow> length buf = 512 \<Longrightarrow> t \<noteq> s \<Longrightarrow>
    sec w' t = sec w t"
  using write_frame [of w buf s 1 r w' t] by simp

lemma write_one_ready:
  "ready sec w \<Longrightarrow> d_write ops 0 buf s 1 w = (r, w') \<Longrightarrow> length buf = 512 \<Longrightarrow> ready sec w'"
  using write_ready [of w buf s 1 r w'] by simp

end

section \<open>Geometry and logical contents\<close>

text \<open>
  The FAT copies lie one after the other and do not wrap around the sector numbers. A sector is
  \<open>mirror\<close> when it belongs to a copy other than the first.
\<close>

definition geom :: "fatfs \<Rightarrow> bool" where
  "geom fs \<longleftrightarrow> fs_drv fs = 0 \<and> length (fs_win fs) = 512 \<and> fs_n_fats fs \<noteq> 0 \<and>
     unat (fs_fatbase fs) + unat (fs_n_fats fs) * unat (fs_fsize fs) < 4294967296"

definition mirror :: "fatfs \<Rightarrow> u32 \<Rightarrow> bool" where
  "mirror fs s \<longleftrightarrow> unat (fs_fatbase fs) + unat (fs_fsize fs) \<le> unat s \<and>
     unat s < unat (fs_fatbase fs) + unat (fs_n_fats fs) * unat (fs_fsize fs)"

definition view :: "('w \<Rightarrow> u32 \<Rightarrow> byte list) \<Rightarrow> 'w vol \<Rightarrow> u32 \<Rightarrow> byte list" where
  "view sc v s = (if s = fs_winsect (v_fs v) then fs_win (v_fs v) else sc (v_dsk v) s)"

text \<open>A window that is not dirty shows what the medium holds; sector 0 is exempt, see \<open>sync_fs\<close>.\<close>

definition clean :: "('w \<Rightarrow> u32 \<Rightarrow> byte list) \<Rightarrow> 'w vol \<Rightarrow> bool" where
  "clean sc v \<longleftrightarrow> (fs_wflag (v_fs v) = 0 \<longrightarrow> fs_winsect (v_fs v) = 0 \<or>
     sc (v_dsk v) (fs_winsect (v_fs v)) = fs_win (v_fs v))"

definition vol_ok :: "('w \<Rightarrow> u32 \<Rightarrow> byte list) \<Rightarrow> 'w vol \<Rightarrow> bool" where
  "vol_ok sc v \<longleftrightarrow> geom (v_fs v) \<and> clean sc v \<and> ready sc (v_dsk v)"

text \<open>Everything of the file system object except the window: what the window operations keep.\<close>

definition same_layout :: "fatfs \<Rightarrow> fatfs \<Rightarrow> bool" where
  "same_layout fs fs' \<longleftrightarrow>
     fs'\<lparr>fs_wflag := fs_wflag fs, fs_winsect := fs_winsect fs, fs_win := fs_win fs\<rparr> = fs"

lemma same_layout_fields:
  assumes "same_layout fs fs'"
  shows "fs_type fs' = fs_type fs" "fs_drv fs' = fs_drv fs" "fs_csize fs' = fs_csize fs"
    "fs_n_fats fs' = fs_n_fats fs" "fs_fsi_flag fs' = fs_fsi_flag fs" "fs_id fs' = fs_id fs"
    "fs_n_rootdir fs' = fs_n_rootdir fs" "fs_last_clust fs' = fs_last_clust fs"
    "fs_free_clust fs' = fs_free_clust fs" "fs_fsi_sector fs' = fs_fsi_sector fs"
    "fs_n_fatent fs' = fs_n_fatent fs" "fs_fsize fs' = fs_fsize fs" "fs_volbase fs' = fs_volbase fs"
    "fs_fatbase fs' = fs_fatbase fs" "fs_dirbase fs' = fs_dirbase fs" "fs_database fs' = fs_database fs"
  using assms by (cases fs; cases fs'; simp add: same_layout_def)+

lemma same_layout_refl [simp]: "same_layout fs fs"
  by (simp add: same_layout_def)

lemma same_layout_upd [simp]:
  "same_layout fs fs' \<Longrightarrow> same_layout fs (fs'\<lparr>fs_wflag := a\<rparr>)"
  "same_layout fs fs' \<Longrightarrow> same_layout fs (fs'\<lparr>fs_winsect := b\<rparr>)"
  "same_layout fs fs' \<Longrightarrow> same_layout fs (fs'\<lparr>fs_win := c\<rparr>)"
  by (cases fs; cases fs'; simp add: same_layout_def)+

lemma same_layout_trans: "same_layout a b \<Longrightarrow> same_layout b c \<Longrightarrow> same_layout a c"
  by (cases a; cases b; cases c; simp add: same_layout_def)

lemma same_layout_mirror: "same_layout fs fs' \<Longrightarrow> mirror fs' = mirror fs"
  by (rule ext) (simp add: mirror_def same_layout_fields)

lemma same_layout_geom:
  "same_layout fs fs' \<Longrightarrow> length (fs_win fs') = 512 \<Longrightarrow> geom fs \<Longrightarrow> geom fs'"
  by (simp add: geom_def same_layout_fields)

text \<open>
  The contract of the window operations: same layout, same logical contents outside the FAT
  copies and sector 0, and a volume in order.
\<close>

definition keeps_view :: "('w \<Rightarrow> u32 \<Rightarrow> byte list) \<Rightarrow> 'w vol \<Rightarrow> 'w vol \<Rightarrow> bool" where
  "keeps_view sc v v' \<longleftrightarrow> vol_ok sc v' \<and> same_layout (v_fs v) (v_fs v') \<and>
     (\<forall>s. s \<noteq> 0 \<longrightarrow> \<not> mirror (v_fs v) s \<longrightarrow> view sc v' s = view sc v s)"

lemma keeps_view_refl: "vol_ok sc v \<Longrightarrow> keeps_view sc v v"
  by (simp add: keeps_view_def)

lemma keeps_view_trans: "keeps_view sc u v \<Longrightarrow> keeps_view sc v w \<Longrightarrow> keeps_view sc u w"
  unfolding keeps_view_def using same_layout_trans same_layout_mirror by metis

section \<open>The window preserves the logical contents\<close>

context block_device
begin

lemma sync_copies_frame:
  assumes "geom (v_fs v)"
    and "unat (fs_fatbase (v_fs v)) + k * unat (fs_fsize (v_fs v)) \<le> unat wsect"
    and "unat wsect < unat (fs_fatbase (v_fs v)) + k * unat (fs_fsize (v_fs v)) + unat (fs_fsize (v_fs v))"
    and "k + n < unat (fs_n_fats (v_fs v))" and "ready sec (v_dsk v)"
  shows "v_fs (sync_copies ops n wsect v) = v_fs v \<and> ready sec (v_dsk (sync_copies ops n wsect v)) \<and>
    (\<forall>t. \<not> mirror (v_fs v) t \<longrightarrow> sec (v_dsk (sync_copies ops n wsect v)) t = sec (v_dsk v) t)"
  using assms
proof (induction n arbitrary: k wsect v)
  case 0
  then show ?case by simp
next
  case (Suc n)
  let ?fs = "v_fs v" and ?next = "wsect + fs_fsize (v_fs v)"
  let ?f = "unat (fs_fsize ?fs)" and ?b = "unat (fs_fatbase ?fs)" and ?N = "unat (fs_n_fats ?fs)"
  obtain r d where d: "d_write ops 0 (fs_win ?fs) ?next 1 (v_dsk v) = (r, d)"
    by fastforce
  have drv: "fs_drv ?fs = 0" "length (fs_win ?fs) = 512" using Suc.prems(1) by (simp_all add: geom_def)
  have "(k + 2) * ?f \<le> ?N * ?f" using Suc.prems(4) by (intro mult_le_mono1) simp
  then have kf: "k * ?f + ?f + ?f \<le> ?N * ?f" by simp
  have top: "?b + ?N * ?f < 4294967296" using Suc.prems(1) by (simp add: geom_def)
  have w: "unat ?next = unat wsect + ?f"
    using Suc.prems(3) top kf by (intro unat_add_small) simp
  have "mirror ?fs ?next"
    unfolding mirror_def w using Suc.prems(2,3) kf by linarith
  then have frame: "sec d t = sec (v_dsk v) t" if "\<not> mirror ?fs t" for t
    using that write_one_frame [OF Suc.prems(5) d drv(2)] by metis
  have rd: "ready sec d" by (rule write_one_ready [OF Suc.prems(5) d drv(2)])
  define v1 where "v1 = v\<lparr>v_dsk := d\<rparr>"
  have fs1: "v_fs v1 = ?fs" "ready sec (v_dsk v1)" using rd by (simp_all add: v1_def)
  have step: "sync_copies ops (Suc n) wsect v = sync_copies ops n ?next v1"
    using d drv by (simp add: v1_def Let_def)
  have "unat (fs_fatbase (v_fs v1)) + (k + 1) * unat (fs_fsize (v_fs v1)) \<le> unat ?next"
    "unat ?next < unat (fs_fatbase (v_fs v1)) + (k + 1) * unat (fs_fsize (v_fs v1)) + unat (fs_fsize (v_fs v1))"
    using Suc.prems(2,3) w by (simp_all add: fs1)
  moreover have "geom (v_fs v1)" "k + 1 + n < unat (fs_n_fats (v_fs v1))"
    using Suc.prems(1,4) by (simp_all add: fs1)
  ultimately have "v_fs (sync_copies ops n ?next v1) = v_fs v1 \<and>
    ready sec (v_dsk (sync_copies ops n ?next v1)) \<and> (\<forall>t. \<not> mirror (v_fs v1) t \<longrightarrow> sec (v_dsk (sync_copies ops n ?next v1)) t = sec (v_dsk v1) t)"
    using Suc.IH [of v1 "k + 1" ?next] fs1(2) by blast
  then show ?case using frame by (simp add: step fs1 del: sync_copies.simps) (simp add: v1_def)
qed

text \<open>Writing the other FAT copies after the window's own sector.\<close>

lemma sync_copies_all:
  assumes g: "geom (v_fs v)" and w: "fs_fatbase (v_fs v) \<le> w" "w < fs_fatbase (v_fs v) + fs_fsize (v_fs v)"
    and r: "ready sec (v_dsk v)"
  shows "v_fs (sync_copies ops (unat (fs_n_fats (v_fs v)) - 1) w v) = v_fs v \<and> \<not> mirror (v_fs v) w \<and>
    ready sec (v_dsk (sync_copies ops (unat (fs_n_fats (v_fs v)) - 1) w v)) \<and>
    (\<forall>t. \<not> mirror (v_fs v) t \<longrightarrow>
      sec (v_dsk (sync_copies ops (unat (fs_n_fats (v_fs v)) - 1) w v)) t = sec (v_dsk v) t)"
proof -
  let ?fs = "v_fs v"
  have N: "0 < unat (fs_n_fats ?fs)" using g by (simp add: geom_def unat_gt_0)
  then have "unat (fs_fsize ?fs) \<le> unat (fs_n_fats ?fs) * unat (fs_fsize ?fs)"
    by (cases "unat (fs_n_fats ?fs)") simp_all
  moreover have "unat (fs_fatbase ?fs) + unat (fs_n_fats ?fs) * unat (fs_fsize ?fs) < 4294967296"
    using g by (simp add: geom_def)
  ultimately have "unat (fs_fatbase ?fs) + unat (fs_fsize ?fs) < 4294967296" by linarith
  then have "unat (fs_fatbase ?fs + fs_fsize ?fs) = unat (fs_fatbase ?fs) + unat (fs_fsize ?fs)"
    by (intro unat_add_small) simp
  then have rng: "unat (fs_fatbase ?fs) \<le> unat w" "unat w < unat (fs_fatbase ?fs) + unat (fs_fsize ?fs)"
    using w by (auto simp: word_le_nat_alt word_less_nat_alt)
  then have "\<not> mirror ?fs w" by (simp add: mirror_def)
  with sync_copies_frame [of v 0 w "unat (fs_n_fats ?fs) - 1"] g rng N r show ?thesis by simp
qed

lemma sync_window_dirty:
  assumes g: "geom (v_fs v)" and dirty: "fs_wflag (v_fs v) \<noteq> 0" and rd: "ready sec (v_dsk v)"
    and d: "d_write ops 0 (fs_win (v_fs v)) (fs_winsect (v_fs v)) 1 (v_dsk v) = (r, d)"
  shows "\<exists>v'. sync_window ops v = (if r = RES_OK then FR_OK else FR_DISK_ERR, v') \<and>
    v_fs v' = (if r = RES_OK then (v_fs v)\<lparr>fs_wflag := 0\<rparr> else v_fs v) \<and> ready sec (v_dsk v') \<and>
    (\<forall>t. \<not> mirror (v_fs v) t \<longrightarrow> sec (v_dsk v') t = sec d t) \<and>
    sec (v_dsk v') (fs_winsect (v_fs v)) = sec d (fs_winsect (v_fs v))"
proof (cases "r = RES_OK")
  case False
  moreover have "ready sec d" using write_one_ready [OF rd d] g by (simp add: geom_def)
  ultimately show ?thesis using dirty d g by (simp add: sync_window_def Let_def geom_def)
next
  case True
  let ?fs = "v_fs v"
  have rd1: "ready sec d" using write_one_ready [OF rd d] g by (simp add: geom_def)
  define v1 where "v1 = v\<lparr>v_fs := ?fs\<lparr>fs_wflag := 0\<rparr>, v_dsk := d\<rparr>"
  have fs1: "v_fs v1 = ?fs\<lparr>fs_wflag := 0\<rparr>" "v_dsk v1 = d" by (simp_all add: v1_def)
  have m: "mirror (v_fs v1) = mirror ?fs" by (rule ext) (simp add: mirror_def fs1)
  have g1: "geom (v_fs v1)" using g by (simp add: geom_def fs1)
  have sw: "sync_window ops v = (FR_OK, if fs_fatbase ?fs \<le> fs_winsect ?fs \<and> fs_winsect ?fs < fs_fatbase ?fs + fs_fsize ?fs
      then sync_copies ops (unat (fs_n_fats ?fs) - 1) (fs_winsect ?fs) v1 else v1)"
    using dirty d g True by (simp add: sync_window_def Let_def geom_def v1_def)
  show ?thesis
  proof (cases "fs_fatbase ?fs \<le> fs_winsect ?fs \<and> fs_winsect ?fs < fs_fatbase ?fs + fs_fsize ?fs")
    case True
    with sync_copies_all [of v1 "fs_winsect ?fs"] g1 m sw rd1 \<open>r = RES_OK\<close> show ?thesis
      by (simp add: fs1)
  next
    case False
    with sw rd1 \<open>r = RES_OK\<close> show ?thesis by (auto simp: fs1)
  qed
qed

lemma sync_window_keeps:
  assumes ok: "vol_ok sec v" and s: "sync_window ops v = (res, v')"
  shows "keeps_view sec v v' \<and> fs_winsect (v_fs v') = fs_winsect (v_fs v) \<and>
    fs_win (v_fs v') = fs_win (v_fs v) \<and> (res = FR_OK \<longrightarrow> fs_wflag (v_fs v') = 0) \<and>
    (res = FR_OK \<or> res = FR_DISK_ERR)"
proof (cases "fs_wflag (v_fs v) = 0")
  case True
  with ok s show ?thesis by (auto simp: sync_window_def keeps_view_refl)
next
  case dirty: False
  let ?fs = "v_fs v"
  have g: "geom ?fs" "length (fs_win ?fs) = 512" and rd: "ready sec (v_dsk v)"
    using ok by (auto simp: vol_ok_def geom_def)
  obtain r d where d: "d_write ops 0 (fs_win ?fs) (fs_winsect ?fs) 1 (v_dsk v) = (r, d)"
    by fastforce
  from sync_window_dirty [OF g(1) dirty rd d] s have
    rd': "ready sec (v_dsk v')" and
    res: "res = (if r = RES_OK then FR_OK else FR_DISK_ERR)" and
    fs': "v_fs v' = (if r = RES_OK then ?fs\<lparr>fs_wflag := 0\<rparr> else ?fs)" and
    fr: "\<And>t. \<not> mirror ?fs t \<Longrightarrow> sec (v_dsk v') t = sec d t" and
    at_w: "sec (v_dsk v') (fs_winsect ?fs) = sec d (fs_winsect ?fs)" by auto
  have "r = RES_OK \<Longrightarrow> sec d (fs_winsect ?fs) = fs_win ?fs"
    using write_one [OF rd] d g(2) by blast
  then have "clean sec v'" using dirty fs' at_w by (simp add: clean_def)
  moreover have "geom (v_fs v')" using g(1) fs' by (simp add: geom_def)
  moreover have "view sec v' t = view sec v t" if "\<not> mirror ?fs t" for t
    using that fr write_one_frame [OF rd d g(2)] fs' by (simp add: view_def)
  ultimately show ?thesis using res fs' rd' by (simp add: keeps_view_def vol_ok_def)
qed

lemma move_window_keeps:
  assumes ok: "vol_ok sec v" and m: "move_window ops s v = (res, v')"
  shows "keeps_view sec v v' \<and> (res = FR_OK \<or> res = FR_DISK_ERR) \<and>
    (res = FR_OK \<longrightarrow> fs_winsect (v_fs v') = s \<and> (s \<noteq> 0 \<longrightarrow> \<not> mirror (v_fs v) s \<longrightarrow>
      fs_win (v_fs v') = view sec v s))"
proof (cases "s = fs_winsect (v_fs v)")
  case True
  with ok m show ?thesis by (auto simp: move_window_def keeps_view_refl view_def)
next
  case False
  obtain res1 v1 where s1: "sync_window ops v = (res1, v1)" by fastforce
  have k1: "keeps_view sec v v1" "fs_winsect (v_fs v1) = fs_winsect (v_fs v)" "fs_win (v_fs v1) = fs_win (v_fs v)"
    "res1 = FR_OK \<Longrightarrow> fs_wflag (v_fs v1) = 0"
    using sync_window_keeps [OF ok s1] by auto
  show ?thesis
  proof (cases "res1 = FR_OK")
    case err: False
    with False m s1 have "v' = v1" "res = FR_DISK_ERR" by (auto simp: move_window_def)
    with k1(1) show ?thesis by simp
  next
    case ok1: True
    let ?fs = "v_fs v1"
    have g1: "geom ?fs" "length (fs_win ?fs) = 512" "fs_drv ?fs = 0" and c1: "clean sec v1"
      and r1: "ready sec (v_dsk v1)"
      using k1(1) by (auto simp: keeps_view_def vol_ok_def geom_def)
    obtain r win d where rd: "d_read ops 0 (fs_win ?fs) s 1 (v_dsk v1) = (r, win, d)"
      by (metis prod_cases3)
    have d: "sec d = sec (v_dsk v1)" and win: "length win = 512"
      using read_keeps [OF r1 rd] read_one_length [OF r1 rd g1(2)] by auto
    have rd': "ready sec d" using r1 d by (simp add: ready_def)
    have lay: "same_layout (v_fs v) ?fs" using k1(1) by (simp add: keeps_view_def)
    define v2 where "v2 = v1\<lparr>v_fs := ?fs\<lparr>fs_win := win\<rparr>, v_dsk := d\<rparr>"
    show ?thesis
    proof (cases "r = RES_OK")
      case True
      then have v': "v' = upd_fs (fs_winsect_update (\<lambda>_. s)) v2" "res = FR_OK"
        using False m s1 ok1 rd g1(3) by (auto simp: move_window_def Let_def v2_def)
      have "win = sec (v_dsk v1) s" using read_one [OF r1] rd True g1(2) by blast
      moreover have "view sec v1 s = sec (v_dsk v1) s" using False k1(2) by (simp add: view_def)
      ultimately have at_s: "win = view sec v1 s" by simp
      have "view sec v' t = view sec v1 t" if "t \<noteq> 0" for t
      proof (cases "t = fs_winsect ?fs")
        case True
        then have "sec (v_dsk v1) t = fs_win ?fs"
          using c1 k1(4) ok1 that by (simp add: clean_def)
        with True at_s d show ?thesis by (simp add: view_def v' v2_def)
      next
        case False
        with at_s d show ?thesis by (simp add: view_def v' v2_def)
      qed
      then have "keeps_view sec v1 v'"
        using g1 d rd' win at_s False k1(2)
        by (simp add: keeps_view_def vol_ok_def clean_def v' v2_def geom_def view_def)
      with k1(1) at_s have "keeps_view sec v v'" by (blast intro: keeps_view_trans)
      moreover have "fs_win (v_fs v') = view sec v s" if "s \<noteq> 0" "\<not> mirror (v_fs v) s"
        using that at_s k1(1) by (simp add: v' v2_def keeps_view_def)
      ultimately show ?thesis using v' by (simp add: v2_def)
    next
      case False
      then have v': "v' = v2" "res = FR_DISK_ERR"
        using \<open>s \<noteq> fs_winsect (v_fs v)\<close> m s1 ok1 rd g1(3) by (auto simp: move_window_def Let_def v2_def)
      have "win = fs_win ?fs" using read_fail [OF r1 rd False g1(2)] .
      then have "keeps_view sec v1 v'"
        using g1 c1 d rd' by (simp add: keeps_view_def vol_ok_def clean_def v' v2_def geom_def view_def)
      with k1(1) v'(2) show ?thesis by (blast intro: keeps_view_trans)
    qed
  qed
qed

end

end
