(* ===== verification/SdCard.thy ===== *)
theory SdCard
  imports Prelude
begin

text \<open>
  The SD card driver \<^verbatim>\<open>sd.cpp\<close>: the SPI command protocol, card initialization, and single sector
  reads and writes.

  The hardware is a parameter: a card state \<open>'c\<close> with the chip select line and the exchange of one
  byte over SPI. The driver's file-level variables are a record. Messages to the console are left
  out; they do not influence the driver. The four byte-wise response reads are modelled in the order
  they are written (C++ leaves the order of the operands open).
\<close>

section \<open>Hardware and state\<close>

record 'c card_if =
  c_sel :: "bool \<Rightarrow> 'c \<Rightarrow> 'c"
  c_xfer :: "byte \<Rightarrow> 'c \<Rightarrow> byte \<times> 'c"

record 'c sd =
  typeSDSC :: bool
  initialized :: bool
  sd_sectors :: u32
  sd_card :: 'c

definition CMD0 :: byte where "CMD0 = 0"
definition CMD8 :: byte where "CMD8 = 8"
definition CMD9 :: byte where "CMD9 = 9"
definition CMD10 :: byte where "CMD10 = 10"
definition CMD13 :: byte where "CMD13 = 13"
definition CMD17 :: byte where "CMD17 = 17"
definition CMD24 :: byte where "CMD24 = 24"
definition ACMD41 :: byte where "ACMD41 = 41"
definition CMD55 :: byte where "CMD55 = 55"
definition CMD58 :: byte where "CMD58 = 58"

definition rspR1_OK :: byte where "rspR1_OK = 0"
definition rspR1_IDLE :: byte where "rspR1_IDLE = 1"
definition rspR1_ILLCMD :: byte where "rspR1_ILLCMD = 4"
definition rspR2_OK :: byte where "rspR2_OK = 0"

lemmas sd_codes = CMD0_def CMD8_def CMD9_def CMD10_def CMD13_def CMD17_def CMD24_def ACMD41_def
  CMD55_def CMD58_def rspR1_OK_def rspR1_IDLE_def rspR1_ILLCMD_def rspR2_OK_def

section \<open>Bytes, commands and responses\<close>

definition chipEnable :: "'c card_if \<Rightarrow> bool \<Rightarrow> 'c sd \<Rightarrow> 'c sd" where
  "chipEnable io e s = s\<lparr>sd_card := c_sel io e (sd_card s)\<rparr>"

definition transactData :: "'c card_if \<Rightarrow> byte \<Rightarrow> 'c sd \<Rightarrow> byte \<times> 'c sd" where
  "transactData io b s = (let (r, c) = c_xfer io b (sd_card s) in (r, s\<lparr>sd_card := c\<rparr>))"

text \<open>Sending bytes whose answers are ignored, and polling until the answer is not all ones.\<close>

fun send_bytes :: "'c card_if \<Rightarrow> byte list \<Rightarrow> 'c sd \<Rightarrow> 'c sd" where
  "send_bytes io [] s = s"
| "send_bytes io (b # bs) s = send_bytes io bs (snd (transactData io b s))"

fun poll :: "'c card_if \<Rightarrow> nat \<Rightarrow> 'c sd \<Rightarrow> byte \<times> 'c sd" where
  "poll io 0 s = (0xFF, s)"
| "poll io (Suc n) s =
     (let (r, s) = transactData io 0xFF s
      in if r \<noteq> 0xFF \<or> n = 0 then (r, s) else poll io n s)"

fun receive :: "'c card_if \<Rightarrow> nat \<Rightarrow> 'c sd \<Rightarrow> byte list \<times> 'c sd" where
  "receive io 0 s = ([], s)"
| "receive io (Suc n) s =
     (let (b, s) = transactData io 0xFF s; (bs, s) = receive io n s in (b # bs, s))"

definition sendCommand :: "'c card_if \<Rightarrow> byte \<Rightarrow> u32 \<Rightarrow> byte \<Rightarrow> 'c sd \<Rightarrow> byte \<times> 'c sd" where
  "sendCommand io cmd data crc s =
     poll io 8 (send_bytes io
       [(cmd AND NOT 0x80) OR 0x40, ucast (drop_bit 24 data), ucast (drop_bit 16 data),
        ucast (drop_bit 8 data), ucast data, crc] s)"

definition getR2Response :: "'c card_if \<Rightarrow> 'c sd \<Rightarrow> byte \<times> 'c sd" where
  "getR2Response io s = transactData io 0xFF s"

definition get_word :: "'c card_if \<Rightarrow> 'c sd \<Rightarrow> u32 \<times> 'c sd" where
  "get_word io s =
     (let (a, s) = transactData io 0xFF s; (b, s) = transactData io 0xFF s;
          (c, s) = transactData io 0xFF s; (d, s) = transactData io 0xFF s
      in (push_bit 24 (ucast a) OR push_bit 16 (ucast b) OR push_bit 8 (ucast c) OR ucast d, s))"

definition getR3Response :: "'c card_if \<Rightarrow> 'c sd \<Rightarrow> u32 \<times> 'c sd" where
  "getR3Response = get_word"

definition getR7Response :: "'c card_if \<Rightarrow> 'c sd \<Rightarrow> u32 \<times> 'c sd" where
  "getR7Response = get_word"

definition findReadStartToken :: "'c card_if \<Rightarrow> 'c sd \<Rightarrow> byte \<times> 'c sd" where
  "findReadStartToken io s = poll io 1023 s"

definition sendWriteStartToken :: "'c card_if \<Rightarrow> 'c sd \<Rightarrow> 'c sd" where
  "sendWriteStartToken io s = send_bytes io [0xFF, 0xFE] s"

section \<open>Reading and writing a sector\<close>

text \<open>A read returns what it stored at \<^verbatim>\<open>buf\<close>: nothing, or 512 bytes.\<close>

definition sdReadSector :: "'c card_if \<Rightarrow> u32 \<Rightarrow> 'c sd \<Rightarrow> byte list option \<times> 'c sd" where
  "sdReadSector io sector s =
     (if \<not> initialized s then (None, s)
      else let sector = (if typeSDSC s then push_bit 9 sector else sector);
               s = chipEnable io True s;
               (rsp17, s) = sendCommand io CMD17 sector 0xFF s
           in if rsp17 \<noteq> rspR1_OK then (None, chipEnable io False s)
              else let (readToken, s) = findReadStartToken io s
                   in if readToken \<noteq> 0xFE then (None, chipEnable io False s)
                      else let (buf, s) = receive io 512 s;
                               s = send_bytes io [0xFF, 0xFF] s;
                               s = chipEnable io False s;
                               s = snd (transactData io 0xFF s)
                           in (Some buf, s))"

text \<open>The busy loop of a write ends at the first non-zero byte, or after 65537 bytes.\<close>

fun wait_busy :: "'c card_if \<Rightarrow> nat \<Rightarrow> 'c sd \<Rightarrow> bool \<times> 'c sd" where
  "wait_busy io n s =
     (let (token, s) = transactData io 0xFF s
      in case n of 0 \<Rightarrow> (False, s)
         | Suc n \<Rightarrow> if token = 0 then wait_busy io n s else (True, s))"

declare wait_busy.simps [simp del]

definition sdWriteSector :: "'c card_if \<Rightarrow> byte list \<Rightarrow> u32 \<Rightarrow> 'c sd \<Rightarrow> bool \<times> 'c sd" where
  "sdWriteSector io buf sector s =
     (if \<not> initialized s then (False, s)
      else let sector = (if typeSDSC s then push_bit 9 sector else sector);
               s = chipEnable io True s;
               (rsp24, s) = sendCommand io CMD24 sector 0xFF s
           in if rsp24 \<noteq> rspR1_OK then (False, s)
              else let s = sendWriteStartToken io s;
                       s = send_bytes io (take 512 buf) s;
                       s = send_bytes io [0xFF, 0xFF] s;
                       (dataResponse, s) = transactData io 0xFF s
                   in if dataResponse AND 0x1F \<noteq> 0x05 then (False, s)
                      else let (done, s) = wait_busy io 65536 s
                           in if \<not> done then (False, s)
                              else let (rsp13, s) = sendCommand io CMD13 0 0xFF s
                                   in if rsp13 \<noteq> rspR1_OK then (False, s)
                                      else let (r2, s) = getR2Response io s
                                           in if r2 \<noteq> rspR2_OK then (False, s)
                                              else (True, chipEnable io False (snd (transactData io 0xFF s))))"

definition sdStatus :: "'c sd \<Rightarrow> bool" where
  "sdStatus s = initialized s"

section \<open>Initialization\<close>

fun sd_reset :: "'c card_if \<Rightarrow> nat \<Rightarrow> 'c sd \<Rightarrow> bool \<times> 'c sd" where
  "sd_reset io n s =
     (let s = chipEnable io False s;
          s = send_bytes io (replicate 10 0xFF) s;
          s = chipEnable io True s;
          (rsp0, s) = sendCommand io CMD0 0 0x95 s;
          s = chipEnable io False s;
          s = snd (transactData io 0xFF s)
      in if rsp0 = rspR1_IDLE then (True, s)
         else case n of 0 \<Rightarrow> (False, s) | Suc n \<Rightarrow> sd_reset io n s)"

declare sd_reset.simps [simp del]

text \<open>Waiting for a version 2 card to leave the idle state.\<close>

fun sd_op_cond2 :: "'c card_if \<Rightarrow> nat \<Rightarrow> 'c sd \<Rightarrow> bool \<times> 'c sd" where
  "sd_op_cond2 io n s =
     (let s = chipEnable io True s;
          (rsp55, s) = sendCommand io CMD55 0 0xFF s;
          s = chipEnable io False s;
          s = snd (transactData io 0xFF s)
      in if rsp55 \<noteq> rspR1_IDLE then (False, s)
         else let s = chipEnable io True s;
                  (rsp41, s) = sendCommand io ACMD41 0x40000000 0xFF s;
                  s = chipEnable io False s;
                  s = snd (transactData io 0xFF s)
              in if rsp41 = rspR1_OK then (True, s)
                 else case n of 0 \<Rightarrow> (False, s) | Suc n \<Rightarrow> sd_op_cond2 io n s)"

declare sd_op_cond2.simps [simp del]

fun sd_op_cond1 :: "'c card_if \<Rightarrow> nat \<Rightarrow> 'c sd \<Rightarrow> bool \<times> 'c sd" where
  "sd_op_cond1 io n s =
     (let s = chipEnable io True s;
          (rsp41, s) = sendCommand io ACMD41 0x40000000 0xFF s;
          s = chipEnable io False s;
          s = snd (transactData io 0xFF s)
      in if rsp41 = rspR1_OK then (True, s)
         else case n of 0 \<Rightarrow> (False, s) | Suc n \<Rightarrow> sd_op_cond1 io n s)"

declare sd_op_cond1.simps [simp del]

text \<open>A register is 20 bytes after a start token that comes within 100 bytes.\<close>

fun sd_register :: "'c card_if \<Rightarrow> nat \<Rightarrow> 'c sd \<Rightarrow> byte list option \<times> 'c sd" where
  "sd_register io 0 s = (None, s)"
| "sd_register io (Suc n) s =
     (let (sync, s) = transactData io 0xFF s
      in if sync = 0xFE then let (buf, s) = receive io 20 s in (Some buf, s)
         else sd_register io n s)"

text \<open>The number of sectors from the CSD register, version 1.0 and 2.0.\<close>

definition csd_sectors :: "byte list \<Rightarrow> u32" where
  "csd_sectors buf =
     (let b = (\<lambda>i. (ucast (buf ! i) :: u32)); v = drop_bit 6 (b 0)
      in if v = 0 then
           let c_size = push_bit 10 (b 6 AND 3) + push_bit 2 (b 7) + drop_bit 6 (b 8) + 1;
               mult = (b 5 AND 0x0F) + push_bit 1 (b 9 AND 0x03) + drop_bit 7 (b 10) + 2
           in push_bit (unat (mult - 9)) c_size
         else if v = 1 then
           let c_size = push_bit 8 (b 8) + b 9 + 1 in push_bit 10 c_size
         else 0)"

text \<open>The part of a version 2 initialization that follows a good R7 response.\<close>

definition sd_init2 :: "'c card_if \<Rightarrow> 'c sd \<Rightarrow> bool \<times> 'c sd" where
  "sd_init2 io s =
     (let (ok, s) = sd_op_cond2 io 1000 s
      in if \<not> ok then (False, s)
         else let s = chipEnable io True s;
                  (rsp58, s) = sendCommand io CMD58 0 0xFF s
              in if rsp58 \<noteq> rspR1_OK then (False, chipEnable io False s)
                 else let (r3, s) = getR3Response io s;
                          s = chipEnable io False s;
                          s = snd (transactData io 0xFF s);
                          m = r3 AND 0xC0300000;
                          s = (if m \<in> {0xC0100000, 0xC0200000, 0xC0300000}
                               then s\<lparr>typeSDSC := False, initialized := True\<rparr>
                               else if m \<in> {0x80100000, 0x80200000, 0x80300000}
                               then s\<lparr>typeSDSC := True, initialized := True\<rparr> else s);
                          s = chipEnable io True s;
                          (rsp10, s) = sendCommand io CMD10 0 0xFF s
                      in if rsp10 \<noteq> rspR1_OK then (False, chipEnable io False s)
                         else let (cid, s) = sd_register io 100 s;
                                  s = chipEnable io False s;
                                  s = snd (transactData io 0xFF s);
                                  s = chipEnable io True s;
                                  (rsp9, s) = sendCommand io CMD9 0 0xFF s
                              in if rsp9 \<noteq> rspR1_OK then (False, chipEnable io False s)
                                 else let (csd, s) = sd_register io 100 s;
                                          s = (case csd of None \<Rightarrow> s
                                               | Some buf \<Rightarrow> s\<lparr>sd_sectors := csd_sectors buf\<rparr>)
                                      in (initialized s, s))"

text \<open>Version 1 cards.\<close>

definition sd_init1 :: "'c card_if \<Rightarrow> 'c sd \<Rightarrow> bool \<times> 'c sd" where
  "sd_init1 io s =
     (let s = chipEnable io False s;
          s = chipEnable io True s;
          (rsp58, s) = sendCommand io CMD58 0 0xFF s
      in if rsp58 \<noteq> rspR1_OK then (False, chipEnable io False s)
         else let (r3, s) = getR3Response io s;
                  s = chipEnable io False s;
                  s = snd (transactData io 0xFF s)
              in if r3 \<noteq> 0xE0FF8000 then (False, s)
                 else let (ok, s) = sd_op_cond1 io 10 s
                      in if \<not> ok then (False, s) else (True, s\<lparr>initialized := True\<rparr>))"

definition sdInitialize :: "'c card_if \<Rightarrow> 'c sd \<Rightarrow> bool \<times> 'c sd" where
  "sdInitialize io s =
     (let s = s\<lparr>initialized := False\<rparr>;
          (ok, s) = sd_reset io 10 s
      in if \<not> ok then (False, s)
         else let s = chipEnable io True s;
                  (rsp8, s) = sendCommand io CMD8 0x000001AA 0x87 s
              in if rsp8 = rspR1_IDLE then
                   let (r7, s) = getR7Response io s;
                       s = chipEnable io False s;
                       s = snd (transactData io 0xFF s)
                   in if r7 AND 0x0000FFFF \<noteq> 0x000001AA then (False, s) else sd_init2 io s
                 else if rsp8 = (rspR1_ILLCMD OR rspR1_IDLE) then sd_init1 io s
                 else (initialized s, s))"

end
