(* ===== verification/SdSim.thy ===== *)
theory SdSim
  imports SdCard
begin

text \<open>
  A simulated high-capacity SD card in SPI mode, after the SD specification: command frames of six
  bytes, an R1 answer one byte later, data blocks with a start token and two check bytes, a data
  response and a busy byte after a written block. It can be told to fail commands. It stands for the
  hardware behind the read and write operations of an initialized driver: the driver's laws are discharged
  on it, and the examples run on it. The initialization sequence has a card of its own, in theory \<open>SdInit\<close>.
\<close>

section \<open>The card\<close>

datatype sim_mode = SIdle | SFrame "byte list" | SReply "byte list" sim_mode | SToken u32 | SData u32 "byte list"

text \<open>Each read or write command takes one element of the fault list; \<open>True\<close> makes it fail.\<close>

record sim =
  sim_mem :: "u32 \<Rightarrow> byte list"
  sim_mode :: sim_mode
  sim_faults :: "bool list"

definition go :: "sim_mode \<Rightarrow> sim \<Rightarrow> sim" where
  "go m c = c\<lparr>sim_mode := m\<rparr>"

definition be_word :: "byte \<Rightarrow> byte \<Rightarrow> byte \<Rightarrow> byte \<Rightarrow> u32" where
  "be_word a b c d = push_bit 24 (ucast a) OR push_bit 16 (ucast b) OR push_bit 8 (ucast c) OR ucast d"

definition take_fault :: "sim \<Rightarrow> bool \<times> sim" where
  "take_fault c = (case sim_faults c of [] \<Rightarrow> (False, c) | f # fs \<Rightarrow> (f, c\<lparr>sim_faults := fs\<rparr>))"

definition sim_cmd :: "byte \<Rightarrow> u32 \<Rightarrow> sim \<Rightarrow> sim" where
  "sim_cmd cmd a c =
     (if cmd = 0x51 then let (f, c) = take_fault c in
        if f then go (SReply [0xFF, 0x00, 0xFF, 0x08] SIdle) c
        else go (SReply ([0xFF, 0x00, 0xFF, 0xFE] @ sim_mem c a @ [0xFF, 0xFF]) SIdle) c
      else if cmd = 0x58 then let (f, c) = take_fault c in
        if f then go (SReply [0xFF, 0x20] SIdle) c else go (SReply [0xFF, 0x00] (SToken a)) c
      else if cmd = 0x4D then go (SReply [0xFF, 0x00, 0x00] SIdle) c
      else go (SReply [0xFF, 0x05] SIdle) c)"

fun sim_xfer_mode :: "sim_mode \<Rightarrow> byte \<Rightarrow> sim \<Rightarrow> byte \<times> sim" where
  "sim_xfer_mode SIdle b c = (0xFF, if b AND 0xC0 = 0x40 then go (SFrame [b]) c else c)"
| "sim_xfer_mode (SFrame bs) b c =
     (0xFF, case bs of [cmd, x, y, z, w] \<Rightarrow> sim_cmd cmd (be_word x y z w) c | _ \<Rightarrow> go (SFrame (bs @ [b])) c)"
| "sim_xfer_mode (SReply [] m) b c = (0xFF, go m c)"
| "sim_xfer_mode (SReply (x # q) m) b c = (x, go (if q = [] then m else SReply q m) c)"
| "sim_xfer_mode (SToken a) b c = (0xFF, if b = 0xFE then go (SData a []) c else c)"
| "sim_xfer_mode (SData a bs) b c =
     (0xFF, if length bs = 513
            then go (SReply [0x05, 0x00, 0xFF] SIdle) (c\<lparr>sim_mem := (sim_mem c)(a := take 512 bs)\<rparr>)
            else go (SData a (bs @ [b])) c)"

definition sim_xfer :: "byte \<Rightarrow> sim \<Rightarrow> byte \<times> sim" where
  "sim_xfer b c = sim_xfer_mode (sim_mode c) b c"

text \<open>A change of the select line makes the card wait for a command.\<close>

definition sim_sel :: "bool \<Rightarrow> sim \<Rightarrow> sim" where
  "sim_sel e c = go SIdle c"

definition sim_io :: "sim card_if" where
  "sim_io = \<lparr>c_sel = sim_sel, c_xfer = sim_xfer\<rparr>"

section \<open>The driver on the card\<close>

abbreviation at_mode :: "sim_mode \<Rightarrow> sim sd \<Rightarrow> sim sd" where
  "at_mode m s \<equiv> s\<lparr>sd_card := go m (sd_card s)\<rparr>"

lemma go_simps [simp]:
  "sim_mode (go m c) = m" "sim_mem (go m c) = sim_mem c" "sim_faults (go m c) = sim_faults c"
  "go m (go n c) = go m c" "go m (c\<lparr>sim_mode := n\<rparr>) = go m c"
  by (simp_all add: go_def)

lemma sim_io_simps [simp]: "c_sel sim_io = sim_sel" "c_xfer sim_io = sim_xfer"
  by (simp_all add: sim_io_def)

lemma sim_select [simp]: "chipEnable sim_io e s = at_mode SIdle s"
  by (simp add: chipEnable_def sim_sel_def)

lemma sim_transact:
  "transactData sim_io b s = (let (r, c) = sim_xfer_mode (sim_mode (sd_card s)) b (sd_card s)
     in (r, s\<lparr>sd_card := c\<rparr>))"
  by (simp add: transactData_def sim_xfer_def)

lemma be_word_split:
  "be_word (ucast (drop_bit 24 a)) (ucast (drop_bit 16 a)) (ucast (drop_bit 8 a)) (ucast a) = a"
proof (rule bit_word_eqI)
  fix i assume "i < LENGTH(32)"
  then consider "i < 8" | "8 \<le> i" "i < 16" | "16 \<le> i" "i < 24" | "24 \<le> i" "i < 32" by fastforce
  then show "bit (be_word (ucast (drop_bit 24 a)) (ucast (drop_bit 16 a)) (ucast (drop_bit 8 a)) (ucast a)) i = bit a i"
    by cases (auto simp: be_word_def bit_simps)
qed

text \<open>A command frame reaches the card in six bytes.\<close>

lemma sim_frame:
  assumes "sim_mode (sd_card s) = SIdle" "c AND 0xC0 = 0x40"
  shows "send_bytes sim_io [c, x, y, z, w, crc] s = s\<lparr>sd_card := sim_cmd c (be_word x y z w) (go (SFrame [c, x, y, z, w]) (sd_card s))\<rparr>"
  using assms by (simp add: sim_transact)

lemma sim_cmd_mode [simp]: "sim_cmd cmd a (go m c) = sim_cmd cmd a c"
  by (cases "sim_faults c") (simp_all add: sim_cmd_def take_fault_def go_def split: prod.split)

text \<open>Reading from and writing to the card in bulk.\<close>

lemma sim_receive:
  "sim_mode (sd_card s) = SReply (bs @ rest) m \<Longrightarrow> rest \<noteq> [] \<Longrightarrow>
    receive sim_io (length bs) s = (bs, if bs = [] then s else at_mode (SReply rest m) s)"
  by (induction bs arbitrary: s) (simp_all add: sim_transact)

lemma sim_send_data:
  "sim_mode (sd_card s) = SData a acc \<Longrightarrow> length acc + length bs \<le> 513 \<Longrightarrow>
    send_bytes sim_io bs s = (if bs = [] then s else at_mode (SData a (acc @ bs)) s)"
  by (induction bs arbitrary: s acc) (simp_all add: sim_transact)

lemma sim_poll:
  assumes "sim_mode (sd_card s) = SReply (0xFF # x # q) m" "x \<noteq> 0xFF" "2 \<le> n"
  shows "poll sim_io n s = (x, at_mode (if q = [] then m else SReply q m) s)"
proof -
  obtain k where "n = Suc (Suc k)" using assms(3) by (metis Suc_diff_le diff_Suc_Suc le_Suc_ex numeral_2_eq_2 add_Suc)
  with assms show ?thesis by (simp add: sim_transact)
qed

text \<open>The answer to a command.\<close>

lemma sim_sendCommand:
  assumes "(cmd AND NOT 0x80) OR 0x40 = cb" "cb AND 0xC0 = 0x40" "sim_mode (sd_card s) = SIdle"
    and "sim_cmd cb a (sd_card s) = go (SReply (0xFF # x # q) m) c" "x \<noteq> 0xFF"
  shows "sendCommand sim_io cmd a crc s = (x, s\<lparr>sd_card := go (if q = [] then m else SReply q m) c\<rparr>)"
  unfolding sendCommand_def assms(1) sim_frame [OF assms(3,2)] sim_cmd_mode be_word_split assms(4)
  using sim_poll [of "s\<lparr>sd_card := go (SReply (0xFF # x # q) m) c\<rparr>" x q m 8] assms(5) by simp

definition pop_fault :: "sim \<Rightarrow> sim" where
  "pop_fault c = c\<lparr>sim_faults := tl (sim_faults c)\<rparr>"

abbreviation failing :: "sim \<Rightarrow> bool" where
  "failing c \<equiv> sim_faults c \<noteq> [] \<and> hd (sim_faults c)"

lemma pop_fault_simps [simp]:
  "sim_mem (pop_fault c) = sim_mem c" "sim_faults (pop_fault c) = tl (sim_faults c)" "pop_fault (go m c) = go m (pop_fault c)"
  by (simp_all add: pop_fault_def go_def)

lemma take_fault_eq: "take_fault c = (failing c, pop_fault c)"
  by (cases "sim_faults c") (simp_all add: take_fault_def pop_fault_def)

text \<open>Reading a sector delivers it, or nothing when the card reports an error.\<close>

lemma sim_read:
  assumes i: "initialized s" "\<not> typeSDSC s" and l: "length (sim_mem (sd_card s) a) = 512"
  shows "sdReadSector sim_io a s =
    (if failing (sd_card s) then None else Some (sim_mem (sd_card s) a),
     s\<lparr>sd_card := go SIdle (pop_fault (sd_card s))\<rparr>)"
proof -
  let ?c = "sd_card s" and ?s = "at_mode SIdle s" and ?p = "pop_fault (sd_card s)"
  have code: "(CMD17 AND NOT 0x80) OR 0x40 = (0x51 :: byte)" "(0x51 :: byte) AND 0xC0 = 0x40"
    by (simp_all add: CMD17_def)
  show ?thesis
  proof (cases "failing ?c")
    case True
    have "sim_cmd 0x51 a (sd_card ?s) = go (SReply (0xFF # 0 # [0xFF, 0x08]) SIdle) ?p"
      using True by (simp add: sim_cmd_def take_fault_eq Let_def)
    then have cmd: "sendCommand sim_io CMD17 a 0xFF ?s = (0, s\<lparr>sd_card := go (SReply [0xFF, 0x08] SIdle) ?p\<rparr>)"
      using sim_sendCommand [OF code(1,2), where s = "?s" and a = a and x = "0" and q = "[0xFF, 0x08]"
        and m = "SIdle" and c = "?p" and crc = "0xFF"] by simp
    show ?thesis
      using True i sim_poll [of "s\<lparr>sd_card := go (SReply [0xFF, 0x08] SIdle) ?p\<rparr>" "0x08" "[]" SIdle 1023]
      by (simp add: sdReadSector_def cmd findReadStartToken_def rspR1_OK_def rspR2_OK_def)
  next
    case False
    let ?q = "sim_mem ?c a @ [0xFF, 0xFF]"
    have "sim_cmd 0x51 a (sd_card ?s) = go (SReply (0xFF # 0 # 0xFF # 0xFE # ?q) SIdle) ?p"
      using False by (simp add: sim_cmd_def take_fault_eq Let_def)
    then have cmd: "sendCommand sim_io CMD17 a 0xFF ?s = (0, s\<lparr>sd_card := go (SReply (0xFF # 0xFE # ?q) SIdle) ?p\<rparr>)"
      using sim_sendCommand [OF code(1,2), where s = "?s" and a = a and x = "0" and q = "0xFF # 0xFE # ?q"
        and m = "SIdle" and c = "?p" and crc = "0xFF"] by simp
    have tok: "poll sim_io 1023 (s\<lparr>sd_card := go (SReply (0xFF # 0xFE # ?q) SIdle) ?p\<rparr>) =
        (0xFE, s\<lparr>sd_card := go (SReply ?q SIdle) ?p\<rparr>)"
      using sim_poll [of "s\<lparr>sd_card := go (SReply (0xFF # 0xFE # ?q) SIdle) ?p\<rparr>" "0xFE" ?q SIdle 1023] by simp
    have rc: "receive sim_io 512 (s\<lparr>sd_card := go (SReply ?q SIdle) ?p\<rparr>) =
        (sim_mem ?c a, s\<lparr>sd_card := go (SReply [0xFF, 0xFF] SIdle) ?p\<rparr>)"
      using sim_receive [of "s\<lparr>sd_card := go (SReply ?q SIdle) ?p\<rparr>" "sim_mem ?c a" "[0xFF, 0xFF]" SIdle] l by auto
    show ?thesis
      using False i by (simp add: sdReadSector_def cmd findReadStartToken_def tok rc rspR1_OK_def rspR2_OK_def sim_transact)
  qed
qed

text \<open>Writing a sector stores it; a command that fails leaves the card alone.\<close>

lemma sim_write:
  assumes i: "initialized s" "\<not> typeSDSC s" and l: "512 \<le> length buf"
  shows "\<exists>c. sdWriteSector sim_io buf a s = (\<not> failing (sd_card s), s\<lparr>sd_card := c\<rparr>) \<and>
    sim_mem c = (if failing (sd_card s) then sim_mem (sd_card s) else (sim_mem (sd_card s))(a := take 512 buf)) \<and>
    sim_faults c = tl (sim_faults (sd_card s))"
proof -
  let ?c = "sd_card s" and ?s = "at_mode SIdle s" and ?p = "pop_fault (sd_card s)"
  have code: "(CMD24 AND NOT 0x80) OR 0x40 = (0x58 :: byte)" "(0x58 :: byte) AND 0xC0 = 0x40"
    "(CMD13 AND NOT 0x80) OR 0x40 = (0x4D :: byte)" "(0x4D :: byte) AND 0xC0 = 0x40"
    by (simp_all add: CMD24_def CMD13_def)
  show ?thesis
  proof (cases "failing ?c")
    case True
    have "sim_cmd 0x58 a (sd_card ?s) = go (SReply (0xFF # 0x20 # []) SIdle) ?p"
      using True by (simp add: sim_cmd_def take_fault_eq Let_def)
    then have cmd: "sendCommand sim_io CMD24 a 0xFF ?s = (0x20, s\<lparr>sd_card := go SIdle ?p\<rparr>)"
      using sim_sendCommand [OF code(1,2), where s = "?s" and a = a and x = "0x20" and q = "[]"
        and m = "SIdle" and c = "?p" and crc = "0xFF"] by simp
    show ?thesis
      using True i by (intro exI [of _ "go SIdle ?p"]) (simp add: sdWriteSector_def cmd rspR1_OK_def)
  next
    case False
    have "sim_cmd 0x58 a (sd_card ?s) = go (SReply (0xFF # 0 # []) (SToken a)) ?p"
      using False by (simp add: sim_cmd_def take_fault_eq Let_def)
    then have cmd: "sendCommand sim_io CMD24 a 0xFF ?s = (0, s\<lparr>sd_card := go (SToken a) ?p\<rparr>)"
      using sim_sendCommand [OF code(1,2), where s = "?s" and a = a and x = "0" and q = "[]"
        and m = "SToken a" and c = "?p" and crc = "0xFF"] by simp
    have tok: "sendWriteStartToken sim_io (s\<lparr>sd_card := go (SToken a) ?p\<rparr>) = s\<lparr>sd_card := go (SData a []) ?p\<rparr>"
      by (simp add: sendWriteStartToken_def sim_transact)
    have ne: "take 512 buf \<noteq> []" "length (take 512 buf) = 512" using l by auto
    have data: "send_bytes sim_io (take 512 buf) (s\<lparr>sd_card := go (SData a []) ?p\<rparr>) =
        s\<lparr>sd_card := go (SData a (take 512 buf)) ?p\<rparr>"
      using sim_send_data [of "s\<lparr>sd_card := go (SData a []) ?p\<rparr>" a "[]" "take 512 buf"] ne by simp
    let ?p' = "?p\<lparr>sim_mem := (sim_mem ?c)(a := take 512 buf)\<rparr>"
    have crc: "send_bytes sim_io [0xFF, 0xFF] (s\<lparr>sd_card := go (SData a (take 512 buf)) ?p\<rparr>) =
        s\<lparr>sd_card := go (SReply [0x05, 0x00, 0xFF] SIdle) ?p'\<rparr>"
      using ne(2) by (simp add: sim_transact)
    have resp: "transactData sim_io 0xFF (s\<lparr>sd_card := go (SReply [0x05, 0x00, 0xFF] SIdle) ?p'\<rparr>) =
        (0x05, s\<lparr>sd_card := go (SReply [0x00, 0xFF] SIdle) ?p'\<rparr>)"
      by (simp add: sim_transact)
    have busy: "wait_busy sim_io 65536 (s\<lparr>sd_card := go (SReply [0x00, 0xFF] SIdle) ?p'\<rparr>) =
        (True, s\<lparr>sd_card := go SIdle ?p'\<rparr>)"
      by (subst wait_busy.simps, subst wait_busy.simps) (simp add: sim_transact)
    have "sim_cmd 0x4D 0 (go SIdle ?p') = go (SReply (0xFF # 0 # [0]) SIdle) ?p'"
      by (simp add: sim_cmd_def)
    then have cmd13: "sendCommand sim_io CMD13 0 0xFF (s\<lparr>sd_card := go SIdle ?p'\<rparr>) =
        (0, s\<lparr>sd_card := go (SReply [0] SIdle) ?p'\<rparr>)"
      using sim_sendCommand [OF code(3,4), where s = "s\<lparr>sd_card := go SIdle ?p'\<rparr>" and a = 0 and x = "0" and q = "[0]"
        and m = "SIdle" and c = "?p'" and crc = "0xFF"] by simp
    show ?thesis
      using False i
      by (intro exI [of _ "go SIdle ?p'"]) (simp add: sdWriteSector_def cmd tok data crc resp busy cmd13 getR2Response_def sim_transact rspR1_OK_def rspR2_OK_def
          del: send_bytes.simps, auto)
  qed
qed

end
