(* ===== verification/DiskIO.thy ===== *)
theory DiskIO
  imports FatWindow SdSim
begin

text \<open>
  The disk layer \<^verbatim>\<open>diskio.c\<close>, between the FAT module and the SD card driver. On the simulated
  card it is a block device in the sense of theory \<open>FatWindow\<close>.

  Transfers of more than one sector do not work as intended: the loops of \<^verbatim>\<open>disk_read\<close> and
  \<^verbatim>\<open>disk_write\<close> never advance their buffer pointer, so every sector of the transfer goes through
  the first 512 bytes of the buffer. The model does the same.
\<close>

section \<open>Operations\<close>

definition GET_SECTOR_COUNT :: byte where "GET_SECTOR_COUNT = 1"
definition GET_SECTOR_SIZE :: byte where "GET_SECTOR_SIZE = 2"
definition GET_BLOCK_SIZE :: byte where "GET_BLOCK_SIZE = 3"

definition disk_initialize :: "'c card_if \<Rightarrow> byte \<Rightarrow> 'c sd \<Rightarrow> byte \<times> 'c sd" where
  "disk_initialize io pdrv s =
     (let s = (if \<not> sdStatus s then snd (sdInitialize io s) else s)
      in (if pdrv = 0 then 0 else STA_NOINIT, s))"

definition disk_status :: "byte \<Rightarrow> 'c sd \<Rightarrow> byte" where
  "disk_status pdrv s = (if pdrv = 0 \<and> sdStatus s then 0 else STA_NOINIT)"

text \<open>A sector read into the start of the buffer, whatever its number in the transfer.\<close>

fun read_loop :: "'c card_if \<Rightarrow> nat \<Rightarrow> byte list \<Rightarrow> u32 \<Rightarrow> 'c sd \<Rightarrow> DRESULT \<times> byte list \<times> 'c sd" where
  "read_loop io 0 buf sector s = (RES_OK, buf, s)"
| "read_loop io (Suc n) buf sector s =
     (case sdReadSector io sector s of
        (None, s) \<Rightarrow> (RES_ERROR, buf, s)
      | (Some data, s) \<Rightarrow> read_loop io n (mem_cpy buf 0 data 0 512) (sector + 1) s)"

definition disk_read :: "'c card_if \<Rightarrow> byte \<Rightarrow> byte list \<Rightarrow> u32 \<Rightarrow> byte \<Rightarrow> 'c sd \<Rightarrow>
    DRESULT \<times> byte list \<times> 'c sd" where
  "disk_read io pdrv buf sector count s =
     (if pdrv \<noteq> 0 then (RES_PARERR, buf, s)
      else if \<not> sdStatus s then (RES_NOTRDY, buf, s)
      else read_loop io (unat count) buf sector s)"

fun write_loop :: "'c card_if \<Rightarrow> nat \<Rightarrow> byte list \<Rightarrow> u32 \<Rightarrow> 'c sd \<Rightarrow> DRESULT \<times> 'c sd" where
  "write_loop io 0 buf sector s = (RES_OK, s)"
| "write_loop io (Suc n) buf sector s =
     (case sdWriteSector io buf sector s of
        (False, s) \<Rightarrow> (RES_ERROR, s)
      | (True, s) \<Rightarrow> write_loop io n buf (sector + 1) s)"

definition disk_write :: "'c card_if \<Rightarrow> byte \<Rightarrow> byte list \<Rightarrow> u32 \<Rightarrow> byte \<Rightarrow> 'c sd \<Rightarrow> DRESULT \<times> 'c sd" where
  "disk_write io pdrv buf sector count s =
     (if pdrv \<noteq> 0 then (RES_PARERR, s)
      else if \<not> sdStatus s then (RES_NOTRDY, s)
      else write_loop io (unat count) buf sector s)"

definition disk_ioctl :: "byte \<Rightarrow> byte \<Rightarrow> 'c sd \<Rightarrow> DRESULT \<times> 'c sd" where
  "disk_ioctl pdrv cmd s =
     (if pdrv \<noteq> 0 then (RES_PARERR, s)
      else if \<not> sdStatus s then (RES_NOTRDY, s)
      else if cmd = CTRL_SYNC then (RES_OK, s)
      else if cmd \<in> {GET_SECTOR_COUNT, GET_BLOCK_SIZE, GET_SECTOR_SIZE} then (RES_PARERR, s)
      else (RES_PARERR, s))"

definition sd_disk :: "'c card_if \<Rightarrow> 'c sd disk_ops" where
  "sd_disk io = \<lparr>d_initialize = disk_initialize io, d_status = disk_status, d_read = disk_read io,
     d_write = disk_write io, d_ioctl = disk_ioctl\<rparr>"

section \<open>The disk of the simulated card\<close>

text \<open>The card's sectors, while the driver addresses it as the high-capacity card it is.\<close>

definition sd_sec :: "sim sd \<Rightarrow> u32 \<Rightarrow> byte list" where
  "sd_sec s = (if typeSDSC s then (\<lambda>_. []) else sim_mem (sd_card s))"

lemma ready_sd: "ready sd_sec s \<longleftrightarrow> \<not> typeSDSC s \<and> (\<forall>a. length (sim_mem (sd_card s) a) = 512)"
  by (simp add: ready_def sd_sec_def)

lemma sd_sec_card [simp]: "sd_sec (s\<lparr>sd_card := c\<rparr>) = (if typeSDSC s then (\<lambda>_. []) else sim_mem c)"
  by (simp add: sd_sec_def)

lemma read_loop_sim:
  assumes "ready sd_sec s" "initialized s" "read_loop sim_io n buf a s = (r, buf', s')"
  shows "sd_sec s' = sd_sec s \<and> (512 * n \<le> length buf \<longrightarrow> length buf' = length buf)"
  using assms
proof (induction n arbitrary: buf a s)
  case (Suc n)
  let ?s = "s\<lparr>sd_card := go SIdle (pop_fault (sd_card s))\<rparr>"
  have i: "initialized s" "\<not> typeSDSC s" "length (sim_mem (sd_card s) a) = 512"
    using Suc.prems by (simp_all add: ready_sd)
  show ?case
  proof (cases "failing (sd_card s)")
    case True
    with Suc.prems(3) i show ?thesis by (auto simp: sim_read [OF i] sd_sec_def)
  next
    case False
    with Suc.prems(3) have "read_loop sim_io n (mem_cpy buf 0 (sim_mem (sd_card s) a) 0 512) (a + 1) ?s = (r, buf', s')"
      by (simp add: sim_read [OF i])
    moreover have "ready sd_sec ?s" "sd_sec ?s = sd_sec s"
      using Suc.prems(1) i by (simp add: ready_sd, simp add: sd_sec_def)
    ultimately have "sd_sec s' = sd_sec s \<and> (512 * n \<le> length (mem_cpy buf 0 (sim_mem (sd_card s) a) 0 512) \<longrightarrow>
        length buf' = length (mem_cpy buf 0 (sim_mem (sd_card s) a) 0 512))"
      using Suc.IH i(1) by auto
    then show ?thesis using i(3) by simp
  qed
qed simp

lemma write_loop_sim:
  assumes "ready sd_sec s" "initialized s" "write_loop sim_io n buf a s = (r, s')" "n = 0 \<or> 512 \<le> length buf"
  shows "ready sd_sec s' \<and> (\<forall>t. (\<forall>i < n. t \<noteq> a + of_nat i) \<longrightarrow> sd_sec s' t = sd_sec s t)"
  using assms
proof (induction n arbitrary: a s)
  case (Suc n)
  have i: "initialized s" "\<not> typeSDSC s" "512 \<le> length buf" using Suc.prems by (simp_all add: ready_sd)
  obtain c where w: "sdWriteSector sim_io buf a s = (\<not> failing (sd_card s), s\<lparr>sd_card := c\<rparr>)"
    "sim_mem c = (if failing (sd_card s) then sim_mem (sd_card s) else (sim_mem (sd_card s))(a := take 512 buf))"
    using sim_write [OF i] by blast
  have rd: "ready sd_sec (s\<lparr>sd_card := c\<rparr>)" using Suc.prems(1) w(2) i(3) by (auto simp: ready_sd)
  show ?case
  proof (cases "failing (sd_card s)")
    case True
    with Suc.prems(3) w rd i(2) show ?thesis by auto (simp add: sd_sec_def)
  next
    case False
    with Suc.prems(3) w have "write_loop sim_io n buf (a + 1) (s\<lparr>sd_card := c\<rparr>) = (r, s')" by simp
    from Suc.IH [OF rd _ this] i have ih: "ready sd_sec s'"
      "\<And>t. \<forall>i < n. t \<noteq> a + 1 + of_nat i \<Longrightarrow> sd_sec s' t = sd_sec (s\<lparr>sd_card := c\<rparr>) t" by auto
    have "sd_sec s' t = sd_sec s t" if t: "\<forall>i < Suc n. t \<noteq> a + of_nat i" for t
    proof -
      have "t \<noteq> a" using t by (auto dest: spec [of _ 0])
      moreover have "\<forall>i < n. t \<noteq> a + 1 + of_nat i"
        using t by (metis Suc_less_eq add.assoc of_nat_Suc)
      ultimately show ?thesis using ih(2) False w(2) i(2) by (simp add: sd_sec_def)
    qed
    with ih(1) show ?thesis by blast
  qed
qed simp

interpretation sd: block_device "sd_disk sim_io" sd_sec
proof
  fix w w' :: "sim sd" and buf buf' :: "byte list" and s t :: u32 and n c :: byte and r :: DRESULT
  assume rd: "ready sd_sec w"
  have room: "unat n = 0 \<or> 512 \<le> length buf" if "512 * unat n \<le> length buf"
    using that by (cases "unat n") auto
  note defs = sd_disk_def disk_read_def disk_write_def disk_ioctl_def sdStatus_def
  show "sd_sec w' = sd_sec w" if "d_read (sd_disk sim_io) 0 buf s n w = (r, buf', w')"
    using that read_loop_sim [OF rd] by (auto simp: defs split: if_splits)
  show "length buf' = length buf" if "d_read (sd_disk sim_io) 0 buf s n w = (r, buf', w')" "512 * unat n \<le> length buf"
    using that read_loop_sim [OF rd] by (auto simp: defs split: if_splits)
  show "buf' = sd_sec w s" if "d_read (sd_disk sim_io) 0 buf s 1 w = (RES_OK, buf', w')" "length buf = 512"
    using that rd sim_read [of w s] by (auto simp: defs ready_sd sd_sec_def mem_cpy_def split: if_splits)
  show "buf' = buf" if "d_read (sd_disk sim_io) 0 buf s 1 w = (r, buf', w')" "r \<noteq> RES_OK" "length buf = 512"
    using that rd sim_read [of w s] by (auto simp: defs ready_sd split: if_splits)
  show "ready sd_sec w'" if "d_write (sd_disk sim_io) 0 buf s n w = (r, w')" "512 * unat n \<le> length buf"
    using that write_loop_sim [OF rd, of "unat n"] rd room [OF that(2)] by (auto simp: defs split: if_splits)
  show "sd_sec w' s = buf" if "d_write (sd_disk sim_io) 0 buf s 1 w = (RES_OK, w')" "length buf = 512"
  proof -
    have i: "\<not> typeSDSC w" "512 \<le> length buf" using rd that by (auto simp: ready_sd)
    show ?thesis
      using that sim_write [OF _ i, of s] i by (auto simp: defs sd_sec_def split: if_splits)
  qed
  show "sd_sec w' t = sd_sec w t" if "d_write (sd_disk sim_io) 0 buf s n w = (r, w')" "512 * unat n \<le> length buf"
    "\<forall>i < unat n. t \<noteq> s + of_nat i"
    using that write_loop_sim [OF rd, of "unat n"] room [OF that(2)] by (auto simp: defs split: if_splits)
  show "sd_sec w' = sd_sec w" if "d_ioctl (sd_disk sim_io) 0 c w = (r, w')"
    using that by (auto simp: defs split: if_splits)
qed


section \<open>Properties of the driver and the disk layer\<close>

text \<open>C15: one sector written through the disk layer and the SPI protocol is read back unchanged, and no
  other sector of the card changes.\<close>

theorem disk_write_read:
  assumes "initialized s" "ready sd_sec s" "length buf = 512" "length buf2 = 512"
    and "disk_write sim_io 0 buf a 1 s = (RES_OK, s1)" "disk_read sim_io 0 buf2 a 1 s1 = (RES_OK, buf', s2)"
  shows "buf' = buf \<and> sd_sec s2 = (sd_sec s)(a := buf)"
proof -
  have w: "d_write (sd_disk sim_io) 0 buf a 1 s = (RES_OK, s1)"
    and r: "d_read (sd_disk sim_io) 0 buf2 a 1 s1 = (RES_OK, buf', s2)"
    using assms(5,6) by (simp_all add: sd_disk_def)
  have rd1: "ready sd_sec s1" using sd.write_one_ready [OF assms(2) w assms(3)] .
  have "sd_sec s1 = (sd_sec s)(a := buf)"
    using sd.write_one [OF assms(2) w assms(3)] sd.write_one_frame [OF assms(2) w assms(3)] by auto
  with sd.read_keeps [OF rd1 r] sd.read_one [OF rd1 r assms(4)] show ?thesis by simp
qed

definition blank_card :: "bool list \<Rightarrow> sim sd" where
  "blank_card faults = \<lparr>typeSDSC = False, initialized = True, sd_sectors = 100,
     sd_card = \<lparr>sim_mem = (\<lambda>a. replicate 512 (ucast a)), sim_mode = SIdle, sim_faults = faults\<rparr>\<rparr>"

lemma blank_ready: "ready sd_sec (blank_card fl)" "initialized (blank_card fl)"
  by (simp_all add: ready_sd blank_card_def)

theorem disk_write_read_witness:
  "\<exists>s1 s2. disk_write sim_io 0 (replicate 512 7) 3 1 (blank_card []) = (RES_OK, s1) \<and>
     disk_read sim_io 0 (replicate 512 0) 3 1 s1 = (RES_OK, replicate 512 7, s2)"
proof -
  let ?s = "blank_card []" and ?b = "replicate 512 (7 :: byte)"
  have i: "initialized ?s" "\<not> typeSDSC ?s" "512 \<le> length ?b" "sim_faults (sd_card ?s) = []"
    by (simp_all add: blank_card_def)
  then obtain c where w: "sdWriteSector sim_io ?b 3 ?s = (True, ?s\<lparr>sd_card := c\<rparr>)"
    "sim_mem c = (sim_mem (sd_card ?s))(3 := ?b)" "sim_faults c = []"
    using sim_write [OF i(1-3), of 3] by auto
  let ?s1 = "?s\<lparr>sd_card := c\<rparr>"
  have i1: "initialized ?s1" "\<not> typeSDSC ?s1" "length (sim_mem (sd_card ?s1) 3) = 512"
    using i w by simp_all
  have wr: "disk_write sim_io 0 ?b 3 1 ?s = (RES_OK, ?s1)" using w i by (simp add: disk_write_def sdStatus_def)
  obtain s2 d where rd: "disk_read sim_io 0 (replicate 512 0) 3 1 ?s1 = (RES_OK, d, s2)"
    using sim_read [OF i1] i1 w by (simp add: disk_read_def sdStatus_def)
  have "d = ?b" using disk_write_read [OF blank_ready(2,1) _ _ wr rd] by simp
  with wr rd show ?thesis by blast
qed

lemma read_loop_2: "read_loop io 2 buf a s = read_loop io (Suc (Suc 0)) buf a s"
  by (simp only: numeral_2_eq_2)

text \<open>C17: a transfer of two sectors that succeeds does not deliver them: the second sector lands on
  top of the first, and the second half of the buffer is not written at all.\<close>

theorem disk_read_two_sectors:
  assumes "initialized s" "ready sd_sec s" "length buf = 1024" "disk_read sim_io 0 buf a 2 s = (RES_OK, buf', s')"
  shows "buf' = sd_sec s (a + 1) @ drop 512 buf"
proof -
  have i: "\<not> typeSDSC s" "\<And>a. length (sim_mem (sd_card s) a) = 512" using assms(2) by (simp_all add: ready_sd)
  let ?s = "s\<lparr>sd_card := go SIdle (pop_fault (sd_card s))\<rparr>"
  have i1: "initialized ?s" "\<not> typeSDSC ?s" "length (sim_mem (sd_card ?s) (a + 1)) = 512" using assms(1) i by simp_all
  show ?thesis
    using assms(1,3,4) i sim_read [OF assms(1) i(1) i(2)] sim_read [OF i1]
    by (auto simp: disk_read_def sdStatus_def read_loop_2 sd_sec_def mem_cpy_def split: if_splits)
qed

theorem disk_read_two_sectors_witness:
  "\<exists>s'. disk_read sim_io 0 (replicate 1024 0) 5 2 (blank_card []) = (RES_OK, replicate 512 6 @ replicate 512 0, s')"
proof -
  let ?s = "blank_card []" and ?s1 = "blank_card []\<lparr>sd_card := go SIdle (pop_fault (sd_card (blank_card [])))\<rparr>"
  have i: "initialized ?s" "\<not> typeSDSC ?s" "length (sim_mem (sd_card ?s) 5) = 512"
    "initialized ?s1" "\<not> typeSDSC ?s1" "length (sim_mem (sd_card ?s1) 6) = 512" "sim_faults (sd_card ?s) = []"
    by (simp_all add: blank_card_def)
  obtain d s' where r: "disk_read sim_io 0 (replicate 1024 0) 5 2 ?s = (RES_OK, d, s')"
    using i sim_read [OF i(1-3)] sim_read [OF i(4-6)]
    by (simp add: disk_read_def sdStatus_def read_loop_2)
  have "d = replicate 512 6 @ replicate 512 0"
    using disk_read_two_sectors [OF blank_ready(2,1) _ r] by (simp add: sd_sec_def blank_card_def)
  with r show ?thesis by blast
qed

text \<open>C19: the initialization of a version 1 card leaves the addressing mode as the previous card set
  it, although every version 1 card is addressed in bytes: whatever the hardware answers, the flag
  that selects byte addresses does not change.\<close>

lemma driver_keeps_type:
  "typeSDSC (chipEnable io e s) = typeSDSC s" "typeSDSC (snd (transactData io b s)) = typeSDSC s"
  by (simp_all add: chipEnable_def transactData_def split: prod.split)

lemma transact_keeps_type: "transactData io b s = (r, s') \<Longrightarrow> typeSDSC s' = typeSDSC s"
  using driver_keeps_type(2) by (metis snd_conv)

lemma poll_keeps_type: "poll io n s = (r, s') \<Longrightarrow> typeSDSC s' = typeSDSC s"
  by (induction n arbitrary: s) (auto simp: Let_def dest: transact_keeps_type split: prod.splits if_splits)

lemma send_keeps_type: "typeSDSC (send_bytes io bs s) = typeSDSC s"
  by (induction bs arbitrary: s) (simp_all add: driver_keeps_type)

lemma sendCommand_keeps_type: "sendCommand io c a crc s = (r, s') \<Longrightarrow> typeSDSC s' = typeSDSC s"
  unfolding sendCommand_def using poll_keeps_type send_keeps_type by metis

lemma get_word_keeps_type: "get_word io s = (r, s') \<Longrightarrow> typeSDSC s' = typeSDSC s"
  by (auto simp: get_word_def Let_def dest!: transact_keeps_type split: prod.splits)

lemma op_cond1_keeps_type: "sd_op_cond1 io n s = (r, s') \<Longrightarrow> typeSDSC s' = typeSDSC s"
proof (induction n arbitrary: s)
  case 0
  then show ?case
    by (subst (asm) sd_op_cond1.simps)
      (auto simp: Let_def driver_keeps_type dest!: sendCommand_keeps_type split: prod.splits if_splits)
next
  case (Suc n)
  from Suc.prems show ?case
    by (subst (asm) sd_op_cond1.simps)
      (auto simp: Let_def driver_keeps_type dest!: sendCommand_keeps_type Suc.IH split: prod.splits if_splits)
qed

theorem version_1_card_keeps_addressing: "typeSDSC (snd (sd_init1 io s)) = typeSDSC s"
  by (auto simp: sd_init1_def Let_def getR3Response_def driver_keeps_type
      dest!: sendCommand_keeps_type get_word_keeps_type op_cond1_keeps_type split: prod.splits if_splits)

end
