(* ===== verification/SdInit.thy ===== *)
theory SdInit
  imports SdSim
begin

text \<open>
  Initialization of a high-capacity card, on a simulated card that is strict: after the SD specification it
  keeps track of its state, wants clock pulses before the first command, the check bytes of CMD0 and CMD8, the
  prefix CMD55 before ACMD41, and high capacity support announced in the argument of ACMD41; it answers
  ACMD41 with busy a number of times, and delays its registers. Whatever else it receives it refuses and remembers.
\<close>

section \<open>The card\<close>

datatype ic_phase = Unreset | Idle | Checked | Transfer

text \<open>What is fixed in a card: the operation conditions, the two registers with their check bytes, and a delay.\<close>

record card_info =
  ci_ocr :: u32
  ci_cid :: "byte list"
  ci_csd :: "byte list"
  ci_gap :: nat

text \<open>
  The state: the phase, whether CMD55 was the last command, how often ACMD41 is still answered with busy, the bytes
  clocked while not selected, the select line, the frame coming in, the answer going out, and whether a command was refused.
\<close>

record init_card =
  ic_phase :: ic_phase
  ic_app :: bool
  ic_busy :: nat
  ic_clocks :: nat
  ic_sel :: bool
  ic_frame :: "byte list"
  ic_reply :: "byte list"
  ic_refused :: bool

definition answer :: "byte list \<Rightarrow> init_card \<Rightarrow> init_card" where
  "answer r c = c\<lparr>ic_reply := 0xFF # r, ic_app := False\<rparr>"

definition register_reply :: "card_info \<Rightarrow> byte list \<Rightarrow> byte list" where
  "register_reply i r = 0x00 # replicate (ci_gap i) 0xFF @ 0xFE # r"

definition ic_command :: "card_info \<Rightarrow> byte \<Rightarrow> u32 \<Rightarrow> byte \<Rightarrow> init_card \<Rightarrow> init_card" where
  "ic_command i cmd a crc c =
     (let r1 = (if ic_phase c = Transfer then 0x00 else 0x01)
      in if cmd = 0x40 \<and> a = 0 \<and> crc = 0x95 \<and> 10 \<le> ic_clocks c then answer [0x01] (c\<lparr>ic_phase := Idle\<rparr>)
         else if ic_phase c = Unreset then c\<lparr>ic_refused := True\<rparr>
         else if cmd = 0x48 \<and> a = 0x1AA \<and> crc = 0x87 \<and> ic_phase c = Idle
           then answer [0x01, 0x00, 0x00, 0x01, 0xAA] (c\<lparr>ic_phase := Checked\<rparr>)
         else if cmd = 0x77 then (answer [r1] c)\<lparr>ic_app := True\<rparr>
         else if cmd = 0x69 \<and> ic_app c \<and> ic_phase c = Checked \<and> bit a 30 then
           (if ic_busy c = 0 then answer [0x00] (c\<lparr>ic_phase := Transfer\<rparr>)
            else answer [0x01] (c\<lparr>ic_busy := ic_busy c - 1\<rparr>))
         else if cmd = 0x7A \<and> ic_phase c \<in> {Checked, Transfer} then
           answer [r1, ucast (drop_bit 24 (ci_ocr i)), ucast (drop_bit 16 (ci_ocr i)), ucast (drop_bit 8 (ci_ocr i)), ucast (ci_ocr i)] c
         else if cmd = 0x4A \<and> ic_phase c = Transfer then answer (register_reply i (ci_cid i)) c
         else if cmd = 0x49 \<and> ic_phase c = Transfer then answer (register_reply i (ci_csd i)) c
         else (answer [r1 OR 0x04] c)\<lparr>ic_refused := True\<rparr>)"

definition ic_xfer :: "card_info \<Rightarrow> byte \<Rightarrow> init_card \<Rightarrow> byte \<times> init_card" where
  "ic_xfer i b c =
     (if \<not> ic_sel c then (0xFF, c\<lparr>ic_clocks := ic_clocks c + 1\<rparr>)
      else case ic_reply c of
        x # q \<Rightarrow> (x, c\<lparr>ic_reply := q\<rparr>)
      | [] \<Rightarrow> (0xFF, case ic_frame c of
            [] \<Rightarrow> if b AND 0xC0 = 0x40 then c\<lparr>ic_frame := [b]\<rparr> else c
          | [cmd, x, y, z, w] \<Rightarrow> ic_command i cmd (be_word x y z w) b (c\<lparr>ic_frame := []\<rparr>)
          | f \<Rightarrow> c\<lparr>ic_frame := f @ [b]\<rparr>))"

definition ic_select :: "bool \<Rightarrow> init_card \<Rightarrow> init_card" where
  "ic_select e c = c\<lparr>ic_sel := e, ic_frame := [], ic_reply := []\<rparr>"

definition strict_io :: "card_info \<Rightarrow> init_card card_if" where
  "strict_io i = \<lparr>c_sel = ic_select, c_xfer = ic_xfer i\<rparr>"

text \<open>A card between two bytes, with the rest of an answer.\<close>

definition ic :: "ic_phase \<Rightarrow> bool \<Rightarrow> nat \<Rightarrow> nat \<Rightarrow> bool \<Rightarrow> byte list \<Rightarrow> bool \<Rightarrow> init_card" where
  "ic ph app n k sl r e = \<lparr>ic_phase = ph, ic_app = app, ic_busy = n, ic_clocks = k, ic_sel = sl, ic_frame = [], ic_reply = r, ic_refused = e\<rparr>"

abbreviation card_at :: "init_card sd \<Rightarrow> init_card \<Rightarrow> init_card sd" where
  "card_at s c \<equiv> s\<lparr>sd_card := c\<rparr>"

lemma ic_fields [simp]:
  "ic_phase (ic ph app n k sl r e) = ph" "ic_busy (ic ph app n k sl r e) = n" "ic_refused (ic ph app n k sl r e) = e"
  by (simp_all add: ic_def)

lemma ic_enable [simp]: "chipEnable (strict_io i) b (card_at s (ic ph app n k sl r e)) = card_at s (ic ph app n k b [] e)"
  by (simp add: chipEnable_def strict_io_def ic_select_def ic_def)

lemma ic_enable_any: "chipEnable (strict_io i) b (card_at s c) = card_at s (ic (ic_phase c) (ic_app c) (ic_busy c) (ic_clocks c) b [] (ic_refused c))"
  by (simp add: chipEnable_def strict_io_def ic_select_def ic_def)

lemma ic_idle_byte [simp]: "transactData (strict_io i) b (card_at s (ic ph app n k False r e)) = (0xFF, card_at s (ic ph app n (Suc k) False r e))"
  by (simp add: transactData_def strict_io_def ic_xfer_def ic_def)

lemma ic_reply_byte: "transactData (strict_io i) b (card_at s (ic ph app n k True (x # r) e)) = (x, card_at s (ic ph app n k True r e))"
  by (simp add: transactData_def strict_io_def ic_xfer_def ic_def)

lemma ic_no_byte: "transactData (strict_io i) 0xFF (card_at s (ic ph app n k True [] e)) = (0xFF, card_at s (ic ph app n k True [] e))"
  by (simp add: transactData_def strict_io_def ic_xfer_def ic_def)

lemma ic_idle_bytes: "send_bytes (strict_io i) (replicate m b) (card_at s (ic ph app n k False r e)) = card_at s (ic ph app n (k + m) False r e)"
  by (induction m arbitrary: k) simp_all

lemma ic_frame_sent:
  assumes "cb AND 0xC0 = 0x40"
  shows "send_bytes (strict_io i) [cb, x, y, z, w, crc] (card_at s (ic ph app n k True [] e)) =
    card_at s (ic_command i cb (be_word x y z w) crc (ic ph app n k True [] e))"
  using assms by (simp add: transactData_def strict_io_def ic_xfer_def ic_def)

text \<open>A command and its first answer.\<close>

lemma ic_sendCommand:
  assumes "(cmd AND NOT 0x80) OR 0x40 = cb" "cb AND 0xC0 = 0x40" "x \<noteq> 0xFF"
    and "ic_command i cb a crc (ic ph app n k True [] e) = ic ph' app' n' k True (0xFF # x # q) e"
  shows "sendCommand (strict_io i) cmd a crc (card_at s (ic ph app n k True [] e)) = (x, card_at s (ic ph' app' n' k True q e))"
  unfolding sendCommand_def assms(1) ic_frame_sent [OF assms(2)] be_word_split assms(4)
  using assms(3) by (simp add: ic_reply_byte numeral_eq_Suc)

lemmas ic_eval = sd_codes ic_command_def ic_def answer_def register_reply_def

lemma ic_cmd0:
  "10 \<le> k \<Longrightarrow> sendCommand (strict_io i) CMD0 0 0x95 (card_at s (ic ph app n k True [] e)) = (1, card_at s (ic Idle False n k True [] e))"
  by (rule ic_sendCommand [where cb = "0x40"]) (simp_all add: ic_eval)

lemma ic_cmd8:
  "sendCommand (strict_io i) CMD8 0x1AA 0x87 (card_at s (ic Idle app n k True [] e)) = (1, card_at s (ic Checked False n k True [0, 0, 1, 0xAA] e))"
  by (rule ic_sendCommand [where cb = "0x48"]) (simp_all add: ic_eval)

lemma ic_cmd55:
  "sendCommand (strict_io i) CMD55 0 0xFF (card_at s (ic Checked app n k True [] e)) = (1, card_at s (ic Checked True n k True [] e))"
  by (rule ic_sendCommand [where cb = "0x77"]) (simp_all add: ic_eval)

lemma hcs_bit: "bit (0x40000000 :: u32) 30"
  by (simp add: bit_iff_odd_drop_bit drop_bit_eq_div)

lemma ic_acmd41:
  "sendCommand (strict_io i) ACMD41 0x40000000 0xFF (card_at s (ic Checked True 0 k True [] e)) = (0, card_at s (ic Transfer False 0 k True [] e))"
  "sendCommand (strict_io i) ACMD41 0x40000000 0xFF (card_at s (ic Checked True (Suc n) k True [] e)) = (1, card_at s (ic Checked False n k True [] e))"
  subgoal by (rule ic_sendCommand [where cb = "0x69"]) (simp_all add: ic_eval hcs_bit)
  subgoal by (rule ic_sendCommand [where cb = "0x69"]) (simp_all add: ic_eval hcs_bit)
  done

lemma ic_cmd58:
  "sendCommand (strict_io i) CMD58 0 0xFF (card_at s (ic Transfer app n k True [] e)) = (0, card_at s (ic Transfer False n k True
     [ucast (drop_bit 24 (ci_ocr i)), ucast (drop_bit 16 (ci_ocr i)), ucast (drop_bit 8 (ci_ocr i)), ucast (ci_ocr i)] e))"
  by (rule ic_sendCommand [where cb = "0x7A"]) (simp_all add: ic_eval)

lemma ic_registers:
  "sendCommand (strict_io i) CMD10 0 0xFF (card_at s (ic Transfer app n k True [] e)) =
     (0, card_at s (ic Transfer False n k True (replicate (ci_gap i) 0xFF @ 0xFE # ci_cid i) e))"
  "sendCommand (strict_io i) CMD9 0 0xFF (card_at s (ic Transfer app n k True [] e)) =
     (0, card_at s (ic Transfer False n k True (replicate (ci_gap i) 0xFF @ 0xFE # ci_csd i) e))"
  subgoal by (rule ic_sendCommand [where cb = "0x4A"]) (simp_all add: ic_eval)
  subgoal by (rule ic_sendCommand [where cb = "0x49"]) (simp_all add: ic_eval)
  done

section \<open>The driver on this card\<close>

lemma ic_reset:
  "sd_reset (strict_io i) n (card_at s c) = (True, card_at s (ic Idle False (ic_busy c) (ic_clocks c + 11) False [] (ic_refused c)))"
  by (subst sd_reset.simps) (simp add: ic_enable_any ic_idle_bytes ic_cmd0 rspR1_IDLE_def add.commute del: replicate.simps send_bytes.simps)

lemma ic_get_word:
  "get_word (strict_io i) (card_at s (ic ph app n k True [a, b, c, d] e)) = (be_word a b c d, card_at s (ic ph app n k True [] e))"
  by (simp add: get_word_def ic_reply_byte be_word_def)

text \<open>The card is ready after as many rounds as it is busy; a round takes two idle bytes.\<close>

lemma ic_op_cond_round:
  "sd_op_cond2 (strict_io i) m (card_at s (ic Checked app 0 k sl r e)) = (True, card_at s (ic Transfer False 0 (Suc (Suc k)) False [] e))"
  "sd_op_cond2 (strict_io i) m (card_at s (ic Checked app (Suc n) k sl r e)) =
     (case m of 0 \<Rightarrow> (False, card_at s (ic Checked False n (Suc (Suc k)) False [] e))
      | Suc m \<Rightarrow> sd_op_cond2 (strict_io i) m (card_at s (ic Checked False n (Suc (Suc k)) False [] e)))"
  by (subst sd_op_cond2.simps, simp add: ic_cmd55 ic_acmd41 rspR1_IDLE_def rspR1_OK_def split: nat.split)+

lemma ic_op_cond:
  "\<exists>k'. sd_op_cond2 (strict_io i) m (card_at s (ic Checked app n k sl r e)) =
     (n \<le> m, card_at s (if n \<le> m then ic Transfer False 0 k' False [] e else ic Checked False (n - Suc m) k' False [] e))"
proof (induction m arbitrary: n k app sl r)
  case 0
  then show ?case
    by (cases n) (auto simp: ic_op_cond_round)
next
  case (Suc m)
  show ?case
  proof (cases n)
    case (Suc n')
    with Suc.IH [of False n' "Suc (Suc k)" False "[]"] show ?thesis by (cases "n' \<le> m") (auto simp: ic_op_cond_round(2))
  qed (auto simp: ic_op_cond_round)
qed

text \<open>A register is read from its start token; after its last byte the line is high.\<close>

lemma ic_receive_high: "receive (strict_io i) m (card_at s (ic ph app n k True [] e)) = (replicate m 0xFF, card_at s (ic ph app n k True [] e))"
  by (induction m) (simp_all add: ic_no_byte)

lemma ic_receive:
  "receive (strict_io i) (length d + m) (card_at s (ic ph app n k True d e)) = (d @ replicate m 0xFF, card_at s (ic ph app n k True [] e))"
  by (induction d) (simp_all add: ic_receive_high ic_reply_byte)

lemma ic_register:
  assumes "gap < m" "length d = 18"
  shows "sd_register (strict_io i) m (card_at s (ic ph app n k True (replicate gap 0xFF @ 0xFE # d) e)) =
    (Some (d @ [0xFF, 0xFF]), card_at s (ic ph app n k True [] e))"
  using assms(1)
proof (induction gap arbitrary: m)
  case 0
  then obtain m' where "m = Suc m'" by (cases m) auto
  then show ?case
    using ic_receive [where d = d and m = 2] assms(2) by (simp add: ic_reply_byte numeral_2_eq_2 del: receive.simps)
next
  case (Suc gap)
  then obtain m' where "m = Suc m'" by (cases m) auto
  with Suc show ?case by (simp add: ic_reply_byte)
qed

text \<open>The card from the answer to CMD8 on.\<close>

definition strict_ok :: "card_info \<Rightarrow> bool" where
  "strict_ok i \<longleftrightarrow> length (ci_cid i) = 18 \<and> length (ci_csd i) = 18 \<and> ci_gap i < 100 \<and>
     ci_ocr i AND 0xC0300000 \<in> {0xC0100000, 0xC0200000, 0xC0300000}"

lemma ic_init2:
  assumes "strict_ok i"
  shows "\<exists>k' n'. sd_init2 (strict_io i) (card_at s (ic Checked app n k sl r e)) =
    (if n \<le> 1000 then (True, s\<lparr>typeSDSC := False, initialized := True, sd_sectors := csd_sectors (ci_csd i @ [0xFF, 0xFF]),
         sd_card := ic Transfer False 0 k' True [] e\<rparr>)
     else (False, card_at s (ic Checked False n' k' False [] e)))"
proof -
  obtain k1 where op: "sd_op_cond2 (strict_io i) 1000 (card_at s (ic Checked app n k sl r e)) =
     (n \<le> 1000, card_at s (if n \<le> 1000 then ic Transfer False 0 k1 False [] e else ic Checked False (n - Suc 1000) k1 False [] e))"
    using ic_op_cond by blast
  have reg: "length (ci_cid i) = 18" "length (ci_csd i) = 18" "ci_gap i < 100"
    and ocr: "ci_ocr i AND 0xC0300000 \<in> {0xC0100000, 0xC0200000, 0xC0300000}"
    using assms by (auto simp: strict_ok_def)
  show ?thesis
  proof (cases "n \<le> 1000")
    case False
    then show ?thesis by (simp add: sd_init2_def op) blast
  next
    case True
    let ?t = "s\<lparr>typeSDSC := False, initialized := True\<rparr>"
    have upd: "(card_at s c)\<lparr>typeSDSC := False, initialized := True\<rparr> = card_at ?t c" for c by simp
    have upd2: "(card_at t c)\<lparr>sd_sectors := m\<rparr> = card_at (t\<lparr>sd_sectors := m\<rparr>) c" for t :: "init_card sd" and c m by simp
    show ?thesis
      unfolding sd_init2_def op
      using True ocr
      by (simp add: ic_cmd58 rspR1_OK_def getR3Response_def ic_get_word be_word_split upd upd2 ic_registers
          ic_register [OF reg(3,1)] ic_register [OF reg(3,2)] del: sd_register.simps) blast
  qed
qed


section \<open>The capacity of the card\<close>

text \<open>Bits and fields of the CSD register as the specification numbers them: bit 127 is sent first.\<close>

definition csd_bit :: "byte list \<Rightarrow> nat \<Rightarrow> bool" where
  "csd_bit csd k \<longleftrightarrow> bit (csd ! (15 - k div 8)) (k mod 8)"

definition csd_field :: "byte list \<Rightarrow> nat \<Rightarrow> nat \<Rightarrow> nat" where
  "csd_field csd hi lo = horner_sum of_bool 2 (map (csd_bit csd) [lo..<Suc hi])"

lemma byte_horner: "horner_sum of_bool 2 (map (bit (w :: byte)) [0..<n]) = take_bit n (unat w)"
proof -
  have "map (bit w) [0..<n] = map (bit (unat w)) [0..<n]" by (simp add: bit_unsigned_iff list_eq_iff_nth_eq)
  then show ?thesis by (simp only: horner_sum_bit_eq_take_bit)
qed

lemma csd_field_split:
  assumes "lo \<le> mid" "mid \<le> hi"
  shows "csd_field csd hi lo = csd_field csd mid lo + 2 ^ (Suc mid - lo) * csd_field csd hi (Suc mid)"
proof -
  have "[lo..<Suc hi] = [lo..<Suc mid] @ [Suc mid..<Suc hi]"
    using upt_add_eq_append [of lo "Suc mid" "hi - mid"] assms by simp
  then show ?thesis
    using assms by (simp add: csd_field_def horner_sum_append del: upt_Suc)
qed

lemma csd_field_byte:
  assumes "r < 8"
  shows "csd_field csd (8 * q + r) (8 * q) = take_bit (Suc r) (unat (csd ! (15 - q)))"
proof -
  have "map (csd_bit csd) [8 * q..<Suc (8 * q + r)] = map (bit (csd ! (15 - q))) [0..<Suc r]"
    using assms by (auto simp: csd_bit_def list_eq_iff_nth_eq simp del: upt_Suc)
  then show ?thesis by (simp only: csd_field_def byte_horner)
qed

lemma power2_sixteen: "(65536 :: nat) = 2 ^ 16"
  by simp

lemma csd_c_size: "csd_field csd 69 48 mod 2 ^ 16 = unat (csd ! 9) + 256 * unat (csd ! 8)"
proof -
  have "csd_field csd 69 48 = csd_field csd 55 48 + 2 ^ 8 * (csd_field csd 63 56 + 2 ^ 8 * csd_field csd 69 64)"
    using csd_field_split [of 48 55 69 csd] csd_field_split [of 56 63 69 csd] by simp
  also have "csd_field csd 55 48 = take_bit 8 (unat (csd ! 9))" using csd_field_byte [of 7 csd 6] by simp
  also have "csd_field csd 63 56 = take_bit 8 (unat (csd ! 8))" using csd_field_byte [of 7 csd 7] by simp
  finally have "csd_field csd 69 48 = unat (csd ! 9) + 256 * unat (csd ! 8) + 65536 * csd_field csd 69 64"
    using unsigned_less [of "csd ! 9"] unsigned_less [of "csd ! 8"] by (simp add: take_bit_nat_eq_self)
  moreover have "unat (csd ! 9) < 256" "unat (csd ! 8) < 256"
    using unsigned_less [of "csd ! 9", where ?'a = nat] unsigned_less [of "csd ! 8", where ?'a = nat] by simp_all
  then have "unat (csd ! 9) + 256 * unat (csd ! 8) < 65536" by linarith
  ultimately show ?thesis by (metis mod_mult_self2 mod_less power2_sixteen)
qed

lemma csd_version_2:
  assumes "csd_field csd 127 126 = 1"
  shows "drop_bit 6 (ucast (csd ! 0) :: u32) = 1"
proof -
  have b: "bit (csd ! 0) 6" "\<not> bit (csd ! 0) 7"
    using assms by (auto simp: csd_field_def csd_bit_def upt_rec of_bool_def split: if_splits)
  have "\<not> bit (csd ! 0) (6 + n)" if "2 \<le> n" for n
    using bit_imp_le_length [of "csd ! 0" "6 + n"] that by auto
  note b = b this
  show ?thesis
  proof (rule bit_word_eqI)
    fix n assume "n < LENGTH(32)"
    show "bit (drop_bit 6 (ucast (csd ! 0) :: u32)) n = bit (1 :: u32) n"
      using b by (cases "n < 2") (auto simp: bit_simps less_2_cases_iff)
  qed
qed

lemma sector_bound: "a < 256 \<Longrightarrow> b < 256 \<Longrightarrow> 1024 * (256 * b + a + 1) < (4294967296 :: nat)"
  by simp

lemma csd_sectors_2:
  assumes "csd_field csd 127 126 = 1"
  shows "unat (csd_sectors csd) = 1024 * (csd_field csd 69 48 mod 2 ^ 16 + 1)"
proof -
  have v: "drop_bit 6 (ucast (csd ! 0) :: u32) = 1" using assms by (rule csd_version_2)
  have "unat (csd ! 9) < 256" "unat (csd ! 8) < 256"
    using unsigned_less [of "csd ! 9"] unsigned_less [of "csd ! 8"] by simp_all
  then have "1024 * (256 * unat (csd ! 8) + unat (csd ! 9) + 1) < 4294967296"
    by (rule sector_bound)
  then have l: "1024 * (256 * unat (csd ! 8) + unat (csd ! 9) + 1) < 2 ^ 32" by simp
  have "csd_sectors csd = word_of_nat (1024 * (256 * unat (csd ! 8) + unat (csd ! 9) + 1))"
    by (simp add: csd_sectors_def v push_bit_eq_mult algebra_simps)
  moreover have "LENGTH(32) = 32" by simp
  ultimately have "unat (csd_sectors csd) = 1024 * (256 * unat (csd ! 8) + unat (csd ! 9) + 1)"
    using l by (simp only: unsigned_of_nat take_bit_nat_eq_self of_nat_id)
  then show ?thesis
    by (simp only: csd_c_size ac_simps)
qed


lemma csd_sectors_append: "length csd = 18 \<Longrightarrow> csd_sectors (csd @ xs) = csd_sectors csd"
  by (simp add: csd_sectors_def nth_append)

section \<open>Properties\<close>

text \<open>C18: sdInitialize on a strict high-capacity card: whatever state the card is in and however often up to 1000 times it
  answers ACMD41 with busy, the driver follows the protocol (none of its commands is refused), leaves the card ready for
  transfers, records that it is addressed by sector, and takes the number of sectors from the C_SIZE field of the CSD register, of
  which it uses the low 16 bits: for cards up to 32 GB that is the capacity. A card that stays busy longer is an error.\<close>

theorem initialize_high_capacity_card:
  assumes "strict_ok i" "csd_field (ci_csd i) 127 126 = 1"
  shows "\<exists>s'. sdInitialize (strict_io i) s = (ic_busy (sd_card s) \<le> 1000, s') \<and>
    initialized s' = (ic_busy (sd_card s) \<le> 1000) \<and> ic_refused (sd_card s') = ic_refused (sd_card s) \<and>
    (ic_busy (sd_card s) \<le> 1000 \<longrightarrow> ic_phase (sd_card s') = Transfer \<and> \<not> typeSDSC s' \<and>
       unat (sd_sectors s') = 1024 * (csd_field (ci_csd i) 69 48 mod 2 ^ 16 + 1))"
proof -
  define t where "t = s\<lparr>initialized := False\<rparr>"
  define c where "c = sd_card s"
  have len: "length (ci_csd i) = 18" using assms(1) by (simp add: strict_ok_def)
  have t: "s\<lparr>initialized := False\<rparr> = card_at t c" "initialized t = False" by (simp_all add: t_def c_def)
  note init2 = ic_init2 [OF assms(1), where s = t and app = False and n = "ic_busy c" and k = "Suc (ic_clocks c + 11)" and sl = False
      and r = "[]" and e = "ic_refused c"]
  show ?thesis
    unfolding sdInitialize_def Let_def t ic_reset c_def [symmetric] using init2 t(2)
    by (auto simp: ic_cmd8 rspR1_IDLE_def getR7Response_def ic_get_word be_word_def csd_sectors_append [OF len] csd_sectors_2 [OF assms(2)])
qed

definition demo_info :: card_info where
  "demo_info = \<lparr>ci_ocr = 0xC0FF8000, ci_cid = replicate 18 0x17,
     ci_csd = [0x40, 0x0E, 0, 0x32, 0x5B, 0x59, 0, 0, 0x3B, 0x37, 0x7F, 0x80, 0x0A, 0x40, 0, 0x8D, 0, 0], ci_gap = 3\<rparr>"

definition demo_start :: "init_card sd" where
  "demo_start = \<lparr>typeSDSC = True, initialized = False, sd_sectors = 0,
     sd_card = \<lparr>ic_phase = Unreset, ic_app = False, ic_busy = 7, ic_clocks = 0, ic_sel = False, ic_frame = [], ic_reply = [], ic_refused = False\<rparr>\<rparr>"

lemma initialize_high_capacity_card_witness:
  "\<exists>s'. sdInitialize (strict_io demo_info) demo_start = (True, s') \<and> initialized s' \<and> \<not> typeSDSC s' \<and>
     \<not> ic_refused (sd_card s') \<and> unat (sd_sectors s') = 15523840"
proof -
  have f: "csd_field (ci_csd demo_info) 127 126 = 1" "csd_field (ci_csd demo_info) 69 48 = 0x3B37"
    by (simp_all add: demo_info_def csd_field_def csd_bit_def upt_rec)
  have "strict_ok demo_info"
    by (simp add: strict_ok_def demo_info_def)
  from initialize_high_capacity_card [OF this f(1), of demo_start] f(2)
  show ?thesis by (auto simp: demo_start_def)
qed

end
