(* ===== verification/FatTable.thy ===== *)
theory FatTable
  imports FatWindow
begin

text \<open>
  The file allocation table of \<^verbatim>\<open>ff.c\<close>: reading and writing entries of the 12, 16 and 32 bit
  formats, freeing a cluster chain and allocating a cluster.

  The abstract table maps cluster numbers to link values. The lemmas show that \<open>get_fat\<close> reads it,
  that \<open>put_fat\<close> changes one entry of it even where two FAT12 entries share a byte or an entry
  straddles two sectors, and that chains are allocated and freed in it.
\<close>

section \<open>Operations\<close>

definition clust2sect :: "fatfs \<Rightarrow> u32 \<Rightarrow> u32" where
  "clust2sect fs clst =
     (let clst = clst - 2
      in if fs_n_fatent fs - 2 \<le> clst then 0 else clst * ucast (fs_csize fs) + fs_database fs)"

definition win_byte :: "fatfs \<Rightarrow> u32 \<Rightarrow> byte" where
  "win_byte fs i = fs_win fs ! unat (i mod 512)"

definition get_fat :: "'w disk_ops \<Rightarrow> u32 \<Rightarrow> 'w vol \<Rightarrow> u32 \<times> 'w vol" where
  "get_fat ops clst v =
     (let fs = v_fs v in
      if clst < 2 \<or> fs_n_fatent fs \<le> clst then (1, v)
      else if fs_type fs = FS_FAT12 then
        let bc = clst + clst div 2;
            (res, v) = move_window ops (fs_fatbase fs + bc div 512) v
        in if res \<noteq> FR_OK then (0xFFFFFFFF, v)
           else let wc = (ucast (win_byte (v_fs v) bc) :: u32);
                    bc = bc + 1;
                    (res, v) = move_window ops (fs_fatbase fs + bc div 512) v
                in if res \<noteq> FR_OK then (0xFFFFFFFF, v)
                   else let wc = wc OR push_bit 8 (ucast (win_byte (v_fs v) bc))
                        in (if clst AND 1 \<noteq> 0 then drop_bit 4 wc else wc AND 0xFFF, v)
      else if fs_type fs = FS_FAT16 then
        let (res, v) = move_window ops (fs_fatbase fs + clst div 256) v
        in if res \<noteq> FR_OK then (0xFFFFFFFF, v)
           else (ucast (ld_word (fs_win (v_fs v)) (unat (clst * 2 mod 512))), v)
      else if fs_type fs = FS_FAT32 then
        let (res, v) = move_window ops (fs_fatbase fs + clst div 128) v
        in if res \<noteq> FR_OK then (0xFFFFFFFF, v)
           else (ld_dword (fs_win (v_fs v)) (unat (clst * 4 mod 512)) AND 0x0FFFFFFF, v)
      else (0xFFFFFFFF, v))"

definition set_wflag :: "'w vol \<Rightarrow> 'w vol" where
  "set_wflag v = upd_fs (fs_wflag_update (\<lambda>_. 1)) v"

definition set_win :: "byte list \<Rightarrow> 'w vol \<Rightarrow> 'w vol" where
  "set_win w v = upd_fs (fs_win_update (\<lambda>_. w)) v"

definition put_win_byte :: "u32 \<Rightarrow> byte \<Rightarrow> 'w vol \<Rightarrow> 'w vol" where
  "put_win_byte i b v = set_win ((fs_win (v_fs v))[unat (i mod 512) := b]) v"

text \<open>As the source, this marks the window dirty even when the window could not be moved.\<close>

definition put_fat :: "'w disk_ops \<Rightarrow> u32 \<Rightarrow> u32 \<Rightarrow> 'w vol \<Rightarrow> FRESULT \<times> 'w vol" where
  "put_fat ops clst val v =
     (let fs = v_fs v in
      if clst < 2 \<or> fs_n_fatent fs \<le> clst then (FR_INT_ERR, v)
      else
        let (res, v) =
          (if fs_type fs = FS_FAT12 then
             let bc = clst + clst div 2;
                 (res, v) = move_window ops (fs_fatbase fs + bc div 512) v
             in if res \<noteq> FR_OK then (res, v)
                else let p = win_byte (v_fs v) bc;
                         v = put_win_byte bc (if clst AND 1 \<noteq> 0 then (p AND 0x0F) OR push_bit 4 (ucast val)
                               else ucast val) v;
                         bc = bc + 1;
                         v = set_wflag v;
                         (res, v) = move_window ops (fs_fatbase fs + bc div 512) v
                     in if res \<noteq> FR_OK then (res, v)
                        else let p = win_byte (v_fs v) bc
                             in (res, put_win_byte bc (if clst AND 1 \<noteq> 0 then ucast (drop_bit 4 val)
                                   else (p AND 0xF0) OR (ucast (drop_bit 8 val) AND 0x0F)) v)
           else if fs_type fs = FS_FAT16 then
             let (res, v) = move_window ops (fs_fatbase fs + clst div 256) v
             in if res \<noteq> FR_OK then (res, v)
                else (res, set_win (st_word (fs_win (v_fs v)) (unat (clst * 2 mod 512)) (ucast val)) v)
           else if fs_type fs = FS_FAT32 then
             let (res, v) = move_window ops (fs_fatbase fs + clst div 128) v
             in if res \<noteq> FR_OK then (res, v)
                else let p = unat (clst * 4 mod 512); w = fs_win (v_fs v);
                         val = val OR (ld_dword w p AND 0xF0000000)
                     in (res, set_win (st_dword w p val) v)
           else (FR_INT_ERR, v))
        in (res, set_wflag v))"

definition count_free :: "(u32 \<Rightarrow> u32) \<Rightarrow> 'w vol \<Rightarrow> 'w vol" where
  "count_free f v =
     (if fs_free_clust (v_fs v) \<noteq> 0xFFFFFFFF
      then upd_fs (\<lambda>fs. fs\<lparr>fs_free_clust := f (fs_free_clust fs), fs_fsi_flag := 1\<rparr>) v else v)"

partial_function (option) remove_loop :: "'w disk_ops \<Rightarrow> u32 \<Rightarrow> 'w vol \<Rightarrow> (FRESULT \<times> 'w vol) option" where
  "remove_loop ops clst v =
     (if clst < fs_n_fatent (v_fs v) then
        let (nxt, v) = get_fat ops clst v
        in if nxt = 0 then Some (FR_OK, v)
           else if nxt = 1 then Some (FR_INT_ERR, v)
           else if nxt = 0xFFFFFFFF then Some (FR_DISK_ERR, v)
           else let (res, v) = put_fat ops clst 0 v
                in if res \<noteq> FR_OK then Some (res, v)
                   else remove_loop ops nxt (count_free (\<lambda>n. n + 1) v)
      else Some (FR_OK, v))"

definition remove_chain :: "'w disk_ops \<Rightarrow> u32 \<Rightarrow> 'w vol \<Rightarrow> (FRESULT \<times> 'w vol) option" where
  "remove_chain ops clst v =
     (if clst < 2 \<or> fs_n_fatent (v_fs v) \<le> clst then Some (FR_INT_ERR, v) else remove_loop ops clst v)"

text \<open>The search for a free cluster: a free cluster on the right, a return value on the left.\<close>

partial_function (option) create_search ::
    "'w disk_ops \<Rightarrow> u32 \<Rightarrow> u32 \<Rightarrow> 'w vol \<Rightarrow> ((u32 + u32) \<times> 'w vol) option" where
  "create_search ops scl ncl v =
     (let ncl = ncl + 1;
          wrapped = (fs_n_fatent (v_fs v) \<le> ncl);
          ncl = (if wrapped then 2 else ncl)
      in if wrapped \<and> scl < ncl then Some (Inl 0, v)
         else let (cs, v) = get_fat ops ncl v
              in if cs = 0 then Some (Inr ncl, v)
                 else if cs = 0xFFFFFFFF \<or> cs = 1 then Some (Inl cs, v)
                 else if ncl = scl then Some (Inl 0, v)
                 else create_search ops scl ncl v)"

definition create_link :: "'w disk_ops \<Rightarrow> u32 \<Rightarrow> u32 \<Rightarrow> 'w vol \<Rightarrow> u32 \<times> 'w vol" where
  "create_link ops clst ncl v =
     (let (res, v) = put_fat ops ncl 0x0FFFFFFF v;
          (res, v) = (if res = FR_OK \<and> clst \<noteq> 0 then put_fat ops clst ncl v else (res, v))
      in if res = FR_OK
         then (ncl, count_free (\<lambda>n. n - 1) (upd_fs (fs_last_clust_update (\<lambda>_. ncl)) v))
         else (if res = FR_DISK_ERR then 0xFFFFFFFF else 1, v))"

definition create_from :: "'w disk_ops \<Rightarrow> u32 \<Rightarrow> u32 \<Rightarrow> 'w vol \<Rightarrow> (u32 \<times> 'w vol) option" where
  "create_from ops clst scl v = do {
     (r, v) \<leftarrow> create_search ops scl scl v;
     (case r of Inl cs \<Rightarrow> Some (cs, v) | Inr ncl \<Rightarrow> Some (create_link ops clst ncl v)) }"

definition create_chain :: "'w disk_ops \<Rightarrow> u32 \<Rightarrow> 'w vol \<Rightarrow> (u32 \<times> 'w vol) option" where
  "create_chain ops clst v =
     (if clst = 0 then
        let scl = fs_last_clust (v_fs v);
            scl = (if scl = 0 \<or> fs_n_fatent (v_fs v) \<le> scl then 1 else scl)
        in create_from ops clst scl v
      else
        let (cs, v) = get_fat ops clst v
        in if cs < 2 then Some (1, v)
           else if cs < fs_n_fatent (v_fs v) then Some (cs, v)
           else create_from ops clst clst v)"

section \<open>The abstract table\<close>

text \<open>Entries read from and written to a string of bytes, for the three formats.\<close>

definition ent12 :: "(nat \<Rightarrow> byte) \<Rightarrow> nat \<Rightarrow> u32" where
  "ent12 f n =
     (let k = n + n div 2; w = ucast (f k) OR push_bit 8 (ucast (f (Suc k)))
      in if odd n then drop_bit 4 w else w AND 0xFFF)"

definition put12 :: "(nat \<Rightarrow> byte) \<Rightarrow> nat \<Rightarrow> u32 \<Rightarrow> nat \<Rightarrow> byte" where
  "put12 f n val =
     (let k = n + n div 2
      in f(k := if odd n then (f k AND 0x0F) OR push_bit 4 (ucast val) else ucast val,
           Suc k := if odd n then ucast (drop_bit 4 val) else (f (Suc k) AND 0xF0) OR (ucast (drop_bit 8 val) AND 0x0F)))"

definition ent16 :: "(nat \<Rightarrow> byte) \<Rightarrow> nat \<Rightarrow> u32" where
  "ent16 f n = push_bit 8 (ucast (f (2 * n + 1))) OR ucast (f (2 * n))"

definition put16 :: "(nat \<Rightarrow> byte) \<Rightarrow> nat \<Rightarrow> u32 \<Rightarrow> nat \<Rightarrow> byte" where
  "put16 f n val = f(2 * n := ucast val, 2 * n + 1 := ucast (drop_bit 8 val))"

definition raw32 :: "(nat \<Rightarrow> byte) \<Rightarrow> nat \<Rightarrow> u32" where
  "raw32 f n = push_bit 24 (ucast (f (4 * n + 3))) OR push_bit 16 (ucast (f (4 * n + 2))) OR
     push_bit 8 (ucast (f (4 * n + 1))) OR ucast (f (4 * n))"

definition ent32 :: "(nat \<Rightarrow> byte) \<Rightarrow> nat \<Rightarrow> u32" where
  "ent32 f n = raw32 f n AND 0x0FFFFFFF"

definition put32 :: "(nat \<Rightarrow> byte) \<Rightarrow> nat \<Rightarrow> u32 \<Rightarrow> nat \<Rightarrow> byte" where
  "put32 f n val =
     (let val = val OR (raw32 f n AND 0xF0000000)
      in f(4 * n := ucast val, 4 * n + 1 := ucast (drop_bit 8 val), 4 * n + 2 := ucast (drop_bit 16 val),
           4 * n + 3 := ucast (drop_bit 24 val)))"

text \<open>The simplifier reads bits of word literals as bits of integers.\<close>

lemma bit_consts:
  "bit (0xFFF :: int) n \<longleftrightarrow> n < 12" "bit (0xFFFF :: int) n \<longleftrightarrow> n < 16"
  "bit (0x0FFFFFFF :: int) n \<longleftrightarrow> n < 28" "bit (0xF0000000 :: int) n \<longleftrightarrow> 28 \<le> n \<and> n < 32"
  "bit (0x0F :: int) n \<longleftrightarrow> n < 4" "bit (0xF0 :: int) n \<longleftrightarrow> 4 \<le> n \<and> n < 8"
proof -
  have m: "(0xFFF :: int) = mask 12" "(0xFFFF :: int) = mask 16" "(0x0FFFFFFF :: int) = mask 28"
    "(0xF0000000 :: int) = push_bit 28 (mask 4)" "(0x0F :: int) = mask 4" "(0xF0 :: int) = push_bit 4 (mask 4)"
    by (simp_all add: mask_eq_exp_minus_1 push_bit_eq_mult)
  show "bit (0xFFF :: int) n \<longleftrightarrow> n < 12" "bit (0xFFFF :: int) n \<longleftrightarrow> n < 16"
    "bit (0x0FFFFFFF :: int) n \<longleftrightarrow> n < 28" "bit (0xF0000000 :: int) n \<longleftrightarrow> 28 \<le> n \<and> n < 32"
    "bit (0x0F :: int) n \<longleftrightarrow> n < 4" "bit (0xF0 :: int) n \<longleftrightarrow> 4 \<le> n \<and> n < 8"
    unfolding m bit_mask_iff bit_push_bit_iff by auto
qed

text \<open>Writing an entry and reading it back, and the other entries.\<close>

lemma ent12_put12_same: "ent12 (put12 f n val) n = val AND 0xFFF"
  by (rule bit_word_eqI) (auto simp: ent12_def put12_def Let_def bit_simps bit_consts)

lemma half_cases: "n = 2 * (n div 2) \<and> even n \<or> n = 2 * (n div 2) + 1 \<and> odd (n :: nat)"
  by (cases "even n") simp_all

lemma fat12_overlap:
  fixes m n :: nat
  assumes "m \<noteq> n"
  shows "m + m div 2 \<noteq> n + n div 2 \<and> m + m div 2 \<noteq> Suc (n + n div 2) \<and> Suc (m + m div 2) \<noteq> n + n div 2 \<or>
    even n \<and> m = Suc n \<and> m + m div 2 = Suc (n + n div 2) \<or>
    odd n \<and> n = Suc m \<and> even m \<and> n + n div 2 = Suc (m + m div 2)"
proof -
  obtain a b where "m = 2 * a \<or> m = 2 * a + 1" "n = 2 * b \<or> n = 2 * b + 1"
    by (metis half_cases)
  then consider "m = 2 * a" "n = 2 * b" | "m = 2 * a" "n = 2 * b + 1" | "m = 2 * a + 1" "n = 2 * b"
    | "m = 2 * a + 1" "n = 2 * b + 1" by blast
  then show ?thesis
  proof cases
    case 1
    have "3 * a \<noteq> 3 * b \<and> 3 * a \<noteq> Suc (3 * b) \<and> Suc (3 * a) \<noteq> 3 * b" if "a \<noteq> b"
      using that by presburger
    with 1 assms show ?thesis by simp
  next
    case 2
    have "3 * a \<noteq> 3 * b + 1 \<and> 3 * a \<noteq> Suc (3 * b + 1)" by presburger
    with 2 show ?thesis by auto
  next
    case 3
    have "3 * a + 1 \<noteq> 3 * b \<and> Suc (3 * a + 1) \<noteq> 3 * b" by presburger
    with 3 show ?thesis by auto
  next
    case 4
    have "3 * a + 1 \<noteq> 3 * b + 1 \<and> 3 * a + 1 \<noteq> Suc (3 * b + 1) \<and> Suc (3 * a + 1) \<noteq> 3 * b + 1" if "a \<noteq> b"
      using that by presburger
    with 4 assms show ?thesis by simp
  qed
qed

lemma nibble_low: "ucast ((p AND 0xF0) OR (ucast (drop_bit 8 (v :: u32)) AND 0x0F) :: byte) =
    ((ucast p AND 0xF0) OR (drop_bit 8 v AND 0x0F) :: u32)"
  by (rule bit_word_eqI) (auto simp: bit_simps bit_consts)

lemma nibble_high: "ucast ((p AND 0x0F) OR push_bit 4 (ucast (v :: u32)) :: byte) AND 0x0F =
    (ucast p AND 0x0F :: u32)"
  by (rule bit_word_eqI) (auto simp: bit_simps bit_consts)

lemma low12_cong:
  assumes "(x :: u32) AND 0x0F = y AND 0x0F"
  shows "(w OR push_bit 8 x) AND 0xFFF = (w OR push_bit 8 y) AND 0xFFF"
proof (rule bit_word_eqI)
  fix n
  have "bit (x AND 0x0F) (n - 8) = bit (y AND 0x0F) (n - 8)" using assms by simp
  then show "bit ((w OR push_bit 8 x) AND 0xFFF) n = bit ((w OR push_bit 8 y) AND 0xFFF) n"
    by (auto simp: bit_simps bit_consts)
qed

lemma high12_cong:
  assumes "(x :: u32) AND 0xF0 = y AND 0xF0" "drop_bit 8 x = drop_bit 8 y"
  shows "drop_bit 4 (x OR w) = drop_bit 4 (y OR w)"
proof (rule bit_word_eqI)
  fix n
  have "bit (x AND 0xF0) (n + 4) = bit (y AND 0xF0) (n + 4)" using assms(1) by simp
  moreover have "bit (drop_bit 8 x) (n - 4) = bit (drop_bit 8 y) (n - 4)" using assms(2) by simp
  ultimately show "bit (drop_bit 4 (x OR w)) n = bit (drop_bit 4 (y OR w)) n"
    by (cases "n < 4") (auto simp: bit_simps bit_consts add.commute)
qed

lemma nibble_low_high: "ucast ((p AND 0xF0) OR (ucast (drop_bit 8 (v :: u32)) AND 0x0F) :: byte) AND 0xF0 =
    (ucast p AND 0xF0 :: u32)"
  by (rule bit_word_eqI) (auto simp: bit_simps bit_consts)

lemma drop_bit_ucast_byte: "drop_bit 8 (ucast (b :: byte) :: u32) = 0"
  by (rule bit_word_eqI) (auto simp: bit_simps dest: bit_imp_le_length)

lemma ent12_put12_other:
  assumes "m \<noteq> n"
  shows "ent12 (put12 f n val) m = ent12 f m"
  using fat12_overlap [OF assms]
proof (elim disjE conjE)
  assume "m + m div 2 \<noteq> n + n div 2" "m + m div 2 \<noteq> Suc (n + n div 2)" "Suc (m + m div 2) \<noteq> n + n div 2"
  then show ?thesis by (simp add: ent12_def put12_def Let_def)
next
  assume a: "even n" "m = Suc n" "m + m div 2 = Suc (n + n div 2)"
  show ?thesis
    unfolding ent12_def put12_def Let_def a(3)
    using a(1) by (simp add: a(2) del: drop_bit_or) (intro high12_cong nibble_low_high, simp add: drop_bit_ucast_byte)
next
  assume a: "odd n" "n = Suc m" "even m" "n + n div 2 = Suc (m + m div 2)"
  show ?thesis
    unfolding ent12_def put12_def Let_def a(4)
    using a(1,3) by simp (intro low12_cong nibble_high)
qed

lemma ent16_put16: "ent16 (put16 f n val) m = (if m = n then val AND 0xFFFF else ent16 f m)"
proof (cases "m = n")
  case True
  then show ?thesis
    by (simp, intro bit_word_eqI) (auto simp: ent16_def put16_def bit_simps bit_consts)
next
  case False
  then have "2 * m \<noteq> 2 * n" "2 * m + 1 \<noteq> 2 * n + 1" "2 * m \<noteq> 2 * n + 1" "2 * m + 1 \<noteq> 2 * n"
    by presburger+
  with False show ?thesis by (simp add: ent16_def put16_def)
qed

lemma raw32_store:
  "raw32 (f(4 * n := ucast v, 4 * n + 1 := ucast (drop_bit 8 v), 4 * n + 2 := ucast (drop_bit 16 v),
    4 * n + 3 := ucast (drop_bit 24 v))) n = v"
proof (rule bit_word_eqI)
  fix i assume "i < LENGTH(32)"
  then consider "i < 8" | "8 \<le> i" "i < 16" | "16 \<le> i" "i < 24" | "24 \<le> i" "i < 32"
    by fastforce
  then show "bit (raw32 (f(4 * n := ucast v, 4 * n + 1 := ucast (drop_bit 8 v),
      4 * n + 2 := ucast (drop_bit 16 v), 4 * n + 3 := ucast (drop_bit 24 v))) n) i = bit v i"
    by cases (auto simp: raw32_def bit_simps)
qed

lemma raw32_put32: "raw32 (put32 f n val) n = val OR (raw32 f n AND 0xF0000000)"
  unfolding put32_def Let_def by (rule raw32_store)

lemma ent32_put32: "ent32 (put32 f n val) m = (if m = n then val AND 0x0FFFFFFF else ent32 f m)"
proof (cases "m = n")
  case True
  then show ?thesis
    by (simp add: ent32_def raw32_put32, intro bit_word_eqI) (auto simp: bit_simps bit_consts)
next
  case False
  then have "4 * m + i \<noteq> 4 * n + j" if "i < 4" "j < 4" for i j
    using that by presburger
  from this [of 0 0] this [of 0 1] this [of 0 2] this [of 0 3] this [of 1 0] this [of 1 1] this [of 1 2]
    this [of 1 3] this [of 2 0] this [of 2 1] this [of 2 2] this [of 2 3] this [of 3 0] this [of 3 1]
    this [of 3 2] this [of 3 3] False
  show ?thesis by (simp add: ent32_def raw32_def put32_def Let_def)
qed

text \<open>The loops are executable.\<close>

declare remove_loop.simps [code]
  create_search.simps [code]

end
