(* ===== verification/FatDir.thy ===== *)
theory FatDir
  imports FatTable
begin

text \<open>
  Directory tables of \<^verbatim>\<open>ff.c\<close>: moving a directory object to an entry, to the next entry (with or
  without stretching the table), finding, reading, reserving, writing and deleting an entry.

  A directory object names an entry by its index, sector and a pointer into the window; the pointer
  is an offset into the window, \<open>None\<close> for the null pointer that stands for the directory itself.
\<close>

section \<open>Directory objects and entries\<close>

record dir =
  d_fs :: "nat option"
  d_id :: u16
  d_index :: u16
  d_sclust :: u32
  d_clust :: u32
  d_sect :: u32
  d_dir :: "nat option"
  d_fn :: "byte list"

definition AM_RDO :: byte where "AM_RDO = 0x01"
definition AM_HID :: byte where "AM_HID = 0x02"
definition AM_SYS :: byte where "AM_SYS = 0x04"
definition AM_VOL :: byte where "AM_VOL = 0x08"
definition AM_LFN :: byte where "AM_LFN = 0x0F"
definition AM_DIR :: byte where "AM_DIR = 0x10"
definition AM_ARC :: byte where "AM_ARC = 0x20"
definition AM_MASK :: byte where "AM_MASK = 0x3F"

definition DDE :: byte where "DDE = 0xE5"
definition NDDE :: byte where "NDDE = 0x05"

definition DIR_Attr :: nat where "DIR_Attr = 11"
definition DIR_NTres :: nat where "DIR_NTres = 12"
definition DIR_CrtTime :: nat where "DIR_CrtTime = 14"
definition DIR_LstAccDate :: nat where "DIR_LstAccDate = 18"
definition DIR_FstClusHI :: nat where "DIR_FstClusHI = 20"
definition DIR_WrtTime :: nat where "DIR_WrtTime = 22"
definition DIR_WrtDate :: nat where "DIR_WrtDate = 24"
definition DIR_FstClusLO :: nat where "DIR_FstClusLO = 26"
definition DIR_FileSize :: nat where "DIR_FileSize = 28"
definition SZ_DIR :: nat where "SZ_DIR = 32"

lemmas dir_offsets = DIR_Attr_def DIR_NTres_def DIR_CrtTime_def DIR_LstAccDate_def DIR_FstClusHI_def
  DIR_WrtTime_def DIR_WrtDate_def DIR_FstClusLO_def DIR_FileSize_def SZ_DIR_def

lemmas attr_bits = AM_RDO_def AM_HID_def AM_SYS_def AM_VOL_def AM_LFN_def AM_DIR_def AM_ARC_def AM_MASK_def

text \<open>The byte at offset \<open>k\<close> of the entry at window offset \<open>p\<close>.\<close>

definition ent_byte :: "'w vol \<Rightarrow> nat \<Rightarrow> nat \<Rightarrow> byte" where
  "ent_byte v p k = fs_win (v_fs v) ! (p + k)"

section \<open>Set the directory index\<close>

text \<open>
  Following the chain: the result code of an early return on the left; cluster and remaining
  index on the right. The loop does not end when a cluster has no sectors.
\<close>

partial_function (option) sdi_follow ::
    "'w disk_ops \<Rightarrow> u16 \<Rightarrow> u16 \<Rightarrow> u32 \<Rightarrow> 'w vol \<Rightarrow> ((FRESULT + u32 \<times> u16) \<times> 'w vol) option" where
  "sdi_follow ops ic idx clst v =
     (if ic \<le> idx then
        let (clst, v) = get_fat ops clst v
        in if clst = 0xFFFFFFFF then Some (Inl FR_DISK_ERR, v)
           else if clst < 2 \<or> fs_n_fatent (v_fs v) \<le> clst then Some (Inl FR_INT_ERR, v)
           else sdi_follow ops ic (idx - ic) clst v
      else Some (Inr (clst, idx), v))"

definition entry_ofs :: "u16 \<Rightarrow> nat" where
  "entry_ofs idx = unat (idx mod 16) * SZ_DIR"

definition dir_sdi :: "'w disk_ops \<Rightarrow> dir \<Rightarrow> u16 \<Rightarrow> 'w vol \<Rightarrow> (FRESULT \<times> dir \<times> 'w vol) option" where
  "dir_sdi ops dj idx v =
     (let fs = v_fs v; dj = dj\<lparr>d_index := idx\<rparr>; clst = d_sclust dj in
      if clst = 1 \<or> fs_n_fatent fs \<le> clst then Some (FR_INT_ERR, dj, v)
      else let clst = (if clst = 0 \<and> fs_type fs = FS_FAT32 then fs_dirbase fs else clst)
        in if clst = 0 then
             let dj = dj\<lparr>d_clust := clst\<rparr>
             in if fs_n_rootdir fs \<le> idx then Some (FR_INT_ERR, dj, v)
                else Some (FR_OK, dj\<lparr>d_sect := fs_dirbase fs + ucast (idx div 16), d_dir := Some (entry_ofs idx)\<rparr>, v)
           else do {
             (r, v) \<leftarrow> sdi_follow ops (16 * ucast (fs_csize fs)) idx clst v;
             (case r of Inl res \<Rightarrow> Some (res, dj, v)
              | Inr (clst, idx) \<Rightarrow>
                  Some (FR_OK, dj\<lparr>d_clust := clst, d_sect := clust2sect (v_fs v) clst + ucast (idx div 16),
                    d_dir := Some (entry_ofs idx)\<rparr>, v)) })"

section \<open>Move to the next entry\<close>

text \<open>Clearing the cluster a table was stretched by, one sector at a time through the window.\<close>

fun clear_loop :: "'w disk_ops \<Rightarrow> nat \<Rightarrow> 'w vol \<Rightarrow> FRESULT \<times> 'w vol" where
  "clear_loop ops 0 v = (FR_OK, v)"
| "clear_loop ops (Suc n) v =
     (let (res, v) = sync_window ops (set_wflag v)
      in if res \<noteq> FR_OK then (FR_DISK_ERR, v)
         else clear_loop ops n (upd_fs (fs_winsect_update (\<lambda>s. s + 1)) v))"

definition clear_cluster :: "'w disk_ops \<Rightarrow> u32 \<Rightarrow> 'w vol \<Rightarrow> FRESULT \<times> 'w vol" where
  "clear_cluster ops clst v =
     (let (res, v) = sync_window ops v
      in if res \<noteq> FR_OK then (FR_DISK_ERR, v)
         else let v = set_win (mem_set (fs_win (v_fs v)) 0 0 512) v;
                  v = upd_fs (fs_winsect_update (\<lambda>_. clust2sect (v_fs v) clst)) v;
                  (res, v) = clear_loop ops (unat (fs_csize (v_fs v))) v
              in if res \<noteq> FR_OK then (res, v)
                 else (FR_OK, upd_fs (fs_winsect_update (\<lambda>s. s - ucast (fs_csize (v_fs v)))) v))"

text \<open>The next cluster of a table that does not end here, or the cluster it is stretched by.\<close>

definition next_clust :: "'w disk_ops \<Rightarrow> u32 \<Rightarrow> bool \<Rightarrow> 'w vol \<Rightarrow> ((FRESULT + u32) \<times> 'w vol) option" where
  "next_clust ops clust stretch v =
     (let (clst, v) = get_fat ops clust v
      in if clst \<le> 1 then Some (Inl FR_INT_ERR, v)
         else if clst = 0xFFFFFFFF then Some (Inl FR_DISK_ERR, v)
         else if fs_n_fatent (v_fs v) \<le> clst then
           (if \<not> stretch then Some (Inl FR_NO_FILE, v)
            else do {
              (clst, v) \<leftarrow> create_chain ops clust v;
              (if clst = 0 then Some (Inl FR_DENIED, v)
               else if clst = 1 then Some (Inl FR_INT_ERR, v)
               else if clst = 0xFFFFFFFF then Some (Inl FR_DISK_ERR, v)
               else let (res, v) = clear_cluster ops clst v
                    in Some (if res \<noteq> FR_OK then Inl res else Inr clst, v)) })
         else Some (Inr clst, v))"

definition dir_next :: "'w disk_ops \<Rightarrow> dir \<Rightarrow> bool \<Rightarrow> 'w vol \<Rightarrow> (FRESULT \<times> dir \<times> 'w vol) option" where
  "dir_next ops dj stretch v =
     (let i = d_index dj + 1;
          ok = (\<lambda>dj v. Some (FR_OK, dj\<lparr>d_index := i, d_dir := Some (entry_ofs i)\<rparr>, v))
      in if i = 0 \<or> d_sect dj = 0 then Some (FR_NO_FILE, dj, v)
         else if i mod 16 = 0 then
           let dj = dj\<lparr>d_sect := d_sect dj + 1\<rparr>
           in if d_clust dj = 0 then
                (if fs_n_rootdir (v_fs v) \<le> i then Some (FR_NO_FILE, dj, v) else ok dj v)
              else if (ucast (i div 16) :: u32) AND (ucast (fs_csize (v_fs v)) - 1) = 0 then do {
                (r, v) \<leftarrow> next_clust ops (d_clust dj) stretch v;
                (case r of Inl res \<Rightarrow> Some (res, dj, v)
                 | Inr clst \<Rightarrow> ok (dj\<lparr>d_clust := clst, d_sect := clust2sect (v_fs v) clst\<rparr>) v) }
              else ok dj v
         else ok dj v)"

section \<open>Reserve an entry\<close>

text \<open>A do-while loop: the entry is examined, then the next one is moved to.\<close>

partial_function (option) alloc_loop ::
    "'w disk_ops \<Rightarrow> u32 \<Rightarrow> u32 \<Rightarrow> dir \<Rightarrow> 'w vol \<Rightarrow> (FRESULT \<times> dir \<times> 'w vol) option" where
  "alloc_loop ops nent n dj v =
     (let (res, v) = move_window ops (d_sect dj) v
      in if res \<noteq> FR_OK then Some (res, dj, v)
         else do {
           p \<leftarrow> d_dir dj;
           (let blank = (ent_byte v p 0 = DDE \<or> ent_byte v p 0 = 0);
                n = (if blank then n + 1 else 0)
            in if blank \<and> n = nent then Some (FR_OK, dj, v)
               else do {
                 (res, dj, v) \<leftarrow> dir_next ops dj True v;
                 (if res = FR_OK then alloc_loop ops nent n dj v else Some (res, dj, v)) }) })"

definition dir_alloc :: "'w disk_ops \<Rightarrow> dir \<Rightarrow> u32 \<Rightarrow> 'w vol \<Rightarrow> (FRESULT \<times> dir \<times> 'w vol) option" where
  "dir_alloc ops dj nent v = do {
     (res, dj, v) \<leftarrow> dir_sdi ops dj 0 v;
     (if res = FR_OK then alloc_loop ops nent 0 dj v else Some (res, dj, v)) }"

section \<open>Start cluster of an entry\<close>

definition ld_clust :: "fatfs \<Rightarrow> nat \<Rightarrow> u32" where
  "ld_clust fs p =
     (let cl = ucast (ld_word (fs_win fs) (p + DIR_FstClusLO))
      in if fs_type fs = FS_FAT32 then cl OR push_bit 16 (ucast (ld_word (fs_win fs) (p + DIR_FstClusHI)))
         else cl)"

definition st_clust :: "nat \<Rightarrow> u32 \<Rightarrow> 'w vol \<Rightarrow> 'w vol" where
  "st_clust p cl v =
     (let w = st_word (fs_win (v_fs v)) (p + DIR_FstClusLO) (ucast cl)
      in set_win (st_word w (p + DIR_FstClusHI) (ucast (drop_bit 16 cl))) v)"

section \<open>Find, read, register and remove an entry\<close>

definition sfn_match :: "'w vol \<Rightarrow> nat \<Rightarrow> byte list \<Rightarrow> bool" where
  "sfn_match v p fn \<longleftrightarrow> ent_byte v p DIR_Attr AND AM_VOL = 0 \<and> mem_cmp (drop p (fs_win (v_fs v))) fn 11 = 0"

partial_function (option) dirfind_loop ::
    "'w disk_ops \<Rightarrow> dir \<Rightarrow> 'w vol \<Rightarrow> (FRESULT \<times> dir \<times> 'w vol) option" where
  "dirfind_loop ops dj v =
     (let (res, v) = move_window ops (d_sect dj) v
      in if res \<noteq> FR_OK then Some (res, dj, v)
         else do {
           p \<leftarrow> d_dir dj;
           (if ent_byte v p 0 = 0 then Some (FR_NO_FILE, dj, v)
            else if sfn_match v p (d_fn dj) then Some (FR_OK, dj, v)
            else do {
              (res, dj, v) \<leftarrow> dir_next ops dj False v;
              (if res = FR_OK then dirfind_loop ops dj v else Some (res, dj, v)) }) })"

definition dir_find :: "'w disk_ops \<Rightarrow> dir \<Rightarrow> 'w vol \<Rightarrow> (FRESULT \<times> dir \<times> 'w vol) option" where
  "dir_find ops dj v = do {
     (res, dj, v) \<leftarrow> dir_sdi ops dj 0 v;
     (if res \<noteq> FR_OK then Some (res, dj, v) else dirfind_loop ops dj v) }"

definition entry_valid :: "'w vol \<Rightarrow> nat \<Rightarrow> bool \<Rightarrow> bool" where
  "entry_valid v p label \<longleftrightarrow>
     (let c = ent_byte v p 0; a = ent_byte v p DIR_Attr AND AM_MASK
      in c \<noteq> DDE \<and> c \<noteq> 0x2E \<and> a \<noteq> AM_LFN \<and> (a = AM_VOL) = label)"

partial_function (option) dirread_loop ::
    "'w disk_ops \<Rightarrow> bool \<Rightarrow> FRESULT \<Rightarrow> dir \<Rightarrow> 'w vol \<Rightarrow> (FRESULT \<times> dir \<times> 'w vol) option" where
  "dirread_loop ops label res dj v =
     (if d_sect dj = 0 then Some (res, dj, v)
      else let (res, v) = move_window ops (d_sect dj) v
        in if res \<noteq> FR_OK then Some (res, dj, v)
           else do {
             p \<leftarrow> d_dir dj;
             (if ent_byte v p 0 = 0 then Some (FR_NO_FILE, dj, v)
              else if entry_valid v p label then Some (res, dj, v)
              else do {
                (res, dj, v) \<leftarrow> dir_next ops dj False v;
                (if res \<noteq> FR_OK then Some (res, dj, v) else dirread_loop ops label res dj v) }) })"

definition dir_read :: "'w disk_ops \<Rightarrow> dir \<Rightarrow> bool \<Rightarrow> 'w vol \<Rightarrow> (FRESULT \<times> dir \<times> 'w vol) option" where
  "dir_read ops dj label v = do {
     (res, dj, v) \<leftarrow> dirread_loop ops label FR_NO_FILE dj v;
     Some (res, if res \<noteq> FR_OK then dj\<lparr>d_sect := 0\<rparr> else dj, v) }"

definition dir_register :: "'w disk_ops \<Rightarrow> dir \<Rightarrow> 'w vol \<Rightarrow> (FRESULT \<times> dir \<times> 'w vol) option" where
  "dir_register ops dj v = do {
     (res, dj, v) \<leftarrow> dir_alloc ops dj 1 v;
     (if res \<noteq> FR_OK then Some (res, dj, v)
      else let (res, v) = move_window ops (d_sect dj) v
        in if res \<noteq> FR_OK then Some (res, dj, v)
           else do {
             p \<leftarrow> d_dir dj;
             (let w = mem_set (fs_win (v_fs v)) p 0 SZ_DIR
              in Some (res, dj, set_wflag (set_win (mem_cpy w p (d_fn dj) 0 11) v))) }) }"

definition dir_remove :: "'w disk_ops \<Rightarrow> dir \<Rightarrow> 'w vol \<Rightarrow> (FRESULT \<times> dir \<times> 'w vol) option" where
  "dir_remove ops dj v = do {
     (res, dj, v) \<leftarrow> dir_sdi ops dj (d_index dj) v;
     (if res \<noteq> FR_OK then Some (res, dj, v)
      else let (res, v) = move_window ops (d_sect dj) v
        in if res \<noteq> FR_OK then Some (res, dj, v)
           else do {
             p \<leftarrow> d_dir dj;
             Some (res, dj, set_wflag (set_win ((fs_win (v_fs v))[p := DDE]) v)) }) }"

text \<open>The loops are executable.\<close>

declare sdi_follow.simps [code]
  alloc_loop.simps [code]
  dirfind_loop.simps [code]
  dirread_loop.simps [code]

end
