(* ===== verification/FatName.thy ===== *)
theory FatName
  imports FatDir
begin

text \<open>
  Names of \<^verbatim>\<open>ff.c\<close> without long file names: a path segment is turned into the padded 8.3 form of a
  directory entry, an entry into a readable name, and a path is followed from the root directory.

  A path is the string at the pointer, its terminating zero byte included; running past the end of
  the list is an access outside the string.
\<close>

section \<open>Characters\<close>

definition NS :: nat where "NS = 11"
definition NS_LAST :: byte where "NS_LAST = 0x04"
definition NS_BODY :: byte where "NS_BODY = 0x08"
definition NS_EXT :: byte where "NS_EXT = 0x10"

text \<open>Upper case of the characters from 0x80 in code page 437.\<close>

definition ExCvt :: "byte list" where
  "ExCvt =
    [0x80,0x9A,0x90,0x41,0x8E,0x41,0x8F,0x80,0x45,0x45,0x45,0x49,0x49,0x49,0x8E,0x8F,
     0x90,0x92,0x92,0x4F,0x99,0x4F,0x55,0x55,0x59,0x99,0x9A,0x9B,0x9C,0x9D,0x9E,0x9F,
     0x41,0x49,0x4F,0x55,0xA5,0xA5,0xA6,0xA7,0xA8,0xA9,0xAA,0xAB,0xAC,0x21,0xAE,0xAF,
     0xB0,0xB1,0xB2,0xB3,0xB4,0xB5,0xB6,0xB7,0xB8,0xB9,0xBA,0xBB,0xBC,0xBD,0xBE,0xBF,
     0xC0,0xC1,0xC2,0xC3,0xC4,0xC5,0xC6,0xC7,0xC8,0xC9,0xCA,0xCB,0xCC,0xCD,0xCE,0xCF,
     0xD0,0xD1,0xD2,0xD3,0xD4,0xD5,0xD6,0xD7,0xD8,0xD9,0xDA,0xDB,0xDC,0xDD,0xDE,0xDF,
     0xE0,0xE1,0xE2,0xE3,0xE4,0xE5,0xE6,0xE7,0xE8,0xE9,0xEA,0xEB,0xEC,0xED,0xEE,0xEF,
     0xF0,0xF1,0xF2,0xF3,0xF4,0xF5,0xF6,0xF7,0xF8,0xF9,0xFA,0xFB,0xFC,0xFD,0xFE,0xFF]"

definition IsUpper :: "byte \<Rightarrow> bool" where "IsUpper c \<longleftrightarrow> 0x41 \<le> c \<and> c \<le> 0x5A"
definition IsLower :: "byte \<Rightarrow> bool" where "IsLower c \<longleftrightarrow> 0x61 \<le> c \<and> c \<le> 0x7A"

text \<open>The characters that a short name may not have, \<^verbatim>\<open>"*+,:;<=>?[]|\<close> and delete.\<close>

definition illegal_sfn :: "byte list" where
  "illegal_sfn = [0x22,0x2A,0x2B,0x2C,0x3A,0x3B,0x3C,0x3D,0x3E,0x3F,0x5B,0x5D,0x7C,0x7F,0]"

definition is_sep :: "byte \<Rightarrow> bool" where
  "is_sep c \<longleftrightarrow> c = 0x2F \<or> c = 0x5C"

section \<open>From a path segment to a directory name\<close>

text \<open>
  The loop over the characters of the segment. On the left the name as it stands when the segment is
  rejected; on the right the character that ended it, the fill position, the end of the current
  part, the case flags, the name and the rest of the path.
\<close>

fun cn_loop :: "byte list \<Rightarrow> nat \<Rightarrow> nat \<Rightarrow> byte \<Rightarrow> byte list \<Rightarrow>
    (byte list + byte \<times> nat \<times> nat \<times> byte \<times> byte list \<times> byte list) option" where
  "cn_loop [] i ni b sfn = None"
| "cn_loop (c # p) i ni b sfn =
     (if c \<le> 0x20 \<or> is_sep c then Some (Inr (c, i, ni, b, sfn, p))
      else if c = 0x2E \<or> ni \<le> i then
        (if ni \<noteq> 8 \<or> c \<noteq> 0x2E then Some (Inl sfn) else cn_loop p 8 11 (push_bit 2 b) sfn)
      else
        let (c, b) = (if 0x80 \<le> c then (ExCvt ! unat (c - 0x80), b OR 3) else (c, b))
        in if chk_chr illegal_sfn c \<noteq> 0 then Some (Inl sfn)
           else let (c, b) = (if IsUpper c then (c, b OR 2)
                     else if IsLower c then (c - 0x20, b OR 1) else (c, b))
                in cn_loop p (i + 1) ni b (sfn[i := c]))"

definition create_name :: "dir \<Rightarrow> byte list \<Rightarrow> (FRESULT \<times> dir \<times> byte list) option" where
  "create_name dj path =
     (let p = dropWhile is_sep path;
          sfn = mem_set (d_fn dj) 0 0x20 11
      in do {
        r \<leftarrow> cn_loop p 0 8 0 sfn;
        (case r of
           Inl sfn \<Rightarrow> Some (FR_INVALID_NAME, dj\<lparr>d_fn := sfn\<rparr>, path)
         | Inr (c, i, ni, b, sfn, rest) \<Rightarrow>
             (let c = (if c \<le> 0x20 then NS_LAST else 0)
              in if i = 0 then Some (FR_INVALID_NAME, dj\<lparr>d_fn := sfn\<rparr>, rest)
                 else
                   let sfn = (if sfn ! 0 = DDE then sfn[0 := NDDE] else sfn);
                       b = (if ni = 8 then push_bit 2 b else b);
                       c = (if b AND 0x03 = 0x01 then c OR NS_EXT else c);
                       c = (if b AND 0x0C = 0x04 then c OR NS_BODY else c)
                   in Some (FR_OK, dj\<lparr>d_fn := sfn[NS := c]\<rparr>, rest))) })"

section \<open>From an entry to a readable name\<close>

record filinfo =
  fi_fsize :: u32
  fi_fdate :: u16
  fi_ftime :: u16
  fi_fattrib :: byte
  fi_fname :: "byte list"

fun fi_body :: "byte list \<Rightarrow> nat \<Rightarrow> byte list \<Rightarrow> nat \<times> byte list" where
  "fi_body [] p s = (p, s)"
| "fi_body (c # cs) p s =
     (if c = 0x20 then (p, s)
      else let c = (if c = NDDE then DDE else c) in fi_body cs (p + 1) (s[p := c]))"

fun fi_ext :: "byte list \<Rightarrow> nat \<Rightarrow> byte list \<Rightarrow> nat \<times> byte list" where
  "fi_ext [] p s = (p, s)"
| "fi_ext (c # cs) p s = (if c = 0x20 then (p, s) else fi_ext cs (p + 1) (s[p := c]))"

definition get_fileinfo :: "dir \<Rightarrow> filinfo \<Rightarrow> 'w vol \<Rightarrow> filinfo option" where
  "get_fileinfo dj fno v =
     (if d_sect dj \<noteq> 0 then do {
        q \<leftarrow> d_dir dj;
        (let e = drop q (fs_win (v_fs v));
             (p, s) = fi_body (take 8 e) 0 (fi_fname fno);
             (p, s) = (if e ! 8 \<noteq> 0x20 then fi_ext (take 3 (drop 8 e)) (p + 1) (s[p := 0x2E]) else (p, s))
         in Some (fno\<lparr>fi_fattrib := e ! DIR_Attr, fi_fsize := ld_dword e DIR_FileSize,
              fi_fdate := ld_word e DIR_WrtDate, fi_ftime := ld_word e DIR_WrtTime,
              fi_fname := s[p := 0]\<rparr>)) }
      else Some (fno\<lparr>fi_fname := (fi_fname fno)[0 := 0]\<rparr>))"

section \<open>Following a path\<close>

partial_function (option) follow_loop ::
    "'w disk_ops \<Rightarrow> dir \<Rightarrow> byte list \<Rightarrow> 'w vol \<Rightarrow> (FRESULT \<times> dir \<times> 'w vol) option" where
  "follow_loop ops dj path v = do {
     (res, dj, path) \<leftarrow> create_name dj path;
     (if res \<noteq> FR_OK then Some (res, dj, v)
      else do {
        (res, dj, v) \<leftarrow> dir_find ops dj v;
        (let ns = d_fn dj ! NS; last = (ns AND NS_LAST \<noteq> 0)
         in if res \<noteq> FR_OK then
              Some (if res = FR_NO_FILE \<and> \<not> last then FR_NO_PATH else res, dj, v)
            else if last then Some (res, dj, v)
            else do {
              p \<leftarrow> d_dir dj;
              (if ent_byte v p DIR_Attr AND AM_DIR = 0 then Some (FR_NO_PATH, dj, v)
               else follow_loop ops (dj\<lparr>d_sclust := ld_clust (v_fs v) p\<rparr>) path v) }) }) }"

definition follow_path :: "'w disk_ops \<Rightarrow> dir \<Rightarrow> byte list \<Rightarrow> 'w vol \<Rightarrow> (FRESULT \<times> dir \<times> 'w vol) option" where
  "follow_path ops dj path v =
     (case path of [] \<Rightarrow> None
      | c # rest \<Rightarrow>
          let path = (if is_sep c then rest else path);
              dj = dj\<lparr>d_sclust := 0\<rparr>
          in case path of [] \<Rightarrow> None
             | c # _ \<Rightarrow>
                 if c < 0x20 then do {
                   (res, dj, v) \<leftarrow> dir_sdi ops dj 0 v;
                   Some (res, dj\<lparr>d_dir := None\<rparr>, v) }
                 else follow_loop ops dj path v)"

text \<open>The loops are executable.\<close>

declare follow_loop.simps [code]

end
