(* ===== verification/FatMount.thy ===== *)
theory FatMount
  imports FatName
begin

text \<open>
  Mounting of \<^verbatim>\<open>ff.c\<close>: the registered file system object of the drive, the check that it is valid,
  and the analysis of the boot record that fills it in when it is not.

  The state of the module is \<open>sys\<close>: the file system objects by address, the table \<^verbatim>\<open>FatFs\<close> of the one
  logical drive, the mount counter \<^verbatim>\<open>Fsid\<close> and the device.
\<close>

section \<open>State\<close>

record 'w sys =
  s_obj :: "nat \<Rightarrow> fatfs"
  s_FatFs :: "nat option"
  s_Fsid :: u16
  s_dsk :: 'w

definition vol_of :: "'w sys \<Rightarrow> nat \<Rightarrow> 'w vol" where
  "vol_of s q = \<lparr>v_fs = s_obj s q, v_dsk = s_dsk s\<rparr>"

definition put_vol :: "nat \<Rightarrow> 'w vol \<Rightarrow> 'w sys \<Rightarrow> 'w sys" where
  "put_vol q v s = s\<lparr>s_obj := (s_obj s)(q := v_fs v), s_dsk := v_dsk v\<rparr>"

definition MIN_FAT16 :: u32 where "MIN_FAT16 = 4086"
definition MIN_FAT32 :: u32 where "MIN_FAT32 = 65526"

definition BPB_BytsPerSec :: nat where "BPB_BytsPerSec = 11"
definition BPB_SecPerClus :: nat where "BPB_SecPerClus = 13"
definition BPB_RsvdSecCnt :: nat where "BPB_RsvdSecCnt = 14"
definition BPB_NumFATs :: nat where "BPB_NumFATs = 16"
definition BPB_RootEntCnt :: nat where "BPB_RootEntCnt = 17"
definition BPB_TotSec16 :: nat where "BPB_TotSec16 = 19"
definition BPB_FATSz16 :: nat where "BPB_FATSz16 = 22"
definition BPB_TotSec32 :: nat where "BPB_TotSec32 = 32"
definition BPB_FATSz32 :: nat where "BPB_FATSz32 = 36"
definition BPB_RootClus :: nat where "BPB_RootClus = 44"
definition BPB_FSInfo :: nat where "BPB_FSInfo = 48"
definition BS_FilSysType :: nat where "BS_FilSysType = 54"
definition BS_FilSysType32 :: nat where "BS_FilSysType32 = 82"
definition MBR_Table :: nat where "MBR_Table = 446"
definition BS_55AA :: nat where "BS_55AA = 510"
definition FSI_LeadSig :: nat where "FSI_LeadSig = 0"
definition FSI_StrucSig :: nat where "FSI_StrucSig = 484"
definition FSI_Free_Count :: nat where "FSI_Free_Count = 488"
definition FSI_Nxt_Free :: nat where "FSI_Nxt_Free = 492"

lemmas boot_offsets = BPB_BytsPerSec_def BPB_SecPerClus_def BPB_RsvdSecCnt_def BPB_NumFATs_def
  BPB_RootEntCnt_def BPB_TotSec16_def BPB_FATSz16_def BPB_TotSec32_def BPB_FATSz32_def BPB_RootClus_def
  BPB_FSInfo_def BS_FilSysType_def BS_FilSysType32_def MBR_Table_def BS_55AA_def FSI_LeadSig_def
  FSI_StrucSig_def FSI_Free_Count_def FSI_Nxt_Free_def

section \<open>Boot record\<close>

definition check_fs :: "'w disk_ops \<Rightarrow> u32 \<Rightarrow> 'w vol \<Rightarrow> byte \<times> 'w vol" where
  "check_fs ops sect v =
     (let fs = v_fs v;
          (r, win, d) = d_read ops (fs_drv fs) (fs_win fs) sect 1 (v_dsk v);
          v = v\<lparr>v_fs := fs\<lparr>fs_win := win\<rparr>, v_dsk := d\<rparr>
      in (if r \<noteq> RES_OK then 3
          else if ld_word win BS_55AA \<noteq> 0xAA55 then 2
          else if ld_dword win BS_FilSysType AND 0xFFFFFF = 0x544146 then 0
          else if ld_dword win BS_FilSysType32 AND 0xFFFFFF = 0x544146 then 0
          else 1, v))"

text \<open>Find the boot record of the volume: the format code, and the sector it starts at.\<close>

definition find_boot :: "'w disk_ops \<Rightarrow> 'w vol \<Rightarrow> byte \<times> u32 \<times> 'w vol" where
  "find_boot ops v =
     (let (fmt, v) = check_fs ops 0 v
      in if fmt = 1 \<and> fs_win (v_fs v) ! (MBR_Table + 4) \<noteq> 0 then
           let bsect = ld_dword (fs_win (v_fs v)) (MBR_Table + 8);
               (fmt, v) = check_fs ops bsect v
           in (fmt, bsect, v)
         else (fmt, 0, v))"

text \<open>
  The table size a volume needs, in bytes, and the analysis of the boot record in the window. The
  fields are assigned one by one, so that a rejected record leaves the object half filled.
\<close>

definition fat_bytes :: "byte \<Rightarrow> u32 \<Rightarrow> u32" where
  "fat_bytes fmt n =
     (if fmt = FS_FAT32 then n * 4 else if fmt = FS_FAT16 then n * 2 else n * 3 div 2 + (n AND 1))"

definition bpb_limits :: "byte \<Rightarrow> u32 \<Rightarrow> u32 \<Rightarrow> u16 \<Rightarrow> u32 \<Rightarrow> u32 \<Rightarrow> fatfs \<Rightarrow> FRESULT \<times> byte \<times> fatfs" where
  "bpb_limits fmt nclst bsect nrsv fasize sysect fs =
     (let fs = fs\<lparr>fs_n_fatent := nclst + 2, fs_volbase := bsect, fs_fatbase := bsect + ucast nrsv,
            fs_database := bsect + sysect\<rparr>
      in if fmt = FS_FAT32 \<and> fs_n_rootdir fs \<noteq> 0 \<or> fmt \<noteq> FS_FAT32 \<and> fs_n_rootdir fs = 0
         then (FR_NO_FILESYSTEM, fmt, fs)
         else let fs = fs\<lparr>fs_dirbase := (if fmt = FS_FAT32 then ld_dword (fs_win fs) BPB_RootClus
                              else fs_fatbase fs + fasize)\<rparr>;
                  szbfat = fat_bytes fmt (fs_n_fatent fs)
              in (if fs_fsize fs < (szbfat + 511) div 512 then FR_NO_FILESYSTEM else FR_OK, fmt, fs))"

definition read_bpb :: "u32 \<Rightarrow> fatfs \<Rightarrow> FRESULT \<times> byte \<times> fatfs" where
  "read_bpb bsect fs =
     (let w = fs_win fs
      in if ld_word w BPB_BytsPerSec \<noteq> 512 then (FR_NO_FILESYSTEM, 0, fs)
      else let fasize = ucast (ld_word w BPB_FATSz16);
               fasize = (if fasize = 0 then ld_dword w BPB_FATSz32 else fasize);
               b = w ! BPB_NumFATs;
               fs = fs\<lparr>fs_fsize := fasize, fs_n_fats := b\<rparr>
      in if b \<noteq> 1 \<and> b \<noteq> 2 then (FR_NO_FILESYSTEM, 0, fs)
      else let fasize = fasize * ucast b;
               b = w ! BPB_SecPerClus;
               fs = fs\<lparr>fs_csize := b\<rparr>
      in if b = 0 \<or> b AND (b - 1) \<noteq> 0 then (FR_NO_FILESYSTEM, 0, fs)
      else let fs = fs\<lparr>fs_n_rootdir := ld_word w BPB_RootEntCnt\<rparr>
      in if fs_n_rootdir fs mod 16 \<noteq> 0 then (FR_NO_FILESYSTEM, 0, fs)
      else let tsect = ucast (ld_word w BPB_TotSec16);
               tsect = (if tsect = 0 then ld_dword w BPB_TotSec32 else tsect);
               nrsv = ld_word w BPB_RsvdSecCnt
      in if nrsv = 0 then (FR_NO_FILESYSTEM, 0, fs)
      else let sysect = ucast nrsv + fasize + ucast (fs_n_rootdir fs div 16)
      in if tsect < sysect then (FR_NO_FILESYSTEM, 0, fs)
      else let nclst = (tsect - sysect) div ucast (fs_csize fs)
      in if nclst = 0 then (FR_NO_FILESYSTEM, 0, fs)
      else let fmt = FS_FAT12;
               fmt = (if MIN_FAT16 \<le> nclst then FS_FAT16 else fmt);
               fmt = (if MIN_FAT32 \<le> nclst then FS_FAT32 else fmt)
      in bpb_limits fmt nclst bsect nrsv fasize sysect fs)"

text \<open>The allocation hints of the FSInfo sector of a FAT32 volume, when it has one.\<close>

definition read_fsinfo :: "'w disk_ops \<Rightarrow> byte \<Rightarrow> u32 \<Rightarrow> 'w vol \<Rightarrow> 'w vol" where
  "read_fsinfo ops fmt bsect v =
     (let fs = (v_fs v)\<lparr>fs_free_clust := 0xFFFFFFFF, fs_last_clust := 0\<rparr>
      in if fmt \<noteq> FS_FAT32 then v\<lparr>v_fs := fs\<rparr>
         else let fs = fs\<lparr>fs_fsi_flag := 0, fs_fsi_sector := bsect + ucast (ld_word (fs_win fs) BPB_FSInfo)\<rparr>;
                  (r, win, d) = d_read ops (fs_drv fs) (fs_win fs) (fs_fsi_sector fs) 1 (v_dsk v);
                  fs = fs\<lparr>fs_win := win\<rparr>;
                  fs = (if r = RES_OK \<and> ld_word win BS_55AA = 0xAA55 \<and>
                           ld_dword win FSI_LeadSig = 0x41615252 \<and> ld_dword win FSI_StrucSig = 0x61417272
                        then fs\<lparr>fs_last_clust := ld_dword win FSI_Nxt_Free,
                               fs_free_clust := ld_dword win FSI_Free_Count\<rparr>
                        else fs)
              in v\<lparr>v_fs := fs, v_dsk := d\<rparr>)"

section \<open>Is the volume mounted\<close>

text \<open>The second half of \<^verbatim>\<open>chk_mounted\<close>: the object \<open>q\<close> of drive 0 is not valid, mount it.\<close>

definition mount_volume :: "'w disk_ops \<Rightarrow> nat \<Rightarrow> bool \<Rightarrow> 'w sys \<Rightarrow> FRESULT \<times> 'w sys" where
  "mount_volume ops q wmode s =
     (let v = upd_fs (\<lambda>fs. fs\<lparr>fs_type := 0, fs_drv := 0\<rparr>) (vol_of s q);
          (stat, d) = d_initialize ops (fs_drv (v_fs v)) (v_dsk v);
          v = v\<lparr>v_dsk := d\<rparr>
      in if stat AND STA_NOINIT \<noteq> 0 then (FR_NOT_READY, put_vol q v s)
      else if wmode \<and> stat AND STA_PROTECT \<noteq> 0 then (FR_WRITE_PROTECTED, put_vol q v s)
      else let (fmt, bsect, v) = find_boot ops v
      in if fmt = 3 then (FR_DISK_ERR, put_vol q v s)
      else if fmt \<noteq> 0 then (FR_NO_FILESYSTEM, put_vol q v s)
      else let (res, fmt, fs) = read_bpb bsect (v_fs v);
               v = v\<lparr>v_fs := fs\<rparr>
      in if res \<noteq> FR_OK then (res, put_vol q v s)
      else let v = read_fsinfo ops fmt bsect v;
               id = s_Fsid s + 1;
               v = upd_fs (\<lambda>fs. fs\<lparr>fs_type := fmt, fs_id := id, fs_winsect := 0, fs_wflag := 0\<rparr>) v
      in (FR_OK, put_vol q v (s\<lparr>s_Fsid := id\<rparr>)))"

text \<open>
  The drive number of a path and the path without it; the second character is looked at only after
  a digit. The result is the object found, whatever becomes of it.
\<close>

definition drive_of :: "byte list \<Rightarrow> (u32 \<times> byte list) option" where
  "drive_of p =
     (case p of [] \<Rightarrow> None
      | c # p' \<Rightarrow>
          let vol = (ucast c :: u32) - 0x30
          in if vol \<le> 9 then
               (case p' of [] \<Rightarrow> None
                | c' # p'' \<Rightarrow> Some (if c' = 0x3A then (vol, p'') else (0, p)))
             else Some (0, p))"

definition chk_mounted :: "'w disk_ops \<Rightarrow> byte list \<Rightarrow> bool \<Rightarrow> 'w sys \<Rightarrow>
    (FRESULT \<times> byte list \<times> nat option \<times> 'w sys) option" where
  "chk_mounted ops path wmode s = do {
     (vol, path) \<leftarrow> drive_of path;
     (if 1 \<le> vol then Some (FR_INVALID_DRIVE, path, None, s)
      else case s_FatFs s of
        None \<Rightarrow> Some (FR_NOT_ENABLED, path, None, s)
      | Some q \<Rightarrow>
          let stat = d_status ops (fs_drv (s_obj s q)) (s_dsk s)
          in if fs_type (s_obj s q) \<noteq> 0 \<and> stat AND STA_NOINIT = 0
             then Some (if wmode \<and> stat AND STA_PROTECT \<noteq> 0 then FR_WRITE_PROTECTED else FR_OK, path, Some q, s)
             else let (res, s) = mount_volume ops q wmode s
                  in Some (res, path, Some q, s)) }"

section \<open>Validity of an object, and registering a file system object\<close>

text \<open>A file or directory object is given by the two fields they share; \<open>None\<close> is the null pointer.\<close>

definition validate :: "'w disk_ops \<Rightarrow> (nat option \<times> u16) option \<Rightarrow> 'w sys \<Rightarrow> FRESULT" where
  "validate ops obj s =
     (case obj of
        Some (Some q, i) \<Rightarrow>
          if fs_type (s_obj s q) = 0 \<or> fs_id (s_obj s q) \<noteq> i then FR_INVALID_OBJECT
          else if d_status ops (fs_drv (s_obj s q)) (s_dsk s) AND STA_NOINIT \<noteq> 0 then FR_NOT_READY
          else FR_OK
      | _ \<Rightarrow> FR_INVALID_OBJECT)"

definition clear_type :: "nat option \<Rightarrow> 'w sys \<Rightarrow> 'w sys" where
  "clear_type q s =
     (case q of None \<Rightarrow> s | Some q \<Rightarrow> s\<lparr>s_obj := (s_obj s)(q := (s_obj s q)\<lparr>fs_type := 0\<rparr>)\<rparr>)"

definition f_mount :: "byte \<Rightarrow> nat option \<Rightarrow> 'w sys \<Rightarrow> FRESULT \<times> 'w sys" where
  "f_mount vol fs s =
     (if 1 \<le> vol then (FR_INVALID_DRIVE, s)
      else let s = clear_type (s_FatFs s) s;
               s = clear_type fs s
           in (FR_OK, s\<lparr>s_FatFs := fs\<rparr>))"

end
