(* ===== verification/FatFile.thy ===== *)
theory FatFile
  imports FatMount
begin

text \<open>
  Files of \<^verbatim>\<open>ff.c\<close>: open or create, read, write, flush, close, seek and truncate.

  Data passes through the one window of the volume (the tiny configuration); whole sectors are
  transferred directly between the medium and the caller's buffer. The buffer is a byte list and
  \<open>pos\<close> the offset reached in it; a transfer outside it has no defined result. An abort marks the
  file with \<open>FA__ERROR\<close>.
\<close>

section \<open>File objects\<close>

record fil =
  fl_fs :: "nat option"
  fl_id :: u16
  fl_flag :: byte
  fl_fptr :: u32
  fl_fsize :: u32
  fl_sclust :: u32
  fl_clust :: u32
  fl_dsect :: u32
  fl_dir_sect :: u32
  fl_dir_ptr :: "nat option"

definition FA_READ :: byte where "FA_READ = 0x01"
definition FA_WRITE :: byte where "FA_WRITE = 0x02"
definition FA_CREATE_NEW :: byte where "FA_CREATE_NEW = 0x04"
definition FA_CREATE_ALWAYS :: byte where "FA_CREATE_ALWAYS = 0x08"
definition FA_OPEN_ALWAYS :: byte where "FA_OPEN_ALWAYS = 0x10"
definition FA__WRITTEN :: byte where "FA__WRITTEN = 0x20"
definition FA__ERROR :: byte where "FA__ERROR = 0x80"

lemmas fa_bits = FA_READ_def FA_WRITE_def FA_CREATE_NEW_def FA_CREATE_ALWAYS_def FA_OPEN_ALWAYS_def
  FA__WRITTEN_def FA__ERROR_def

definition set_flag :: "byte \<Rightarrow> fil \<Rightarrow> fil" where
  "set_flag b fp = fp\<lparr>fl_flag := fl_flag fp OR b\<rparr>"

definition validate_fil :: "'w disk_ops \<Rightarrow> fil \<Rightarrow> 'w sys \<Rightarrow> FRESULT" where
  "validate_fil ops fp s = validate ops (Some (fl_fs fp, fl_id fp)) s"

text \<open>
  A directory object in a local variable, linked to a name buffer. Its other fields are not
  initialised in the source; no operation reads one before it has been set.
\<close>

definition new_dir :: "nat \<Rightarrow> dir" where
  "new_dir q = \<lparr>d_fs = Some q, d_id = 0, d_index = 0, d_sclust = 0, d_clust = 0, d_sect = 0,
     d_dir = None, d_fn = replicate 12 0\<rparr>"

text \<open>Run an operation of the volume on the object \<open>q\<close>.\<close>

definition on_vol :: "nat \<Rightarrow> ('w vol \<Rightarrow> ('a \<times> 'w vol) option) \<Rightarrow> 'w sys \<Rightarrow> ('a \<times> 'w sys) option" where
  "on_vol q f s = do { (r, v) \<leftarrow> f (vol_of s q); Some (r, put_vol q v s) }"

section \<open>Open or create\<close>

text \<open>Reset an entry: its time, attribute, size and start cluster, and free the chain it had.\<close>

definition reset_entry :: "'w disk_ops \<Rightarrow> nat \<Rightarrow> 'w vol \<Rightarrow> (FRESULT \<times> 'w vol) option" where
  "reset_entry ops p v =
     (let w = st_dword (fs_win (v_fs v)) (p + DIR_CrtTime) get_fattime;
          w = w[p + DIR_Attr := 0];
          v = set_win (st_dword w (p + DIR_FileSize) 0) v;
          cl = ld_clust (v_fs v) p;
          v = set_wflag (st_clust p 0 v)
      in if cl = 0 then Some (FR_OK, v)
         else let dw = fs_winsect (v_fs v)
              in do {
                (res, v) \<leftarrow> remove_chain ops cl v;
                Some (if res = FR_OK then move_window ops dw (upd_fs (fs_last_clust_update (\<lambda>_. cl - 1)) v)
                      else (res, v)) })"

definition open_create :: "'w disk_ops \<Rightarrow> byte \<Rightarrow> FRESULT \<Rightarrow> dir \<Rightarrow> 'w vol \<Rightarrow>
    (FRESULT \<times> byte \<times> dir \<times> 'w vol) option" where
  "open_create ops mode res dj v = do {
     (res, mode, dj, v) \<leftarrow>
       (if res \<noteq> FR_OK then do {
          (res, dj, v) \<leftarrow> (if res = FR_NO_FILE then dir_register ops dj v else Some (res, dj, v));
          Some (res, mode OR FA_CREATE_ALWAYS, dj, v) }
        else do {
          p \<leftarrow> d_dir dj;
          Some (if ent_byte v p DIR_Attr AND (AM_RDO OR AM_DIR) \<noteq> 0 then FR_DENIED
                else if mode AND FA_CREATE_NEW \<noteq> 0 then FR_EXIST else FR_OK, mode, dj, v) });
     (if res = FR_OK \<and> mode AND FA_CREATE_ALWAYS \<noteq> 0 then do {
        p \<leftarrow> d_dir dj;
        (res, v) \<leftarrow> reset_entry ops p v;
        Some (res, mode, dj, v) }
      else Some (res, mode, dj, v)) }"

definition open_existing :: "byte \<Rightarrow> FRESULT \<Rightarrow> dir \<Rightarrow> 'w vol \<Rightarrow> FRESULT option" where
  "open_existing mode res dj v =
     (if res \<noteq> FR_OK then Some res
      else do {
        p \<leftarrow> d_dir dj;
        Some (if ent_byte v p DIR_Attr AND AM_DIR \<noteq> 0 then FR_NO_FILE
              else if mode AND FA_WRITE \<noteq> 0 \<and> ent_byte v p DIR_Attr AND AM_RDO \<noteq> 0 then FR_DENIED
              else FR_OK) })"

definition open_body :: "'w disk_ops \<Rightarrow> fil \<Rightarrow> nat \<Rightarrow> byte list \<Rightarrow> byte \<Rightarrow> 'w vol \<Rightarrow>
    ((FRESULT \<times> fil) \<times> 'w vol) option" where
  "open_body ops fp q path mode v = do {
     (res, dj, v) \<leftarrow> follow_path ops (new_dir q) path v;
     (let res = (if res = FR_OK \<and> d_dir dj = None then FR_INVALID_NAME else res)
      in do {
        (res, mode, dj, v) \<leftarrow>
          (if mode AND (FA_CREATE_ALWAYS OR FA_OPEN_ALWAYS OR FA_CREATE_NEW) \<noteq> 0
           then open_create ops mode res dj v
           else do { res \<leftarrow> open_existing mode res dj v; Some (res, mode, dj, v) });
        (if res \<noteq> FR_OK then Some ((res, fp), v)
         else do {
           p \<leftarrow> d_dir dj;
           (let mode = (if mode AND FA_CREATE_ALWAYS \<noteq> 0 then mode OR FA__WRITTEN else mode)
            in Some ((FR_OK, fp\<lparr>fl_dir_sect := fs_winsect (v_fs v), fl_dir_ptr := Some p, fl_flag := mode,
                  fl_sclust := ld_clust (v_fs v) p, fl_fsize := ld_dword (fs_win (v_fs v)) (p + DIR_FileSize),
                  fl_fptr := 0, fl_dsect := 0, fl_fs := Some q, fl_id := fs_id (v_fs v)\<rparr>), v)) }) }) }"

definition f_open :: "'w disk_ops \<Rightarrow> fil option \<Rightarrow> byte list \<Rightarrow> byte \<Rightarrow> 'w sys \<Rightarrow>
    ((FRESULT \<times> fil option) \<times> 'w sys) option" where
  "f_open ops fp path mode s =
     (case fp of None \<Rightarrow> Some ((FR_INVALID_OBJECT, None), s)
      | Some fp \<Rightarrow>
          let fp = fp\<lparr>fl_fs := None\<rparr>;
              mode = mode AND (FA_READ OR FA_WRITE OR FA_CREATE_ALWAYS OR FA_OPEN_ALWAYS OR FA_CREATE_NEW)
          in do {
            (res, path, q, s) \<leftarrow> chk_mounted ops path (mode AND NOT FA_READ \<noteq> 0) s;
            (if res \<noteq> FR_OK then Some ((res, Some fp), s)
             else do {
               q \<leftarrow> q;
               ((res, fp), s) \<leftarrow> on_vol q (open_body ops fp q path mode) s;
               Some ((res, Some fp), s) }) })"

section \<open>Read\<close>

definition csect_of :: "fil \<Rightarrow> 'w vol \<Rightarrow> byte" where
  "csect_of fp v = ucast ((fl_fptr fp div 512) AND (ucast (fs_csize (v_fs v)) - 1))"

text \<open>Number of whole sectors to transfer, clipped at the end of the cluster.\<close>

definition clip_cc :: "byte \<Rightarrow> u32 \<Rightarrow> byte \<Rightarrow> u32" where
  "clip_cc csect cc csize = (if ucast csize < ucast csect + cc then ucast csize - ucast csect else cc)"

text \<open>On a sector boundary: the sector of the file position, following the chain at a cluster boundary.\<close>

definition read_sect :: "'w disk_ops \<Rightarrow> fil \<Rightarrow> 'w vol \<Rightarrow> (FRESULT + u32 \<times> byte) \<times> fil \<times> 'w vol" where
  "read_sect ops fp v =
     (let csect = csect_of fp v;
          (clst, v) = (if csect \<noteq> 0 then (fl_clust fp, v)
             else if fl_fptr fp = 0 then (fl_sclust fp, v) else get_fat ops (fl_clust fp) v)
      in if csect = 0 \<and> clst < 2 then (Inl FR_INT_ERR, fp, v)
         else if csect = 0 \<and> clst = 0xFFFFFFFF then (Inl FR_DISK_ERR, fp, v)
         else let fp = fp\<lparr>fl_clust := clst\<rparr>; sect = clust2sect (v_fs v) clst
              in if sect = 0 then (Inl FR_INT_ERR, fp, v)
                 else (Inr (sect + ucast csect, csect), fp, v))"

text \<open>Whole sectors straight into the buffer; a dirty window replaces the sector it stands for.\<close>

definition read_direct :: "'w disk_ops \<Rightarrow> u32 \<Rightarrow> u32 \<Rightarrow> nat \<Rightarrow> byte list \<Rightarrow> 'w vol \<Rightarrow>
    ((FRESULT + u32) \<times> byte list \<times> 'w vol) option" where
  "read_direct ops sect cc pos buf v =
     (if length buf < pos + 512 * unat (ucast cc :: byte) then None
      else let fs = v_fs v;
               (r, rest, d) = d_read ops (fs_drv fs) (drop pos buf) sect (ucast cc) (v_dsk v);
               buf = take pos buf @ rest;
               v = v\<lparr>v_dsk := d\<rparr>
           in if r \<noteq> RES_OK then Some (Inl FR_DISK_ERR, buf, v)
              else if fs_wflag fs \<noteq> 0 \<and> fs_winsect fs - sect < cc then
                let p = pos + unat ((fs_winsect fs - sect) * 512)
                in if length buf < p + 512 then None
                   else Some (Inr (512 * cc), mem_cpy buf p (fs_win fs) 0 512, v)
              else Some (Inr (512 * cc), buf, v))"

definition part_cnt :: "u32 \<Rightarrow> u32 \<Rightarrow> u32" where
  "part_cnt fptr n = (let c = 512 - fptr mod 512 in if n < c then n else c)"

text \<open>Part of a sector, through the window.\<close>

definition read_part :: "'w disk_ops \<Rightarrow> fil \<Rightarrow> u32 \<Rightarrow> nat \<Rightarrow> byte list \<Rightarrow> 'w vol \<Rightarrow>
    ((FRESULT + u32) \<times> byte list \<times> 'w vol) option" where
  "read_part ops fp btr pos buf v =
     (let rcnt = part_cnt (fl_fptr fp) btr;
          (res, v) = move_window ops (fl_dsect fp) v
      in if res \<noteq> FR_OK then Some (Inl FR_DISK_ERR, buf, v)
         else if length buf < pos + unat rcnt then None
         else Some (Inr rcnt, mem_cpy buf pos (fs_win (v_fs v)) (unat (fl_fptr fp mod 512)) (unat rcnt), v))"

text \<open>One round of the loop: an abort on the left, the number of bytes transferred on the right.\<close>

definition read_step :: "'w disk_ops \<Rightarrow> fil \<Rightarrow> u32 \<Rightarrow> nat \<Rightarrow> byte list \<Rightarrow> 'w vol \<Rightarrow>
    ((FRESULT + u32) \<times> fil \<times> byte list \<times> 'w vol) option" where
  "read_step ops fp btr pos buf v =
     (if fl_fptr fp mod 512 = 0 then
        let (r, fp, v) = read_sect ops fp v
        in case r of
             Inl e \<Rightarrow> Some (Inl e, fp, buf, v)
           | Inr (sect, csect) \<Rightarrow>
               if btr div 512 \<noteq> 0 then do {
                 (r, buf, v) \<leftarrow> read_direct ops sect (clip_cc csect (btr div 512) (fs_csize (v_fs v))) pos buf v;
                 Some (r, fp, buf, v) }
               else do {
                 (r, buf, v) \<leftarrow> read_part ops (fp\<lparr>fl_dsect := sect\<rparr>) btr pos buf v;
                 Some (r, fp\<lparr>fl_dsect := sect\<rparr>, buf, v) }
      else do {
        (r, buf, v) \<leftarrow> read_part ops fp btr pos buf v;
        Some (r, fp, buf, v) })"

partial_function (option) fread_loop :: "'w disk_ops \<Rightarrow> fil \<Rightarrow> u32 \<Rightarrow> nat \<Rightarrow> u32 \<Rightarrow> byte list \<Rightarrow> 'w vol \<Rightarrow>
    ((FRESULT \<times> u32 \<times> fil \<times> byte list) \<times> 'w vol) option" where
  "fread_loop ops fp btr pos br buf v =
     (if btr = 0 then Some ((FR_OK, br, fp, buf), v)
      else do {
        (r, fp, buf, v) \<leftarrow> read_step ops fp btr pos buf v;
        (case r of
           Inl e \<Rightarrow> Some ((e, br, set_flag FA__ERROR fp, buf), v)
         | Inr rcnt \<Rightarrow> fread_loop ops (fp\<lparr>fl_fptr := fl_fptr fp + rcnt\<rparr>) (btr - rcnt) (pos + unat rcnt)
             (br + rcnt) buf v) })"

definition f_read :: "'w disk_ops \<Rightarrow> fil \<Rightarrow> byte list \<Rightarrow> u32 \<Rightarrow> 'w sys \<Rightarrow>
    ((FRESULT \<times> u32 \<times> fil \<times> byte list) \<times> 'w sys) option" where
  "f_read ops fp buf btr s =
     (let res = validate_fil ops fp s
      in if res \<noteq> FR_OK then Some ((res, 0, fp, buf), s)
         else if fl_flag fp AND FA__ERROR \<noteq> 0 then Some ((FR_INT_ERR, 0, fp, buf), s)
         else if fl_flag fp AND FA_READ = 0 then Some ((FR_DENIED, 0, fp, buf), s)
         else let remain = fl_fsize fp - fl_fptr fp;
                  btr = (if remain < btr then remain else btr)
              in do { q \<leftarrow> fl_fs fp; on_vol q (fread_loop ops fp btr 0 0 buf) s })"

section \<open>Write\<close>

text \<open>
  The sector to write on a sector boundary. On the left \<open>None\<close> when the disk is full, which ends
  the loop, or the code of an abort. The start cluster is assigned before its value is examined.
\<close>

definition write_sect :: "'w disk_ops \<Rightarrow> fil \<Rightarrow> 'w vol \<Rightarrow>
    ((FRESULT option + u32 \<times> byte) \<times> fil \<times> 'w vol) option" where
  "write_sect ops fp v =
     (let csect = csect_of fp v
      in do {
        (clst, fp, v) \<leftarrow>
          (if csect \<noteq> 0 then Some (fl_clust fp, fp, v)
           else if fl_fptr fp = 0 then
             (if fl_sclust fp \<noteq> 0 then Some (fl_sclust fp, fp, v)
              else do { (clst, v) \<leftarrow> create_chain ops 0 v; Some (clst, fp\<lparr>fl_sclust := clst\<rparr>, v) })
           else do { (clst, v) \<leftarrow> create_chain ops (fl_clust fp) v; Some (clst, fp, v) });
        (if csect = 0 \<and> clst = 0 then Some (Inl None, fp, v)
         else if csect = 0 \<and> clst = 1 then Some (Inl (Some FR_INT_ERR), fp, v)
         else if csect = 0 \<and> clst = 0xFFFFFFFF then Some (Inl (Some FR_DISK_ERR), fp, v)
         else let fp = fp\<lparr>fl_clust := clst\<rparr>;
                  (res, v) = (if fs_winsect (v_fs v) = fl_dsect fp then sync_window ops v else (FR_OK, v))
              in if res \<noteq> FR_OK then Some (Inl (Some FR_DISK_ERR), fp, v)
                 else let sect = clust2sect (v_fs v) clst
                      in Some (if sect = 0 then Inl (Some FR_INT_ERR) else Inr (sect + ucast csect, csect), fp, v)) })"

text \<open>Whole sectors straight from the buffer; the window is refilled when it stood for one of them.\<close>

definition write_direct :: "'w disk_ops \<Rightarrow> u32 \<Rightarrow> u32 \<Rightarrow> nat \<Rightarrow> byte list \<Rightarrow> 'w vol \<Rightarrow>
    ((FRESULT + u32) \<times> 'w vol) option" where
  "write_direct ops sect cc pos buf v =
     (if length buf < pos + 512 * unat (ucast cc :: byte) then None
      else let fs = v_fs v;
               (r, d) = d_write ops (fs_drv fs) (drop pos buf) sect (ucast cc) (v_dsk v);
               v = v\<lparr>v_dsk := d\<rparr>
           in if r \<noteq> RES_OK then Some (Inl FR_DISK_ERR, v)
              else if fs_winsect fs - sect < cc then
                let p = pos + unat ((fs_winsect fs - sect) * 512)
                in if length buf < p + 512 then None
                   else Some (Inr (512 * cc),
                     upd_fs (fs_wflag_update (\<lambda>_. 0)) (set_win (mem_cpy (fs_win fs) 0 buf p 512) v))
              else Some (Inr (512 * cc), v))"

definition write_part :: "'w disk_ops \<Rightarrow> fil \<Rightarrow> u32 \<Rightarrow> nat \<Rightarrow> byte list \<Rightarrow> 'w vol \<Rightarrow>
    ((FRESULT + u32) \<times> 'w vol) option" where
  "write_part ops fp btw pos buf v =
     (let wcnt = part_cnt (fl_fptr fp) btw;
          (res, v) = move_window ops (fl_dsect fp) v
      in if res \<noteq> FR_OK then Some (Inl FR_DISK_ERR, v)
         else if length buf < pos + unat wcnt then None
         else Some (Inr wcnt,
           set_wflag (set_win (mem_cpy (fs_win (v_fs v)) (unat (fl_fptr fp mod 512)) buf pos (unat wcnt)) v)))"

text \<open>At the growing edge of the file the window is taken over without reading the sector.\<close>

definition write_edge :: "'w disk_ops \<Rightarrow> fil \<Rightarrow> u32 \<Rightarrow> 'w vol \<Rightarrow> FRESULT \<times> 'w vol" where
  "write_edge ops fp sect v =
     (if fl_fsize fp \<le> fl_fptr fp then
        let (res, v) = sync_window ops v
        in if res \<noteq> FR_OK then (FR_DISK_ERR, v) else (FR_OK, upd_fs (fs_winsect_update (\<lambda>_. sect)) v)
      else (FR_OK, v))"

definition write_step :: "'w disk_ops \<Rightarrow> fil \<Rightarrow> u32 \<Rightarrow> nat \<Rightarrow> byte list \<Rightarrow> 'w vol \<Rightarrow>
    ((FRESULT option + u32) \<times> fil \<times> 'w vol) option" where
  "write_step ops fp btw pos buf v =
     (let abort = map_sum Some id
      in if fl_fptr fp mod 512 = 0 then do {
           (r, fp, v) \<leftarrow> write_sect ops fp v;
           (case r of
              Inl e \<Rightarrow> Some (Inl e, fp, v)
            | Inr (sect, csect) \<Rightarrow>
                if btw div 512 \<noteq> 0 then do {
                  (r, v) \<leftarrow> write_direct ops sect (clip_cc csect (btw div 512) (fs_csize (v_fs v))) pos buf v;
                  Some (abort r, fp, v) }
                else
                  let (res, v) = write_edge ops fp sect v
                  in if res \<noteq> FR_OK then Some (Inl (Some res), fp, v)
                     else do {
                       (r, v) \<leftarrow> write_part ops (fp\<lparr>fl_dsect := sect\<rparr>) btw pos buf v;
                       Some (abort r, fp\<lparr>fl_dsect := sect\<rparr>, v) }) }
         else do {
           (r, v) \<leftarrow> write_part ops fp btw pos buf v;
           Some (abort r, fp, v) })"

definition write_done :: "fil \<Rightarrow> fil" where
  "write_done fp =
     set_flag FA__WRITTEN (if fl_fsize fp < fl_fptr fp then fp\<lparr>fl_fsize := fl_fptr fp\<rparr> else fp)"

partial_function (option) fwrite_loop :: "'w disk_ops \<Rightarrow> fil \<Rightarrow> u32 \<Rightarrow> nat \<Rightarrow> u32 \<Rightarrow> byte list \<Rightarrow> 'w vol \<Rightarrow>
    ((FRESULT \<times> u32 \<times> fil) \<times> 'w vol) option" where
  "fwrite_loop ops fp btw pos bw buf v =
     (if btw = 0 then Some ((FR_OK, bw, write_done fp), v)
      else do {
        (r, fp, v) \<leftarrow> write_step ops fp btw pos buf v;
        (case r of
           Inl None \<Rightarrow> Some ((FR_OK, bw, write_done fp), v)
         | Inl (Some e) \<Rightarrow> Some ((e, bw, set_flag FA__ERROR fp), v)
         | Inr wcnt \<Rightarrow> fwrite_loop ops (fp\<lparr>fl_fptr := fl_fptr fp + wcnt\<rparr>) (btw - wcnt) (pos + unat wcnt)
             (bw + wcnt) buf v) })"

definition f_write :: "'w disk_ops \<Rightarrow> fil \<Rightarrow> byte list \<Rightarrow> u32 \<Rightarrow> 'w sys \<Rightarrow>
    ((FRESULT \<times> u32 \<times> fil) \<times> 'w sys) option" where
  "f_write ops fp buf btw s =
     (let res = validate_fil ops fp s
      in if res \<noteq> FR_OK then Some ((res, 0, fp), s)
         else if fl_flag fp AND FA__ERROR \<noteq> 0 then Some ((FR_INT_ERR, 0, fp), s)
         else if fl_flag fp AND FA_WRITE = 0 then Some ((FR_DENIED, 0, fp), s)
         else let btw = (if fl_fsize fp + btw < fl_fsize fp then 0 else btw)
              in do { q \<leftarrow> fl_fs fp; on_vol q (fwrite_loop ops fp btw 0 0 buf) s })"

section \<open>Flush and close\<close>

definition sync_body :: "'w disk_ops \<Rightarrow> fil \<Rightarrow> 'w vol \<Rightarrow> ((FRESULT \<times> fil) \<times> 'w vol) option" where
  "sync_body ops fp v =
     (let (res, v) = move_window ops (fl_dir_sect fp) v
      in if res \<noteq> FR_OK then Some ((res, fp), v)
         else do {
           p \<leftarrow> fl_dir_ptr fp;
           (let w = fs_win (v_fs v);
                w = w[p + DIR_Attr := w ! (p + DIR_Attr) OR AM_ARC];
                v = st_clust p (fl_sclust fp) (set_win (st_dword w (p + DIR_FileSize) (fl_fsize fp)) v);
                w = st_dword (fs_win (v_fs v)) (p + DIR_WrtTime) get_fattime;
                v = set_wflag (set_win (st_word w (p + DIR_LstAccDate) 0) v);
                (res, v) = sync_fs ops v
            in Some ((res, fp\<lparr>fl_flag := fl_flag fp AND NOT FA__WRITTEN\<rparr>), v)) })"

definition f_sync :: "'w disk_ops \<Rightarrow> fil \<Rightarrow> 'w sys \<Rightarrow> ((FRESULT \<times> fil) \<times> 'w sys) option" where
  "f_sync ops fp s =
     (let res = validate_fil ops fp s
      in if res = FR_OK \<and> fl_flag fp AND FA__WRITTEN \<noteq> 0
         then do { q \<leftarrow> fl_fs fp; on_vol q (sync_body ops fp) s }
         else Some ((res, fp), s))"

definition f_close :: "'w disk_ops \<Rightarrow> fil \<Rightarrow> 'w sys \<Rightarrow> ((FRESULT \<times> fil) \<times> 'w sys) option" where
  "f_close ops fp s = do {
     ((res, fp), s) \<leftarrow> f_sync ops fp s;
     Some ((res, if res = FR_OK then fp\<lparr>fl_fs := None\<rparr> else fp), s) }"

section \<open>Seek\<close>

text \<open>
  Following the chain to the cluster of the offset: remaining offset and last cluster on the right.
  A writer stretches the chain, and gets the file size clipped when the disk is full.
\<close>

partial_function (option) seek_loop :: "'w disk_ops \<Rightarrow> u32 \<Rightarrow> u32 \<Rightarrow> u32 \<Rightarrow> fil \<Rightarrow> 'w vol \<Rightarrow>
    ((FRESULT + u32 \<times> u32) \<times> fil \<times> 'w vol) option" where
  "seek_loop ops bcs ofs clst fp v =
     (if ofs \<le> bcs then Some (Inr (ofs, clst), fp, v)
      else do {
        (clst, v) \<leftarrow> (if fl_flag fp AND FA_WRITE \<noteq> 0 then create_chain ops clst v else Some (get_fat ops clst v));
        (if fl_flag fp AND FA_WRITE \<noteq> 0 \<and> clst = 0 then Some (Inr (bcs, clst), fp, v)
         else if clst = 0xFFFFFFFF then Some (Inl FR_DISK_ERR, fp, v)
         else if clst \<le> 1 \<or> fs_n_fatent (v_fs v) \<le> clst then Some (Inl FR_INT_ERR, fp, v)
         else seek_loop ops bcs (ofs - bcs) clst (fp\<lparr>fl_clust := clst, fl_fptr := fl_fptr fp + bcs\<rparr>) v) })"

text \<open>The cluster to start from: the current one when the target is not behind it, or the first.\<close>

definition seek_start :: "'w disk_ops \<Rightarrow> u32 \<Rightarrow> u32 \<Rightarrow> u32 \<Rightarrow> fil \<Rightarrow> 'w vol \<Rightarrow>
    ((FRESULT + u32 \<times> u32) \<times> fil \<times> 'w vol) option" where
  "seek_start ops bcs ifptr ofs fp v =
     (if 0 < ifptr \<and> (ifptr - 1) div bcs \<le> (ofs - 1) div bcs then
        let fp = fp\<lparr>fl_fptr := (ifptr - 1) AND NOT (bcs - 1)\<rparr>
        in Some (Inr (ofs - fl_fptr fp, fl_clust fp), fp, v)
      else if fl_sclust fp \<noteq> 0 then Some (Inr (ofs, fl_sclust fp), fp\<lparr>fl_clust := fl_sclust fp\<rparr>, v)
      else do {
        (clst, v) \<leftarrow> create_chain ops 0 v;
        Some (if clst = 1 then (Inl FR_INT_ERR, fp, v)
              else if clst = 0xFFFFFFFF then (Inl FR_DISK_ERR, fp, v)
              else (Inr (ofs, clst), fp\<lparr>fl_sclust := clst, fl_clust := clst\<rparr>, v)) })"

text \<open>The move itself: the new current sector on the right, 0 when it is not needed.\<close>

definition seek_move :: "'w disk_ops \<Rightarrow> u32 \<Rightarrow> fil \<Rightarrow> 'w vol \<Rightarrow> ((FRESULT + u32) \<times> fil \<times> 'w vol) option" where
  "seek_move ops ofs fp v =
     (let ifptr = fl_fptr fp; fp = fp\<lparr>fl_fptr := 0\<rparr>
      in if ofs = 0 then Some (Inr 0, fp, v)
         else let bcs = ucast (fs_csize (v_fs v)) * 512
              in do {
                (r, fp, v) \<leftarrow> seek_start ops bcs ifptr ofs fp v;
                (case r of
                   Inl e \<Rightarrow> Some (Inl e, fp, v)
                 | Inr (ofs, clst) \<Rightarrow>
                     if clst = 0 then Some (Inr 0, fp, v)
                     else do {
                       (r, fp, v) \<leftarrow> seek_loop ops bcs ofs clst fp v;
                       (case r of
                          Inl e \<Rightarrow> Some (Inl e, fp, v)
                        | Inr (ofs, clst) \<Rightarrow>
                            let fp = fp\<lparr>fl_fptr := fl_fptr fp + ofs\<rparr>
                            in if ofs mod 512 = 0 then Some (Inr 0, fp, v)
                               else let nsect = clust2sect (v_fs v) clst
                                    in Some (if nsect = 0 then Inl FR_INT_ERR else Inr (nsect + ofs div 512), fp, v)) }) })"

definition seek_body :: "'w disk_ops \<Rightarrow> u32 \<Rightarrow> fil \<Rightarrow> 'w vol \<Rightarrow> ((FRESULT \<times> fil) \<times> 'w vol) option" where
  "seek_body ops ofs fp v =
     (let ofs = (if fl_fsize fp < ofs \<and> fl_flag fp AND FA_WRITE = 0 then fl_fsize fp else ofs)
      in do {
        (r, fp, v) \<leftarrow> seek_move ops ofs fp v;
        (case r of
           Inl e \<Rightarrow> Some ((e, set_flag FA__ERROR fp), v)
         | Inr nsect \<Rightarrow>
             let fp = (if fl_fptr fp mod 512 \<noteq> 0 \<and> nsect \<noteq> fl_dsect fp then fp\<lparr>fl_dsect := nsect\<rparr> else fp);
                 fp = (if fl_fsize fp < fl_fptr fp then set_flag FA__WRITTEN (fp\<lparr>fl_fsize := fl_fptr fp\<rparr>) else fp)
             in Some ((FR_OK, fp), v)) })"

definition f_lseek :: "'w disk_ops \<Rightarrow> fil \<Rightarrow> u32 \<Rightarrow> 'w sys \<Rightarrow> ((FRESULT \<times> fil) \<times> 'w sys) option" where
  "f_lseek ops fp ofs s =
     (let res = validate_fil ops fp s
      in if res \<noteq> FR_OK then Some ((res, fp), s)
         else if fl_flag fp AND FA__ERROR \<noteq> 0 then Some ((FR_INT_ERR, fp), s)
         else do { q \<leftarrow> fl_fs fp; on_vol q (seek_body ops ofs fp) s })"

section \<open>Truncate\<close>

definition truncate_body :: "'w disk_ops \<Rightarrow> fil \<Rightarrow> 'w vol \<Rightarrow> ((FRESULT \<times> fil) \<times> 'w vol) option" where
  "truncate_body ops fp v =
     (if fl_fptr fp < fl_fsize fp then
        let fp = set_flag FA__WRITTEN (fp\<lparr>fl_fsize := fl_fptr fp\<rparr>)
        in if fl_fptr fp = 0 then do {
             (res, v) \<leftarrow> remove_chain ops (fl_sclust fp) v;
             Some ((res, fp\<lparr>fl_sclust := 0\<rparr>), v) }
           else
             let (ncl, v) = get_fat ops (fl_clust fp) v
             in if ncl = 0xFFFFFFFF then Some ((FR_DISK_ERR, fp), v)
                else if ncl = 1 then Some ((FR_INT_ERR, fp), v)
                else if ncl < fs_n_fatent (v_fs v) then
                  let (res, v) = put_fat ops (fl_clust fp) 0x0FFFFFFF v
                  in if res \<noteq> FR_OK then Some ((res, fp), v)
                     else do { (res, v) \<leftarrow> remove_chain ops ncl v; Some ((res, fp), v) }
                else Some ((FR_OK, fp), v)
      else Some ((FR_OK, fp), v))"

definition f_truncate :: "'w disk_ops \<Rightarrow> fil \<Rightarrow> 'w sys \<Rightarrow> ((FRESULT \<times> fil) \<times> 'w sys) option" where
  "f_truncate ops fp s =
     (let res = validate_fil ops fp s;
          res = (if res \<noteq> FR_OK then res
                 else if fl_flag fp AND FA__ERROR \<noteq> 0 then FR_INT_ERR
                 else if fl_flag fp AND FA_WRITE = 0 then FR_DENIED else FR_OK)
      in if res \<noteq> FR_OK then Some ((res, fp), s)
         else do {
           q \<leftarrow> fl_fs fp;
           ((res, fp), s) \<leftarrow> on_vol q (truncate_body ops fp) s;
           Some ((res, if res \<noteq> FR_OK then set_flag FA__ERROR fp else fp), s) })"

text \<open>The loops are executable.\<close>

declare fread_loop.simps [code]
  fwrite_loop.simps [code]
  seek_loop.simps [code]

end
