(* ===== verification/FatPath.thy ===== *)
theory FatPath
  imports FatFile
begin

text \<open>
  The operations of \<^verbatim>\<open>ff.c\<close> on paths: listing a directory, file status, counting free clusters,
  deleting, creating a directory, changing attributes and times, renaming.

  Every operation looks up the volume, then runs on it; \<open>with_vol\<close> is that common frame. A local
  directory object starts from \<open>new_dir\<close>.
\<close>

definition with_vol :: "'w disk_ops \<Rightarrow> byte list \<Rightarrow> bool \<Rightarrow> 'a \<Rightarrow>
    (nat \<Rightarrow> byte list \<Rightarrow> 'w vol \<Rightarrow> ((FRESULT \<times> 'a) \<times> 'w vol) option) \<Rightarrow> 'w sys \<Rightarrow>
    ((FRESULT \<times> 'a) \<times> 'w sys) option" where
  "with_vol ops path wmode dflt body s = do {
     (res, path, q, s) \<leftarrow> chk_mounted ops path wmode s;
     (if res \<noteq> FR_OK then Some ((res, dflt), s)
      else do { q \<leftarrow> q; on_vol q (body q path) s }) }"

section \<open>Directory objects\<close>

definition opendir_body :: "'w disk_ops \<Rightarrow> dir \<Rightarrow> byte list \<Rightarrow> 'w vol \<Rightarrow> ((FRESULT \<times> dir) \<times> 'w vol) option" where
  "opendir_body ops dj path v = do {
     (res, dj, v) \<leftarrow> follow_path ops dj path v;
     (res, dj, v) \<leftarrow>
       (if res \<noteq> FR_OK then Some (res, dj, v)
        else
          let (res, dj) = (case d_dir dj of None \<Rightarrow> (FR_OK, dj)
                | Some p \<Rightarrow> if ent_byte v p DIR_Attr AND AM_DIR \<noteq> 0
                            then (FR_OK, dj\<lparr>d_sclust := ld_clust (v_fs v) p\<rparr>) else (FR_NO_PATH, dj))
          in if res \<noteq> FR_OK then Some (res, dj, v) else dir_sdi ops (dj\<lparr>d_id := fs_id (v_fs v)\<rparr>) 0 v);
     (let res = (if res = FR_NO_FILE then FR_NO_PATH else res)
      in Some ((res, if res \<noteq> FR_OK then dj\<lparr>d_fs := None\<rparr> else dj), v)) }"

definition f_opendir :: "'w disk_ops \<Rightarrow> dir option \<Rightarrow> byte list \<Rightarrow> 'w sys \<Rightarrow>
    ((FRESULT \<times> dir option) \<times> 'w sys) option" where
  "f_opendir ops dj path s =
     (case dj of None \<Rightarrow> Some ((FR_INVALID_OBJECT, None), s)
      | Some dj \<Rightarrow> do {
          ((res, dj), s) \<leftarrow> with_vol ops path False (dj\<lparr>d_fs := None\<rparr>)
            (\<lambda>q path v. opendir_body ops (dj\<lparr>d_fs := Some q, d_fn := replicate 12 0\<rparr>) path v) s;
          Some ((res, Some dj), s) })"

definition readdir_body :: "'w disk_ops \<Rightarrow> dir \<Rightarrow> filinfo \<Rightarrow> 'w vol \<Rightarrow>
    ((FRESULT \<times> dir \<times> filinfo) \<times> 'w vol) option" where
  "readdir_body ops dj fno v = do {
     (res, dj, v) \<leftarrow> dir_read ops (dj\<lparr>d_fn := replicate 12 0\<rparr>) False v;
     (let (res, dj) = (if res = FR_NO_FILE then (FR_OK, dj\<lparr>d_sect := 0\<rparr>) else (res, dj))
      in if res \<noteq> FR_OK then Some ((res, dj, fno), v)
         else do {
           fno \<leftarrow> get_fileinfo dj fno v;
           (res, dj, v) \<leftarrow> dir_next ops dj False v;
           Some (if res = FR_NO_FILE then ((FR_OK, dj\<lparr>d_sect := 0\<rparr>, fno), v) else ((res, dj, fno), v)) }) }"

text \<open>Without a place for the information the object is rewound.\<close>

definition f_readdir :: "'w disk_ops \<Rightarrow> dir \<Rightarrow> filinfo option \<Rightarrow> 'w sys \<Rightarrow>
    ((FRESULT \<times> dir \<times> filinfo option) \<times> 'w sys) option" where
  "f_readdir ops dj fno s =
     (let res = validate ops (Some (d_fs dj, d_id dj)) s
      in if res \<noteq> FR_OK then Some ((res, dj, fno), s)
         else do {
           q \<leftarrow> d_fs dj;
           (case fno of
              None \<Rightarrow> on_vol q (\<lambda>v. do { (res, dj, v) \<leftarrow> dir_sdi ops dj 0 v; Some ((res, dj, None), v) }) s
            | Some fno \<Rightarrow> on_vol q (\<lambda>v. do {
                ((res, dj, fno), v) \<leftarrow> readdir_body ops dj fno v; Some ((res, dj, Some fno), v) }) s) })"

definition f_stat :: "'w disk_ops \<Rightarrow> byte list \<Rightarrow> filinfo \<Rightarrow> 'w sys \<Rightarrow> ((FRESULT \<times> filinfo) \<times> 'w sys) option" where
  "f_stat ops path fno s = with_vol ops path False fno (\<lambda>q path v. do {
     (res, dj, v) \<leftarrow> follow_path ops (new_dir q) path v;
     (if res \<noteq> FR_OK then Some ((res, fno), v)
      else if d_dir dj = None then Some ((FR_INVALID_NAME, fno), v)
      else do { fno \<leftarrow> get_fileinfo dj fno v; Some ((FR_OK, fno), v) }) }) s"

section \<open>Number of free clusters\<close>

text \<open>The scan of a FAT12 volume asks for one entry after the other.\<close>

partial_function (option) scan12 :: "'w disk_ops \<Rightarrow> u32 \<Rightarrow> u32 \<Rightarrow> 'w vol \<Rightarrow> ((FRESULT \<times> u32) \<times> 'w vol) option" where
  "scan12 ops clst n v =
     (let (stat, v) = get_fat ops clst v
      in if stat = 0xFFFFFFFF then Some ((FR_DISK_ERR, n), v)
         else if stat = 1 then Some ((FR_INT_ERR, n), v)
         else let n = (if stat = 0 then n + 1 else n); clst = clst + 1
              in if clst < fs_n_fatent (v_fs v) then scan12 ops clst n v else Some ((FR_OK, n), v))"

text \<open>
  The scan of the other formats reads the table sector by sector: \<open>i\<close> bytes of the window are left,
  \<open>p\<close> is the position in it.
\<close>

partial_function (option) scan_win :: "'w disk_ops \<Rightarrow> byte \<Rightarrow> u32 \<Rightarrow> u32 \<Rightarrow> u32 \<Rightarrow> nat \<Rightarrow> u32 \<Rightarrow> 'w vol \<Rightarrow>
    ((FRESULT \<times> u32) \<times> 'w vol) option" where
  "scan_win ops fat clst sect i p n v =
     (let (res, sect, i, p, v) =
        (if i = 0 then let (res, v) = move_window ops sect v in (res, sect + 1, 512, 0, v)
         else (FR_OK, sect, i, p, v))
      in if res \<noteq> FR_OK then Some ((res, n), v)
         else
           let w = fs_win (v_fs v);
               (free, k) = (if fat = FS_FAT16 then (ld_word w p = 0, 2) else (ld_dword w p AND 0x0FFFFFFF = 0, 4));
               n = (if free then n + 1 else n); clst = clst - 1
           in if clst = 0 then Some ((FR_OK, n), v)
              else scan_win ops fat clst sect (i - of_nat k) (p + k) n v)"

text \<open>The count is stored, and returned, also when the scan was broken off.\<close>

definition getfree_body :: "'w disk_ops \<Rightarrow> 'w vol \<Rightarrow> ((FRESULT \<times> u32) \<times> 'w vol) option" where
  "getfree_body ops v =
     (let fs = v_fs v
      in if fs_free_clust fs \<le> fs_n_fatent fs - 2 then Some ((FR_OK, fs_free_clust fs), v)
         else do {
           ((res, n), v) \<leftarrow> (if fs_type fs = FS_FAT12 then scan12 ops 2 0 v
             else scan_win ops (fs_type fs) (fs_n_fatent fs) (fs_fatbase fs) 0 0 0 v);
           (let v = upd_fs (fs_free_clust_update (\<lambda>_. n)) v;
                v = (if fs_type fs = FS_FAT32 then upd_fs (fs_fsi_flag_update (\<lambda>_. 1)) v else v)
            in Some ((res, n), v)) })"

text \<open>The count is delivered, \<open>nclst\<close>, only when the volume is there; \<open>nclst\<close> is what the variable held before.\<close>

definition f_getfree :: "'w disk_ops \<Rightarrow> byte list \<Rightarrow> u32 \<Rightarrow> 'w sys \<Rightarrow> ((FRESULT \<times> u32) \<times> 'w sys) option" where
  "f_getfree ops path nclst s = with_vol ops path False nclst (\<lambda>q path v. getfree_body ops v) s"

section \<open>Delete\<close>

text \<open>
  A subdirectory may be deleted when nothing but its dot entries is in it. The start cluster is
  loaded from the entry before the null pointer of the root directory has been ruled out.
\<close>

definition unlink_empty :: "'w disk_ops \<Rightarrow> dir \<Rightarrow> u32 \<Rightarrow> 'w vol \<Rightarrow> (FRESULT \<times> 'w vol) option" where
  "unlink_empty ops dj dclst v =
     (if dclst < 2 then Some (FR_INT_ERR, v)
      else do {
        (res, sdj, v) \<leftarrow> dir_sdi ops (dj\<lparr>d_sclust := dclst\<rparr>) 2 v;
        (if res \<noteq> FR_OK then Some (res, v)
         else do {
           (res, sdj, v) \<leftarrow> dir_read ops sdj False v;
           Some (if res = FR_OK then FR_DENIED else if res = FR_NO_FILE then FR_OK else res, v) }) })"

definition unlink_remove :: "'w disk_ops \<Rightarrow> dir \<Rightarrow> u32 \<Rightarrow> 'w vol \<Rightarrow> (FRESULT \<times> 'w vol) option" where
  "unlink_remove ops dj dclst v = do {
     (res, dj, v) \<leftarrow> dir_remove ops dj v;
     (if res \<noteq> FR_OK then Some (res, v)
      else do {
        (res, v) \<leftarrow> (if dclst \<noteq> 0 then remove_chain ops dclst v else Some (FR_OK, v));
        Some (if res = FR_OK then sync_fs ops v else (res, v)) }) }"

definition unlink_body :: "'w disk_ops \<Rightarrow> nat \<Rightarrow> byte list \<Rightarrow> 'w vol \<Rightarrow> ((FRESULT \<times> unit) \<times> 'w vol) option" where
  "unlink_body ops q path v = do {
     (res, dj, v) \<leftarrow> follow_path ops (new_dir q) path v;
     (if res \<noteq> FR_OK then Some ((res, ()), v)
      else do {
        p \<leftarrow> d_dir dj;
        (let res = (if ent_byte v p DIR_Attr AND AM_RDO \<noteq> 0 then FR_DENIED else FR_OK);
             dclst = ld_clust (v_fs v) p
         in do {
           (res, v) \<leftarrow> (if res = FR_OK \<and> ent_byte v p DIR_Attr AND AM_DIR \<noteq> 0
             then unlink_empty ops dj dclst v else Some (res, v));
           (res, v) \<leftarrow> (if res = FR_OK then unlink_remove ops dj dclst v else Some (res, v));
           Some ((res, ()), v) }) }) }"

definition f_unlink :: "'w disk_ops \<Rightarrow> byte list \<Rightarrow> 'w sys \<Rightarrow> ((FRESULT \<times> unit) \<times> 'w sys) option" where
  "f_unlink ops path s = with_vol ops path True () (unlink_body ops) s"

section \<open>Create a directory\<close>

text \<open>The first sector of a new table: the entries of the directory itself and of its parent.\<close>

definition dot_entries :: "u32 \<Rightarrow> u32 \<Rightarrow> dir \<Rightarrow> 'w vol \<Rightarrow> 'w vol" where
  "dot_entries tm dcl dj v =
     (let w = mem_set (fs_win (v_fs v)) 0 0 512;
          w = (mem_set w 0 0x20 11)[0 := 0x2E, DIR_Attr := AM_DIR];
          v = st_clust 0 dcl (set_win (st_dword w DIR_WrtTime tm) v);
          w = fs_win (v_fs v);
          w = (mem_cpy w SZ_DIR w 0 SZ_DIR)[33 := 0x2E];
          pcl = (if fs_type (v_fs v) = FS_FAT32 \<and> d_sclust dj = fs_dirbase (v_fs v) then 0 else d_sclust dj)
      in st_clust SZ_DIR pcl (set_win w v))"

text \<open>Writing the first sector and clearing the others of the cluster.\<close>

fun mkdir_loop :: "'w disk_ops \<Rightarrow> nat \<Rightarrow> u32 \<Rightarrow> 'w vol \<Rightarrow> FRESULT \<times> 'w vol" where
  "mkdir_loop ops 0 dsc v = (FR_OK, v)"
| "mkdir_loop ops (Suc n) dsc v =
     (let v = set_wflag (upd_fs (fs_winsect_update (\<lambda>_. dsc)) v);
          (res, v) = sync_window ops v
      in if res \<noteq> FR_OK then (res, v)
         else mkdir_loop ops n (dsc + 1) (set_win (mem_set (fs_win (v_fs v)) 0 0 512) v))"

definition mkdir_table :: "'w disk_ops \<Rightarrow> dir \<Rightarrow> u32 \<Rightarrow> 'w vol \<Rightarrow> FRESULT \<times> 'w vol" where
  "mkdir_table ops dj dcl v =
     (let res = (if dcl = 0 then FR_DENIED else if dcl = 1 then FR_INT_ERR
            else if dcl = 0xFFFFFFFF then FR_DISK_ERR else FR_OK);
          (res, v) = (if res = FR_OK then sync_window ops v else (res, v))
      in if res \<noteq> FR_OK then (res, v)
         else let dsc = clust2sect (v_fs v) dcl
              in mkdir_loop ops (unat (fs_csize (v_fs v))) dsc (dot_entries get_fattime dcl dj v))"

definition mkdir_body :: "'w disk_ops \<Rightarrow> nat \<Rightarrow> byte list \<Rightarrow> 'w vol \<Rightarrow> ((FRESULT \<times> unit) \<times> 'w vol) option" where
  "mkdir_body ops q path v = do {
     (res, dj, v) \<leftarrow> follow_path ops (new_dir q) path v;
     (let res = (if res = FR_OK then FR_EXIST else res)
      in if res \<noteq> FR_NO_FILE then Some ((res, ()), v)
         else do {
           (dcl, v) \<leftarrow> create_chain ops 0 v;
           (let (res, v) = mkdir_table ops dj dcl v
            in do {
              (res, dj, v) \<leftarrow> (if res = FR_OK then dir_register ops dj v else Some (res, dj, v));
              (if res \<noteq> FR_OK then do { (r, v) \<leftarrow> remove_chain ops dcl v; Some ((res, ()), v) }
               else do {
                 p \<leftarrow> d_dir dj;
                 (let w = (fs_win (v_fs v))[p + DIR_Attr := AM_DIR];
                      v = set_wflag (st_clust p dcl (set_win (st_dword w (p + DIR_WrtTime) get_fattime) v));
                      (res, v) = sync_fs ops v
                  in Some ((res, ()), v)) }) }) }) }"

definition f_mkdir :: "'w disk_ops \<Rightarrow> byte list \<Rightarrow> 'w sys \<Rightarrow> ((FRESULT \<times> unit) \<times> 'w sys) option" where
  "f_mkdir ops path s = with_vol ops path True () (mkdir_body ops) s"

section \<open>Attributes and times\<close>

definition chmod_body :: "'w disk_ops \<Rightarrow> byte \<Rightarrow> byte \<Rightarrow> nat \<Rightarrow> byte list \<Rightarrow> 'w vol \<Rightarrow>
    ((FRESULT \<times> unit) \<times> 'w vol) option" where
  "chmod_body ops val msk q path v = do {
     (res, dj, v) \<leftarrow> follow_path ops (new_dir q) path v;
     (if res \<noteq> FR_OK then Some ((res, ()), v)
      else case d_dir dj of
        None \<Rightarrow> Some ((FR_INVALID_NAME, ()), v)
      | Some p \<Rightarrow>
          let msk = msk AND (AM_RDO OR AM_HID OR AM_SYS OR AM_ARC);
              a = (val AND msk) OR (ent_byte v p DIR_Attr AND NOT msk);
              (res, v) = sync_fs ops (set_wflag (set_win ((fs_win (v_fs v))[p + DIR_Attr := a]) v))
          in Some ((res, ()), v)) }"

definition f_chmod :: "'w disk_ops \<Rightarrow> byte list \<Rightarrow> byte \<Rightarrow> byte \<Rightarrow> 'w sys \<Rightarrow> ((FRESULT \<times> unit) \<times> 'w sys) option" where
  "f_chmod ops path val msk s = with_vol ops path True () (chmod_body ops val msk) s"

definition utime_body :: "'w disk_ops \<Rightarrow> filinfo \<Rightarrow> nat \<Rightarrow> byte list \<Rightarrow> 'w vol \<Rightarrow>
    ((FRESULT \<times> unit) \<times> 'w vol) option" where
  "utime_body ops fno q path v = do {
     (res, dj, v) \<leftarrow> follow_path ops (new_dir q) path v;
     (if res \<noteq> FR_OK then Some ((res, ()), v)
      else case d_dir dj of
        None \<Rightarrow> Some ((FR_INVALID_NAME, ()), v)
      | Some p \<Rightarrow>
          let w = st_word (fs_win (v_fs v)) (p + DIR_WrtTime) (fi_ftime fno);
              w = st_word w (p + DIR_WrtDate) (fi_fdate fno);
              (res, v) = sync_fs ops (set_wflag (set_win w v))
          in Some ((res, ()), v)) }"

definition f_utime :: "'w disk_ops \<Rightarrow> byte list \<Rightarrow> filinfo \<Rightarrow> 'w sys \<Rightarrow> ((FRESULT \<times> unit) \<times> 'w sys) option" where
  "f_utime ops path fno s = with_vol ops path True () (utime_body ops fno) s"

section \<open>Rename\<close>

text \<open>A directory that moves gets the start cluster of its new parent in its \<^verbatim>\<open>..\<close> entry.\<close>

definition rename_parent :: "'w disk_ops \<Rightarrow> u32 \<Rightarrow> nat \<Rightarrow> 'w vol \<Rightarrow> FRESULT \<times> 'w vol" where
  "rename_parent ops sclust p v =
     (let dw = clust2sect (v_fs v) (ld_clust (v_fs v) p)
      in if dw = 0 then (FR_INT_ERR, v)
         else let (res, v) = move_window ops dw v
              in if res = FR_OK \<and> ent_byte v SZ_DIR 1 = 0x2E then
                   let dw = (if fs_type (v_fs v) = FS_FAT32 \<and> sclust = fs_dirbase (v_fs v) then 0 else sclust)
                   in (res, set_wflag (st_clust SZ_DIR dw v))
                 else (res, v))"

text \<open>
  The new entry gets the old one's data: the 21 bytes \<open>buf\<close> from the attribute on, except for the
  reserved byte after it.
\<close>

definition rename_new :: "'w disk_ops \<Rightarrow> dir \<Rightarrow> dir \<Rightarrow> byte list \<Rightarrow> 'w vol \<Rightarrow> (FRESULT \<times> 'w vol) option" where
  "rename_new ops djo djn buf v = do {
     (res, djn, v) \<leftarrow> dir_register ops djn v;
     (if res \<noteq> FR_OK then Some (res, v)
      else do {
        p \<leftarrow> d_dir djn;
        (let w = mem_cpy (fs_win (v_fs v)) (p + 13) buf 2 19;
             v = set_wflag (set_win (w[p + DIR_Attr := buf ! 0 OR AM_ARC]) v);
             (res, v) = (if d_sclust djo \<noteq> d_sclust djn \<and> ent_byte v p DIR_Attr AND AM_DIR \<noteq> 0
               then rename_parent ops (d_sclust djn) p v else (FR_OK, v))
         in if res \<noteq> FR_OK then Some (res, v)
            else do {
              (res, djo, v) \<leftarrow> dir_remove ops djo v;
              Some (if res = FR_OK then sync_fs ops v else (res, v)) }) }) }"

definition rename_body :: "'w disk_ops \<Rightarrow> byte list \<Rightarrow> nat \<Rightarrow> byte list \<Rightarrow> 'w vol \<Rightarrow>
    ((FRESULT \<times> unit) \<times> 'w vol) option" where
  "rename_body ops path_new q path_old v = do {
     (res, djo, v) \<leftarrow> follow_path ops (new_dir q) path_old v;
     (if res \<noteq> FR_OK then Some ((res, ()), v)
      else case d_dir djo of
        None \<Rightarrow> Some ((FR_NO_FILE, ()), v)
      | Some p \<Rightarrow>
          let buf = take 21 (drop (p + DIR_Attr) (fs_win (v_fs v)))
          in do {
            (res, djn, v) \<leftarrow> follow_path ops djo path_new v;
            (let res = (if res = FR_OK then FR_EXIST else res)
             in if res \<noteq> FR_NO_FILE then Some ((res, ()), v)
                else do {
                  (res, v) \<leftarrow> rename_new ops djo djn buf v;
                  Some ((res, ()), v) }) }) }"

definition f_rename :: "'w disk_ops \<Rightarrow> byte list \<Rightarrow> byte list \<Rightarrow> 'w sys \<Rightarrow> ((FRESULT \<times> unit) \<times> 'w sys) option" where
  "f_rename ops path_old path_new s = with_vol ops path_old True () (rename_body ops path_new) s"

text \<open>The loops are executable.\<close>

declare scan12.simps [code]
  scan_win.simps [code]

end
