(* ===== verification/FatEntries.thy ===== *)
theory FatEntries
  imports FatTable
begin

text \<open>
  What \<^verbatim>\<open>get_fat\<close> and \<^verbatim>\<open>put_fat\<close> do to the table on the volume. The bytes of the first FAT copy,
  as the window and the medium together show them, are \<open>fat_byte\<close>; \<open>fat_entry\<close> decodes them. The
  lemmas hold for any block device, whether or not its operations succeed.
\<close>

section \<open>The table of a volume\<close>

definition fat_sector :: "fatfs \<Rightarrow> nat \<Rightarrow> u32" where
  "fat_sector fs k = fs_fatbase fs + of_nat (k div 512)"

definition fat_byte :: "('w \<Rightarrow> u32 \<Rightarrow> byte list) \<Rightarrow> 'w vol \<Rightarrow> nat \<Rightarrow> byte" where
  "fat_byte sc v k = view sc v (fat_sector (v_fs v) k) ! (k mod 512)"

definition entry_of :: "byte \<Rightarrow> (nat \<Rightarrow> byte) \<Rightarrow> nat \<Rightarrow> u32" where
  "entry_of t f n = (if t = FS_FAT12 then ent12 f n else if t = FS_FAT16 then ent16 f n else ent32 f n)"

definition put_of :: "byte \<Rightarrow> (nat \<Rightarrow> byte) \<Rightarrow> nat \<Rightarrow> u32 \<Rightarrow> nat \<Rightarrow> byte" where
  "put_of t f n val = (if t = FS_FAT12 then put12 f n val else if t = FS_FAT16 then put16 f n val
     else put32 f n val)"

definition val_mask :: "byte \<Rightarrow> u32" where
  "val_mask t = (if t = FS_FAT12 then 0xFFF else if t = FS_FAT16 then 0xFFFF else 0x0FFFFFFF)"

definition fat_entry :: "('w \<Rightarrow> u32 \<Rightarrow> byte list) \<Rightarrow> 'w vol \<Rightarrow> u32 \<Rightarrow> u32" where
  "fat_entry sc v c = entry_of (fs_type (v_fs v)) (fat_byte sc v) (unat c)"

text \<open>The number of bytes that hold the entries below \<open>n\<close>.\<close>

definition fat_extent :: "byte \<Rightarrow> nat \<Rightarrow> nat" where
  "fat_extent t n = (if t = FS_FAT12 then n + n div 2 + n mod 2 else if t = FS_FAT16 then 2 * n else 4 * n)"

text \<open>
  A mounted volume: known FAT type, at least one cluster, fewer clusters than the largest link value (which marks the end
  of a chain), and a FAT that has room for all its entries.
\<close>

definition fat_ok :: "('w \<Rightarrow> u32 \<Rightarrow> byte list) \<Rightarrow> 'w vol \<Rightarrow> bool" where
  "fat_ok sc v \<longleftrightarrow> vol_ok sc v \<and> fs_fatbase (v_fs v) \<noteq> 0 \<and>
     fs_type (v_fs v) \<in> {FS_FAT12, FS_FAT16, FS_FAT32} \<and>
     2 < fs_n_fatent (v_fs v) \<and> fs_n_fatent (v_fs v) \<le> val_mask (fs_type (v_fs v)) \<and>
     fat_extent (fs_type (v_fs v)) (unat (fs_n_fatent (v_fs v))) \<le> 512 * unat (fs_fsize (v_fs v))"

text \<open>Sectors that belong to no FAT copy, and are not sector 0, look the same.\<close>

definition in_fats :: "fatfs \<Rightarrow> u32 \<Rightarrow> bool" where
  "in_fats fs s \<longleftrightarrow> unat (fs_fatbase fs) \<le> unat s \<and>
     unat s < unat (fs_fatbase fs) + unat (fs_n_fats fs) * unat (fs_fsize fs)"

definition same_data :: "('w \<Rightarrow> u32 \<Rightarrow> byte list) \<Rightarrow> 'w vol \<Rightarrow> 'w vol \<Rightarrow> bool" where
  "same_data sc v v' \<longleftrightarrow> vol_ok sc v' \<and> same_layout (v_fs v) (v_fs v') \<and>
     (\<forall>s. s \<noteq> 0 \<longrightarrow> \<not> in_fats (v_fs v) s \<longrightarrow> view sc v' s = view sc v s)"

lemma in_fats_if_mirror: "mirror fs s \<Longrightarrow> in_fats fs s"
  by (simp add: mirror_def in_fats_def)

lemma same_layout_in_fats: "same_layout fs fs' \<Longrightarrow> in_fats fs' = in_fats fs"
  by (rule ext) (simp add: in_fats_def same_layout_fields)

lemma same_layout_sym: "same_layout a b \<Longrightarrow> same_layout b a"
  by (cases a; cases b; simp add: same_layout_def)

lemma keeps_view_same_data: "keeps_view sc v v' \<Longrightarrow> same_data sc v v'"
  using in_fats_if_mirror by (auto simp: keeps_view_def same_data_def)

lemma same_data_trans: "same_data sc u v \<Longrightarrow> same_data sc v w \<Longrightarrow> same_data sc u w"
  unfolding same_data_def using same_layout_trans same_layout_in_fats by metis

lemma same_data_refl: "vol_ok sc v \<Longrightarrow> same_data sc v v"
  by (simp add: same_data_def)

lemma same_data_fat_ok: "same_data sc v v' \<Longrightarrow> fat_ok sc v \<Longrightarrow> fat_ok sc v'"
  by (auto simp: same_data_def fat_ok_def same_layout_fields)

lemma fat_ok_vol: "fat_ok sc v \<Longrightarrow> vol_ok sc v"
  by (simp add: fat_ok_def)

lemma keeps_view_fat_ok: "keeps_view sc v v' \<Longrightarrow> fat_ok sc v \<Longrightarrow> fat_ok sc v'"
  using keeps_view_same_data same_data_fat_ok by blast

section \<open>Where the bytes of the table are\<close>

lemma fat_sector_place:
  assumes "geom fs" "k < 512 * unat (fs_fsize fs)"
  shows "unat (fat_sector fs k) = unat (fs_fatbase fs) + k div 512" "\<not> mirror fs (fat_sector fs k)"
    "in_fats fs (fat_sector fs k)"
proof -
  have top: "unat (fs_fatbase fs) + unat (fs_n_fats fs) * unat (fs_fsize fs) < 4294967296"
    and N: "0 < unat (fs_n_fats fs)" using assms(1) by (auto simp: geom_def unat_gt_0)
  from N have f: "unat (fs_fsize fs) \<le> unat (fs_n_fats fs) * unat (fs_fsize fs)"
    by (cases "unat (fs_n_fats fs)") simp_all
  have d: "k div 512 < unat (fs_fsize fs)" using assms(2) by (simp add: less_mult_imp_div_less mult.commute)
  with top f have "k div 512 < 4294967296" by linarith
  then have u: "unat (of_nat (k div 512) :: u32) = k div 512" by (rule unat_of_nat_u32)
  have "unat (fs_fatbase fs) + k div 512 < 4294967296" using top f d by linarith
  then show place: "unat (fat_sector fs k) = unat (fs_fatbase fs) + k div 512"
    unfolding fat_sector_def using u by (subst unat_add_small) simp_all
  show "\<not> mirror fs (fat_sector fs k)" "in_fats fs (fat_sector fs k)"
    using d less_le_trans [OF d f] by (simp_all add: mirror_def in_fats_def place)
qed

lemma fat_sector_nz:
  assumes "geom fs" "k < 512 * unat (fs_fsize fs)" "fs_fatbase fs \<noteq> 0"
  shows "fat_sector fs k \<noteq> 0"
  using fat_sector_place(1) [OF assms(1,2)] assms(3) by (metis unat_0 unat_eq_zero add_eq_0_iff_both_eq_0)

lemma fat_sector_eq_iff:
  assumes "geom fs" "k < 512 * unat (fs_fsize fs)" "j < 512 * unat (fs_fsize fs)"
  shows "fat_sector fs k = fat_sector fs j \<longleftrightarrow> k div 512 = j div 512"
  using fat_sector_place(1) [OF assms(1,2)] fat_sector_place(1) [OF assms(1,3)]
  by (metis add_left_cancel fat_sector_def)

lemma same_layout_fat_sector: "same_layout fs fs' \<Longrightarrow> fat_sector fs' = fat_sector fs"
  by (rule ext) (simp add: fat_sector_def same_layout_fields)

text \<open>The bytes of the table are in its extent.\<close>

lemma fat_extent_mono: "m \<le> n \<Longrightarrow> fat_extent t m \<le> fat_extent t n"
proof (induction rule: dec_induct)
  case (step k)
  have "fat_extent t k \<le> fat_extent t (Suc k)"
    by (cases "even k") (auto simp: fat_extent_def elim!: evenE oddE)
  with step show ?case by simp
qed simp

lemma entry_in_extent:
  assumes "n < N"
  shows "t = FS_FAT12 \<Longrightarrow> Suc (n + n div 2) < fat_extent t N"
    "t = FS_FAT16 \<Longrightarrow> 2 * n + 1 < fat_extent t N"
    "t = FS_FAT32 \<Longrightarrow> 4 * n + 3 < fat_extent t N"
proof -
  have "fat_extent t (Suc n) \<le> fat_extent t N" using assms by (intro fat_extent_mono) simp
  then show "t = FS_FAT12 \<Longrightarrow> Suc (n + n div 2) < fat_extent t N"
    "t = FS_FAT16 \<Longrightarrow> 2 * n + 1 < fat_extent t N" "t = FS_FAT32 \<Longrightarrow> 4 * n + 3 < fat_extent t N"
    by (cases "even n"; auto simp: fat_extent_def fs_types elim!: evenE oddE)+
qed


section \<open>Reading an entry\<close>

lemma word_offset:
  "unat (i mod 512 :: u32) = unat i mod 512" "of_nat (unat i div 512) = (i div 512 :: u32)"
  by (simp_all add: unat_mod word_arith_nat_div)

lemma clst_cell:
  assumes "fat_ok sc v" "c < fs_n_fatent (v_fs v)" "fs_type (v_fs v) = FS_FAT12"
  shows "unat (c + c div 2) = unat c + unat c div 2" "unat (c + c div 2 + 1) = Suc (unat c + unat c div 2)"
    "Suc (unat c + unat c div 2) < 512 * unat (fs_fsize (v_fs v))"
proof -
  have "fs_n_fatent (v_fs v) \<le> 0xFFF" using assms by (simp add: fat_ok_def val_mask_def)
  with assms(2) have c: "unat c < 4095" by (simp add: word_le_nat_alt word_less_nat_alt)
  then show a: "unat (c + c div 2) = unat c + unat c div 2"
    by (subst unat_add_small) (simp_all add: unat_div)
  with c show "unat (c + c div 2 + 1) = Suc (unat c + unat c div 2)"
    by (subst unat_add_small) simp_all
  show "Suc (unat c + unat c div 2) < 512 * unat (fs_fsize (v_fs v))"
    using assms entry_in_extent(1) [of "unat c" "unat (fs_n_fatent (v_fs v))"]
    by (auto simp: fat_ok_def word_less_nat_alt)
qed

lemma fat_sector_word: "fat_sector fs (unat i) = fs_fatbase fs + i div 512"
  by (simp add: fat_sector_def word_offset)

lemma div_512_of_double:
  "(2 * unat (c :: u32)) div 512 = unat (c div 256)" "(4 * unat c) div 512 = unat (c div 128)"
  by (simp_all add: unat_div)

lemma clst_offset16: "unat (c * 2 mod 512 :: u32) = (2 * unat c) mod 512"
proof -
  have "unat (c * 2 mod 512 :: u32) = (unat c * 2 mod 4294967296) mod 512"
    by (simp add: unat_mod unat_word_ariths)
  also have "\<dots> = (unat c * 2) mod 512" by (rule mod_mod_cancel) simp
  finally show ?thesis by (simp add: mult.commute)
qed

lemma clst_offset32: "unat (c * 4 mod 512 :: u32) = (4 * unat c) mod 512"
proof -
  have "unat (c * 4 mod 512 :: u32) = (unat c * 4 mod 4294967296) mod 512"
    by (simp add: unat_mod unat_word_ariths)
  also have "\<dots> = (unat c * 4) mod 512" by (rule mod_mod_cancel) simp
  finally show ?thesis by (simp add: mult.commute)
qed

lemma aligned_div_mod:
  "(2 * n + 1) div 512 = (2 * n) div (512 :: nat)" "(2 * n + 1) mod 512 = (2 * n) mod 512 + (1 :: nat)"
  "i < 4 \<Longrightarrow> (4 * n + i) div 512 = (4 * n) div (512 :: nat)"
  "i < 4 \<Longrightarrow> (4 * n + i) mod 512 = (4 * n) mod 512 + (i :: nat)"
  using div_mult2_eq [of "2 * n + 1" 2 256] div_mult2_eq [of "2 * n" 2 256]
    mod_mult2_eq [of "2 * n + 1" 2 256] mod_mult2_eq [of "2 * n" 2 256]
    div_mult2_eq [of "4 * n + i" 4 128] div_mult2_eq [of "4 * n" 4 128]
    mod_mult2_eq [of "4 * n + i" 4 128] mod_mult2_eq [of "4 * n" 4 128]
  by simp_all

lemma odd_word: "c AND 1 \<noteq> 0 \<longleftrightarrow> odd (unat (c :: u32))"
  by (simp add: and_one_eq odd_iff_mod_2_eq_one word_unat_eq_iff unat_mod)

context block_device
begin

lemma keeps_view_fat_byte:
  assumes "keeps_view sec v v'" "fat_ok sec v" "k < 512 * unat (fs_fsize (v_fs v))"
  shows "fat_byte sec v' k = fat_byte sec v k"
proof -
  have "fat_sector (v_fs v') k = fat_sector (v_fs v) k"
    using assms(1) same_layout_fat_sector by (metis keeps_view_def)
  moreover have "fat_sector (v_fs v) k \<noteq> 0" "\<not> mirror (v_fs v) (fat_sector (v_fs v) k)"
    using assms fat_sector_nz fat_sector_place(2) by (auto simp: fat_ok_def vol_ok_def)
  ultimately show ?thesis using assms(1) by (simp add: fat_byte_def keeps_view_def)
qed

lemma move_fat:
  assumes ok: "fat_ok sec v" and k: "k < 512 * unat (fs_fsize (v_fs v))"
    and m: "move_window ops (fat_sector (v_fs v) k) v = (res, v')"
  shows "keeps_view sec v v'" "res = FR_OK \<or> res = FR_DISK_ERR"
    "res = FR_OK \<Longrightarrow> fs_winsect (v_fs v') = fat_sector (v_fs v) k"
    "res = FR_OK \<Longrightarrow> j < 512 * unat (fs_fsize (v_fs v)) \<Longrightarrow> j div 512 = k div 512 \<Longrightarrow>
      fs_win (v_fs v') ! (j mod 512) = fat_byte sec v j"
proof -
  note mk = move_window_keeps [OF fat_ok_vol [OF ok] m]
  show "keeps_view sec v v'" "res = FR_OK \<or> res = FR_DISK_ERR"
    "res = FR_OK \<Longrightarrow> fs_winsect (v_fs v') = fat_sector (v_fs v) k"
    using mk by blast+
  assume r: "res = FR_OK" and j: "j < 512 * unat (fs_fsize (v_fs v))" "j div 512 = k div 512"
  have "fat_sector (v_fs v) k \<noteq> 0" "\<not> mirror (v_fs v) (fat_sector (v_fs v) k)"
    using ok k fat_sector_nz fat_sector_place(2) by (auto simp: fat_ok_def vol_ok_def)
  with mk r have "fs_win (v_fs v') = view sec v (fat_sector (v_fs v) k)" by blast
  with j show "fs_win (v_fs v') ! (j mod 512) = fat_byte sec v j"
    by (simp add: fat_byte_def fat_sector_def)
qed

lemma get_fat12:
  assumes ok: "fat_ok sec v" and c: "2 \<le> c" "c < fs_n_fatent (v_fs v)" "fs_type (v_fs v) = FS_FAT12"
    and g: "get_fat ops c v = (r, v')"
  shows "keeps_view sec v v' \<and> (r = ent12 (fat_byte sec v) (unat c) \<or> r = 0xFFFFFFFF)"
proof -
  let ?k = "unat c + unat c div 2"
  note cell = clst_cell [OF ok c(2,3)]
  obtain r1 v1 where m1: "move_window ops (fat_sector (v_fs v) ?k) v = (r1, v1)" by fastforce
  obtain r2 v2 where m2: "move_window ops (fat_sector (v_fs v) (Suc ?k)) v1 = (r2, v2)" by fastforce
  have k: "?k < 512 * unat (fs_fsize (v_fs v))" using cell(3) by simp
  note f1 = move_fat [OF ok k m1]
  have ok1: "fat_ok sec v1" and lay: "same_layout (v_fs v) (v_fs v1)"
    using f1(1) ok keeps_view_fat_ok by (auto simp: keeps_view_def)
  have k1: "Suc ?k < 512 * unat (fs_fsize (v_fs v1))"
    using cell(3) same_layout_fields(12) [OF lay] by simp
  have "move_window ops (fat_sector (v_fs v1) (Suc ?k)) v1 = (r2, v2)"
    using m2 same_layout_fat_sector [OF lay] by simp
  note f2 = move_fat [OF ok1 k1 this]
  have s: "fat_sector (v_fs v) ?k = fs_fatbase (v_fs v) + (c + c div 2) div 512"
    "fat_sector (v_fs v) (Suc ?k) = fs_fatbase (v_fs v) + (c + c div 2 + 1) div 512"
    using fat_sector_word [of "v_fs v" "c + c div 2"] fat_sector_word [of "v_fs v" "c + c div 2 + 1"] cell(1,2)
    by simp_all
  have w: "r1 = FR_OK \<Longrightarrow> win_byte (v_fs v1) (c + c div 2) = fat_byte sec v ?k"
    using f1(4) [of ?k] k by (simp add: win_byte_def word_offset cell(1))
  have w2: "r2 = FR_OK \<Longrightarrow> win_byte (v_fs v2) (c + c div 2 + 1) = fat_byte sec v (Suc ?k)"
    using f2(4) [of "Suc ?k"] k1 keeps_view_fat_byte [OF f1(1) ok cell(3)]
    by (simp add: win_byte_def word_offset cell(2))
  show ?thesis
  proof (cases "r1 = FR_OK \<and> r2 = FR_OK")
    case True
    with g m1 m2 s w w2 c have "v' = v2" "r = ent12 (fat_byte sec v) (unat c)"
      by (auto simp: get_fat_def Let_def not_less [symmetric] ent12_def odd_word)
    with f1(1) f2(1) show ?thesis by (blast intro: keeps_view_trans)
  next
    case False
    with g m1 m2 s c have "v' = v1 \<or> v' = v2" "r = 0xFFFFFFFF"
      by (auto simp: get_fat_def Let_def not_less [symmetric] split: if_splits)
    with f1(1) f2(1) show ?thesis by (blast intro: keeps_view_trans)
  qed
qed


lemma get_fat16:
  assumes ok: "fat_ok sec v" and c: "2 \<le> c" "c < fs_n_fatent (v_fs v)" "fs_type (v_fs v) = FS_FAT16"
    and g: "get_fat ops c v = (r, v')"
  shows "keeps_view sec v v' \<and> (r = ent16 (fat_byte sec v) (unat c) \<or> r = 0xFFFFFFFF)"
proof -
  let ?k = "2 * unat c"
  have k: "?k + 1 < 512 * unat (fs_fsize (v_fs v))"
    using ok c entry_in_extent(2) [of "unat c" "unat (fs_n_fatent (v_fs v))"]
    by (auto simp: fat_ok_def word_less_nat_alt)
  then have k0: "?k < 512 * unat (fs_fsize (v_fs v))" by simp
  obtain r1 v1 where m1: "move_window ops (fat_sector (v_fs v) ?k) v = (r1, v1)" by fastforce
  note f1 = move_fat [OF ok k0 m1]
  have s: "fat_sector (v_fs v) ?k = fs_fatbase (v_fs v) + c div 256"
    unfolding fat_sector_def div_512_of_double by simp
  have types: "FS_FAT16 \<noteq> FS_FAT12" by (simp add: fs_types)
  have w: "r1 = FR_OK \<Longrightarrow> fs_win (v_fs v1) ! (?k mod 512) = fat_byte sec v ?k"
    "r1 = FR_OK \<Longrightarrow> fs_win (v_fs v1) ! (?k mod 512 + 1) = fat_byte sec v (?k + 1)"
    using f1(4) [of ?k] f1(4) [of "?k + 1"] k aligned_div_mod(1,2) [of "unat c"] by simp_all
  show ?thesis
  proof (cases "r1 = FR_OK")
    case True
    have "ucast (ld_word (fs_win (v_fs v1)) (?k mod 512)) = ent16 (fat_byte sec v) (unat c)"
      unfolding ld_word_def ent16_def w [OF True]
      by (rule bit_word_eqI) (auto simp: bit_simps dest: bit_imp_le_length)
    with g m1 s True c types have "v' = v1" "r = ent16 (fat_byte sec v) (unat c)"
      by (auto simp: get_fat_def Let_def not_less [symmetric] clst_offset16)
    with f1(1) show ?thesis by blast
  next
    case False
    with g m1 s c types have "v' = v1" "r = 0xFFFFFFFF"
      by (auto simp: get_fat_def Let_def not_less [symmetric])
    with f1(1) show ?thesis by blast
  qed
qed

lemma get_fat32:
  assumes ok: "fat_ok sec v" and c: "2 \<le> c" "c < fs_n_fatent (v_fs v)" "fs_type (v_fs v) = FS_FAT32"
    and g: "get_fat ops c v = (r, v')"
  shows "keeps_view sec v v' \<and> (r = ent32 (fat_byte sec v) (unat c) \<or> r = 0xFFFFFFFF)"
proof -
  let ?k = "4 * unat c"
  have k: "?k + i < 512 * unat (fs_fsize (v_fs v))" if "i < 4" for i
    using that ok c entry_in_extent(3) [of "unat c" "unat (fs_n_fatent (v_fs v))"]
    by (auto simp: fat_ok_def word_less_nat_alt)
  then have k0: "?k < 512 * unat (fs_fsize (v_fs v))" using k [of 0] by simp
  obtain r1 v1 where m1: "move_window ops (fat_sector (v_fs v) ?k) v = (r1, v1)" by fastforce
  note f1 = move_fat [OF ok k0 m1]
  have s: "fat_sector (v_fs v) ?k = fs_fatbase (v_fs v) + c div 128"
    unfolding fat_sector_def div_512_of_double by simp
  have types: "FS_FAT32 \<noteq> FS_FAT12" "FS_FAT32 \<noteq> FS_FAT16" by (simp_all add: fs_types)
  have w: "r1 = FR_OK \<Longrightarrow> i < 4 \<Longrightarrow> fs_win (v_fs v1) ! (?k mod 512 + i) = fat_byte sec v (?k + i)" for i
    using f1(4) [of "?k + i"] k [of i] aligned_div_mod(3,4) [of i "unat c"] by simp
  show ?thesis
  proof (cases "r1 = FR_OK")
    case True
    have "ld_dword (fs_win (v_fs v1)) (?k mod 512) AND 0x0FFFFFFF = ent32 (fat_byte sec v) (unat c)"
      using w [OF True, of 0] w [OF True, of 1] w [OF True, of 2] w [OF True, of 3]
      by (simp add: ld_dword_def ent32_def raw32_def)
    with g m1 s True c types have "v' = v1" "r = ent32 (fat_byte sec v) (unat c)"
      by (auto simp: get_fat_def Let_def not_less [symmetric] clst_offset32)
    with f1(1) show ?thesis by blast
  next
    case False
    with g m1 s c types have "v' = v1" "r = 0xFFFFFFFF"
      by (auto simp: get_fat_def Let_def not_less [symmetric])
    with f1(1) show ?thesis by blast
  qed
qed

lemma get_fat_entry:
  assumes ok: "fat_ok sec v" and g: "get_fat ops c v = (r, v')"
  shows "keeps_view sec v v' \<and>
    (r = (if c < 2 \<or> fs_n_fatent (v_fs v) \<le> c then 1 else fat_entry sec v c) \<or> r = 0xFFFFFFFF)"
proof (cases "c < 2 \<or> fs_n_fatent (v_fs v) \<le> c")
  case True
  with g ok show ?thesis by (auto simp: get_fat_def fat_ok_vol keeps_view_refl)
next
  case False
  then have c: "2 \<le> c" "c < fs_n_fatent (v_fs v)" by auto
  from ok consider "fs_type (v_fs v) = FS_FAT12" | "fs_type (v_fs v) = FS_FAT16" | "fs_type (v_fs v) = FS_FAT32"
    by (auto simp: fat_ok_def)
  then show ?thesis
  proof cases
    case 1
    with get_fat12 [OF ok c 1 g] False show ?thesis by (simp add: fat_entry_def entry_of_def)
  next
    case 2
    with get_fat16 [OF ok c 2 g] False show ?thesis
      by (simp add: fat_entry_def entry_of_def fs_types)
  next
    case 3
    with get_fat32 [OF ok c 3 g] False show ?thesis
      by (simp add: fat_entry_def entry_of_def fs_types)
  qed
qed

end

section \<open>Writing an entry\<close>

text \<open>Entries agree on tables that agree on the bytes in the extent.\<close>

lemma entry_of_cong:
  assumes "t \<in> {FS_FAT12, FS_FAT16, FS_FAT32}" "n < N" "\<And>k. k < fat_extent t N \<Longrightarrow> f k = g k"
  shows "entry_of t f n = entry_of t g n"
proof -
  have b: "f k = g k" "k < fat_extent t N \<Longrightarrow> f k = g k" if "k < fat_extent t N" for k
    using assms(3) that by auto
  consider "t = FS_FAT12" | "t = FS_FAT16" | "t = FS_FAT32" using assms(1) by blast
  then show ?thesis
  proof cases
    case 1
    have "Suc (n + n div 2) < fat_extent t N" by (rule entry_in_extent(1) [OF assms(2) 1])
    then have "f (Suc (n + n div 2)) = g (Suc (n + n div 2))" "f (n + n div 2) = g (n + n div 2)"
      using b by auto
    with 1 show ?thesis by (simp add: entry_of_def ent12_def)
  next
    case 2
    have "2 * n + 1 < fat_extent t N" by (rule entry_in_extent(2) [OF assms(2) 2])
    then have "f (2 * n + 1) = g (2 * n + 1)" "f (2 * n) = g (2 * n)" using b by auto
    with 2 show ?thesis by (simp add: entry_of_def ent16_def fs_types)
  next
    case 3
    have "4 * n + 3 < fat_extent t N" by (rule entry_in_extent(3) [OF assms(2) 3])
    then have "f (4 * n + 3) = g (4 * n + 3)" "f (4 * n + 2) = g (4 * n + 2)" "f (4 * n + 1) = g (4 * n + 1)"
      "f (4 * n) = g (4 * n)" using b by auto
    with 3 show ?thesis by (simp add: entry_of_def ent32_def raw32_def fs_types)
  qed
qed

lemma entry_of_put_of:
  assumes "t \<in> {FS_FAT12, FS_FAT16, FS_FAT32}"
  shows "entry_of t (put_of t f n val) m = (if m = n then val AND val_mask t else entry_of t f m)"
  using assms ent12_put12_same [of f n val] ent12_put12_other [of m n f val]
  by (auto simp: entry_of_def put_of_def val_mask_def ent16_put16 ent32_put32 fs_types)

lemma fat_entry_cong:
  assumes ok: "fat_ok sc v" and lay: "same_layout (v_fs v) (v_fs v')"
    and b: "\<And>k. k < 512 * unat (fs_fsize (v_fs v)) \<Longrightarrow> fat_byte sc v' k = f k" and m: "m < fs_n_fatent (v_fs v)"
  shows "fat_entry sc v' m = entry_of (fs_type (v_fs v)) f (unat m)"
  unfolding fat_entry_def same_layout_fields(1) [OF lay]
proof (rule entry_of_cong)
  show "unat m < unat (fs_n_fatent (v_fs v))" using m by (simp add: word_less_nat_alt)
  show "fat_byte sc v' k = f k" if "k < fat_extent (fs_type (v_fs v)) (unat (fs_n_fatent (v_fs v)))" for k
    using b that ok by (auto simp: fat_ok_def)
qed (use ok in \<open>auto simp: fat_ok_def\<close>)

text \<open>The first of the two FAT12 stores leaves the other entries alone, too.\<close>

definition put12_lo :: "(nat \<Rightarrow> byte) \<Rightarrow> nat \<Rightarrow> u32 \<Rightarrow> nat \<Rightarrow> byte" where
  "put12_lo f n val =
     (let k = n + n div 2 in f(k := if odd n then (f k AND 0x0F) OR push_bit 4 (ucast val) else ucast val))"

lemma ent12_put12_lo: "m \<noteq> n \<Longrightarrow> ent12 (put12_lo f n val) m = ent12 f m"
proof (drule fat12_overlap, elim disjE conjE)
  assume "m + m div 2 \<noteq> n + n div 2" "Suc (m + m div 2) \<noteq> n + n div 2"
  then show ?thesis by (simp add: ent12_def put12_lo_def Let_def)
next
  assume "even n" "m = Suc n" "m + m div 2 = Suc (n + n div 2)"
  then show ?thesis unfolding ent12_def put12_lo_def Let_def by simp
next
  assume a: "odd n" "n = Suc m" "even m" "n + n div 2 = Suc (m + m div 2)"
  show ?thesis
    unfolding ent12_def put12_lo_def Let_def a(4) using a(1,3) by simp (intro low12_cong nibble_high)
qed

text \<open>Changing the window and marking it dirty.\<close>

lemma store_win:
  assumes "vol_ok sc v" "length w = 512"
  shows "vol_ok sc (set_wflag (set_win w v))" "same_layout (v_fs v) (v_fs (set_wflag (set_win w v)))"
    "view sc (set_wflag (set_win w v)) t = (if t = fs_winsect (v_fs v) then w else view sc v t)"
  using assms by (simp_all add: vol_ok_def geom_def clean_def set_wflag_def set_win_def view_def)

lemma set_wflag_keeps: "vol_ok sc v \<Longrightarrow> keeps_view sc v (set_wflag v)"
  by (simp add: keeps_view_def vol_ok_def geom_def clean_def set_wflag_def view_def)

lemma store_fat:
  assumes ok: "fat_ok sc v" and w: "length w = 512"
    and k: "k < 512 * unat (fs_fsize (v_fs v))" "fs_winsect (v_fs v) = fat_sector (v_fs v) k"
  shows "same_data sc v (set_wflag (set_win w v))"
    "j < 512 * unat (fs_fsize (v_fs v)) \<Longrightarrow> fat_byte sc (set_wflag (set_win w v)) j =
      (if j div 512 = k div 512 then w ! (j mod 512) else fat_byte sc v j)"
proof -
  let ?v = "set_wflag (set_win w v)"
  have g: "geom (v_fs v)" and vok: "vol_ok sc v" using ok by (auto simp: fat_ok_def vol_ok_def)
  note st = store_win [OF vok w]
  show "same_data sc v ?v"
    using st fat_sector_place(3) [OF g k(1)] k(2) by (auto simp: same_data_def)
  assume j: "j < 512 * unat (fs_fsize (v_fs v))"
  show "fat_byte sc ?v j = (if j div 512 = k div 512 then w ! (j mod 512) else fat_byte sc v j)"
    unfolding fat_byte_def st(3) same_layout_fat_sector [OF st(2)] k(2) fat_sector_eq_iff [OF g j k(1)]
    by simp
qed

lemma win_length: "vol_ok sc v \<Longrightarrow> length (fs_win (v_fs v)) = 512"
  by (simp add: vol_ok_def geom_def)

lemma byte_position: "i div 512 = j div 512 \<Longrightarrow> i mod 512 = j mod 512 \<longleftrightarrow> i = (j :: nat)"
  by (metis div_mult_mod_eq)

text \<open>A single byte stored through the window.\<close>

lemma store_fat_byte:
  assumes ok: "fat_ok sc v" and k: "unat i < 512 * unat (fs_fsize (v_fs v))"
    "fs_winsect (v_fs v) = fat_sector (v_fs v) (unat i)"
  shows "same_data sc v (set_wflag (put_win_byte i b v))"
    "j < 512 * unat (fs_fsize (v_fs v)) \<Longrightarrow>
      fat_byte sc (set_wflag (put_win_byte i b v)) j = ((fat_byte sc v)(unat i := b)) j"
proof -
  let ?w = "(fs_win (v_fs v))[unat (i mod 512) := b]"
  have vok: "vol_ok sc v" using ok by (rule fat_ok_vol)
  have w: "length ?w = 512" using win_length [OF vok] by simp
  show "same_data sc v (set_wflag (put_win_byte i b v))"
    unfolding put_win_byte_def by (rule store_fat(1) [OF ok w k])
  assume j: "j < 512 * unat (fs_fsize (v_fs v))"
  have "j div 512 = unat i div 512 \<Longrightarrow> fat_byte sc v j = fs_win (v_fs v) ! (j mod 512)"
    using k(2) by (simp add: fat_byte_def view_def fat_sector_def)
  moreover have "j div 512 = unat i div 512 \<Longrightarrow> unat i mod 512 = j mod 512 \<Longrightarrow> j = unat i"
    using byte_position by metis
  ultimately show "fat_byte sc (set_wflag (put_win_byte i b v)) j = ((fat_byte sc v)(unat i := b)) j"
    unfolding put_win_byte_def store_fat(2) [OF ok w k j] using win_length [OF vok]
    by (auto simp: word_offset nth_list_update)
qed

lemma same_data_layout: "same_data sc v v' \<Longrightarrow> same_layout (v_fs v) (v_fs v')"
  by (simp add: same_data_def)

lemma same_data_fsize: "same_data sc v v' \<Longrightarrow> fs_fsize (v_fs v') = fs_fsize (v_fs v)"
  by (simp add: same_data_def same_layout_fields)

lemma same_data_sector: "same_data sc v v' \<Longrightarrow> fat_sector (v_fs v') = fat_sector (v_fs v)"
  by (rule same_layout_fat_sector) (simp add: same_data_def)

text \<open>What a store of an entry does: all of it, or a part of it when the device fails.\<close>

definition put_effect :: "('w \<Rightarrow> u32 \<Rightarrow> byte list) \<Rightarrow> u32 \<Rightarrow> u32 \<Rightarrow> 'w vol \<Rightarrow> FRESULT \<Rightarrow> 'w vol \<Rightarrow> bool" where
  "put_effect sc c val v r v' \<longleftrightarrow> same_data sc v v' \<and>
     (r = FR_OK \<longrightarrow> (\<forall>k < 512 * unat (fs_fsize (v_fs v)).
        fat_byte sc v' k = put_of (fs_type (v_fs v)) (fat_byte sc v) (unat c) val k)) \<and>
     (r \<noteq> FR_OK \<longrightarrow> r = FR_DISK_ERR \<and> (\<exists>f. (\<forall>k < 512 * unat (fs_fsize (v_fs v)). fat_byte sc v' k = f k) \<and>
        (\<forall>m. m \<noteq> unat c \<longrightarrow> entry_of (fs_type (v_fs v)) f m = entry_of (fs_type (v_fs v)) (fat_byte sc v) m)))"

context block_device
begin

lemma put_effect_unchanged:
  assumes "fat_ok sec v" "keeps_view sec v v'"
  shows "put_effect sec c val v FR_DISK_ERR v'"
  using keeps_view_same_data [OF assms(2)] keeps_view_fat_byte [OF assms(2,1)]
  by (auto simp: put_effect_def)

lemma put_fat12:
  assumes ok: "fat_ok sec v" and c: "2 \<le> c" "c < fs_n_fatent (v_fs v)" "fs_type (v_fs v) = FS_FAT12"
    and p: "put_fat ops c val v = (r, v')"
  shows "put_effect sec c val v r v'"
proof -
  let ?k = "unat c + unat c div 2" and ?S = "512 * unat (fs_fsize (v_fs v))"
  note cell = clst_cell [OF ok c(2,3)]
  have k: "?k < ?S" using cell(3) by simp
  have s: "fs_fatbase (v_fs v) + (c + c div 2) div 512 = fat_sector (v_fs v) ?k"
    "fs_fatbase (v_fs v) + (c + c div 2 + 1) div 512 = fat_sector (v_fs v) (Suc ?k)"
    using fat_sector_word [of "v_fs v" "c + c div 2"] fat_sector_word [of "v_fs v" "c + c div 2 + 1"] cell(1,2)
    by simp_all
  obtain r1 v1 where m1: "move_window ops (fat_sector (v_fs v) ?k) v = (r1, v1)" by fastforce
  note f1 = move_fat [OF ok k m1]
  note sd1 = keeps_view_same_data [OF f1(1)]
  have ok1: "fat_ok sec v1" by (rule keeps_view_fat_ok [OF f1(1) ok])
  show ?thesis
  proof (cases "r1 = FR_OK")
    case False
    with f1(2) p m1 s c have "r = FR_DISK_ERR" "v' = set_wflag v1"
      by (auto simp: put_fat_def Let_def not_less [symmetric])
    moreover have "keeps_view sec v (set_wflag v1)"
      by (rule keeps_view_trans [OF f1(1) set_wflag_keeps [OF fat_ok_vol [OF ok1]]])
    ultimately show ?thesis using put_effect_unchanged [OF ok] by simp
  next
    case True
    define b where "b = (if c AND 1 \<noteq> 0 then (win_byte (v_fs v1) (c + c div 2) AND 0x0F) OR push_bit 4 (ucast val)
      else (ucast val :: byte))"
    define v2 where "v2 = set_wflag (put_win_byte (c + c div 2) b v1)"
    obtain r2 v3 where m2: "move_window ops (fat_sector (v_fs v) (Suc ?k)) v2 = (r2, v3)" by fastforce
    have wb: "win_byte (v_fs v1) (c + c div 2) = fat_byte sec v ?k"
      using f1(4) [OF True k] by (simp add: win_byte_def word_offset cell(1))
    have k1: "unat (c + c div 2) < 512 * unat (fs_fsize (v_fs v1))"
      "fs_winsect (v_fs v1) = fat_sector (v_fs v1) (unat (c + c div 2))"
      using k f1(3) True by (simp_all add: cell(1) same_data_fsize [OF sd1] same_data_sector [OF sd1])
    note st = store_fat_byte [OF ok1 k1, where b = b, folded v2_def]
    have sd2: "same_data sec v v2" by (rule same_data_trans [OF sd1 st(1)])
    have ok2: "fat_ok sec v2" by (rule same_data_fat_ok [OF sd2 ok])
    have b2: "fat_byte sec v2 j = put12_lo (fat_byte sec v) (unat c) val j" if "j < ?S" for j
    proof -
      have "j < 512 * unat (fs_fsize (v_fs v1))" using that by (simp add: same_data_fsize [OF sd1])
      from st(2) [OF this] keeps_view_fat_byte [OF f1(1) ok that] show ?thesis
        by (simp add: put12_lo_def Let_def cell(1) b_def wb odd_word)
    qed
    have k2: "Suc ?k < 512 * unat (fs_fsize (v_fs v2))"
      "move_window ops (fat_sector (v_fs v2) (Suc ?k)) v2 = (r2, v3)"
      using cell(3) m2 by (simp_all add: same_data_fsize [OF sd2] same_data_sector [OF sd2])
    note f2 = move_fat [OF ok2 k2]
    have sd3: "same_data sec v v3"
      by (rule same_data_trans [OF sd2 keeps_view_same_data [OF f2(1)]])
    have ok3: "fat_ok sec v3" by (rule same_data_fat_ok [OF sd3 ok])
    have b3: "fat_byte sec v3 j = put12_lo (fat_byte sec v) (unat c) val j" if "j < ?S" for j
      using keeps_view_fat_byte [OF f2(1) ok2, of j] b2 [OF that] that
      by (simp add: same_data_fsize [OF sd2])
    show ?thesis
    proof (cases "r2 = FR_OK")
      case False
      with f2(2) p m1 m2 s c True have r: "r = FR_DISK_ERR" "v' = set_wflag v3"
        by (auto simp: put_fat_def Let_def not_less [symmetric] v2_def b_def)
      have kv: "keeps_view sec v3 v'" unfolding r(2) by (rule set_wflag_keeps [OF fat_ok_vol [OF ok3]])
      have b4: "fat_byte sec v' j = put12_lo (fat_byte sec v) (unat c) val j" if "j < ?S" for j
        using keeps_view_fat_byte [OF kv ok3, of j] b3 [OF that] that
        by (simp add: same_data_fsize [OF sd3])
      have "same_data sec v v'" by (rule same_data_trans [OF sd3 keeps_view_same_data [OF kv]])
      with r b4 show ?thesis
        by (auto simp: put_effect_def entry_of_def c(3) intro!: exI [of _ "put12_lo (fat_byte sec v) (unat c) val"]
            ent12_put12_lo)
    next
      case ok2': True
      define b' where "b' = (if c AND 1 \<noteq> 0 then ucast (drop_bit 4 val)
        else (win_byte (v_fs v3) (c + c div 2 + 1) AND 0xF0) OR (ucast (drop_bit 8 val) AND 0x0F) :: byte)"
      from p m1 m2 s c True ok2' have r: "r = FR_OK" "v' = set_wflag (put_win_byte (c + c div 2 + 1) b' v3)"
        by (auto simp: put_fat_def Let_def not_less [symmetric] v2_def b_def b'_def)
      have k3: "unat (c + c div 2 + 1) < 512 * unat (fs_fsize (v_fs v3))"
        "fs_winsect (v_fs v3) = fat_sector (v_fs v3) (unat (c + c div 2 + 1))"
        using cell(3) f2(3) ok2'
        by (simp_all add: cell(2) same_data_fsize [OF sd3] same_data_sector [OF sd3] same_data_sector [OF sd2])
      note st' = store_fat_byte [OF ok3 k3, where b = b', folded r(2)]
      have "win_byte (v_fs v3) (c + c div 2 + 1) = fat_byte sec v2 (Suc ?k)"
        using f2(4) [OF ok2' k2(1)] by (simp add: win_byte_def word_offset cell(2))
      then have wb': "win_byte (v_fs v3) (c + c div 2 + 1) = fat_byte sec v (Suc ?k)"
        using b2 [OF cell(3)] by (simp add: put12_lo_def Let_def)
      have "fat_byte sec v' j = put12 (fat_byte sec v) (unat c) val j" if "j < ?S" for j
      proof -
        have "j < 512 * unat (fs_fsize (v_fs v3))" using that by (simp add: same_data_fsize [OF sd3])
        from st'(2) [OF this] b3 [OF that] show ?thesis
          by (simp add: put12_def put12_lo_def Let_def cell(2) b'_def wb' odd_word)
      qed
      moreover have "same_data sec v v'" by (rule same_data_trans [OF sd3 st'(1)])
      ultimately show ?thesis using r by (simp add: put_effect_def put_of_def c(3))
    qed
  qed
qed

lemma nth_st_dword:
  assumes "p + 3 < length b" "q < length b"
  shows "st_dword b p x ! q = (if q = p then ucast x else if q = p + 1 then ucast (drop_bit 8 x) else
    if q = p + 2 then ucast (drop_bit 16 x) else if q = p + 3 then ucast (drop_bit 24 x) else b ! q)"
proof -
  have "ucast (drop_bit 8 (ucast x :: u16)) = (ucast (drop_bit 8 x) :: byte)"
    by (rule bit_word_eqI) (auto simp: bit_simps)
  with assms show ?thesis by (simp add: st_dword_def nth_list_update)
qed

lemma nth_st_word:
  "p + 1 < length b \<Longrightarrow> q < length b \<Longrightarrow>
    st_word b p x ! q = (if q = p then ucast x else if q = p + 1 then ucast (drop_bit 8 x) else b ! q)"
  by (simp add: st_word_def nth_list_update)

lemma two_updates:
  "(q = p \<longleftrightarrow> j = k) \<Longrightarrow> (q = p + 1 \<longleftrightarrow> j = k + (1 :: nat)) \<Longrightarrow>
    (if q = p then a0 else if q = p + 1 then a1 else f j) = (f(k := a0, k + 1 := a1)) j"
  by auto

lemma four_updates:
  assumes "\<And>i. i < 4 \<Longrightarrow> q = p + i \<longleftrightarrow> j = k + (i :: nat)"
  shows "(if q = p then a0 else if q = p + 1 then a1 else if q = p + 2 then a2 else if q = p + 3 then a3 else f j) =
    (f(k := a0, k + 1 := a1, k + 2 := a2, k + 3 := a3)) j"
  using assms [of 0] assms [of 1] assms [of 2] assms [of 3] by auto

text \<open>A store of an aligned entry, all of it in one sector.\<close>

lemma put_fat_aligned:
  assumes ok: "fat_ok sec v" and k: "k < 512 * unat (fs_fsize (v_fs v))"
    and m: "move_window ops (fat_sector (v_fs v) k) v = (r, v1)"
    and v': "v' = (if r = FR_OK then set_wflag (set_win w v1) else set_wflag v1)"
    and w: "r = FR_OK \<Longrightarrow> length w = 512"
      "\<And>j. r = FR_OK \<Longrightarrow> j < 512 * unat (fs_fsize (v_fs v)) \<Longrightarrow> j div 512 = k div 512 \<Longrightarrow>
        w ! (j mod 512) = put_of (fs_type (v_fs v)) (fat_byte sec v) (unat c) val j"
      "\<And>j. j div 512 \<noteq> k div 512 \<Longrightarrow> put_of (fs_type (v_fs v)) (fat_byte sec v) (unat c) val j = fat_byte sec v j"
  shows "put_effect sec c val v r v'"
proof -
  note f1 = move_fat [OF ok k m]
  note sd1 = keeps_view_same_data [OF f1(1)]
  have ok1: "fat_ok sec v1" by (rule keeps_view_fat_ok [OF f1(1) ok])
  show ?thesis
  proof (cases "r = FR_OK")
    case False
    then have "keeps_view sec v v'"
      using v' keeps_view_trans [OF f1(1) set_wflag_keeps [OF fat_ok_vol [OF ok1]]] by simp
    with f1(2) False show ?thesis using put_effect_unchanged [OF ok] by auto
  next
    case True
    have k1: "k < 512 * unat (fs_fsize (v_fs v1))" "fs_winsect (v_fs v1) = fat_sector (v_fs v1) k"
      using k f1(3) True by (simp_all add: same_data_fsize [OF sd1] same_data_sector [OF sd1])
    have v1': "v' = set_wflag (set_win w v1)" using v' True by simp
    note st = store_fat [OF ok1 w(1) [OF True] k1, folded v1']
    have "fat_byte sec v' j = put_of (fs_type (v_fs v)) (fat_byte sec v) (unat c) val j"
      if j: "j < 512 * unat (fs_fsize (v_fs v))" for j
    proof -
      have "j < 512 * unat (fs_fsize (v_fs v1))" using j by (simp add: same_data_fsize [OF sd1])
      from st(2) [OF this] w(2) [OF True j] w(3) [of j] keeps_view_fat_byte [OF f1(1) ok j]
      show ?thesis by auto
    qed
    with True same_data_trans [OF sd1 st(1)] show ?thesis by (simp add: put_effect_def)
  qed
qed

lemma put_fat16:
  assumes ok: "fat_ok sec v" and c: "2 \<le> c" "c < fs_n_fatent (v_fs v)" "fs_type (v_fs v) = FS_FAT16"
    and p: "put_fat ops c val v = (r, v')"
  shows "put_effect sec c val v r v'"
proof -
  let ?k = "2 * unat c" and ?f = "fat_byte sec v"
  have k: "?k + 1 < 512 * unat (fs_fsize (v_fs v))"
    using ok c entry_in_extent(2) [of "unat c" "unat (fs_n_fatent (v_fs v))"]
    by (auto simp: fat_ok_def word_less_nat_alt)
  then have k0: "?k < 512 * unat (fs_fsize (v_fs v))" by simp
  obtain r1 v1 where m1: "move_window ops (fat_sector (v_fs v) ?k) v = (r1, v1)" by fastforce
  define w where "w = st_word (fs_win (v_fs v1)) (?k mod 512) (ucast val)"
  note f1 = move_fat [OF ok k0 m1]
  have s: "fat_sector (v_fs v) ?k = fs_fatbase (v_fs v) + c div 256"
    unfolding fat_sector_def div_512_of_double by simp
  have types: "FS_FAT16 \<noteq> FS_FAT12" by (simp add: fs_types)
  have r: "r = r1" "v' = (if r = FR_OK then set_wflag (set_win w v1) else set_wflag v1)"
    using p m1 s c types by (auto simp: put_fat_def Let_def not_less [symmetric] clst_offset16 w_def split: if_splits)
  have pu: "put_of (fs_type (v_fs v)) ?f (unat c) val = ?f(?k := ucast val, ?k + 1 := ucast (drop_bit 8 val))"
    using types by (simp add: put_of_def c(3) put16_def)
  have bytes: "ucast (ucast val :: u16) = (ucast val :: byte)"
    "ucast (drop_bit 8 (ucast val :: u16)) = (ucast (drop_bit 8 val) :: byte)"
    by (rule bit_word_eqI; auto simp: bit_simps)+
  have ko: "?k mod 512 + 1 < 512"
    using aligned_div_mod(2) [of "unat c"] mod_less_divisor [of 512 "?k + 1"] by linarith
  show ?thesis
  proof (rule put_fat_aligned [OF ok k0 _ r(2)])
    show "move_window ops (fat_sector (v_fs v) ?k) v = (r, v1)" using m1 r by simp
    have l: "length (fs_win (v_fs v1)) = 512"
      by (rule win_length [OF fat_ok_vol [OF keeps_view_fat_ok [OF f1(1) ok]]])
    then show "length w = 512" by (simp add: w_def)
    show "put_of (fs_type (v_fs v)) ?f (unat c) val j = ?f j" if "j div 512 \<noteq> ?k div 512" for j
      unfolding pu using that aligned_div_mod(1) [of "unat c"] by auto
    fix j assume ok1: "r = FR_OK" and j: "j < 512 * unat (fs_fsize (v_fs v))" "j div 512 = ?k div 512"
    have wj: "fs_win (v_fs v1) ! (j mod 512) = ?f j" using f1(4) r ok1 j by simp
    have "j mod 512 = ?k mod 512 \<longleftrightarrow> j = ?k" "j mod 512 = ?k mod 512 + 1 \<longleftrightarrow> j = ?k + 1"
      using byte_position [of j ?k] byte_position [of j "?k + 1"] j(2) aligned_div_mod(1,2) [of "unat c"]
      by simp_all
    note pos = this
    have "j mod 512 < length (fs_win (v_fs v1))" using l by simp
    from nth_st_word [OF _ this, of "?k mod 512" "ucast val"] ko l
    have "w ! (j mod 512) = (if j mod 512 = ?k mod 512 then ucast val else
      if j mod 512 = ?k mod 512 + 1 then ucast (drop_bit 8 val) else fs_win (v_fs v1) ! (j mod 512))"
      by (simp only: w_def bytes)
    then show "w ! (j mod 512) = put_of (fs_type (v_fs v)) ?f (unat c) val j"
      unfolding pu wj by (simp only: two_updates [OF pos])
  qed
qed

lemma put_fat32:
  assumes ok: "fat_ok sec v" and c: "2 \<le> c" "c < fs_n_fatent (v_fs v)" "fs_type (v_fs v) = FS_FAT32"
    and p: "put_fat ops c val v = (r, v')"
  shows "put_effect sec c val v r v'"
proof -
  let ?k = "4 * unat c" and ?f = "fat_byte sec v"
  have k: "?k + 3 < 512 * unat (fs_fsize (v_fs v))"
    using ok c entry_in_extent(3) [of "unat c" "unat (fs_n_fatent (v_fs v))"]
    by (auto simp: fat_ok_def word_less_nat_alt)
  then have k0: "?k < 512 * unat (fs_fsize (v_fs v))" by simp
  obtain r1 v1 where m1: "move_window ops (fat_sector (v_fs v) ?k) v = (r1, v1)" by fastforce
  define x where "x = val OR (ld_dword (fs_win (v_fs v1)) (?k mod 512) AND 0xF0000000)"
  define w where "w = st_dword (fs_win (v_fs v1)) (?k mod 512) x"
  note f1 = move_fat [OF ok k0 m1]
  have s: "fat_sector (v_fs v) ?k = fs_fatbase (v_fs v) + c div 128"
    unfolding fat_sector_def div_512_of_double by simp
  have types: "FS_FAT32 \<noteq> FS_FAT12" "FS_FAT32 \<noteq> FS_FAT16" by (simp_all add: fs_types)
  have r: "r = r1" "v' = (if r = FR_OK then set_wflag (set_win w v1) else set_wflag v1)"
    using p m1 s c types
    by (auto simp: put_fat_def Let_def not_less [symmetric] clst_offset32 w_def x_def split: if_splits)
  note al = aligned_div_mod(3,4) [of _ "unat c"]
  have wk: "r = FR_OK \<Longrightarrow> i < 4 \<Longrightarrow> fs_win (v_fs v1) ! (?k mod 512 + i) = ?f (?k + i)" for i
    using f1(4) [of "?k + i"] k al [of i] r by simp
  have xr: "r = FR_OK \<Longrightarrow> x = val OR (raw32 ?f (unat c) AND 0xF0000000)"
    using wk [of 0] wk [of 1] wk [of 2] wk [of 3] by (simp add: x_def ld_dword_def raw32_def)
  have pu: "r = FR_OK \<Longrightarrow> put_of (fs_type (v_fs v)) ?f (unat c) val = ?f(?k := ucast x, ?k + 1 := ucast (drop_bit 8 x),
      ?k + 2 := ucast (drop_bit 16 x), ?k + 3 := ucast (drop_bit 24 x))"
    using types by (simp add: put_of_def c(3) put32_def xr Let_def)
  have ko: "?k mod 512 + 3 < 512"
    using al(2) [of 3] mod_less_divisor [of 512 "?k + 3"] by linarith
  show ?thesis
  proof (rule put_fat_aligned [OF ok k0 _ r(2)])
    show "move_window ops (fat_sector (v_fs v) ?k) v = (r, v1)" using m1 r by simp
    have l: "length (fs_win (v_fs v1)) = 512"
      by (rule win_length [OF fat_ok_vol [OF keeps_view_fat_ok [OF f1(1) ok]]])
    then show "length w = 512" by (simp add: w_def)
    show "put_of (fs_type (v_fs v)) ?f (unat c) val j = ?f j" if "j div 512 \<noteq> ?k div 512" for j
      using that al(1) [of 1] al(1) [of 2] al(1) [of 3] types
      by (auto simp: put_of_def c(3) put32_def Let_def)
    fix j assume ok1: "r = FR_OK" and j: "j < 512 * unat (fs_fsize (v_fs v))" "j div 512 = ?k div 512"
    have wj: "fs_win (v_fs v1) ! (j mod 512) = ?f j" using f1(4) r ok1 j by simp
    have pos: "j mod 512 = ?k mod 512 + i \<longleftrightarrow> j = ?k + i" if "i < 4" for i
      using byte_position [of j "?k + i"] j(2) al [of i] that by simp
    have "j mod 512 < length (fs_win (v_fs v1))" using l by simp
    from nth_st_dword [OF _ this, of "?k mod 512" x] ko l
    have "w ! (j mod 512) = (if j mod 512 = ?k mod 512 then ucast x else
      if j mod 512 = ?k mod 512 + 1 then ucast (drop_bit 8 x) else
      if j mod 512 = ?k mod 512 + 2 then ucast (drop_bit 16 x) else
      if j mod 512 = ?k mod 512 + 3 then ucast (drop_bit 24 x) else fs_win (v_fs v1) ! (j mod 512))"
      by (simp add: w_def)
    then show "w ! (j mod 512) = put_of (fs_type (v_fs v)) ?f (unat c) val j"
      unfolding pu [OF ok1] wj by (simp only: four_updates [OF pos])
  qed
qed

lemma put_fat_effect:
  assumes ok: "fat_ok sec v" and c: "2 \<le> c" "c < fs_n_fatent (v_fs v)" and p: "put_fat ops c val v = (r, v')"
  shows "put_effect sec c val v r v'"
  using ok put_fat12 [OF ok c _ p] put_fat16 [OF ok c _ p] put_fat32 [OF ok c _ p]
  by (auto simp: fat_ok_def)

text \<open>The contract of \<^verbatim>\<open>put_fat\<close> in terms of entries.\<close>

lemma put_fat_entry:
  assumes ok: "fat_ok sec v" and p: "put_fat ops c val v = (r, v')"
  shows "same_data sec v v'" "r \<in> {FR_OK, FR_DISK_ERR, FR_INT_ERR}"
    "r = FR_INT_ERR \<longleftrightarrow> c < 2 \<or> fs_n_fatent (v_fs v) \<le> c"
    "m < fs_n_fatent (v_fs v) \<Longrightarrow> m \<noteq> c \<Longrightarrow> fat_entry sec v' m = fat_entry sec v m"
    "r = FR_OK \<Longrightarrow> fat_entry sec v' c = val AND val_mask (fs_type (v_fs v))"
proof -
  have *: "same_data sec v v' \<and> r \<in> {FR_OK, FR_DISK_ERR, FR_INT_ERR} \<and>
    (r = FR_INT_ERR \<longleftrightarrow> c < 2 \<or> fs_n_fatent (v_fs v) \<le> c) \<and>
    (\<forall>m. m < fs_n_fatent (v_fs v) \<longrightarrow> m \<noteq> c \<longrightarrow> fat_entry sec v' m = fat_entry sec v m) \<and>
    (r = FR_OK \<longrightarrow> fat_entry sec v' c = val AND val_mask (fs_type (v_fs v)))"
  proof (cases "c < 2 \<or> fs_n_fatent (v_fs v) \<le> c")
    case True
    with p have "r = FR_INT_ERR" "v' = v" by (auto simp: put_fat_def)
    with True ok show ?thesis by (simp add: same_data_refl fat_ok_vol)
  next
    case False
    then have c: "2 \<le> c" "c < fs_n_fatent (v_fs v)" by auto
    note e = put_fat_effect [OF ok c p]
    have sd: "same_data sec v v'" and lay: "same_layout (v_fs v) (v_fs v')"
      using e by (auto simp: put_effect_def same_data_def)
    have t: "fs_type (v_fs v) \<in> {FS_FAT12, FS_FAT16, FS_FAT32}" using ok by (simp add: fat_ok_def)
    show ?thesis
    proof (cases "r = FR_OK")
      case True
      then have b: "fat_byte sec v' k = put_of (fs_type (v_fs v)) (fat_byte sec v) (unat c) val k"
        if "k < 512 * unat (fs_fsize (v_fs v))" for k
        using e that by (simp add: put_effect_def)
      have "fat_entry sec v' m = (if m = c then val AND val_mask (fs_type (v_fs v)) else fat_entry sec v m)"
        if m: "m < fs_n_fatent (v_fs v)" for m
        using fat_entry_cong [OF ok lay b m] entry_of_put_of [OF t] word_unat_eq_iff [of m c]
        by (simp add: fat_entry_def)
      with True sd c show ?thesis by auto
    next
      case False
      then obtain f where r: "r = FR_DISK_ERR" and b: "\<And>k. k < 512 * unat (fs_fsize (v_fs v)) \<Longrightarrow> fat_byte sec v' k = f k"
        and f: "\<And>m. m \<noteq> unat c \<Longrightarrow> entry_of (fs_type (v_fs v)) f m = entry_of (fs_type (v_fs v)) (fat_byte sec v) m"
        using e by (auto simp: put_effect_def)
      have "fat_entry sec v' m = fat_entry sec v m" if m: "m < fs_n_fatent (v_fs v)" "m \<noteq> c" for m
        using fat_entry_cong [OF ok lay b m(1)] f [of "unat m"] m(2) word_unat_eq_iff [of m c]
        by (simp add: fat_entry_def)
      with r sd c show ?thesis by auto
    qed
  qed
  then show "same_data sec v v'" "r \<in> {FR_OK, FR_DISK_ERR, FR_INT_ERR}"
    "r = FR_INT_ERR \<longleftrightarrow> c < 2 \<or> fs_n_fatent (v_fs v) \<le> c"
    "m < fs_n_fatent (v_fs v) \<Longrightarrow> m \<noteq> c \<Longrightarrow> fat_entry sec v' m = fat_entry sec v m"
    "r = FR_OK \<Longrightarrow> fat_entry sec v' c = val AND val_mask (fs_type (v_fs v))" by blast+
qed

end

end
