(* ===== verification/FatChain.thy ===== *)
theory FatChain
  imports FatEntries
begin

text \<open>
  Cluster chains: freeing a chain and allocating a cluster, over the entries that
  \<open>get_fat\<close> and \<open>put_fat\<close> read and write. A chain is a list of clusters whose entries link each to
  the next and whose last entry is beyond the last cluster.
\<close>

section \<open>Volumes up to allocation hints\<close>

text \<open>
  Allocation also changes the three fields of the file system object that are kept for the FSInfo
  sector; everything else about the layout stays.
\<close>

definition same_vol :: "fatfs \<Rightarrow> fatfs \<Rightarrow> bool" where
  "same_vol fs fs' \<longleftrightarrow> same_layout fs (fs'\<lparr>fs_last_clust := fs_last_clust fs, fs_free_clust := fs_free_clust fs,
     fs_fsi_flag := fs_fsi_flag fs\<rparr>)"

lemma same_vol_fields:
  assumes "same_vol fs fs'"
  shows "fs_type fs' = fs_type fs" "fs_drv fs' = fs_drv fs" "fs_csize fs' = fs_csize fs"
    "fs_n_fats fs' = fs_n_fats fs" "fs_id fs' = fs_id fs" "fs_n_rootdir fs' = fs_n_rootdir fs"
    "fs_fsi_sector fs' = fs_fsi_sector fs" "fs_n_fatent fs' = fs_n_fatent fs" "fs_fsize fs' = fs_fsize fs"
    "fs_volbase fs' = fs_volbase fs" "fs_fatbase fs' = fs_fatbase fs" "fs_dirbase fs' = fs_dirbase fs"
    "fs_database fs' = fs_database fs"
  using same_layout_fields [OF assms [unfolded same_vol_def]] by simp_all

lemma same_layout_same_vol: "same_layout fs fs' \<Longrightarrow> same_vol fs fs'"
  by (cases fs; cases fs'; simp add: same_vol_def same_layout_def)

lemma same_vol_refl [simp]: "same_vol fs fs"
  by (simp add: same_layout_same_vol)

lemma same_vol_trans: "same_vol a b \<Longrightarrow> same_vol b c \<Longrightarrow> same_vol a c"
  by (cases a; cases b; cases c; simp add: same_vol_def same_layout_def)

lemma same_vol_upd [simp]:
  "same_vol fs fs' \<Longrightarrow> same_vol fs (fs_last_clust_update a fs')"
  "same_vol fs fs' \<Longrightarrow> same_vol fs (fs_free_clust_update b fs')"
  "same_vol fs fs' \<Longrightarrow> same_vol fs (fs_fsi_flag_update c fs')"
  by (cases fs; cases fs'; simp add: same_vol_def same_layout_def)+

lemma same_vol_in_fats: "same_vol fs fs' \<Longrightarrow> in_fats fs' = in_fats fs"
  by (rule ext) (simp add: in_fats_def same_vol_fields)

text \<open>
  A step of the file system that leaves every sector outside the FAT copies alone; sector 0 is left out (theory \<open>FatBoot\<close> follows it).
\<close>

definition fat_step :: "('w \<Rightarrow> u32 \<Rightarrow> byte list) \<Rightarrow> 'w vol \<Rightarrow> 'w vol \<Rightarrow> bool" where
  "fat_step sc v v' \<longleftrightarrow> fat_ok sc v' \<and> same_vol (v_fs v) (v_fs v') \<and>
     (\<forall>s. s \<noteq> 0 \<longrightarrow> \<not> in_fats (v_fs v) s \<longrightarrow> view sc v' s = view sc v s)"

lemma fat_step_trans: "fat_step sc u v \<Longrightarrow> fat_step sc v w \<Longrightarrow> fat_step sc u w"
  unfolding fat_step_def using same_vol_trans same_vol_in_fats by metis

lemma fat_step_refl: "fat_ok sc v \<Longrightarrow> fat_step sc v v"
  by (simp add: fat_step_def)

lemma same_data_fat_step: "same_data sc v v' \<Longrightarrow> fat_ok sc v \<Longrightarrow> fat_step sc v v'"
  using same_data_fat_ok by (auto simp: same_data_def fat_step_def same_layout_same_vol)

lemma keeps_view_fat_step: "keeps_view sc v v' \<Longrightarrow> fat_ok sc v \<Longrightarrow> fat_step sc v v'"
  using keeps_view_same_data same_data_fat_step by blast

lemma fat_step_ok: "fat_step sc v v' \<Longrightarrow> fat_ok sc v'"
  by (simp add: fat_step_def)

lemma fat_step_fatent: "fat_step sc v v' \<Longrightarrow> fs_n_fatent (v_fs v') = fs_n_fatent (v_fs v)"
  by (simp add: fat_step_def same_vol_fields)

lemma fat_step_type: "fat_step sc v v' \<Longrightarrow> fs_type (v_fs v') = fs_type (v_fs v)"
  by (simp add: fat_step_def same_vol_fields)

lemma fat_ok_hints:
  assumes "fat_ok sc v"
  shows "fat_step sc v (upd_fs (fs_last_clust_update a) v)" "fat_step sc v (count_free f v)"
  using assms
  by (simp_all add: fat_step_def fat_ok_def vol_ok_def geom_def clean_def view_def count_free_def)

lemma fat_entry_hints [simp]:
  "fat_entry sc (upd_fs (fs_last_clust_update a) v) = fat_entry sc v"
  "fat_entry sc (count_free f v) = fat_entry sc v"
  by (auto simp: fat_entry_def fat_byte_def fat_sector_def view_def count_free_def fun_eq_iff
      intro!: arg_cong2 [where f = "entry_of _"])

section \<open>Chains\<close>

fun is_chain :: "(u32 \<Rightarrow> u32) \<Rightarrow> u32 \<Rightarrow> u32 \<Rightarrow> u32 list \<Rightarrow> bool" where
  "is_chain E N c [] \<longleftrightarrow> N \<le> c"
| "is_chain E N c (x # xs) \<longleftrightarrow> c = x \<and> 2 \<le> c \<and> c < N \<and> is_chain E N (E c) xs"

lemma is_chain_unique: "is_chain E N c xs \<Longrightarrow> is_chain E N c ys \<Longrightarrow> xs = ys"
proof (induction xs arbitrary: c ys)
  case Nil
  then show ?case by (cases ys) auto
next
  case (Cons x xs)
  then show ?case by (cases ys) auto
qed

lemma is_chain_suffix: "is_chain E N c (xs @ y # ys) \<Longrightarrow> is_chain E N y (y # ys)"
  by (induction xs arbitrary: c) auto

lemma is_chain_distinct: "is_chain E N c xs \<Longrightarrow> distinct xs"
proof (induction xs arbitrary: c)
  case (Cons x xs)
  have "x \<notin> set xs"
  proof
    assume "x \<in> set xs"
    then obtain as bs where xs: "xs = as @ x # bs" by (meson split_list)
    then have "is_chain E N c ((x # as) @ x # bs)" using Cons.prems by auto
    then have "is_chain E N x (x # bs)" by (rule is_chain_suffix)
    moreover have "is_chain E N x (x # xs)" using Cons.prems by auto
    ultimately have "bs = xs" using is_chain_unique by fastforce
    with xs show False by simp
  qed
  with Cons show ?case by auto
qed simp

lemma is_chain_cong:
  "is_chain E N c xs \<Longrightarrow> (\<And>x. x \<in> set xs \<Longrightarrow> E' x = E x) \<Longrightarrow> is_chain E' N c xs"
  by (induction xs arbitrary: c) auto

lemma is_chain_range: "is_chain E N c xs \<Longrightarrow> x \<in> set xs \<Longrightarrow> 2 \<le> x \<and> x < N"
  by (induction xs arbitrary: c) auto

lemma is_chain_link: "is_chain E N c (x # xs) \<Longrightarrow> E x \<noteq> 0 \<and> E x \<noteq> 1"
  by (cases xs) (auto simp: word_le_nat_alt word_less_nat_alt)

lemma is_chain_nonzero: "is_chain E N c xs \<Longrightarrow> x \<in> set xs \<Longrightarrow> 2 < N \<Longrightarrow> E x \<noteq> 0"
proof (induction xs arbitrary: c)
  case (Cons y ys)
  then show ?case by (cases ys) auto
qed simp

text \<open>The free clusters of a table and the count kept in the file system object.\<close>

definition free_set :: "(u32 \<Rightarrow> u32) \<Rightarrow> u32 \<Rightarrow> u32 set" where
  "free_set E N = {m. 2 \<le> m \<and> m < N \<and> E m = 0}"

definition free_count_ok :: "('w \<Rightarrow> u32 \<Rightarrow> byte list) \<Rightarrow> 'w vol \<Rightarrow> bool" where
  "free_count_ok sc v \<longleftrightarrow> fs_free_clust (v_fs v) = 0xFFFFFFFF \<or>
     unat (fs_free_clust (v_fs v)) = card (free_set (fat_entry sc v) (fs_n_fatent (v_fs v)))"

lemma finite_u32: "finite (A :: u32 set)"
  by simp

lemma card_free_less: "card (free_set E N) < 4294967295"
proof -
  have "unat ` free_set E N \<subseteq> {2..<4294967296}" by (auto simp: free_set_def word_le_nat_alt)
  then have "card (unat ` free_set E N) \<le> card {2..<4294967296 :: nat}" by (intro card_mono) auto
  moreover have "card (unat ` free_set E N) = card (free_set E N)"
    by (intro card_image inj_onI) (simp add: word_unat_eq_iff)
  ultimately show ?thesis by simp
qed

lemma word_ge_2: "x \<noteq> 0 \<Longrightarrow> x \<noteq> 1 \<Longrightarrow> 2 \<le> (x :: u32)"
  by (auto simp: word_le_nat_alt word_unat_eq_iff)

lemma unat_val_mask: "t \<in> {FS_FAT12, FS_FAT16, FS_FAT32} \<Longrightarrow> val_mask t < 0xFFFFFFFF"
  by (auto simp: val_mask_def fs_types)

lemma fat_ok_fatent: "fat_ok sc v \<Longrightarrow> fs_n_fatent (v_fs v) < 0xFFFFFFFF"
  unfolding fat_ok_def by (elim conjE) (rule le_less_trans [OF _ unat_val_mask])

lemma bit31: "\<not> bit x 31 \<Longrightarrow> x \<noteq> (0xFFFFFFFF :: u32)"
proof -
  have "bit (- 1 :: u32) 31" "(0xFFFFFFFF :: u32) = - 1" by simp_all
  then show "\<not> bit x 31 \<Longrightarrow> x \<noteq> (0xFFFFFFFF :: u32)" by metis
qed

lemma ent_bound: "ent12 f n \<noteq> 0xFFFFFFFF" "ent16 f n \<noteq> 0xFFFFFFFF" "ent32 f n \<noteq> 0xFFFFFFFF"
proof -
  have b: "\<not> bit (ucast (x :: byte) :: u32) k" if "8 \<le> k" for x k
    using that bit_imp_le_length [of x k] by (auto simp: bit_simps)
  show "ent12 f n \<noteq> 0xFFFFFFFF"
    by (rule bit31) (simp add: ent12_def Let_def bit_simps bit_consts)
  show "ent16 f n \<noteq> 0xFFFFFFFF"
    by (rule bit31) (simp add: ent16_def bit_or_iff bit_push_bit_iff b)
  show "ent32 f n \<noteq> 0xFFFFFFFF"
    by (rule bit31) (simp add: ent32_def bit_and_iff bit_consts)
qed

lemma fat_entry_bound: "fat_entry sc v c \<noteq> 0xFFFFFFFF"
  using ent_bound by (auto simp: fat_entry_def entry_of_def)

section \<open>Freeing a chain\<close>

lemma free_set_update:
  assumes "2 \<le> c" "c < N" "\<And>m. m < N \<Longrightarrow> E' m = (if m = c then x else E m)"
  shows "E c = 0 \<Longrightarrow> x \<noteq> 0 \<Longrightarrow> Suc (card (free_set E' N)) = card (free_set E N)"
    "E c \<noteq> 0 \<Longrightarrow> x = 0 \<Longrightarrow> card (free_set E' N) = Suc (card (free_set E N))"
proof -
  have *: "free_set E' N = (if x = 0 then insert c (free_set E N) else free_set E N - {c})"
    using assms by (auto simp: free_set_def split: if_splits)
  show "E c = 0 \<Longrightarrow> x \<noteq> 0 \<Longrightarrow> Suc (card (free_set E' N)) = card (free_set E N)"
    using assms(1,2) unfolding * by (simp, subst card_Suc_Diff1) (auto simp: free_set_def)
  show "E c \<noteq> 0 \<Longrightarrow> x = 0 \<Longrightarrow> card (free_set E' N) = Suc (card (free_set E N))"
    unfolding * by (simp add: free_set_def)
qed

lemma free_count_incr:
  assumes "free_count_ok sc v" "fs_n_fatent (v_fs v') = fs_n_fatent (v_fs v)"
    "fs_free_clust (v_fs v') = fs_free_clust (v_fs v)"
    "card (free_set (fat_entry sc v') (fs_n_fatent (v_fs v))) = Suc (card (free_set (fat_entry sc v) (fs_n_fatent (v_fs v))))"
  shows "free_count_ok sc (count_free (\<lambda>n. n + 1) v')"
proof (cases "fs_free_clust (v_fs v) = 0xFFFFFFFF")
  case True
  with assms(3) show ?thesis by (simp add: free_count_ok_def count_free_def)
next
  case False
  then have "unat (fs_free_clust (v_fs v)) = card (free_set (fat_entry sc v) (fs_n_fatent (v_fs v)))"
    using assms(1) by (simp add: free_count_ok_def)
  moreover have "card (free_set (fat_entry sc v) (fs_n_fatent (v_fs v))) < 4294967295"
    by (rule card_free_less)
  ultimately have "unat (fs_free_clust (v_fs v) + 1) = Suc (card (free_set (fat_entry sc v) (fs_n_fatent (v_fs v))))"
    by (subst unat_add_small) simp_all
  with False assms show ?thesis by (simp add: free_count_ok_def) (simp add: count_free_def)
qed

context block_device
begin

lemma put_fat_step:
  assumes ok: "fat_ok sec v" and p: "put_fat ops c val v = (r, v')"
  shows "fat_step sec v v'" "fs_free_clust (v_fs v') = fs_free_clust (v_fs v)"
    "fs_last_clust (v_fs v') = fs_last_clust (v_fs v)"
  using same_data_fat_step [OF put_fat_entry(1) [OF ok p] ok]
    same_layout_fields [OF same_data_layout [OF put_fat_entry(1) [OF ok p]]] by simp_all

text \<open>The loop ends because every round frees a cluster that was in use.\<close>

lemma remove_loop_returns:
  assumes "fat_ok sec v" "2 \<le> c"
  shows "\<exists>r v'. remove_loop ops c v = Some (r, v') \<and> fat_step sec v v'"
  using assms
proof (induction "4294967296 - card (free_set (fat_entry sec v) (fs_n_fatent (v_fs v)))" arbitrary: c v rule: less_induct)
  case less
  let ?N = "fs_n_fatent (v_fs v)"
  show ?case
  proof (cases "c < ?N")
    case False
    with less.prems show ?thesis by (subst remove_loop.simps) (simp add: fat_step_refl)
  next
    case c: True
    obtain n v1 where g: "get_fat ops c v = (n, v1)" by fastforce
    note ge = get_fat_entry [OF less.prems(1) g]
    have s1: "fat_step sec v v1" using ge keeps_view_fat_step less.prems(1) by blast
    show ?thesis
    proof (cases "n = 0 \<or> n = 1 \<or> n = 0xFFFFFFFF")
      case True
      with c g s1 show ?thesis by (subst remove_loop.simps) auto
    next
      case n: False
      obtain r v2 where p: "put_fat ops c 0 v1 = (r, v2)" by fastforce
      note pe = put_fat_entry [OF fat_step_ok [OF s1] p]
      have s2: "fat_step sec v v2"
        using fat_step_trans [OF s1 put_fat_step(1) [OF fat_step_ok [OF s1] p]] .
      show ?thesis
      proof (cases "r = FR_OK")
        case False
        with c g n p s2 show ?thesis by (subst remove_loop.simps) auto
      next
        case True
        let ?v = "count_free (\<lambda>n. n + 1) v2"
        have s3: "fat_step sec v ?v"
          by (rule fat_step_trans [OF s2 fat_ok_hints(2) [OF fat_step_ok [OF s2]]])
        have E1: "fat_entry sec v1 m = fat_entry sec v m" if "m < ?N" for m
          using ge less.prems(1) that
          by (auto intro!: fat_entry_cong [of sec v v1 "fat_byte sec v" m, folded fat_entry_def]
              keeps_view_fat_byte simp: keeps_view_def)
        have "fat_entry sec ?v m = (if m = c then 0 else fat_entry sec v m)" if "m < ?N" for m
          using pe(4) [of m] pe(5) [OF True] E1 that fat_step_fatent [OF s1] by simp
        moreover have nxt: "n = fat_entry sec v c" "n \<noteq> 0" using ge n c less.prems(2) by auto
        ultimately have "card (free_set (fat_entry sec ?v) ?N) = Suc (card (free_set (fat_entry sec v) ?N))"
          using free_set_update(2) [of c ?N "fat_entry sec ?v" 0 "fat_entry sec v"] less.prems(2) c by simp
        then have "4294967296 - card (free_set (fat_entry sec ?v) (fs_n_fatent (v_fs ?v))) <
            4294967296 - card (free_set (fat_entry sec v) ?N)"
          using card_free_less [of "fat_entry sec v" ?N] unfolding fat_step_fatent [OF s3] by simp
        moreover have "2 \<le> n" using n word_ge_2 by blast
        ultimately obtain r' v' where "remove_loop ops n ?v = Some (r', v')" "fat_step sec ?v v'"
          using less.hyps [OF _ fat_step_ok [OF s3]] by blast
        with c g n p True fat_step_trans [OF s3] show ?thesis by (subst remove_loop.simps) auto
      qed
    qed
  qed
qed

lemma get_fat_step:
  assumes ok: "fat_ok sec v" and g: "get_fat ops c v = (r, v')"
  shows "fat_step sec v v'" "m < fs_n_fatent (v_fs v) \<Longrightarrow> fat_entry sec v' m = fat_entry sec v m"
    "fs_free_clust (v_fs v') = fs_free_clust (v_fs v)" "fs_last_clust (v_fs v') = fs_last_clust (v_fs v)"
    "2 \<le> c \<Longrightarrow> c < fs_n_fatent (v_fs v) \<Longrightarrow> r = fat_entry sec v c \<or> r = 0xFFFFFFFF"
proof -
  have kv: "keeps_view sec v v'" using get_fat_entry [OF ok g] by blast
  then have lay: "same_layout (v_fs v) (v_fs v')" by (simp add: keeps_view_def)
  show "fat_step sec v v'" by (rule keeps_view_fat_step [OF kv ok])
  show "fs_free_clust (v_fs v') = fs_free_clust (v_fs v)" "fs_last_clust (v_fs v') = fs_last_clust (v_fs v)"
    using same_layout_fields [OF lay] by simp_all
  show "m < fs_n_fatent (v_fs v) \<Longrightarrow> fat_entry sec v' m = fat_entry sec v m"
    using fat_entry_cong [OF ok lay keeps_view_fat_byte [OF kv ok]] by (simp add: fat_entry_def)
  show "2 \<le> c \<Longrightarrow> c < fs_n_fatent (v_fs v) \<Longrightarrow> r = fat_entry sec v c \<or> r = 0xFFFFFFFF"
    using get_fat_entry [OF ok g] by auto
qed

lemma remove_loop_chain:
  assumes "fat_ok sec v" "is_chain (fat_entry sec v) (fs_n_fatent (v_fs v)) c xs"
    and "remove_loop ops c v = Some (r, v')"
  shows "(\<forall>m < fs_n_fatent (v_fs v). m \<notin> set xs \<longrightarrow> fat_entry sec v' m = fat_entry sec v m) \<and>
    r \<in> {FR_OK, FR_DISK_ERR} \<and>
    (r = FR_OK \<longrightarrow> (\<forall>m \<in> set xs. fat_entry sec v' m = 0) \<and> (free_count_ok sec v \<longrightarrow> free_count_ok sec v'))"
  using assms
proof (induction xs arbitrary: c v)
  case Nil
  then show ?case by (subst (asm) remove_loop.simps) (auto simp: leD)
next
  case (Cons x xs)
  let ?N = "fs_n_fatent (v_fs v)" and ?E = "fat_entry sec v"
  have c: "c = x" "2 \<le> x" "x < ?N" and tl: "is_chain ?E ?N (?E x) xs" using Cons.prems(2) by auto
  have dist: "x \<notin> set xs" using is_chain_distinct [OF Cons.prems(2)] by simp
  have nz: "?E x \<noteq> 0" "?E x \<noteq> 1" using is_chain_link [of ?E ?N c x xs] Cons.prems(2) by auto
  obtain n v1 where g: "get_fat ops x v = (n, v1)" by fastforce
  note s1 = get_fat_step [OF Cons.prems(1) g]
  have ok1: "fat_ok sec v1" and N1: "fs_n_fatent (v_fs v1) = ?N"
    using fat_step_ok [OF s1(1)] fat_step_fatent [OF s1(1)] by simp_all
  show ?case
  proof (cases "n = 0xFFFFFFFF")
    case True
    with Cons.prems(3) g c have "r = FR_DISK_ERR" "v' = v1" by (subst (asm) remove_loop.simps; simp)+
    with s1(2) show ?thesis by simp
  next
    case False
    then have n: "n = ?E x" using s1(5) c by blast
    obtain r1 v2 where p: "put_fat ops x 0 v1 = (r1, v2)" by fastforce
    note pe = put_fat_entry [OF ok1 p] and ps = put_fat_step [OF ok1 p]
    have oth: "m < ?N \<Longrightarrow> m \<noteq> x \<Longrightarrow> fat_entry sec v2 m = ?E m" for m
      using pe(4) [of m] s1(2) N1 by simp
    show ?thesis
    proof (cases "r1 = FR_OK")
      case False
      with Cons.prems(3) g c n nz p have "r = r1" "v' = v2"
        by (subst (asm) remove_loop.simps; simp add: fat_entry_bound)+
      with pe(2,3) oth False c N1 show ?thesis by auto
    next
      case True
      define v3 where "v3 = count_free (\<lambda>n. n + 1) v2"
      have s3: "fat_step sec v v3"
        unfolding v3_def using fat_step_trans [OF s1(1) ps(1)] fat_ok_hints(2) fat_step_ok fat_step_trans by blast
      have N3: "fs_n_fatent (v_fs v3) = ?N" by (rule fat_step_fatent [OF s3])
      have E3: "m < ?N \<Longrightarrow> fat_entry sec v3 m = (if m = x then 0 else ?E m)" for m
        using pe(5) [OF True] oth by (simp add: v3_def)
      have rest: "remove_loop ops (?E x) v3 = Some (r, v')"
        using Cons.prems(3) g c n nz p True by (subst (asm) remove_loop.simps) (simp add: fat_entry_bound v3_def)
      have ch: "is_chain (fat_entry sec v3) (fs_n_fatent (v_fs v3)) (?E x) xs"
        unfolding N3 using tl by (rule is_chain_cong) (use E3 dist is_chain_range [OF tl] in auto)
      have fc: "free_count_ok sec v3" if "free_count_ok sec v"
        unfolding v3_def
      proof (rule free_count_incr [OF that])
        show "fs_n_fatent (v_fs v2) = ?N" using fat_step_fatent [OF ps(1)] N1 by simp
        show "fs_free_clust (v_fs v2) = fs_free_clust (v_fs v)" using ps(2) s1(3) by simp
        show "card (free_set (fat_entry sec v2) ?N) = Suc (card (free_set ?E ?N))"
          using E3 nz c by (intro free_set_update(2) [of x ?N _ 0]) (auto simp: v3_def)
      qed
      from Cons.IH [OF fat_step_ok [OF s3] ch rest] E3 fc dist c is_chain_range [OF tl] show ?thesis
        unfolding N3 by auto
    qed
  qed
qed

end

section \<open>Allocating a cluster\<close>

text \<open>The clusters the search still has to look at, from a position before or after wrapping.\<close>

definition search_rest :: "u32 \<Rightarrow> u32 \<Rightarrow> u32 \<Rightarrow> u32 set" where
  "search_rest N scl ncl = (if scl \<le> ncl then {m. ncl < m \<and> m < N} \<union> {m. 2 \<le> m \<and> m \<le> scl}
     else {m. ncl < m \<and> m \<le> scl})"

definition search_next :: "u32 \<Rightarrow> u32 \<Rightarrow> u32" where
  "search_next N ncl = (if N \<le> ncl + 1 then 2 else ncl + 1)"

definition search_left :: "u32 \<Rightarrow> u32 \<Rightarrow> u32 \<Rightarrow> nat" where
  "search_left N scl ncl = (if scl \<le> ncl then unat N - unat ncl + unat scl else unat scl - unat ncl)"

lemma word_eq_unat: "x = y \<longleftrightarrow> unat x = unat (y :: u32)"
  by (simp add: word_unat_eq_iff)

lemma search_next:
  assumes "1 \<le> scl" "scl < N" "1 \<le> ncl" "ncl < N"
  shows "N \<le> ncl + 1 \<Longrightarrow> scl < 2 \<Longrightarrow> search_rest N scl ncl = {}"
    "\<not> (N \<le> ncl + 1 \<and> scl < 2) \<Longrightarrow> 2 \<le> search_next N ncl \<and> search_next N ncl < N"
    "\<not> (N \<le> ncl + 1 \<and> scl < 2) \<Longrightarrow> search_next N ncl = scl \<Longrightarrow> search_rest N scl ncl \<subseteq> {scl}"
    "\<not> (N \<le> ncl + 1 \<and> scl < 2) \<Longrightarrow> search_next N ncl \<noteq> scl \<Longrightarrow>
      search_rest N scl ncl \<subseteq> insert (search_next N ncl) (search_rest N scl (search_next N ncl))"
    "\<not> (N \<le> ncl + 1 \<and> scl < 2) \<Longrightarrow> search_next N ncl \<noteq> scl \<Longrightarrow>
      search_left N scl (search_next N ncl) < search_left N scl ncl"
proof -
  have u: "unat (ncl + 1) = unat ncl + 1"
    using assms(4) less_trans_Suc [of "unat ncl" "unat N" 4294967296]
    by (subst unat_add_small) (simp_all add: word_less_nat_alt)
  note w = word_le_nat_alt word_less_nat_alt u search_rest_def search_next_def search_left_def word_eq_unat
  show "N \<le> ncl + 1 \<Longrightarrow> scl < 2 \<Longrightarrow> search_rest N scl ncl = {}"
    using assms by (auto simp: w)
  show "\<not> (N \<le> ncl + 1 \<and> scl < 2) \<Longrightarrow> 2 \<le> search_next N ncl \<and> search_next N ncl < N"
    using assms by (auto simp: w)
  show "\<not> (N \<le> ncl + 1 \<and> scl < 2) \<Longrightarrow> search_next N ncl = scl \<Longrightarrow> search_rest N scl ncl \<subseteq> {scl}"
    using assms by (auto simp: w split: if_splits)
  show "\<not> (N \<le> ncl + 1 \<and> scl < 2) \<Longrightarrow> search_next N ncl \<noteq> scl \<Longrightarrow>
      search_rest N scl ncl \<subseteq> insert (search_next N ncl) (search_rest N scl (search_next N ncl))"
    using assms by (auto simp: w split: if_splits)
  show "\<not> (N \<le> ncl + 1 \<and> scl < 2) \<Longrightarrow> search_next N ncl \<noteq> scl \<Longrightarrow>
      search_left N scl (search_next N ncl) < search_left N scl ncl"
    using assms by (auto simp: w split: if_splits)
qed

lemma create_search_unfold:
  assumes "get_fat ops (search_next (fs_n_fatent (v_fs v)) ncl) v = (cs, v1)"
  shows "create_search ops scl ncl v =
     (if fs_n_fatent (v_fs v) \<le> ncl + 1 \<and> scl < 2 then Some (Inl 0, v)
      else if cs = 0 then Some (Inr (search_next (fs_n_fatent (v_fs v)) ncl), v1)
      else if cs = 0xFFFFFFFF \<or> cs = 1 then Some (Inl cs, v1)
      else if search_next (fs_n_fatent (v_fs v)) ncl = scl then Some (Inl 0, v1)
      else create_search ops scl (search_next (fs_n_fatent (v_fs v)) ncl) v1)"
  using assms
  by (cases "fs_n_fatent (v_fs v) \<le> ncl + 1"; subst create_search.simps; simp add: Let_def search_next_def)

definition search_result :: "(u32 \<Rightarrow> u32) \<Rightarrow> u32 \<Rightarrow> u32 set \<Rightarrow> u32 + u32 \<Rightarrow> bool" where
  "search_result E N R res \<longleftrightarrow> (case res of
     Inr x \<Rightarrow> 2 \<le> x \<and> x < N \<and> E x = 0
   | Inl x \<Rightarrow> x = 0 \<and> (\<forall>m \<in> R. E m \<noteq> 0) \<or> x = 1 \<and> (\<exists>m. 2 \<le> m \<and> m < N \<and> E m = 1) \<or> x = 0xFFFFFFFF)"

lemma search_result_mono:
  assumes "search_result E' N R res" "\<And>m. m < N \<Longrightarrow> E' m = E m" "S \<subseteq> insert x R" "E x \<noteq> 0"
    "\<And>m. m \<in> R \<Longrightarrow> m < N"
  shows "search_result E N S res"
proof (cases res)
  case (Inl c)
  then consider "c = 0" "\<forall>m \<in> R. E' m \<noteq> 0" | "c = 1" "\<exists>m. 2 \<le> m \<and> m < N \<and> E' m = 1" | "c = 0xFFFFFFFF"
    using assms(1) by (auto simp: search_result_def)
  then show ?thesis
  proof cases
    case 1
    have "E m \<noteq> 0" if "m \<in> S" for m
      using that assms(2-5) 1(2) by (metis insertE subsetD)
    with Inl 1 show ?thesis by (simp add: search_result_def)
  next
    case 2
    with assms(2) Inl show ?thesis by (auto simp: search_result_def)
  qed (use Inl in \<open>simp add: search_result_def\<close>)
next
  case (Inr x)
  with assms(1) have x: "2 \<le> x" "x < N" "E' x = 0" by (simp_all add: search_result_def)
  with assms(2) [of x] Inr show ?thesis by (simp add: search_result_def)
qed

lemma search_rest_bound: "scl < N \<Longrightarrow> m \<in> search_rest N scl ncl \<Longrightarrow> m < N"
  by (auto simp: search_rest_def split: if_splits)

context block_device
begin

lemma create_search_spec:
  assumes "fat_ok sec v" "1 \<le> scl" "scl < fs_n_fatent (v_fs v)" "1 \<le> ncl" "ncl < fs_n_fatent (v_fs v)"
  shows "\<exists>res v'. create_search ops scl ncl v = Some (res, v') \<and> keeps_view sec v v' \<and>
    search_result (fat_entry sec v) (fs_n_fatent (v_fs v)) (search_rest (fs_n_fatent (v_fs v)) scl ncl) res"
  using assms
proof (induction "search_left (fs_n_fatent (v_fs v)) scl ncl" arbitrary: ncl v rule: less_induct)
  case less
  let ?N = "fs_n_fatent (v_fs v)" and ?E = "fat_entry sec v"
  let ?x = "search_next ?N ncl"
  note nx = search_next [OF less.prems(2-5)]
  have kv0: "keeps_view sec v v" using less.prems(1) by (simp add: fat_ok_vol keeps_view_refl)
  obtain cs v1 where g: "get_fat ops ?x v = (cs, v1)" by fastforce
  note unf = create_search_unfold [OF g, of scl]
  show ?case
  proof (cases "?N \<le> ncl + 1 \<and> scl < 2")
    case True
    with nx(1) kv0 show ?thesis by (simp add: unf search_result_def)
  next
    case go: False
    note unf = unf [unfolded if_not_P [OF go]]
    have x: "2 \<le> ?x" "?x < ?N" using nx(2) go by auto
    note s1 = get_fat_step [OF less.prems(1) g]
    have kv: "keeps_view sec v v1" using get_fat_entry [OF less.prems(1) g] by blast
    have cs: "cs = ?E ?x \<or> cs = 0xFFFFFFFF" using s1(5) x by blast
    consider "cs = 0" | "cs = 0xFFFFFFFF \<or> cs = 1" | "cs = ?E ?x" "cs \<noteq> 0" "cs \<noteq> 1" "cs \<noteq> 0xFFFFFFFF"
      using cs by blast
    then show ?thesis
    proof cases
      case 1
      with go g kv x cs show ?thesis by (auto simp: unf search_result_def)
    next
      case 2
      with go g kv x cs show ?thesis by (auto simp: unf search_result_def)
    next
      case 3
      show ?thesis
      proof (cases "?x = scl")
        case True
        then have "\<forall>m \<in> search_rest ?N scl ncl. ?E m \<noteq> 0" using nx(3) go 3 by auto
        with go g kv kv0 3 True show ?thesis by (simp add: unf search_result_def)
      next
        case False
        have N1: "fs_n_fatent (v_fs v1) = ?N" by (rule fat_step_fatent [OF s1(1)])
        have "1 \<le> ?x" using x(1) by (simp add: word_le_nat_alt)
        then obtain res v' where r: "create_search ops scl ?x v1 = Some (res, v')" "keeps_view sec v1 v'"
          "search_result (fat_entry sec v1) ?N (search_rest ?N scl ?x) res"
          using less.hyps [of v1 ?x] nx(5) go False fat_step_ok [OF s1(1)] less.prems x unfolding N1 by blast
        have "search_result ?E ?N (search_rest ?N scl ncl) res"
        proof (rule search_result_mono [OF r(3)])
          show "search_rest ?N scl ncl \<subseteq> insert ?x (search_rest ?N scl ?x)" by (rule nx(4) [OF go False])
          show "?E ?x \<noteq> 0" using 3 by simp
          show "\<And>m. m \<in> search_rest ?N scl ?x \<Longrightarrow> m < ?N" by (rule search_rest_bound [OF less.prems(3)])
        qed (rule s1(2))
        with go g 3 False r keeps_view_trans [OF kv r(2)] show ?thesis by (simp add: unf)
      qed
    qed
  qed
qed

end

lemma word_2_nz: "2 \<le> x \<Longrightarrow> x \<noteq> (0 :: u32)"
  by (auto simp: word_le_nat_alt)

lemma free_set_minus:
  assumes "\<And>m. m < N \<Longrightarrow> m \<noteq> a \<Longrightarrow> m \<noteq> b \<Longrightarrow> E' m = E m" "E' a \<noteq> 0"
    "2 \<le> b \<Longrightarrow> E' b \<noteq> 0" "2 \<le> b \<Longrightarrow> E b \<noteq> 0"
  shows "free_set E' N = free_set E N - {a}"
proof (rule set_eqI)
  fix m
  consider "m = a" | "m \<noteq> a" "m = b" | "m \<noteq> a" "m \<noteq> b" by blast
  then show "m \<in> free_set E' N \<longleftrightarrow> m \<in> free_set E N - {a}"
    by cases (use assms in \<open>auto simp: free_set_def\<close>)
qed

text \<open>What the link that \<^verbatim>\<open>create_chain\<close> stores in the new cluster reads back as.\<close>

lemma val_mask_id: "t \<in> {FS_FAT12, FS_FAT16, FS_FAT32} \<Longrightarrow> n \<le> val_mask t \<Longrightarrow> n AND val_mask t = n"
proof -
  assume "t \<in> {FS_FAT12, FS_FAT16, FS_FAT32}" "n \<le> val_mask t"
  then obtain k where k: "val_mask t = mask k" "unat n < 2 ^ k"
    by (auto simp: val_mask_def fs_types mask_eq_exp_minus_1 word_le_nat_alt
        intro: that [of 12] that [of 16] that [of 28])
  from k(2) have "unat (take_bit k n) = unat n" by (simp add: unsigned_take_bit_eq take_bit_nat_eq_self)
  then have "take_bit k n = n" by (simp add: word_unat_eq_iff)
  then show ?thesis unfolding k(1) take_bit_eq_mask .
qed

definition end_mark :: "byte \<Rightarrow> u32" where
  "end_mark t = 0x0FFFFFFF AND val_mask t"

lemma end_mark_mask: "t \<in> {FS_FAT12, FS_FAT16, FS_FAT32} \<Longrightarrow> end_mark t = val_mask t"
  by (auto simp: end_mark_def val_mask_def fs_types)

lemma free_count_decr:
  assumes "free_count_ok sc v" "fs_n_fatent (v_fs v') = fs_n_fatent (v_fs v)"
    "fs_free_clust (v_fs v') = fs_free_clust (v_fs v)"
    "Suc (card (free_set (fat_entry sc v') (fs_n_fatent (v_fs v)))) = card (free_set (fat_entry sc v) (fs_n_fatent (v_fs v)))"
  shows "free_count_ok sc (count_free (\<lambda>n. n - 1) v')"
proof (cases "fs_free_clust (v_fs v) = 0xFFFFFFFF")
  case True
  with assms(3) show ?thesis by (simp add: free_count_ok_def count_free_def)
next
  case False
  then have c: "unat (fs_free_clust (v_fs v)) = card (free_set (fat_entry sc v) (fs_n_fatent (v_fs v)))"
    using assms(1) by (simp add: free_count_ok_def)
  then have "1 \<le> fs_free_clust (v_fs v)" using assms(4) by (simp add: word_le_nat_alt)
  then have "unat (fs_free_clust (v_fs v) - 1) = card (free_set (fat_entry sc v') (fs_n_fatent (v_fs v)))"
    using c assms(4) by (subst unat_sub_small) simp_all
  with False assms show ?thesis by (simp add: free_count_ok_def) (simp add: count_free_def)
qed

text \<open>A cluster allocated and linked to the end of a chain; \<open>clst = 0\<close> starts a chain.\<close>

definition allocated :: "('w \<Rightarrow> u32 \<Rightarrow> byte list) \<Rightarrow> u32 \<Rightarrow> u32 \<Rightarrow> 'w vol \<Rightarrow> 'w vol \<Rightarrow> bool" where
  "allocated sc clst ncl v v' \<longleftrightarrow> 2 \<le> ncl \<and> ncl < fs_n_fatent (v_fs v) \<and> fat_entry sc v ncl = 0 \<and>
     fat_entry sc v' ncl = end_mark (fs_type (v_fs v)) \<and> (clst \<noteq> 0 \<longrightarrow> fat_entry sc v' clst = ncl) \<and>
     (\<forall>m < fs_n_fatent (v_fs v). m \<noteq> ncl \<longrightarrow> m \<noteq> clst \<longrightarrow> fat_entry sc v' m = fat_entry sc v m) \<and>
     fs_last_clust (v_fs v') = ncl \<and> (free_count_ok sc v \<longrightarrow> free_count_ok sc v')"

text \<open>What is left when the device fails while linking: at most two entries are affected.\<close>

definition spoiled :: "('w \<Rightarrow> u32 \<Rightarrow> byte list) \<Rightarrow> u32 \<Rightarrow> 'w vol \<Rightarrow> 'w vol \<Rightarrow> bool" where
  "spoiled sc clst v v' \<longleftrightarrow> (\<exists>ncl. (2 \<le> ncl \<and> ncl < fs_n_fatent (v_fs v) \<longrightarrow> fat_entry sc v ncl = 0) \<and>
     (\<forall>m < fs_n_fatent (v_fs v). m \<noteq> ncl \<longrightarrow> m \<noteq> clst \<longrightarrow> fat_entry sc v' m = fat_entry sc v m))"

context block_device
begin

lemma create_link_spec:
  assumes ok: "fat_ok sec v" and n: "2 \<le> ncl" "ncl < fs_n_fatent (v_fs v)" "fat_entry sec v ncl = 0"
    and c: "clst = 0 \<or> 2 \<le> clst \<and> clst < fs_n_fatent (v_fs v) \<and> fat_entry sec v clst \<noteq> 0"
    and l: "create_link ops clst ncl v = (r, v')"
  shows "fat_step sec v v' \<and> (r = ncl \<and> allocated sec clst ncl v v' \<or> r = 0xFFFFFFFF \<and> spoiled sec clst v v')"
proof -
  let ?N = "fs_n_fatent (v_fs v)" and ?t = "fs_type (v_fs v)" and ?E = "fat_entry sec v"
  obtain r1 v1 where p1: "put_fat ops ncl 0x0FFFFFFF v = (r1, v1)" by fastforce
  note e1 = put_fat_entry [OF ok p1] and s1 = put_fat_step [OF ok p1]
  have ok1: "fat_ok sec v1" and N1: "fs_n_fatent (v_fs v1) = ?N" and t1: "fs_type (v_fs v1) = ?t"
    using fat_step_ok [OF s1(1)] fat_step_fatent [OF s1(1)] fat_step_type [OF s1(1)] by simp_all
  have r1: "r1 \<in> {FR_OK, FR_DISK_ERR}" using e1(2,3) n by auto
  show ?thesis
  proof (cases "r1 = FR_OK")
    case False
    with l p1 r1 have "r = 0xFFFFFFFF" "v' = v1" by (auto simp: create_link_def)
    with s1(1) e1(4) n show ?thesis by (auto simp: spoiled_def)
  next
    case True
    obtain r2 v2 where p2: "(if clst \<noteq> 0 then put_fat ops clst ncl v1 else (FR_OK, v1)) = (r2, v2)" by fastforce
    have s2: "fat_step sec v1 v2" "fs_free_clust (v_fs v2) = fs_free_clust (v_fs v1)"
      and e2: "m < ?N \<Longrightarrow> m \<noteq> clst \<Longrightarrow> fat_entry sec v2 m = fat_entry sec v1 m"
        "clst \<noteq> 0 \<Longrightarrow> r2 = FR_OK \<Longrightarrow> fat_entry sec v2 clst = ncl AND val_mask ?t"
        "r2 \<in> {FR_OK, FR_DISK_ERR}" for m
      using p2 put_fat_step [OF ok1, of clst ncl r2 v2] put_fat_entry [OF ok1, of clst ncl r2 v2] N1 t1 c
        fat_step_refl [OF ok1] by (auto split: if_splits)
    have s: "fat_step sec v v2" by (rule fat_step_trans [OF s1(1) s2(1)])
    have oth: "m < ?N \<Longrightarrow> m \<noteq> ncl \<Longrightarrow> m \<noteq> clst \<Longrightarrow> fat_entry sec v2 m = ?E m" for m
      using e2(1) e1(4) by simp
    show ?thesis
    proof (cases "r2 = FR_OK")
      case False
      with l p1 p2 True e2(3) have "r = 0xFFFFFFFF" "v' = v2"
        by (auto simp: create_link_def split: if_splits)
      with s oth n show ?thesis by (auto simp: spoiled_def)
    next
      case ok2: True
      define v3 where "v3 = upd_fs (fs_last_clust_update (\<lambda>_. ncl)) v2"
      have v': "r = ncl" "v' = count_free (\<lambda>n. n - 1) v3"
        using l p1 p2 True ok2 by (auto simp: create_link_def v3_def split: if_splits)
      have s3: "fat_step sec v v3" unfolding v3_def
        by (rule fat_step_trans [OF s fat_ok_hints(1) [OF fat_step_ok [OF s]]])
      have s4: "fat_step sec v v'" unfolding v'
        by (rule fat_step_trans [OF s3 fat_ok_hints(2) [OF fat_step_ok [OF s3]]])
      have E': "fat_entry sec v' = fat_entry sec v2" "fat_entry sec v3 = fat_entry sec v2"
        by (simp_all add: v' v3_def)
      have ne: "ncl \<noteq> clst" using c n by auto
      have t: "?t \<in> {FS_FAT12, FS_FAT16, FS_FAT32}" "?N \<le> val_mask ?t" "2 < ?N" using ok by (simp_all add: fat_ok_def)
      have new: "fat_entry sec v2 ncl = end_mark ?t"
        using e2(1) [OF n(2) ne] e1(5) [OF True] by (simp add: end_mark_def)
      have "ncl AND val_mask ?t = ncl"
        using n(2) t val_mask_id by (metis less_imp_le order_trans)
      then have old: "clst \<noteq> 0 \<Longrightarrow> fat_entry sec v2 clst = ncl" using e2(2) ok2 by simp
      have "free_set (fat_entry sec v2) ?N = free_set ?E ?N - {ncl}"
      proof (rule free_set_minus [of ?N ncl clst])
        have "val_mask ?t \<noteq> 0" using t by (auto simp: val_mask_def split: if_splits)
        then show "fat_entry sec v2 ncl \<noteq> 0" using new end_mark_mask [OF t(1)] by simp
        show "fat_entry sec v2 clst \<noteq> 0" "?E clst \<noteq> 0" if "2 \<le> clst"
          using that word_2_nz c old n by auto
      qed (rule oth)
      moreover have "ncl \<in> free_set ?E ?N" using n by (simp add: free_set_def)
      ultimately have card: "Suc (card (free_set (fat_entry sec v2) ?N)) = card (free_set ?E ?N)"
        by (simp add: card_Suc_Diff1 del: card_Diff_insert)
      have "free_count_ok sec v'" if "free_count_ok sec v"
        unfolding v' by (rule free_count_decr [OF that])
          (use card E'(2) fat_step_fatent [OF s3] s2(2) s1(2) in \<open>simp_all add: v3_def\<close>)
      moreover have "fs_last_clust (v_fs v') = ncl" by (simp add: v' v3_def count_free_def)
      ultimately show ?thesis
        using s4 v' n new old oth by (auto simp: allocated_def E')
    qed
  qed
qed

text \<open>
  Everything \<^verbatim>\<open>create_chain\<close> can do: find the table full, meet a link of 1, lose the device, or
  allocate. Reaching the result is part of the statement.
\<close>

lemma search_rest_all: "1 \<le> scl \<Longrightarrow> {m. 2 \<le> m \<and> m < N} \<subseteq> search_rest N scl scl"
  by (auto simp: search_rest_def)

lemma create_from_spec:
  assumes ok: "fat_ok sec v" and scl: "1 \<le> scl" "scl < fs_n_fatent (v_fs v)"
    and c: "clst = 0 \<or> 2 \<le> clst \<and> clst < fs_n_fatent (v_fs v) \<and> fat_entry sec v clst \<noteq> 0"
  shows "\<exists>r v'. create_from ops clst scl v = Some (r, v') \<and> fat_step sec v v' \<and>
    (r = 0 \<and> free_set (fat_entry sec v) (fs_n_fatent (v_fs v)) = {} \<or>
     r = 1 \<and> (\<exists>m. 2 \<le> m \<and> m < fs_n_fatent (v_fs v) \<and> fat_entry sec v m = 1) \<or>
     r = 0xFFFFFFFF \<and> spoiled sec clst v v' \<or> allocated sec clst r v v')"
proof -
  let ?N = "fs_n_fatent (v_fs v)" and ?E = "fat_entry sec v"
  obtain res v1 where s: "create_search ops scl scl v = Some (res, v1)" "keeps_view sec v v1"
    "search_result ?E ?N (search_rest ?N scl scl) res"
    using create_search_spec [OF ok scl scl] by blast
  have st: "fat_step sec v v1" and lay: "same_layout (v_fs v) (v_fs v1)"
    using keeps_view_fat_step [OF s(2) ok] s(2) by (simp_all add: keeps_view_def)
  have same: "m < ?N \<Longrightarrow> fat_entry sec v1 m = ?E m" for m
    using fat_entry_cong [OF ok lay keeps_view_fat_byte [OF s(2) ok]] by (simp add: fat_entry_def)
  have N1: "fs_n_fatent (v_fs v1) = ?N" by (rule fat_step_fatent [OF st])
  show ?thesis
  proof (cases res)
    case (Inl x)
    have sp: "spoiled sec clst v v1" using same by (auto simp: spoiled_def intro!: exI [of _ 0])
    have "x = 0 \<and> free_set ?E ?N = {} \<or> x = 1 \<and> (\<exists>m. 2 \<le> m \<and> m < ?N \<and> ?E m = 1) \<or> x = 0xFFFFFFFF"
      using s(3) Inl search_rest_all [OF scl(1), of ?N] by (auto simp: search_result_def free_set_def)
    with s(1) Inl st sp show ?thesis by (auto simp: create_from_def)
  next
    case (Inr x)
    obtain r v2 where l: "create_link ops clst x v1 = (r, v2)" by fastforce
    have x: "2 \<le> x" "x < fs_n_fatent (v_fs v1)" "fat_entry sec v1 x = 0"
      using s(3) Inr same N1 by (auto simp: search_result_def)
    have c1: "clst = 0 \<or> 2 \<le> clst \<and> clst < fs_n_fatent (v_fs v1) \<and> fat_entry sec v1 clst \<noteq> 0"
      using c same N1 by auto
    note cl = create_link_spec [OF fat_step_ok [OF st] x c1 l]
    have fc: "free_count_ok sec v \<Longrightarrow> free_count_ok sec v1"
    proof -
      have "free_set (fat_entry sec v1) ?N = free_set ?E ?N" using same by (auto simp: free_set_def)
      then show "free_count_ok sec v \<Longrightarrow> free_count_ok sec v1"
        using same_layout_fields(9) [OF lay] N1 by (simp add: free_count_ok_def)
    qed
    have "allocated sec clst x v1 v2 \<Longrightarrow> allocated sec clst x v v2"
      using same N1 fat_step_type [OF st] fc x by (simp add: allocated_def)
    moreover have "spoiled sec clst v1 v2 \<Longrightarrow> spoiled sec clst v v2"
      using same N1 by (auto simp: spoiled_def)
    ultimately have "r = 0xFFFFFFFF \<and> spoiled sec clst v v2 \<or> allocated sec clst r v v2"
      using cl by auto
    moreover have "fat_step sec v v2" using cl fat_step_trans [OF st] by blast
    ultimately show ?thesis using s(1) Inr l by (simp add: create_from_def)
  qed
qed

lemma create_chain_new:
  assumes ok: "fat_ok sec v"
  shows "\<exists>r v'. create_chain ops 0 v = Some (r, v') \<and> fat_step sec v v' \<and>
    (r = 0 \<and> free_set (fat_entry sec v) (fs_n_fatent (v_fs v)) = {} \<or>
     r = 1 \<and> (\<exists>m. 2 \<le> m \<and> m < fs_n_fatent (v_fs v) \<and> fat_entry sec v m = 1) \<or>
     r = 0xFFFFFFFF \<and> spoiled sec 0 v v' \<or> allocated sec 0 r v v')"
proof -
  let ?scl = "if fs_last_clust (v_fs v) = 0 \<or> fs_n_fatent (v_fs v) \<le> fs_last_clust (v_fs v) then 1
    else fs_last_clust (v_fs v)"
  have "2 < fs_n_fatent (v_fs v)" using ok by (simp add: fat_ok_def)
  then have "1 \<le> ?scl" "?scl < fs_n_fatent (v_fs v)"
    by (auto simp: word_le_nat_alt word_less_nat_alt word_unat_eq_iff)
  from create_from_spec [OF ok this] show ?thesis by (simp add: create_chain_def Let_def)
qed

text \<open>
  Stretching a chain. Where the link of the last cluster cannot be read, the code goes on as if the
  chain ended there; the first disjunct of the conclusion excludes that.
\<close>

lemma create_chain_stretch:
  assumes ok: "fat_ok sec v" and c: "2 \<le> clst" "clst < fs_n_fatent (v_fs v)" "fat_entry sec v clst \<noteq> 0"
  shows "\<exists>r v'. create_chain ops clst v = Some (r, v') \<and> fat_step sec v v' \<and>
    (fst (get_fat ops clst v) = 0xFFFFFFFF \<and> (r = 0 \<or> r = 1 \<or> r = 0xFFFFFFFF \<or> allocated sec clst r v v') \<or>
     fat_entry sec v clst = 1 \<and> r = 1 \<or>
     2 \<le> fat_entry sec v clst \<and> fat_entry sec v clst < fs_n_fatent (v_fs v) \<and> r = fat_entry sec v clst \<or>
     fs_n_fatent (v_fs v) \<le> fat_entry sec v clst \<and>
       (r = 0 \<and> free_set (fat_entry sec v) (fs_n_fatent (v_fs v)) = {} \<or>
        r = 1 \<and> (\<exists>m. 2 \<le> m \<and> m < fs_n_fatent (v_fs v) \<and> fat_entry sec v m = 1) \<or>
        r = 0xFFFFFFFF \<and> spoiled sec clst v v' \<or> allocated sec clst r v v'))"
proof -
  let ?N = "fs_n_fatent (v_fs v)" and ?E = "fat_entry sec v"
  obtain cs v1 where g: "get_fat ops clst v = (cs, v1)" by fastforce
  note gs = get_fat_step [OF ok g]
  have cs: "cs = ?E clst \<or> cs = 0xFFFFFFFF" using gs(5) c by blast
  have N1: "fs_n_fatent (v_fs v1) = ?N" by (rule fat_step_fatent [OF gs(1)])
  have N: "?N \<le> 0xFFFFFFFF" "2 < ?N" using fat_ok_fatent [OF ok] ok by (auto simp: fat_ok_def)
  show ?thesis
  proof (cases "cs < 2 \<or> cs < ?N")
    case True
    have "cs \<noteq> 0xFFFFFFFF" using True N by auto
    with cs have e: "cs = ?E clst" by blast
    have "cs < 2 \<Longrightarrow> cs = 1" using e c(3) word_ge_2 [of cs] by (meson not_le)
    moreover have "create_chain ops clst v = Some (if cs < 2 then 1 else cs, v1)"
      using True g word_2_nz [OF c(1)] by (auto simp: create_chain_def N1)
    ultimately show ?thesis using True gs(1) e by (auto simp: not_less)
  next
    case False
    then have r: "create_chain ops clst v = create_from ops clst clst v1"
      using g c(1) word_2_nz by (auto simp: create_chain_def N1)
    have one: "1 \<le> clst" using c(1) by (simp add: word_le_nat_alt)
    have c1: "clst = 0 \<or> 2 \<le> clst \<and> clst < fs_n_fatent (v_fs v1) \<and> fat_entry sec v1 clst \<noteq> 0"
      using c gs(2) N1 by simp
    have free1: "free_set (fat_entry sec v1) ?N = free_set ?E ?N" using gs(2) by (auto simp: free_set_def)
    have "free_count_ok sec v \<Longrightarrow> free_count_ok sec v1"
      using free1 gs(3) N1 by (simp add: free_count_ok_def)
    then have al: "allocated sec clst r v1 v2 \<Longrightarrow> allocated sec clst r v v2" for r v2
      using gs(2) N1 fat_step_type [OF gs(1)] by (auto simp: allocated_def)
    have sp: "spoiled sec clst v1 v2 \<Longrightarrow> spoiled sec clst v v2" for v2
      using gs(2) N1 by (auto simp: spoiled_def)
    have ex: "(\<exists>m. 2 \<le> m \<and> m < ?N \<and> fat_entry sec v1 m = 1) \<longleftrightarrow> (\<exists>m. 2 \<le> m \<and> m < ?N \<and> ?E m = 1)"
      using gs(2) by auto
    obtain r v2 where f: "create_from ops clst clst v1 = Some (r, v2)" "fat_step sec v1 v2"
      "r = 0 \<and> free_set ?E ?N = {} \<or> r = 1 \<and> (\<exists>m. 2 \<le> m \<and> m < ?N \<and> ?E m = 1) \<or>
       r = 0xFFFFFFFF \<and> spoiled sec clst v v2 \<or> allocated sec clst r v v2"
      using create_from_spec [OF fat_step_ok [OF gs(1)] one _ c1] c(2) al sp unfolding N1 free1 ex by blast
    have "fst (get_fat ops clst v) = 0xFFFFFFFF \<or> ?N \<le> ?E clst" using cs False g by auto
    with r f fat_step_trans [OF gs(1) f(2)] show ?thesis by auto
  qed
qed

end

end
