(* ===== verification/FatReliable.thy ===== *)
theory FatReliable
  imports FatChain
begin

text \<open>
  On a device whose operations succeed, the FAT layer succeeds: entries read exactly, stores always
  reach the table, chains are always freed, and allocation fails only when the table is full.
\<close>

locale reliable_device = block_device +
  fixes sound :: "'a \<Rightarrow> bool"
  assumes sound_ready: "sound w \<Longrightarrow> ready sec w"
    and read_works: "sound w \<Longrightarrow> d_read ops 0 buf s 1 w = (r, buf', w') \<Longrightarrow> length buf = 512 \<Longrightarrow>
      r = RES_OK \<and> sound w'"
    and write_works: "sound w \<Longrightarrow> d_write ops 0 buf s 1 w = (r, w') \<Longrightarrow> length buf = 512 \<Longrightarrow>
      r = RES_OK \<and> sound w'"
    and sync_works: "sound w \<Longrightarrow> d_ioctl ops 0 CTRL_SYNC w = (r, w') \<Longrightarrow> r = RES_OK \<and> sound w'"
begin

lemma sync_copies_sound:
  "sound (v_dsk v) \<Longrightarrow> geom (v_fs v) \<Longrightarrow> sound (v_dsk (sync_copies ops n w v))"
proof (induction n arbitrary: w v)
  case (Suc n)
  obtain r d where d: "d_write ops 0 (fs_win (v_fs v)) (w + fs_fsize (v_fs v)) 1 (v_dsk v) = (r, d)" by fastforce
  have "fs_drv (v_fs v) = 0" "length (fs_win (v_fs v)) = 512" using Suc.prems(2) by (simp_all add: geom_def)
  with Suc d write_works [OF Suc.prems(1) d] show ?case by (simp add: Let_def)
qed simp

lemma sync_window_sound:
  assumes "sound (v_dsk v)" "geom (v_fs v)"
  shows "\<exists>v'. sync_window ops v = (FR_OK, v') \<and> sound (v_dsk v')"
proof -
  obtain r d where d: "d_write ops 0 (fs_win (v_fs v)) (fs_winsect (v_fs v)) 1 (v_dsk v) = (r, d)" by fastforce
  have g: "fs_drv (v_fs v) = 0" "length (fs_win (v_fs v)) = 512" using assms(2) by (simp_all add: geom_def)
  have w: "r = RES_OK" "sound d" using write_works [OF assms(1) d g(2)] by auto
  let ?v = "v\<lparr>v_fs := (v_fs v)\<lparr>fs_wflag := 0\<rparr>, v_dsk := d\<rparr>"
  have "geom (v_fs ?v)" using assms(2) by (simp add: geom_def)
  then have "sound (v_dsk (sync_copies ops n x ?v))" for n x
    using sync_copies_sound [of ?v n x] w by simp
  with assms(1) d g(1) w show ?thesis by (simp add: sync_window_def Let_def)
qed

lemma move_window_sound:
  assumes "sound (v_dsk v)" "vol_ok sec v"
  shows "\<exists>v'. move_window ops s v = (FR_OK, v') \<and> sound (v_dsk v')"
proof -
  have g: "geom (v_fs v)" using assms(2) by (simp add: vol_ok_def)
  obtain v1 where s1: "sync_window ops v = (FR_OK, v1)" "sound (v_dsk v1)"
    using sync_window_sound [OF assms(1) g] by blast
  have g1: "fs_drv (v_fs v1) = 0" "length (fs_win (v_fs v1)) = 512"
    using sync_window_keeps [OF assms(2) s1(1)] by (auto simp: keeps_view_def vol_ok_def geom_def)
  obtain r b d where rd: "d_read ops 0 (fs_win (v_fs v1)) s 1 (v_dsk v1) = (r, b, d)" by (metis prod_cases3)
  have "r = RES_OK" "sound d" using read_works [OF s1(2) rd g1(2)] by auto
  with assms(1) s1 g1 rd show ?thesis by (simp add: move_window_def Let_def)
qed

lemma get_fat_sound:
  assumes ok: "fat_ok sec v" and sd: "sound (v_dsk v)" and g: "get_fat ops c v = (r, v')"
  shows "sound (v_dsk v')" "2 \<le> c \<Longrightarrow> c < fs_n_fatent (v_fs v) \<Longrightarrow> r = fat_entry sec v c"
proof -
  have "sound (v_dsk v') \<and> r \<noteq> 0xFFFFFFFF"
  proof (cases "c < 2 \<or> fs_n_fatent (v_fs v) \<le> c")
    case True
    with g sd show ?thesis by (auto simp: get_fat_def)
  next
    case False
    then have c: "2 \<le> c" "c < fs_n_fatent (v_fs v)" by auto
    have ok1: "vol_ok sec v" by (rule fat_ok_vol [OF ok])
    have mw: "\<exists>w. move_window ops s v = (FR_OK, w) \<and> sound (v_dsk w) \<and> vol_ok sec w" for s
      using move_window_sound [OF sd ok1] move_window_keeps [OF ok1] by (metis keeps_view_def)
    have mw2: "\<exists>w. move_window ops s x = (FR_OK, w) \<and> sound (v_dsk w)" if "sound (v_dsk x)" "vol_ok sec x" for s x
      using move_window_sound that by blast
    obtain v1 where v1: "move_window ops (fs_fatbase (v_fs v) + (c + c div 2) div 512) v = (FR_OK, v1)"
      "sound (v_dsk v1)" "vol_ok sec v1" using mw by blast
    obtain v2 where v2: "move_window ops (fs_fatbase (v_fs v) + (c + c div 2 + 1) div 512) v1 = (FR_OK, v2)"
      "sound (v_dsk v2)" using mw2 v1 by blast
    obtain v3 where v3: "move_window ops (fs_fatbase (v_fs v) + c div 256) v = (FR_OK, v3)" "sound (v_dsk v3)"
      using mw by blast
    obtain v4 where v4: "move_window ops (fs_fatbase (v_fs v) + c div 128) v = (FR_OK, v4)" "sound (v_dsk v4)"
      using mw by blast
    have b: "\<not> bit (ucast (x :: byte) :: u32) k" if "8 \<le> k" for x k
      using that bit_imp_le_length [of x k] by (auto simp: bit_simps)
    have "drop_bit 4 (ucast x OR push_bit 8 (ucast y)) \<noteq> (0xFFFFFFFF :: u32)"
      "(ucast x OR push_bit 8 (ucast y)) AND 0xFFF \<noteq> (0xFFFFFFFF :: u32)" for x y :: byte
      by (rule bit31; simp add: bit_simps bit_consts)+
    moreover have "ucast (x :: u16) \<noteq> (0xFFFFFFFF :: u32)" for x
      by (rule bit31) (use bit_imp_le_length [of x 31] in \<open>auto simp: bit_simps\<close>)
    moreover have "x AND 0x0FFFFFFF \<noteq> (0xFFFFFFFF :: u32)" for x
      by (rule bit31) (simp add: bit_and_iff bit_consts)
    moreover have "fs_type (v_fs v) \<in> {FS_FAT12, FS_FAT16, FS_FAT32}" using ok by (simp add: fat_ok_def)
    ultimately show ?thesis
      using g c v1 v2 v3 v4
      by (auto simp: get_fat_def Let_def not_less [symmetric] fs_types split: if_splits)
  qed
  then show "sound (v_dsk v')" "2 \<le> c \<Longrightarrow> c < fs_n_fatent (v_fs v) \<Longrightarrow> r = fat_entry sec v c"
    using get_fat_step(5) [OF ok g] by blast+
qed

lemma win_stores_sound [simp]:
  "v_dsk (set_wflag v) = v_dsk v" "v_dsk (put_win_byte i b v) = v_dsk v" "v_dsk (set_win w v) = v_dsk v"
  "v_dsk (count_free f v) = v_dsk v"
  by (simp_all add: set_wflag_def put_win_byte_def set_win_def count_free_def)

lemma put_fat_sound:
  assumes ok: "fat_ok sec v" and sd: "sound (v_dsk v)" and c: "2 \<le> c" "c < fs_n_fatent (v_fs v)"
    and p: "put_fat ops c val v = (r, v')"
  shows "sound (v_dsk v') \<and> r = FR_OK"
proof -
  have ok1: "vol_ok sec v" by (rule fat_ok_vol [OF ok])
  have mw: "\<exists>w. move_window ops s v = (FR_OK, w) \<and> sound (v_dsk w) \<and> vol_ok sec w" for s
    using move_window_sound [OF sd ok1] move_window_keeps [OF ok1] by (metis keeps_view_def)
  obtain v1 where v1: "move_window ops (fs_fatbase (v_fs v) + (c + c div 2) div 512) v = (FR_OK, v1)"
    "sound (v_dsk v1)" "vol_ok sec v1" using mw by blast
  let ?v1 = "\<lambda>b. set_wflag (put_win_byte (c + c div 2) b v1)"
  have "vol_ok sec (?v1 b)" for b
    unfolding put_win_byte_def by (rule store_win(1) [OF v1(3)]) (simp add: win_length [OF v1(3)])
  then have m2: "\<exists>w. move_window ops s (?v1 b) = (FR_OK, w) \<and> sound (v_dsk w)" for s b
    using move_window_sound [of "?v1 b" s] v1(2) by simp
  obtain v2 where v2: "\<And>b. move_window ops (fs_fatbase (v_fs v) + (c + c div 2 + 1) div 512) (?v1 b) = (FR_OK, v2 b)"
    "\<And>b. sound (v_dsk (v2 b))" using m2 by metis
  obtain v3 where v3: "move_window ops (fs_fatbase (v_fs v) + c div 256) v = (FR_OK, v3)" "sound (v_dsk v3)"
    using mw by blast
  obtain v4 where v4: "move_window ops (fs_fatbase (v_fs v) + c div 128) v = (FR_OK, v4)" "sound (v_dsk v4)"
    using mw by blast
  have "fs_type (v_fs v) \<in> {FS_FAT12, FS_FAT16, FS_FAT32}" using ok by (simp add: fat_ok_def)
  with p c v1 v2 v3 v4 show ?thesis
    by (auto simp: put_fat_def Let_def not_less [symmetric] fs_types split: if_splits)
qed

lemma remove_loop_sound:
  assumes "fat_ok sec v" "sound (v_dsk v)" "is_chain (fat_entry sec v) (fs_n_fatent (v_fs v)) c xs"
    and "remove_loop ops c v = Some (r, v')"
  shows "r = FR_OK \<and> sound (v_dsk v')"
  using assms
proof (induction xs arbitrary: c v)
  case Nil
  then show ?case by (subst (asm) remove_loop.simps) (auto simp: leD)
next
  case (Cons x xs)
  let ?N = "fs_n_fatent (v_fs v)" and ?E = "fat_entry sec v"
  have c: "c = x" "2 \<le> x" "x < ?N" and tl: "is_chain ?E ?N (?E x) xs" using Cons.prems(3) by auto
  have dist: "x \<notin> set xs" using is_chain_distinct [OF Cons.prems(3)] by simp
  have nz: "?E x \<noteq> 0" "?E x \<noteq> 1" using is_chain_link [OF Cons.prems(3)] c by auto
  obtain n v1 where g: "get_fat ops x v = (n, v1)" by fastforce
  note s1 = get_fat_step [OF Cons.prems(1) g] and d1 = get_fat_sound [OF Cons.prems(1,2) g]
  have ok1: "fat_ok sec v1" and N1: "fs_n_fatent (v_fs v1) = ?N"
    using fat_step_ok [OF s1(1)] fat_step_fatent [OF s1(1)] by simp_all
  have n: "n = ?E x" using d1(2) c by blast
  obtain r1 v2 where p: "put_fat ops x 0 v1 = (r1, v2)" by fastforce
  have r1: "r1 = FR_OK" "sound (v_dsk v2)" using put_fat_sound [OF ok1 d1(1) _ _ p] c N1 by auto
  note pe = put_fat_entry [OF ok1 p] and ps = put_fat_step [OF ok1 p]
  define v3 where "v3 = count_free (\<lambda>n. n + 1) v2"
  have s3: "fat_step sec v v3"
    unfolding v3_def using fat_step_trans [OF s1(1) ps(1)] fat_ok_hints(2) fat_step_ok fat_step_trans by blast
  have N3: "fs_n_fatent (v_fs v3) = ?N" by (rule fat_step_fatent [OF s3])
  have E3: "m < ?N \<Longrightarrow> m \<noteq> x \<Longrightarrow> fat_entry sec v3 m = ?E m" for m
    using pe(4) [of m] s1(2) N1 by (simp add: v3_def)
  have rest: "remove_loop ops (?E x) v3 = Some (r, v')"
    using Cons.prems(4) g c n nz p r1 by (subst (asm) remove_loop.simps) (simp add: fat_entry_bound v3_def)
  have ch: "is_chain (fat_entry sec v3) (fs_n_fatent (v_fs v3)) (?E x) xs"
    unfolding N3 using tl by (rule is_chain_cong) (use E3 dist is_chain_range [OF tl] in auto)
  have "sound (v_dsk v3)" using r1(2) by (simp add: v3_def)
  from Cons.IH [OF fat_step_ok [OF s3] this ch rest] show ?case .
qed

lemma create_search_sound:
  assumes "fat_ok sec v" "sound (v_dsk v)" "1 \<le> scl" "scl < fs_n_fatent (v_fs v)" "1 \<le> ncl"
    "ncl < fs_n_fatent (v_fs v)" "create_search ops scl ncl v = Some (res, v')"
  shows "res \<noteq> Inl 0xFFFFFFFF \<and> sound (v_dsk v')"
  using assms
proof (induction "search_left (fs_n_fatent (v_fs v)) scl ncl" arbitrary: ncl v rule: less_induct)
  case less
  let ?N = "fs_n_fatent (v_fs v)"
  let ?x = "search_next ?N ncl"
  note nx = search_next [OF less.prems(3-6)]
  obtain cs v1 where g: "get_fat ops ?x v = (cs, v1)" by fastforce
  note unf = create_search_unfold [OF g, of scl]
  show ?case
  proof (cases "?N \<le> ncl + 1 \<and> scl < 2")
    case True
    with less.prems(2,7) show ?thesis by (auto simp: unf)
  next
    case go: False
    have x: "2 \<le> ?x" "?x < ?N" "1 \<le> ?x" using nx(2) [OF go] by (auto simp: word_le_nat_alt)
    note s1 = get_fat_step [OF less.prems(1) g] and d1 = get_fat_sound [OF less.prems(1,2) g]
    have cs: "cs \<noteq> 0xFFFFFFFF" using d1(2) [OF x(1,2)] fat_entry_bound by simp
    have N1: "fs_n_fatent (v_fs v1) = ?N" by (rule fat_step_fatent [OF s1(1)])
    show ?thesis
    proof (cases "cs = 0 \<or> cs = 1 \<or> ?x = scl")
      case True
      with less.prems(7) cs d1(1) show ?thesis unfolding unf if_not_P [OF go] by (auto split: if_splits)
    next
      case False
      then have "create_search ops scl ?x v1 = Some (res, v')"
        using less.prems(7) cs unfolding unf if_not_P [OF go] by auto
      with less.hyps [of v1 ?x] nx(5) go False fat_step_ok [OF s1(1)] d1(1) less.prems x show ?thesis
        unfolding N1 by blast
    qed
  qed
qed

lemma create_from_sound:
  assumes ok: "fat_ok sec v" and sd: "sound (v_dsk v)" and scl: "1 \<le> scl" "scl < fs_n_fatent (v_fs v)"
    and c: "clst = 0 \<or> 2 \<le> clst \<and> clst < fs_n_fatent (v_fs v)"
    and f: "create_from ops clst scl v = Some (r, v')"
  shows "r \<noteq> 0xFFFFFFFF \<and> sound (v_dsk v')"
proof -
  obtain res v1 where s: "create_search ops scl scl v = Some (res, v1)" "keeps_view sec v v1"
    "search_result (fat_entry sec v) (fs_n_fatent (v_fs v)) (search_rest (fs_n_fatent (v_fs v)) scl scl) res"
    using create_search_spec [OF ok scl scl] by blast
  have sd1: "res \<noteq> Inl 0xFFFFFFFF" "sound (v_dsk v1)"
    using create_search_sound [OF ok sd scl scl s(1)] by auto
  have st: "fat_step sec v v1" by (rule keeps_view_fat_step [OF s(2) ok])
  have N1: "fs_n_fatent (v_fs v1) = fs_n_fatent (v_fs v)" by (rule fat_step_fatent [OF st])
  show ?thesis
  proof (cases res)
    case (Inl x)
    with f s(1) sd1 show ?thesis by (auto simp: create_from_def)
  next
    case (Inr x)
    have x: "2 \<le> x" "x < fs_n_fatent (v_fs v1)" using s(3) Inr N1 by (auto simp: search_result_def)
    obtain r1 v2 where p1: "put_fat ops x 0x0FFFFFFF v1 = (r1, v2)" by fastforce
    have ok1: "fat_ok sec v1" by (rule fat_step_ok [OF st])
    have p1': "r1 = FR_OK" "sound (v_dsk v2)" using put_fat_sound [OF ok1 sd1(2) x p1] by auto
    have ok2: "fat_ok sec v2" "fs_n_fatent (v_fs v2) = fs_n_fatent (v_fs v)"
      using put_fat_step(1) [OF ok1 p1] fat_step_ok fat_step_fatent N1 by metis+
    obtain r2 v3 where p2: "put_fat ops clst x v2 = (r2, v3)" by fastforce
    have "clst \<noteq> 0 \<Longrightarrow> r2 = FR_OK \<and> sound (v_dsk v3)"
      using put_fat_sound [OF ok2(1) p1'(2) _ _ p2] c ok2(2) by auto
    moreover have "x \<noteq> 0xFFFFFFFF" using x(2) fat_ok_fatent [OF ok1] by auto
    ultimately show ?thesis using f s(1) Inr p1 p1' p2
      by (cases "clst = 0") (auto simp: create_from_def create_link_def)
  qed
qed

lemma create_chain_sound:
  assumes ok: "fat_ok sec v" and sd: "sound (v_dsk v)"
    and c: "clst = 0 \<or> 2 \<le> clst \<and> clst < fs_n_fatent (v_fs v)"
    and f: "create_chain ops clst v = Some (r, v')"
  shows "r \<noteq> 0xFFFFFFFF \<and> sound (v_dsk v')"
proof -
  let ?N = "fs_n_fatent (v_fs v)"
  have N: "2 < ?N" "?N < 0xFFFFFFFF" using ok fat_ok_fatent [OF ok] by (auto simp: fat_ok_def)
  show ?thesis
  proof (cases "clst = 0")
    case True
    let ?scl = "if fs_last_clust (v_fs v) = 0 \<or> ?N \<le> fs_last_clust (v_fs v) then 1 else fs_last_clust (v_fs v)"
    have "1 \<le> ?scl" "?scl < ?N" using N by (auto simp: word_le_nat_alt word_less_nat_alt word_unat_eq_iff)
    moreover have "create_from ops 0 ?scl v = Some (r, v')"
      using True f by (simp add: create_chain_def Let_def)
    ultimately show ?thesis using create_from_sound [OF ok sd] by blast
  next
    case False
    then have c: "2 \<le> clst" "clst < ?N" using c by auto
    obtain cs v1 where g: "get_fat ops clst v = (cs, v1)" by fastforce
    note gs = get_fat_step(1) [OF ok g] and d = get_fat_sound [OF ok sd g]
    have ok1: "fat_ok sec v1" "fs_n_fatent (v_fs v1) = ?N" using fat_step_ok [OF gs] fat_step_fatent [OF gs] by auto
    have one: "1 \<le> clst" using c(1) by (simp add: word_le_nat_alt)
    have "create_chain ops clst v = (if cs < 2 then Some (1, v1) else if cs < ?N then Some (cs, v1)
        else create_from ops clst clst v1)"
      using g False by (simp add: create_chain_def ok1(2))
    with f d(1) N create_from_sound [OF ok1(1) d(1) one, of clst r v'] ok1(2) c show ?thesis
      by (auto split: if_splits)
  qed
qed

end

end
