(* ===== verification/FatMounted.thy ===== *)
theory FatMounted
  imports FatMount FatReliable
begin

text \<open>
  What mounting establishes: the invariant \<open>fat_ok\<close> that the table operations rely on, and the
  geometry the boot record describes.
\<close>

section \<open>The boot record\<close>

text \<open>A cluster size that passes the test of the source is a power of two.\<close>

lemma nat_and_pred_0: "0 < n \<Longrightarrow> n AND (n - 1) = (0 :: nat) \<Longrightarrow> \<exists>k. n = 2 ^ k"
proof (induction n rule: less_induct)
  case (less n)
  show ?case
  proof (cases "even n")
    case True
    then obtain m where m: "n = 2 * m" by auto
    have "(2 * m) AND (2 * m - 1) = 2 * (m AND (m - 1))"
      using less.prems(1) m by (cases m) (simp_all add: and_nat_rec [of "Suc (Suc (2 * _))"] and_nat_rec [of "2 * m"])
    with less.prems m have "m AND (m - 1) = 0" by simp
    then obtain k where "m = 2 ^ k" using less.IH [of m] less.prems(1) m by auto
    then show ?thesis using m by (intro exI [of _ "Suc k"]) simp
  next
    case False
    then obtain m where m: "n = 2 * m + 1" using oddE by blast
    then have "n AND (n - 1) = 2 * m" by (simp add: and_nat_rec [of "Suc (2 * m)"])
    with less.prems m show ?thesis by (intro exI [of _ 0]) simp
  qed
qed

lemma power_of_two_byte:
  assumes "b \<noteq> 0" "b AND (b - 1) = (0 :: byte)"
  shows "\<exists>k < 8. unat b = 2 ^ k"
proof -
  have "1 \<le> b" using assms(1) by (simp add: word_le_nat_alt unat_gt_0 Suc_leI)
  then have "unat b AND (unat b - 1) = 0"
    using arg_cong [OF assms(2), of unat] by (simp add: unsigned_and_eq unat_sub)
  then obtain k where "unat b = 2 ^ k" using nat_and_pred_0 [of "unat b"] assms(1) by (auto simp: unat_gt_0)
  moreover have "k < 8" using unat_byte_lt [of b] power_strict_increasing_iff [of "2 :: nat" k 8] calculation by simp
  ultimately show ?thesis by blast
qed

lemma no_fs_error: "(if c then (FR_NO_FILESYSTEM, a, x) else y) = (FR_OK, b, z) \<longleftrightarrow> \<not> c \<and> y = (FR_OK, b, z)"
  by auto

lemma bpb_limits_ok:
  assumes "bpb_limits fmt nclst bsect nrsv fasize sysect fs = (FR_OK, fmt', fs')"
  shows "fmt' = fmt \<and> fs_n_fatent fs' = nclst + 2 \<and> fs_volbase fs' = bsect \<and>
    fs_fatbase fs' = bsect + ucast nrsv \<and> fs_database fs' = bsect + sysect \<and>
    fs_fsize fs' = fs_fsize fs \<and> fs_n_fats fs' = fs_n_fats fs \<and> fs_csize fs' = fs_csize fs \<and>
    fs_n_rootdir fs' = fs_n_rootdir fs \<and> fs_drv fs' = fs_drv fs \<and> fs_win fs' = fs_win fs \<and>
    (fmt = FS_FAT32 \<longleftrightarrow> fs_n_rootdir fs' = 0) \<and>
    (fmt \<noteq> FS_FAT32 \<longrightarrow> fs_dirbase fs' = fs_fatbase fs' + fasize) \<and>
    (fat_bytes fmt (fs_n_fatent fs') + 511) div 512 \<le> fs_fsize fs'"
  using assms by (auto simp: bpb_limits_def Let_def split: if_splits)

definition bpb_ok :: "u32 \<Rightarrow> u32 \<Rightarrow> u16 \<Rightarrow> byte \<Rightarrow> fatfs \<Rightarrow> fatfs \<Rightarrow> bool" where
  "bpb_ok bsect nclst nrsv fmt fs fs' \<longleftrightarrow> nclst \<noteq> 0 \<and> nrsv \<noteq> 0 \<and> fs_n_fats fs' \<in> {1, 2} \<and>
    fs_csize fs' \<noteq> 0 \<and> fs_csize fs' AND (fs_csize fs' - 1) = 0 \<and> fs_n_rootdir fs' mod 16 = 0 \<and>
    fmt = (if MIN_FAT32 \<le> nclst then FS_FAT32 else if MIN_FAT16 \<le> nclst then FS_FAT16 else FS_FAT12) \<and>
    fs_n_fatent fs' = nclst + 2 \<and> fs_volbase fs' = bsect \<and> fs_fatbase fs' = bsect + ucast nrsv \<and>
    fs_database fs' = fs_fatbase fs' + fs_fsize fs' * ucast (fs_n_fats fs') + ucast (fs_n_rootdir fs' div 16) \<and>
    fs_drv fs' = fs_drv fs \<and> fs_win fs' = fs_win fs \<and>
    (fmt = FS_FAT32 \<longleftrightarrow> fs_n_rootdir fs' = 0) \<and>
    (fmt \<noteq> FS_FAT32 \<longrightarrow> fs_dirbase fs' = fs_fatbase fs' + fs_fsize fs' * ucast (fs_n_fats fs')) \<and>
    (fat_bytes fmt (fs_n_fatent fs') + 511) div 512 \<le> fs_fsize fs'"

lemma bpb_limits_bpb_ok:
  assumes "bpb_limits fmt1 nclst bsect nrsv (fasize * ucast b) sysect fs1 = (FR_OK, fmt, fs')"
    "nclst \<noteq> 0" "nrsv \<noteq> 0" "b = 1 \<or> b = 2" "csize \<noteq> 0" "csize AND (csize - 1) = 0" "rt mod 16 = 0"
    "fs1 = fs\<lparr>fs_fsize := fasize, fs_n_fats := b, fs_csize := csize, fs_n_rootdir := rt\<rparr>"
    "sysect = ucast nrsv + fasize * ucast b + ucast (rt div 16)"
    "fmt1 = (if MIN_FAT32 \<le> nclst then FS_FAT32 else if MIN_FAT16 \<le> nclst then FS_FAT16 else FS_FAT12)"
  shows "bpb_ok bsect nclst nrsv fmt fs fs'"
proof -
  note L = bpb_limits_ok [OF assms(1)]
  have "fmt = (if MIN_FAT32 \<le> nclst then FS_FAT32 else if MIN_FAT16 \<le> nclst then FS_FAT16 else FS_FAT12)"
    using L assms(10) by blast
  with L assms(2-9) show ?thesis unfolding bpb_ok_def by (clarsimp simp: add.assoc simp del: if_split_eq1)
qed

lemma read_bpb_ok:
  assumes "read_bpb bsect fs = (FR_OK, fmt, fs')"
  shows "\<exists>nclst nrsv. bpb_ok bsect nclst nrsv fmt fs fs'"
  using assms unfolding read_bpb_def Let_def no_fs_error
  apply (elim conjE)
  apply (rule exI, rule exI)
  apply (rule bpb_limits_bpb_ok, assumption)
  apply (simp_all add: MIN_FAT16_def MIN_FAT32_def)
  done

text \<open>
  What a boot record says of the volume, in natural numbers: sectors of a FAT, of the volume and of the area in front of the clusters,
  and the number of clusters. The record fits when the area lies in the volume, the volume in the sectors that 32 bits can
  number, and the clusters in 28-bit entries.
\<close>

definition boot_fatsz :: "byte list \<Rightarrow> nat" where
  "boot_fatsz b = (if ld_word b BPB_FATSz16 = 0 then unat (ld_dword b BPB_FATSz32) else unat (ld_word b BPB_FATSz16))"

definition boot_total :: "byte list \<Rightarrow> nat" where
  "boot_total b = (if ld_word b BPB_TotSec16 = 0 then unat (ld_dword b BPB_TotSec32) else unat (ld_word b BPB_TotSec16))"

definition boot_area :: "byte list \<Rightarrow> nat" where
  "boot_area b = unat (ld_word b BPB_RsvdSecCnt) + boot_fatsz b * unat (b ! BPB_NumFATs) + unat (ld_word b BPB_RootEntCnt) div 16"

definition boot_clusters :: "byte list \<Rightarrow> nat" where
  "boot_clusters b = (boot_total b - boot_area b) div unat (b ! BPB_SecPerClus)"

definition boot_fits :: "byte list \<Rightarrow> u32 \<Rightarrow> bool" where
  "boot_fits b base \<longleftrightarrow> boot_area b \<le> boot_total b \<and> unat base + boot_total b < 4294967296 \<and> boot_clusters b \<le> 0x0FFFFFFD"

text \<open>Where the boot record is: in sector 0, or where the first entry of a partition table there says.\<close>

definition boot_base :: "(u32 \<Rightarrow> byte list) \<Rightarrow> u32" where
  "boot_base m =
     (if ld_word (m 0) BS_55AA = 0xAA55 \<and> ld_dword (m 0) BS_FilSysType AND 0xFFFFFF \<noteq> 0x544146 \<and>
         ld_dword (m 0) BS_FilSysType32 AND 0xFFFFFF \<noteq> 0x544146 \<and> m 0 ! (MBR_Table + 4) \<noteq> 0
      then ld_dword (m 0) (MBR_Table + 8) else 0)"

text \<open>The fields that \<open>read_bpb\<close> takes from the record, in machine words.\<close>

definition bpb_fatsz :: "byte list \<Rightarrow> u32" where
  "bpb_fatsz w = (let x = ucast (ld_word w BPB_FATSz16) in if x = 0 then ld_dword w BPB_FATSz32 else x)"

definition bpb_total :: "byte list \<Rightarrow> u32" where
  "bpb_total w = (let x = ucast (ld_word w BPB_TotSec16) in if x = 0 then ld_dword w BPB_TotSec32 else x)"

definition bpb_area :: "byte list \<Rightarrow> u32" where
  "bpb_area w = ucast (ld_word w BPB_RsvdSecCnt) + bpb_fatsz w * ucast (w ! BPB_NumFATs) + ucast (ld_word w BPB_RootEntCnt div 16)"

lemma bpb_limits_fields:
  assumes "bpb_limits fmt nclst bsect nrsv fasize sysect fs = (FR_OK, fmt', fs')" "fs_fsize fs = z" "fs_n_fats fs = b" "fs_csize fs = c"
  shows "fs_fsize fs' = z \<and> fs_n_fats fs' = b \<and> fs_csize fs' = c \<and> fs_n_fatent fs' = nclst + 2 \<and> fs_volbase fs' = bsect \<and>
    fs_fatbase fs' = bsect + ucast nrsv \<and> fs_database fs' = bsect + sysect"
  using bpb_limits_ok [OF assms(1)] assms(2-4) by simp

lemma read_bpb_fields:
  assumes "read_bpb bsect fs = (FR_OK, fmt, fs')" "w = fs_win fs"
  shows "fs_fsize fs' = bpb_fatsz w \<and> fs_n_fats fs' = w ! BPB_NumFATs \<and> fs_csize fs' = w ! BPB_SecPerClus \<and>
    fs_n_fatent fs' = (bpb_total w - bpb_area w) div ucast (w ! BPB_SecPerClus) + 2 \<and> fs_volbase fs' = bsect \<and>
    fs_fatbase fs' = bsect + ucast (ld_word w BPB_RsvdSecCnt) \<and> fs_database fs' = bsect + bpb_area w"
  using assms(1) unfolding read_bpb_def Let_def no_fs_error
  apply (elim conjE)
  apply (drule bpb_limits_fields)
     apply (rule refl)+
  apply (simp add: bpb_fatsz_def bpb_total_def bpb_area_def Let_def assms(2))
  done

lemma bpb_words:
  "unat (bpb_fatsz w) = boot_fatsz w" "unat (bpb_total w) = boot_total w"
proof -
  have "(ucast x :: u32) = 0 \<longleftrightarrow> x = 0" for x :: u16 by (metis unat_ucast_16_32 unat_eq_zero)
  then show "unat (bpb_fatsz w) = boot_fatsz w" "unat (bpb_total w) = boot_total w"
    by (simp_all add: bpb_fatsz_def bpb_total_def boot_fatsz_def boot_total_def Let_def)
qed

lemma bpb_area_word:
  assumes "boot_area w < 4294967296"
  shows "unat (bpb_area w) = boot_area w"
proof -
  let ?f = "boot_fatsz w * unat (w ! BPB_NumFATs)" and ?n = "unat (ld_word w BPB_RsvdSecCnt)" and ?r = "unat (ld_word w BPB_RootEntCnt) div 16"
  have le: "?f < 4294967296" "?n + ?f < 4294967296" "?n + ?f + ?r < 4294967296" using assms by (simp_all add: boot_area_def)
  have "unat (bpb_fatsz w * ucast (w ! BPB_NumFATs)) = ?f"
    using le(1) by (subst unat_mult_lem [THEN iffD1]) (simp_all add: bpb_words)
  moreover have "unat (ucast (ld_word w BPB_RootEntCnt div 16) :: u32) = ?r" by (simp add: unat_div)
  ultimately show ?thesis
    using le unfolding bpb_area_def boot_area_def by (simp add: unat_add_small)
qed

lemma boot_fits_words:
  assumes "boot_fits w base"
  shows "unat (bpb_area w) = boot_area w" "unat (bpb_total w - bpb_area w) = boot_total w - boot_area w"
    "unat ((bpb_total w - bpb_area w) div ucast (w ! BPB_SecPerClus)) = boot_clusters w"
    "unat base + boot_area w < 4294967296"
proof -
  have le: "boot_area w \<le> boot_total w" and lt: "unat base + boot_total w < 4294967296" using assms by (simp_all add: boot_fits_def)
  then have "boot_area w < 4294967296" by linarith
  then show a: "unat (bpb_area w) = boot_area w" by (rule bpb_area_word)
  then show d: "unat (bpb_total w - bpb_area w) = boot_total w - boot_area w"
    using le by (simp add: unat_sub word_le_nat_alt bpb_words)
  show "unat ((bpb_total w - bpb_area w) div ucast (w ! BPB_SecPerClus)) = boot_clusters w"
    by (simp add: unat_div d boot_clusters_def)
  show "unat base + boot_area w < 4294967296" using le lt by linarith
qed

text \<open>The table a record announces has room for its entries; 32 bits do not overflow below 2^28 entries.\<close>

lemma fat_bytes_extent:
  assumes "n \<le> 0x0FFFFFFF" "(fat_bytes t n + 511) div 512 \<le> z" "t \<in> {FS_FAT12, FS_FAT16, FS_FAT32}"
  shows "fat_extent t (unat n) \<le> 512 * unat z"
proof -
  have n: "unat n \<le> 0x0FFFFFFF" using assms(1) by (simp add: word_le_nat_alt)
  have one: "unat (n AND 1) = unat n mod 2"
    by (simp add: and_one_eq unat_mod)
  have b: "unat (fat_bytes t n) = fat_extent t (unat n)"
  proof -
    have "unat (n * 4) = unat n * 4" "unat (n * 2) = unat n * 2" "unat (n * 3) = unat n * 3"
      using n by (subst unat_mult_lem [THEN iffD1]; simp)+
    moreover from this have "unat (n * 3 div 2) = unat n * 3 div 2" by (simp add: unat_div)
    moreover have "unat n * 3 div 2 + unat n mod 2 = unat n + unat n div 2 + unat n mod 2"
      by (cases "even (unat n)") (auto elim!: evenE oddE)
    moreover have "unat (n * 3 div 2 + (n AND 1)) = unat (n * 3 div 2) + unat (n AND 1)"
      using calculation n one by (intro unat_add_small) simp
    ultimately show ?thesis using assms(3) one by (auto simp: fat_bytes_def fat_extent_def fs_types)
  qed
  have "unat (fat_bytes t n) \<le> 4 * 0x0FFFFFFF" using b n assms(3) by (auto simp: fat_extent_def fs_types)
  then have "unat (fat_bytes t n + 511) = unat (fat_bytes t n) + 511" by (subst unat_add_small) simp_all
  then have "(fat_extent t (unat n) + 511) div 512 \<le> unat z"
    using assms(2) b by (simp add: word_le_nat_alt unat_div)
  then show ?thesis by linarith
qed

lemma bpb_ok_fatent:
  assumes "bpb_ok bsect nclst nrsv fmt fs fs'" "2 < fs_n_fatent fs'" "fs_n_fatent fs' \<le> 0x0FFFFFFF"
  shows "fmt \<in> {FS_FAT12, FS_FAT16, FS_FAT32} \<and> fmt \<noteq> 0 \<and> fs_n_fatent fs' \<le> val_mask fmt"
proof -
  have n: "fs_n_fatent fs' = nclst + 2"
    and fmt: "fmt = (if MIN_FAT32 \<le> nclst then FS_FAT32 else if MIN_FAT16 \<le> nclst then FS_FAT16 else FS_FAT12)"
    using assms(1) by (simp_all add: bpb_ok_def)
  have N: "3 \<le> unat (nclst + 2)" "unat (nclst + 2) \<le> 0x0FFFFFFF"
    using assms(2,3) unfolding n by (simp_all add: word_le_nat_alt word_less_nat_alt)
  then have u: "unat (nclst + 2) = unat nclst + 2"
  proof -
    have "unat (nclst + 2) = (unat nclst + 2) mod 4294967296" by (simp add: unat_word_ariths)
    moreover have "x mod 4294967296 = x" if "x < 4294967298" "3 \<le> x mod 4294967296" for x :: nat
    proof (cases "x < 4294967296")
      case False
      then have "x mod 4294967296 = x - 4294967296" using that(1) by (simp add: le_mod_geq)
      then show ?thesis using that by simp
    qed simp
    ultimately show ?thesis using N(1) unat_u32_lt [of nclst] by simp
  qed
  have masks: "val_mask FS_FAT12 = 0xFFF" "val_mask FS_FAT16 = 0xFFFF" "val_mask FS_FAT32 = 0x0FFFFFFF"
    and nz: "FS_FAT12 \<noteq> 0" "FS_FAT16 \<noteq> 0" "FS_FAT32 \<noteq> 0"
    by (simp_all add: val_mask_def fs_types)
  show ?thesis
  proof (cases "MIN_FAT32 \<le> nclst")
    case True
    then have "fmt = FS_FAT32" using fmt by simp
    then show ?thesis using masks nz assms(3) by simp
  next
    case False
    have lim: "unat nclst < 65526" using False by (simp add: word_le_nat_alt MIN_FAT32_def)
    show ?thesis
    proof (cases "MIN_FAT16 \<le> nclst")
      case True
      then have t: "fmt = FS_FAT16" using False fmt by simp
      have "nclst + 2 \<le> 0xFFFF" unfolding word_le_nat_alt u using lim by simp
      then show ?thesis using t masks nz n by simp
    next
      case F16: False
      then have t: "fmt = FS_FAT12" using False fmt by simp
      have "unat nclst < 4086" using F16 by (simp add: word_le_nat_alt MIN_FAT16_def)
      then have "nclst + 2 \<le> 0xFFF" unfolding word_le_nat_alt u by simp
      then show ?thesis using t masks nz n by simp
    qed
  qed
qed

section \<open>The invariant after mounting\<close>

context block_device
begin

lemma check_fs_keeps:
  assumes "check_fs ops s v = (fmt, v')" "ready sec (v_dsk v)" "fs_drv (v_fs v) = 0" "length (fs_win (v_fs v)) = 512"
  shows "sec (v_dsk v') = sec (v_dsk v) \<and> length (fs_win (v_fs v')) = 512 \<and>
    v_fs v' = (v_fs v)\<lparr>fs_win := fs_win (v_fs v')\<rparr> \<and> (fmt \<noteq> 3 \<longrightarrow> fs_win (v_fs v') = sec (v_dsk v) s)"
proof -
  obtain r win d where rd: "d_read ops 0 (fs_win (v_fs v)) s 1 (v_dsk v) = (r, win, d)" by (metis prod_cases3)
  have "sec d = sec (v_dsk v)" using read_keeps [OF assms(2) rd] .
  moreover have "length win = 512" using read_one_length [OF assms(2) rd assms(4)] .
  moreover have "r = RES_OK \<Longrightarrow> win = sec (v_dsk v) s" using read_one [OF assms(2) _ assms(4)] rd by blast
  ultimately show ?thesis using assms(1) rd assms(3)
    by (auto simp: check_fs_def Let_def split: if_splits)
qed

lemma find_boot_keeps:
  assumes "find_boot ops v = (fmt, bsect, v')" "ready sec (v_dsk v)" "fs_drv (v_fs v) = 0"
    "length (fs_win (v_fs v)) = 512"
  shows "sec (v_dsk v') = sec (v_dsk v) \<and> length (fs_win (v_fs v')) = 512 \<and>
    v_fs v' = (v_fs v)\<lparr>fs_win := fs_win (v_fs v')\<rparr> \<and> (fmt \<noteq> 3 \<longrightarrow> fs_win (v_fs v') = sec (v_dsk v) bsect)"
proof -
  obtain f1 v1 where c1: "check_fs ops 0 v = (f1, v1)" by (metis surj_pair)
  note k1 = check_fs_keeps [OF c1 assms(2-4)]
  show ?thesis
  proof (cases "f1 = 1 \<and> fs_win (v_fs v1) ! (MBR_Table + 4) \<noteq> 0")
    case True
    obtain f2 v2 where c2: "check_fs ops (ld_dword (fs_win (v_fs v1)) (MBR_Table + 8)) v1 = (f2, v2)" by (metis surj_pair)
    have "fs_drv (v_fs v1) = 0" "ready sec (v_dsk v1)" using k1 assms(2,3) by (metis fatfs.select_convs(2) fatfs.surjective fatfs.update_convs(19), simp add: ready_def)
    note k2 = check_fs_keeps [OF c2 this(2) this(1)]
    show ?thesis using assms(1) c1 c2 True k1 k2 by (auto simp: find_boot_def)
  next
    case False
    then show ?thesis using assms(1) c1 k1 by (auto simp: find_boot_def)
  qed
qed

text \<open>The sector of the boot record that was found is the one the medium determines.\<close>

lemma check_fs_code:
  assumes "check_fs ops s v = (fmt, v')" "ready sec (v_dsk v)" "fs_drv (v_fs v) = 0" "length (fs_win (v_fs v)) = 512" "fmt \<noteq> 3"
  shows "fmt = (if ld_word (sec (v_dsk v) s) BS_55AA \<noteq> 0xAA55 then 2
    else if ld_dword (sec (v_dsk v) s) BS_FilSysType AND 0xFFFFFF = 0x544146 then 0
    else if ld_dword (sec (v_dsk v) s) BS_FilSysType32 AND 0xFFFFFF = 0x544146 then 0 else 1)"
proof -
  have w: "fs_win (v_fs v') = sec (v_dsk v) s" using check_fs_keeps [OF assms(1-4)] assms(5) by blast
  then show ?thesis using assms(1,5) by (auto simp: check_fs_def Let_def split: if_splits prod.splits)
qed

lemma find_boot_base:
  assumes "find_boot ops v = (0, bsect, v')" "ready sec (v_dsk v)" "fs_drv (v_fs v) = 0" "length (fs_win (v_fs v)) = 512"
  shows "bsect = boot_base (sec (v_dsk v))"
proof -
  obtain f1 v1 where c1: "check_fs ops 0 v = (f1, v1)" by (metis surj_pair)
  have f1: "f1 \<noteq> 3" using assms(1) c1 by (auto simp: find_boot_def split: if_splits)
  note code = check_fs_code [OF c1 assms(2-4) f1]
  have w: "fs_win (v_fs v1) = sec (v_dsk v) 0" using check_fs_keeps [OF c1 assms(2-4)] f1 by blast
  show ?thesis
    using assms(1) c1 code w by (auto simp: find_boot_def boot_base_def Let_def split: if_splits prod.splits)
qed

lemma read_fsinfo_keeps:
  assumes "ready sec (v_dsk v)" "fs_drv (v_fs v) = 0" "length (fs_win (v_fs v)) = 512"
  shows "sec (v_dsk (read_fsinfo ops fmt bsect v)) = sec (v_dsk v) \<and>
    length (fs_win (v_fs (read_fsinfo ops fmt bsect v))) = 512 \<and>
    same_vol ((v_fs v)\<lparr>fs_fsi_sector := fs_fsi_sector (v_fs (read_fsinfo ops fmt bsect v))\<rparr>) (v_fs (read_fsinfo ops fmt bsect v))"
proof -
  let ?fs = "(v_fs v)\<lparr>fs_free_clust := 0xFFFFFFFF, fs_last_clust := 0\<rparr>"
  let ?s = "bsect + ucast (ld_word (fs_win (v_fs v)) BPB_FSInfo)"
  obtain r win d where rd: "d_read ops 0 (fs_win (v_fs v)) ?s 1 (v_dsk v) = (r, win, d)" by (metis prod_cases3)
  have "sec d = sec (v_dsk v)" using read_keeps [OF assms(1) rd] .
  moreover have "length win = 512" using read_one_length [OF assms(1) rd assms(3)] .
  ultimately show ?thesis using rd assms(2,3)
    by (cases "v_fs v") (simp add: read_fsinfo_def Let_def same_vol_def same_layout_def)
qed

lemma mount_volume_result:
  assumes "mount_volume ops q wmode s = (FR_OK, s')" "d_initialize ops 0 (s_dsk s) = (stat, w)" "ready sec w"
    "length (fs_win (s_obj s q)) = 512"
  obtains bsect nclst nrsv fmt fs v where
    "bsect = boot_base (sec w)"
    "read_bpb bsect ((s_obj s q)\<lparr>fs_type := 0, fs_drv := 0, fs_win := sec w bsect\<rparr>) = (FR_OK, fmt, fs)"
    "bpb_ok bsect nclst nrsv fmt ((s_obj s q)\<lparr>fs_type := 0, fs_drv := 0, fs_win := sec w bsect\<rparr>) fs"
    "vol_of s' q = v" "s_Fsid s' = s_Fsid s + 1" "sec (v_dsk v) = sec w" "length (fs_win (v_fs v)) = 512"
    "fs_winsect (v_fs v) = 0" "fs_wflag (v_fs v) = 0"
    "same_vol (fs\<lparr>fs_type := fmt, fs_id := s_Fsid s', fs_fsi_sector := fs_fsi_sector (v_fs v)\<rparr>) (v_fs v)"
proof -
  define v0 where "v0 = (upd_fs (\<lambda>fs. fs\<lparr>fs_type := 0, fs_drv := 0\<rparr>) (vol_of s q))\<lparr>v_dsk := w\<rparr>"
  obtain f bsect v1 where fb: "find_boot ops v0 = (f, bsect, v1)" by (metis prod_cases3)
  have v0: "ready sec (v_dsk v0)" "fs_drv (v_fs v0) = 0" "length (fs_win (v_fs v0)) = 512"
    "sec (v_dsk v0) = sec w" "v_fs v0 = (s_obj s q)\<lparr>fs_type := 0, fs_drv := 0\<rparr>"
    using assms(3,4) by (simp_all add: v0_def vol_of_def)
  note k = find_boot_keeps [OF fb v0(1-3)]
  obtain res fmt fs where rb: "read_bpb bsect (v_fs v1) = (res, fmt, fs)" by (metis prod_cases3)
  define v2 where "v2 = read_fsinfo ops fmt bsect (v1\<lparr>v_fs := fs\<rparr>)"
  define v where "v = upd_fs (\<lambda>fs. fs\<lparr>fs_type := fmt, fs_id := s_Fsid s + 1, fs_winsect := 0, fs_wflag := 0\<rparr>) v2"
  have step: "f = 0 \<and> res = FR_OK \<and> s' = put_vol q v (s\<lparr>s_Fsid := s_Fsid s + 1\<rparr>)"
    using assms(1,2) fb rb unfolding v_def v2_def v0_def
    by (auto simp: mount_volume_def Let_def vol_of_def split: if_splits)
  obtain nclst nrsv where ok: "bpb_ok bsect nclst nrsv fmt (v_fs v1) fs"
    using read_bpb_ok rb step by blast
  have fs1: "v_fs v1 = (s_obj s q)\<lparr>fs_type := 0, fs_drv := 0, fs_win := sec w bsect\<rparr>"
  proof -
    have "fs_win (v_fs v1) = sec w bsect" using k v0(4) step by simp
    moreover have "v_fs v1 = (v_fs v0)\<lparr>fs_win := fs_win (v_fs v1)\<rparr>" using k by blast
    ultimately show ?thesis using v0(5) by simp
  qed
  have pre: "ready sec (v_dsk (v1\<lparr>v_fs := fs\<rparr>))" "fs_drv (v_fs (v1\<lparr>v_fs := fs\<rparr>)) = 0"
    "length (fs_win (v_fs (v1\<lparr>v_fs := fs\<rparr>))) = 512"
  proof -
    show "fs_drv (v_fs (v1\<lparr>v_fs := fs\<rparr>)) = 0" using ok unfolding fs1 by (simp add: bpb_ok_def)
    have "fs_win fs = fs_win (v_fs v1)" using ok by (simp add: bpb_ok_def)
    then show "length (fs_win (v_fs (v1\<lparr>v_fs := fs\<rparr>))) = 512" using k by simp
    have "ready sec (v_dsk v1)" using k v0(1) by (simp add: ready_def)
    then show "ready sec (v_dsk (v1\<lparr>v_fs := fs\<rparr>))" by simp
  qed
  note f = read_fsinfo_keeps [OF pre, of fmt bsect, folded v2_def]
  show ?thesis
  proof (rule that [of bsect fmt fs nclst nrsv v])
    show "bsect = boot_base (sec w)" using find_boot_base [of v0 bsect v1] fb step v0 by simp
    show "read_bpb bsect ((s_obj s q)\<lparr>fs_type := 0, fs_drv := 0, fs_win := sec w bsect\<rparr>) = (FR_OK, fmt, fs)"
      using rb step fs1 by simp
    show "bpb_ok bsect nclst nrsv fmt ((s_obj s q)\<lparr>fs_type := 0, fs_drv := 0, fs_win := sec w bsect\<rparr>) fs"
      using ok fs1 by simp
    show "vol_of s' q = v" using step by (simp add: vol_of_def put_vol_def)
    show "s_Fsid s' = s_Fsid s + 1" using step by (simp add: put_vol_def)
    show "sec (v_dsk v) = sec w" using f k v0(4) by (simp add: v_def)
    show "length (fs_win (v_fs v)) = 512" using f by (simp add: v_def)
    show "fs_winsect (v_fs v) = 0" "fs_wflag (v_fs v) = 0" by (simp_all add: v_def)
    have "same_vol (fs\<lparr>fs_fsi_sector := fs_fsi_sector (v_fs v2)\<rparr>) (v_fs v2)" using f by simp
    then show "same_vol (fs\<lparr>fs_type := fmt, fs_id := s_Fsid s', fs_fsi_sector := fs_fsi_sector (v_fs v)\<rparr>) (v_fs v)"
      using step by (cases fs; cases "v_fs v2") (simp add: v_def put_vol_def same_vol_def same_layout_def)
  qed
qed

text \<open>The record must fit, which the source does not check.\<close>

lemma mount_fat_ok:
  assumes "mount_volume ops q wmode s = (FR_OK, s')" "d_initialize ops 0 (s_dsk s) = (stat, w)" "ready sec w"
    "length (fs_win (s_obj s q)) = 512" "v = vol_of s' q" "fs = v_fs v"
    "base = boot_base (sec w)" "b = sec w base" "boot_fits b base"
  shows "fat_ok sec v \<and> sec (v_dsk v) = sec w \<and> fs_id fs = s_Fsid s + 1 \<and> s_Fsid s' = s_Fsid s + 1 \<and>
    fs_csize fs \<noteq> 0 \<and> fs_csize fs AND (fs_csize fs - 1) = 0 \<and> fs_n_rootdir fs mod 16 = 0 \<and>
    (fs_type fs = FS_FAT32 \<longleftrightarrow> fs_n_rootdir fs = 0) \<and> unat (fs_volbase fs) < unat (fs_fatbase fs) \<and>
    fs_database fs = fs_fatbase fs + fs_fsize fs * ucast (fs_n_fats fs) + ucast (fs_n_rootdir fs div 16) \<and>
    fs_volbase fs = base \<and> unat (fs_database fs) = unat base + boot_area b \<and> unat (fs_n_fatent fs) = boot_clusters b + 2"
proof -
  obtain bsect nclst nrsv fmt fs0 v' where bb: "bsect = boot_base (sec w)"
    and rb: "read_bpb bsect ((s_obj s q)\<lparr>fs_type := 0, fs_drv := 0, fs_win := sec w bsect\<rparr>) = (FR_OK, fmt, fs0)"
    and ok: "bpb_ok bsect nclst nrsv fmt ((s_obj s q)\<lparr>fs_type := 0, fs_drv := 0, fs_win := sec w bsect\<rparr>) fs0"
    and v': "vol_of s' q = v'" and id: "s_Fsid s' = s_Fsid s + 1" and data: "sec (v_dsk v') = sec w"
    and win: "length (fs_win (v_fs v')) = 512" "fs_winsect (v_fs v') = 0" "fs_wflag (v_fs v') = 0"
    and sv: "same_vol (fs0\<lparr>fs_type := fmt, fs_id := s_Fsid s', fs_fsi_sector := fs_fsi_sector (v_fs v')\<rparr>) (v_fs v')"
    by (rule mount_volume_result [OF assms(1-4)])
  have v: "v = v'" and bs: "bsect = base" using v' assms(5,7) bb by simp_all
  note F = same_vol_fields [OF sv, simplified]
  have R: "fs_fsize fs0 = bpb_fatsz b \<and> fs_n_fats fs0 = b ! BPB_NumFATs \<and>
    fs_n_fatent fs0 = (bpb_total b - bpb_area b) div ucast (b ! BPB_SecPerClus) + 2 \<and>
    fs_fatbase fs0 = base + ucast (ld_word b BPB_RsvdSecCnt) \<and> fs_database fs0 = base + bpb_area b"
    using read_bpb_fields [OF rb refl] bs assms(8) by simp
  have B: "fs_fatbase fs0 = base + ucast nrsv" "fs_volbase fs0 = base" "nrsv \<noteq> 0" "fs_n_fats fs0 \<in> {1, 2}"
    "(fat_bytes fmt (fs_n_fatent fs0) + 511) div 512 \<le> fs_fsize fs0" "fs_n_fatent fs0 = nclst + 2" "nclst \<noteq> 0"
    using ok unfolding bpb_ok_def bs by blast+
  have drv: "fs_drv fs0 = 0" using ok by (simp add: bpb_ok_def)
  note W = boot_fits_words [OF assms(9)]
  have nc: "unat nclst = boot_clusters b" using R B(6) W(3) by simp
  have small: "boot_clusters b \<le> 0x0FFFFFFD" using assms(9) by (simp add: boot_fits_def)
  have ent: "unat (fs_n_fatent fs0) = boot_clusters b + 2"
    unfolding B(6) using nc small by (subst unat_add_small) simp_all
  have "0 < unat nclst" using B(7) by (simp add: unat_gt_0)
  then have "2 < unat (fs_n_fatent fs0)" "unat (fs_n_fatent fs0) \<le> 0x0FFFFFFF" using small unfolding ent nc by linarith+
  then have lim: "2 < fs_n_fatent fs0" "fs_n_fatent fs0 \<le> 0x0FFFFFFF" by (simp_all add: word_le_nat_alt word_less_nat_alt)
  note T = bpb_ok_fatent [OF ok lim]
  have rs: "unat nrsv = unat (ld_word b BPB_RsvdSecCnt)" 
  proof -
    have "(ucast nrsv :: u32) = ucast (ld_word b BPB_RsvdSecCnt)" using R unfolding B(1) by simp
    then show ?thesis by (metis unat_ucast_16_32)
  qed
  have area: "unat base + (unat nrsv + boot_fatsz b * unat (b ! BPB_NumFATs)) < 4294967296"
    using W(4) unfolding boot_area_def rs by linarith
  have fb: "unat (fs_fatbase fs0) = unat base + unat nrsv"
    unfolding B(1) using area by (subst unat_add_small) simp_all
  have ext: "fat_extent fmt (unat (fs_n_fatent fs0)) \<le> 512 * unat (fs_fsize fs0)"
    using fat_bytes_extent [OF lim(2) B(5)] T by blast
  have nz: "0 < unat nrsv" using B(3) by (simp add: unat_gt_0)
  have "unat (fs_fatbase fs0) + unat (fs_n_fats fs0) * unat (fs_fsize fs0) < 4294967296"
    using area R bpb_words(1) [of b] unfolding fb by (simp add: mult.commute)
  moreover have "fs_n_fats fs0 \<noteq> 0" using B(4) by auto
  ultimately have "geom (v_fs v')" using F win(1) drv by (simp add: geom_def)
  moreover have "clean sec v'" using win by (simp add: clean_def)
  moreover have "ready sec (v_dsk v')" using data assms(3) by (simp add: ready_def)
  moreover have "fs_fatbase fs0 \<noteq> 0" using fb nz by (metis add_is_0 less_numeral_extra(3) unat_0)
  ultimately have "fat_ok sec v'" using F T lim ext by (simp add: fat_ok_def vol_ok_def)
  moreover have "unat (fs_volbase fs0) < unat (fs_fatbase fs0)" using fb nz B(2) by simp
  moreover have "unat (fs_database fs0) = unat base + boot_area b"
    using R W(1,4) by (simp add: unat_add_small)
  moreover have "fs_csize fs0 \<noteq> 0" "fs_csize fs0 AND (fs_csize fs0 - 1) = 0" "fs_n_rootdir fs0 mod 16 = 0"
    "fmt = FS_FAT32 \<longleftrightarrow> fs_n_rootdir fs0 = 0"
    "fs_database fs0 = fs_fatbase fs0 + fs_fsize fs0 * ucast (fs_n_fats fs0) + ucast (fs_n_rootdir fs0 div 16)"
    using ok unfolding bpb_ok_def by blast+
  ultimately show ?thesis using F data id ent B(2) unfolding assms(6) v by simp
qed

end

end
