(* ===== verification/FatLookup.thy ===== *)
theory FatLookup
  imports FatPath FatMounted
begin

text \<open>
  Looking things up: every directory operation that does not stretch a table returns, whatever the
  tables on the volume contain, and leaves the logical contents of the volume alone.
\<close>

section \<open>Directory objects in bounds\<close>

text \<open>An object that points to an entry points to one of the sixteen in the window.\<close>

definition at_entry :: "dir \<Rightarrow> bool" where
  "at_entry dj \<longleftrightarrow> d_dir dj = Some (entry_ofs (d_index dj))"

definition same_table :: "dir \<Rightarrow> dir \<Rightarrow> bool" where
  "same_table dj dj' \<longleftrightarrow> d_fs dj' = d_fs dj \<and> d_id dj' = d_id dj \<and> d_sclust dj' = d_sclust dj \<and> d_fn dj' = d_fn dj"

lemma same_table_refl [simp]: "same_table dj dj"
  by (simp add: same_table_def)

lemma same_table_trans: "same_table a b \<Longrightarrow> same_table b c \<Longrightarrow> same_table a c"
  by (simp add: same_table_def)

lemma entry_ofs_less: "entry_ofs i + 31 < 512"
proof -
  have "unat (i mod 16) < 16" by (simp add: unat_mod)
  then show ?thesis by (simp add: entry_ofs_def SZ_DIR_def)
qed

lemma entry_ofs_cluster: "unat ic mod 16 = 0 \<Longrightarrow> ic \<le> idx \<Longrightarrow> entry_ofs (idx - ic) = entry_ofs idx"
  by (simp add: entry_ofs_def unat_mod unat_sub) (metis dvd_eq_mod_eq_0 le_add_diff_inverse2 mod_add_right_eq add_0_right word_le_nat_alt)

lemma unat_entries_per_cluster: "unat (16 * ucast (c :: byte) :: u16) = 16 * unat c"
proof -
  have "16 * (x mod 65536) mod 65536 = 16 * x" if "x < 256" for x :: nat using that by simp
  from this [OF unat_byte_lt] show ?thesis
    by (simp add: unat_word_ariths unsigned_ucast_eq take_bit_eq_mod)
qed

context block_device
begin

lemma sdi_follow_returns:
  assumes "fat_ok sec v" "ic \<noteq> 0" "unat ic mod 16 = 0"
  shows "\<exists>r v'. sdi_follow ops ic idx clst v = Some (r, v') \<and> keeps_view sec v v' \<and>
    r \<noteq> Inl FR_OK \<and> (\<forall>c i. r = Inr (c, i) \<longrightarrow> entry_ofs i = entry_ofs idx)"
  using assms(1)
proof (induction "unat idx" arbitrary: idx clst v rule: less_induct)
  case less
  show ?case
  proof (cases "ic \<le> idx")
    case False
    then show ?thesis using less.prems by (simp add: sdi_follow.simps keeps_view_refl fat_ok_vol)
  next
    case True
    obtain c v1 where g: "get_fat ops clst v = (c, v1)" by fastforce
    have k: "keeps_view sec v v1" using get_fat_entry [OF less.prems g] by blast
    have f1: "fat_ok sec v1" by (rule keeps_view_fat_ok [OF k less.prems])
    have less': "unat (idx - ic) < unat idx"
    proof -
      have "unat ic \<le> unat idx" "0 < unat ic" using True assms(2) by (simp_all add: word_le_nat_alt unat_gt_0)
      then show ?thesis by (simp add: unat_sub [OF True])
    qed
    from less.hyps [OF less' f1, of c] obtain r v' where
      r: "sdi_follow ops ic (idx - ic) c v1 = Some (r, v')" "keeps_view sec v1 v'"
        "r \<noteq> Inl FR_OK" "\<forall>d i. r = Inr (d, i) \<longrightarrow> entry_ofs i = entry_ofs (idx - ic)"
      by blast
    show ?thesis
    proof (cases "c = 0xFFFFFFFF \<or> c < 2 \<or> fs_n_fatent (v_fs v1) \<le> c")
      case True
      then show ?thesis using \<open>ic \<le> idx\<close> g k by (subst sdi_follow.simps) auto
    next
      case False
      then have "sdi_follow ops ic idx clst v = Some (r, v')"
        using \<open>ic \<le> idx\<close> g r(1) by (subst sdi_follow.simps) auto
      moreover have "keeps_view sec v v'" using keeps_view_trans [OF k r(2)] .
      ultimately show ?thesis using r(3,4) entry_ofs_cluster [OF assms(3) \<open>ic \<le> idx\<close>] by auto
    qed
  qed
qed

lemma dir_sdi_returns:
  assumes "fat_ok sec v" "fs_csize (v_fs v) \<noteq> 0"
  shows "\<exists>r dj' v'. dir_sdi ops dj idx v = Some (r, dj', v') \<and> keeps_view sec v v' \<and> same_table dj dj' \<and>
    d_index dj' = idx \<and> (r = FR_OK \<longrightarrow> at_entry dj')"
proof -
  let ?ic = "16 * ucast (fs_csize (v_fs v)) :: u16"
  have ic: "?ic \<noteq> 0" "unat ?ic mod 16 = 0"
    using assms(2) unfolding unat_entries_per_cluster by (simp_all add: word_unat_eq_iff unat_entries_per_cluster)
  obtain r v' where f: "sdi_follow ops ?ic idx c v = Some (r c, v' c)" "keeps_view sec v (v' c)"
    "r c \<noteq> Inl FR_OK"
    "\<forall>d i. r c = Inr (d, i) \<longrightarrow> entry_ofs i = entry_ofs idx" for c
    using sdi_follow_returns [OF assms(1) ic, of idx] by metis
  have k: "keeps_view sec v v" using assms(1) by (simp add: keeps_view_refl fat_ok_vol)
  show ?thesis
    using f k by (auto simp: dir_sdi_def Let_def same_table_def at_entry_def split: sum.splits)
qed

lemma dir_next_returns:
  assumes "fat_ok sec v" "at_entry dj"
  shows "\<exists>r dj' v'. dir_next ops dj False v = Some (r, dj', v') \<and> keeps_view sec v v' \<and> same_table dj dj' \<and>
    at_entry dj' \<and> (r = FR_OK \<longrightarrow> d_index dj' = d_index dj + 1 \<and> d_index dj' \<noteq> 0)"
proof -
  obtain c v1 where g: "get_fat ops (d_clust dj) v = (c, v1)" by fastforce
  have k: "keeps_view sec v v1" using get_fat_entry [OF assms(1) g] by blast
  have k0: "keeps_view sec v v" using assms(1) by (simp add: keeps_view_refl fat_ok_vol)
  show ?thesis
    using g k k0 assms(2) by (auto simp: dir_next_def next_clust_def Let_def same_table_def at_entry_def)
qed

lemma dirfind_loop_returns:
  assumes "fat_ok sec v" "at_entry dj"
  shows "\<exists>r dj' v'. dirfind_loop ops dj v = Some (r, dj', v') \<and> keeps_view sec v v' \<and> same_table dj dj' \<and> at_entry dj'"
  using assms
proof (induction "65536 - unat (d_index dj)" arbitrary: dj v rule: less_induct)
  case less
  obtain p where p: "d_dir dj = Some p" using less.prems(2) by (simp add: at_entry_def)
  obtain res v1 where m: "move_window ops (d_sect dj) v = (res, v1)" by fastforce
  have k: "keeps_view sec v v1" using move_window_keeps [OF fat_ok_vol [OF less.prems(1)] m] by blast
  have f1: "fat_ok sec v1" by (rule keeps_view_fat_ok [OF k less.prems(1)])
  obtain r dj2 v2 where n: "dir_next ops dj False v1 = Some (r, dj2, v2)" "keeps_view sec v1 v2" "same_table dj dj2"
    "at_entry dj2" "r = FR_OK \<longrightarrow> d_index dj2 = d_index dj + 1 \<and> d_index dj2 \<noteq> 0"
    using dir_next_returns [OF f1 less.prems(2)] by blast
  have k2: "keeps_view sec v v2" by (rule keeps_view_trans [OF k n(2)])
  show ?case
  proof (cases "res \<noteq> FR_OK \<or> ent_byte v1 p 0 = 0 \<or> sfn_match v1 p (d_fn dj) \<or> r \<noteq> FR_OK")
    case True
    then show ?thesis using m p n k k2 less.prems(2) by (subst dirfind_loop.simps) auto
  next
    case False
    then have i: "d_index dj2 = d_index dj + 1" "d_index dj2 \<noteq> 0" using n(5) by auto
    then have "unat (d_index dj2) = unat (d_index dj) + 1"
      by (simp add: unat_word_ariths word_unat_eq_iff mod_Suc split: if_splits)
    then have "65536 - unat (d_index dj2) < 65536 - unat (d_index dj)" using unat_u16_lt [of "d_index dj2"] by linarith
    from less.hyps [OF this keeps_view_fat_ok [OF n(2) f1] n(4)] obtain r' dj' v' where
      l: "dirfind_loop ops dj2 v2 = Some (r', dj', v')" "keeps_view sec v2 v'" "same_table dj2 dj'" "at_entry dj'" by blast
    have "dirfind_loop ops dj v = Some (r', dj', v')" using False m p n(1) l(1) by (subst dirfind_loop.simps) auto
    then show ?thesis using keeps_view_trans [OF k2 l(2)] same_table_trans [OF n(3) l(3)] l(4) by blast
  qed
qed

lemma dirread_loop_returns:
  assumes "fat_ok sec v" "at_entry dj"
  shows "\<exists>r dj' v'. dirread_loop ops label res dj v = Some (r, dj', v') \<and> keeps_view sec v v' \<and> same_table dj dj' \<and> at_entry dj'"
  using assms
proof (induction "65536 - unat (d_index dj)" arbitrary: dj v res rule: less_induct)
  case less
  obtain p where p: "d_dir dj = Some p" using less.prems(2) by (simp add: at_entry_def)
  obtain res1 v1 where m: "move_window ops (d_sect dj) v = (res1, v1)" by fastforce
  have k0: "keeps_view sec v v" using less.prems(1) by (simp add: keeps_view_refl fat_ok_vol)
  have k: "keeps_view sec v v1" using move_window_keeps [OF fat_ok_vol [OF less.prems(1)] m] by blast
  have f1: "fat_ok sec v1" by (rule keeps_view_fat_ok [OF k less.prems(1)])
  obtain r dj2 v2 where n: "dir_next ops dj False v1 = Some (r, dj2, v2)" "keeps_view sec v1 v2" "same_table dj dj2"
    "at_entry dj2" "r = FR_OK \<longrightarrow> d_index dj2 = d_index dj + 1 \<and> d_index dj2 \<noteq> 0"
    using dir_next_returns [OF f1 less.prems(2)] by blast
  have k2: "keeps_view sec v v2" by (rule keeps_view_trans [OF k n(2)])
  show ?case
  proof (cases "d_sect dj = 0 \<or> res1 \<noteq> FR_OK \<or> ent_byte v1 p 0 = 0 \<or> entry_valid v1 p label \<or> r \<noteq> FR_OK")
    case True
    then show ?thesis using m p n k k2 k0 less.prems(2) by (subst dirread_loop.simps) auto
  next
    case False
    then have i: "d_index dj2 = d_index dj + 1" "d_index dj2 \<noteq> 0" using n(5) by auto
    then have "unat (d_index dj2) = unat (d_index dj) + 1"
      by (simp add: unat_word_ariths word_unat_eq_iff mod_Suc split: if_splits)
    then have "65536 - unat (d_index dj2) < 65536 - unat (d_index dj)" using unat_u16_lt [of "d_index dj2"] by linarith
    from less.hyps [OF this keeps_view_fat_ok [OF n(2) f1] n(4), of r] obtain r' dj' v' where
      l: "dirread_loop ops label r dj2 v2 = Some (r', dj', v')" "keeps_view sec v2 v'" "same_table dj2 dj'" "at_entry dj'" by blast
    have "dirread_loop ops label res dj v = Some (r', dj', v')" using False m p n(1) l(1) by (subst dirread_loop.simps) auto
    then show ?thesis using keeps_view_trans [OF k2 l(2)] same_table_trans [OF n(3) l(3)] l(4) by blast
  qed
qed

end

section \<open>Names and paths\<close>

text \<open>A path has an end: a control character or a space.\<close>

definition terminated :: "byte list \<Rightarrow> bool" where
  "terminated p \<longleftrightarrow> (\<exists>c \<in> set p. c \<le> 0x20)"

lemma sep_not_end: "is_sep c \<Longrightarrow> \<not> c \<le> 0x20"
  by (auto simp: is_sep_def word_le_nat_alt)

lemma cn_loop_returns:
  assumes "terminated p"
  shows "\<exists>r. cn_loop p i ni b sfn = Some r \<and> (\<forall>s. r = Inl s \<longrightarrow> length s = length sfn) \<and>
    (\<forall>c i' ni' b' s rest. r = Inr (c, i', ni', b', s, rest) \<longrightarrow> length s = length sfn \<and> length rest < length p \<and>
       (\<not> c \<le> 0x20 \<longrightarrow> terminated rest))"
  using assms
proof (induction p i ni b sfn rule: cn_loop.induct)
  case (1 i ni b sfn)
  then show ?case by (simp add: terminated_def)
next
  case (2 c p i ni b sfn)
  show ?case
  proof (cases "c \<le> 0x20 \<or> is_sep c")
    case True
    then show ?thesis using 2(3) sep_not_end by (auto simp: terminated_def)
  next
    case False
    then have tp: "terminated p" using 2(3) by (auto simp: terminated_def)
    show ?thesis
    proof (cases "c = 0x2E \<or> ni \<le> i")
      case True
      show ?thesis
      proof (cases "ni \<noteq> 8 \<or> c \<noteq> 0x2E")
        case True
        then show ?thesis using False \<open>c = 0x2E \<or> ni \<le> i\<close> by auto
      next
        case F2: False
        then have "cn_loop (c # p) i ni b sfn = cn_loop p 8 11 (push_bit 2 b) sfn"
          using False \<open>c = 0x2E \<or> ni \<le> i\<close> by auto
        then show ?thesis using 2(1) [OF False True F2 tp] by fastforce
      qed
    next
      case F2: False
      obtain c1 b1 where cb1: "(if 0x80 \<le> c then (ExCvt ! unat (c - 0x80), b OR 3) else (c, b)) = (c1, b1)" by fastforce
      obtain c2 b2 where cb2: "(if IsUpper c1 then (c1, b1 OR 2) else if IsLower c1 then (c1 - 0x20, b1 OR 1) else (c1, b1)) = (c2, b2)" by (metis surj_pair)
      show ?thesis
      proof (cases "chk_chr illegal_sfn c1 \<noteq> 0")
        case True
        then have "cn_loop (c # p) i ni b sfn = Some (Inl sfn)" using False F2 cb1 by (simp del: if_split_eq1)
        then show ?thesis by simp
      next
        case F3: False
        have e: "cn_loop (c # p) i ni b sfn = cn_loop p (i + 1) ni b2 (sfn[i := c2])"
          using False F2 F3 by (simp add: cb1 cb2)
        show ?thesis unfolding e using 2(2) [OF False F2 cb1 [symmetric] _ F3 cb2 [symmetric] _ tp] by fastforce
      qed
    qed
  qed
qed


lemma terminated_dropWhile: "terminated p \<Longrightarrow> terminated (dropWhile is_sep p)"
  by (induction p) (auto simp: terminated_def dest: sep_not_end)

lemma name_flags:
  "(NS_LAST OR NS_EXT) AND NS_LAST \<noteq> 0" "(NS_LAST OR NS_BODY) AND NS_LAST \<noteq> 0" "NS_LAST \<noteq> 0"
  "(NS_LAST OR NS_EXT OR NS_BODY) AND NS_LAST \<noteq> 0"
  "((NS_LAST OR NS_EXT) OR NS_BODY) AND NS_LAST \<noteq> 0"
  "NS_EXT AND NS_LAST = 0" "NS_BODY AND NS_LAST = 0" "(NS_EXT OR NS_BODY) AND NS_LAST = 0"
  by (simp_all add: NS_LAST_def NS_EXT_def NS_BODY_def)

lemma create_name_returns:
  assumes "terminated path" "length (d_fn dj) = 12"
  shows "\<exists>r dj' rest. create_name dj path = Some (r, dj', rest) \<and> length (d_fn dj') = 12 \<and>
    d_fs dj' = d_fs dj \<and> (r = FR_OK \<longrightarrow> length rest < length path \<and> (d_fn dj' ! NS AND NS_LAST = 0 \<longrightarrow> terminated rest))"
proof -
  let ?p = "dropWhile is_sep path"
  have len: "length ?p \<le> length path" by (rule length_dropWhile_le)
  have fn: "length (mem_set (d_fn dj) 0 0x20 11) = 12" using assms(2) by simp
  obtain r where r: "cn_loop ?p 0 8 0 (mem_set (d_fn dj) 0 0x20 11) = Some r"
    "\<forall>s. r = Inl s \<longrightarrow> length s = 12"
    "\<forall>c i' ni' b' s rest. r = Inr (c, i', ni', b', s, rest) \<longrightarrow> length s = 12 \<and> length rest < length ?p \<and>
       (\<not> c \<le> 0x20 \<longrightarrow> terminated rest)"
    using cn_loop_returns [OF terminated_dropWhile [OF assms(1)], of 0 8 0 "mem_set (d_fn dj) 0 0x20 11"]
    unfolding fn by blast
  show ?thesis
  proof (cases r)
    case (Inl s)
    then show ?thesis using r by (simp add: create_name_def)
  next
    case (Inr x)
    obtain c i ni b s rest where x: "x = (c, i, ni, b, s, rest)" by (metis prod_cases6)
    have s: "length s = 12" "length rest < length path" "\<not> c \<le> 0x20 \<Longrightarrow> terminated rest"
      using r(3) len unfolding Inr x by auto
    have n: "NS < 12" by (simp add: NS_def)
    show ?thesis using r(1) s n unfolding Inr x
      by (simp add: create_name_def Let_def name_flags)
  qed
qed

context block_device
begin

lemma dir_find_returns:
  assumes "fat_ok sec v" "fs_csize (v_fs v) \<noteq> 0"
  shows "\<exists>r dj' v'. dir_find ops dj v = Some (r, dj', v') \<and> keeps_view sec v v' \<and> same_table dj dj' \<and>
    (r = FR_OK \<longrightarrow> at_entry dj')"
proof -
  obtain r1 dj1 v1 where s: "dir_sdi ops dj 0 v = Some (r1, dj1, v1)" "keeps_view sec v v1" "same_table dj dj1"
    "r1 = FR_OK \<longrightarrow> at_entry dj1" using dir_sdi_returns [OF assms, of dj 0] by blast
  show ?thesis
  proof (cases "r1 = FR_OK")
    case True
    then obtain r dj' v' where "dirfind_loop ops dj1 v1 = Some (r, dj', v')" "keeps_view sec v1 v'"
      "same_table dj1 dj'" "at_entry dj'"
      using dirfind_loop_returns [OF keeps_view_fat_ok [OF s(2) assms(1)], of dj1] s(4) by blast
    then show ?thesis using s True keeps_view_trans same_table_trans by (fastforce simp: dir_find_def)
  next
    case False
    then show ?thesis using s by (simp add: dir_find_def)
  qed
qed

lemma dir_read_returns:
  assumes "fat_ok sec v" "at_entry dj"
  shows "\<exists>r dj' v'. dir_read ops dj label v = Some (r, dj', v') \<and> keeps_view sec v v' \<and> same_table dj dj' \<and> at_entry dj'"
  using dirread_loop_returns [OF assms, of label FR_NO_FILE]
  by (auto simp: dir_read_def same_table_def at_entry_def)

lemma keeps_view_csize: "keeps_view sec v v' \<Longrightarrow> fs_csize (v_fs v') = fs_csize (v_fs v)"
  by (simp add: keeps_view_def same_layout_fields)

lemma follow_loop_returns:
  assumes "fat_ok sec v" "fs_csize (v_fs v) \<noteq> 0" "terminated path" "length (d_fn dj) = 12"
  shows "\<exists>r dj' v'. follow_loop ops dj path v = Some (r, dj', v') \<and> keeps_view sec v v' \<and>
    d_fs dj' = d_fs dj \<and> (r = FR_OK \<longrightarrow> at_entry dj')"
  using assms
proof (induction "length path" arbitrary: path dj v rule: less_induct)
  case less
  have k0: "keeps_view sec v v" using less.prems(1) by (simp add: keeps_view_refl fat_ok_vol)
  obtain r1 dj1 rest where c: "create_name dj path = Some (r1, dj1, rest)" "length (d_fn dj1) = 12" "d_fs dj1 = d_fs dj"
    "r1 = FR_OK \<longrightarrow> length rest < length path \<and> (d_fn dj1 ! NS AND NS_LAST = 0 \<longrightarrow> terminated rest)"
    using create_name_returns [OF less.prems(3,4)] by blast
  obtain r2 dj2 v2 where f: "dir_find ops dj1 v = Some (r2, dj2, v2)" "keeps_view sec v v2" "same_table dj1 dj2"
    "r2 = FR_OK \<longrightarrow> at_entry dj2" using dir_find_returns [OF less.prems(1,2), of dj1] by blast
  have fn: "d_fn dj2 = d_fn dj1" "d_fs dj2 = d_fs dj" using f(3) c(3) by (simp_all add: same_table_def)
  show ?case
  proof (cases "r1 \<noteq> FR_OK \<or> r2 \<noteq> FR_OK \<or> d_fn dj1 ! NS AND NS_LAST \<noteq> 0 \<or>
      ent_byte v2 (entry_ofs (d_index dj2)) DIR_Attr AND AM_DIR = 0")
    case True
    then show ?thesis using c f fn k0 by (subst follow_loop.simps) (auto simp: at_entry_def Let_def)
  next
    case False
    let ?dj = "dj2\<lparr>d_sclust := ld_clust (v_fs v2) (entry_ofs (d_index dj2))\<rparr>"
    have "length rest < length path" "terminated rest" "length (d_fn ?dj) = 12" "fs_csize (v_fs v2) \<noteq> 0"
      using c False fn keeps_view_csize [OF f(2)] less.prems(2) by auto
    from less.hyps [OF this(1) keeps_view_fat_ok [OF f(2) less.prems(1)] this(4,2,3)] obtain r dj' v' where
      l: "follow_loop ops ?dj rest v2 = Some (r, dj', v')" "keeps_view sec v2 v'" "d_fs dj' = d_fs ?dj"
      "r = FR_OK \<longrightarrow> at_entry dj'" by blast
    have "follow_loop ops dj path v = Some (r, dj', v')" using False c f fn l(1)
      by (subst follow_loop.simps) (auto simp: at_entry_def Let_def)
    moreover have "d_fs dj' = d_fs dj" using l(3) fn by simp
    ultimately show ?thesis using keeps_view_trans [OF f(2) l(2)] l(4) by blast
  qed
qed

text \<open>The path is a string: it ends with a zero byte.\<close>

lemma follow_path_returns:
  assumes "fat_ok sec v" "fs_csize (v_fs v) \<noteq> 0" "0 \<in> set path" "length (d_fn dj) = 12"
  shows "\<exists>r dj' v'. follow_path ops dj path v = Some (r, dj', v') \<and> keeps_view sec v v' \<and>
    d_fs dj' = d_fs dj \<and> (r = FR_OK \<longrightarrow> d_dir dj' = None \<or> at_entry dj')"
proof -
  obtain c0 rest where path: "path = c0 # rest" using assms(3) by (cases path) auto
  define p where "p = (if is_sep c0 then rest else path)"
  have "0 \<in> set p" using assms(3) by (auto simp: p_def path is_sep_def)
  then obtain c rest' where p: "p = c # rest'" by (cases p) auto
  have t: "terminated p" using \<open>0 \<in> set p\<close> by (auto simp: terminated_def intro!: bexI [of _ 0])
  let ?dj = "dj\<lparr>d_sclust := 0\<rparr>"
  have e: "follow_path ops dj path v = (if c < 0x20 then do {
             (res, dj, v) \<leftarrow> dir_sdi ops ?dj 0 v;
             Some (res, dj\<lparr>d_dir := None\<rparr>, v) }
           else follow_loop ops ?dj p v)"
    using p by (simp add: follow_path_def path p_def [symmetric, unfolded path] Let_def)
  show ?thesis
  proof (cases "c < 0x20")
    case True
    then show ?thesis unfolding e using dir_sdi_returns [OF assms(1,2), of ?dj 0] by (auto simp: same_table_def)
  next
    case False
    then show ?thesis unfolding e using follow_loop_returns [OF assms(1,2) t, of ?dj] assms(4) by auto
  qed
qed

section \<open>Operations that only look\<close>

lemma get_fileinfo_returns: "d_dir dj = Some p \<Longrightarrow> \<exists>fno'. get_fileinfo dj fno v = Some fno'"
  by (simp add: get_fileinfo_def split_def Let_def)

lemma stat_returns:
  assumes "fat_ok sec v" "fs_csize (v_fs v) \<noteq> 0" "0 \<in> set path"
  shows "\<exists>r dj v'. follow_path ops (new_dir q) path v = Some (r, dj, v') \<and> keeps_view sec v v' \<and>
    (r = FR_OK \<longrightarrow> d_dir dj = None \<or> at_entry dj)"
  using follow_path_returns [OF assms, of "new_dir q"] by (auto simp: new_dir_def)

lemma opendir_body_returns:
  assumes "fat_ok sec v" "fs_csize (v_fs v) \<noteq> 0" "0 \<in> set path" "length (d_fn dj) = 12"
  shows "\<exists>r dj' v'. opendir_body ops dj path v = Some ((r, dj'), v') \<and> keeps_view sec v v' \<and>
    (r = FR_OK \<longrightarrow> at_entry dj' \<and> d_fs dj' = d_fs dj)"
proof -
  obtain r1 dj1 v1 where f: "follow_path ops dj path v = Some (r1, dj1, v1)" "keeps_view sec v v1" "d_fs dj1 = d_fs dj"
    using follow_path_returns [OF assms] by blast
  have ok: "fat_ok sec v1" "fs_csize (v_fs v1) \<noteq> 0"
    using keeps_view_fat_ok [OF f(2) assms(1)] keeps_view_csize [OF f(2)] assms(2) by auto
  have s: "\<exists>r dj' v'. dir_sdi ops dj2 0 v1 = Some (r, dj', v') \<and> keeps_view sec v v' \<and> (r = FR_OK \<longrightarrow> at_entry dj') \<and>
      d_fs dj' = d_fs dj2" for dj2
    using dir_sdi_returns [OF ok, of dj2 0] keeps_view_trans [OF f(2)] by (auto simp: same_table_def)
  obtain ra da va where a: "dir_sdi ops (dj1\<lparr>d_id := fs_id (v_fs v1)\<rparr>) 0 v1 = Some (ra, da, va)"
    "keeps_view sec v va" "ra = FR_OK \<longrightarrow> at_entry da" "d_fs da = d_fs dj" using s f(3) by force
  show ?thesis
  proof (cases "d_dir dj1")
    case None
    then show ?thesis using f a by (auto simp: opendir_body_def Let_def)
  next
    case (Some p)
    obtain rb db vb where "dir_sdi ops (dj1\<lparr>d_sclust := ld_clust (v_fs v1) p, d_id := fs_id (v_fs v1)\<rparr>) 0 v1 = Some (rb, db, vb)"
      "keeps_view sec v vb" "rb = FR_OK \<longrightarrow> at_entry db" "d_fs db = d_fs dj" using s f(3) by force
    then show ?thesis using f Some by (auto simp: opendir_body_def Let_def)
  qed
qed

lemma readdir_body_returns:
  assumes "fat_ok sec v" "at_entry dj"
  shows "\<exists>r dj' fno' v'. readdir_body ops dj fno v = Some ((r, dj', fno'), v') \<and> keeps_view sec v v' \<and> at_entry dj' \<and>
    d_fs dj' = d_fs dj"
proof -
  have at: "at_entry (dj\<lparr>d_fn := replicate 12 0\<rparr>)" using assms(2) by (simp add: at_entry_def)
  obtain r1 dj1 v1 where d: "dir_read ops (dj\<lparr>d_fn := replicate 12 0\<rparr>) False v = Some (r1, dj1, v1)"
    "keeps_view sec v v1" "at_entry dj1" "d_fs dj1 = d_fs dj"
    using dir_read_returns [OF assms(1) at, of False] by (auto simp: same_table_def)
  define dj2 where "dj2 = (if r1 = FR_NO_FILE then dj1\<lparr>d_sect := 0\<rparr> else dj1)"
  have at2: "at_entry dj2" "d_fs dj2 = d_fs dj" using d(3,4) by (simp_all add: dj2_def at_entry_def)
  obtain fno2 where g: "get_fileinfo dj2 fno v1 = Some fno2"
    using at2 get_fileinfo_returns unfolding at_entry_def by blast
  obtain r3 dj3 v3 where n: "dir_next ops dj2 False v1 = Some (r3, dj3, v3)" "keeps_view sec v1 v3" "at_entry dj3" "d_fs dj3 = d_fs dj"
    using dir_next_returns [OF keeps_view_fat_ok [OF d(2) assms(1)] at2(1)] at2(2) by (auto simp: same_table_def)
  have k: "keeps_view sec v v3" by (rule keeps_view_trans [OF d(2) n(2)])
  have "at_entry (dj3\<lparr>d_sect := 0\<rparr>)" using n(3) by (simp add: at_entry_def)
  then show ?thesis using d g n k at2 unfolding dj2_def
    by (cases "r1 = FR_NO_FILE"; cases "r1 = FR_OK"; cases "r3 = FR_NO_FILE") (auto simp: readdir_body_def)
qed

end

section \<open>On the mounted volume\<close>

definition mounted :: "'w disk_ops \<Rightarrow> ('w \<Rightarrow> u32 \<Rightarrow> byte list) \<Rightarrow> nat \<Rightarrow> 'w sys \<Rightarrow> bool" where
  "mounted ops sc q s \<longleftrightarrow> s_FatFs s = Some q \<and> fat_ok sc (vol_of s q) \<and> fs_csize (s_obj s q) \<noteq> 0 \<and>
     d_status ops 0 (s_dsk s) AND STA_NOINIT = 0"

lemma vol_of_put_vol [simp]: "vol_of (put_vol q v s) q = v"
  by (simp add: vol_of_def put_vol_def)

lemma fs_vol_of [simp]: "v_fs (vol_of s q) = s_obj s q" "v_dsk (vol_of s q) = s_dsk s"
  by (simp_all add: vol_of_def)

lemma drive_of_string: "0 \<in> set p \<Longrightarrow> \<exists>vol p'. drive_of p = Some (vol, p') \<and> 0 \<in> set p'"
  by (cases p; cases "tl p") (auto simp: drive_of_def Let_def word_le_nat_alt)

text \<open>A path operation on a mounted volume fails on the drive number or the write protection, or runs.\<close>

lemma with_vol_mounted:
  assumes "mounted ops sc q s" "0 \<in> set path"
    and "\<And>path'. 0 \<in> set path' \<Longrightarrow> \<exists>r a v'. body q path' (vol_of s q) = Some ((r, a), v') \<and> P r a v'"
  shows "(\<exists>r \<in> {FR_INVALID_DRIVE, FR_WRITE_PROTECTED}. with_vol ops path wmode dflt body s = Some ((r, dflt), s)) \<or>
    (\<exists>r a v'. with_vol ops path wmode dflt body s = Some ((r, a), put_vol q v' s) \<and> P r a v')"
proof -
  obtain vol p' where d: "drive_of path = Some (vol, p')" "0 \<in> set p'" using drive_of_string [OF assms(2)] by blast
  obtain r a v' where b: "body q p' (vol_of s q) = Some ((r, a), v')" "P r a v'" using assms(3) [OF d(2)] by blast
  have m: "s_FatFs s = Some q" "fs_type (s_obj s q) \<noteq> 0" "fs_drv (s_obj s q) = 0"
    "d_status ops 0 (s_dsk s) AND STA_NOINIT = 0"
    using assms(1) by (auto simp: mounted_def fat_ok_def vol_ok_def geom_def fs_types)
  have chk: "chk_mounted ops path wmode s =
      (if 1 \<le> vol then Some (FR_INVALID_DRIVE, p', None, s)
       else Some (if wmode \<and> d_status ops 0 (s_dsk s) AND STA_PROTECT \<noteq> 0 then FR_WRITE_PROTECTED else FR_OK, p', Some q, s))"
    using d m by (simp add: chk_mounted_def)
  show ?thesis using chk b by (auto simp: with_vol_def on_vol_def)
qed

end
