(* ===== verification/FatSearch.thy ===== *)
theory FatSearch
  imports FatLookup
begin

text \<open>
  Directory tables as lists of entries. On a reliable device \<open>dir_find\<close> is the search of that list,
  for the static root directory and for tables in a cluster chain.
\<close>

section \<open>The table of a directory\<close>

definition cluster_sectors :: "fatfs \<Rightarrow> u32 \<Rightarrow> u32 list" where
  "cluster_sectors fs c = map (\<lambda>k. clust2sect fs c + of_nat k) [0 ..< unat (fs_csize fs)]"

text \<open>The clusters of a table, none for the static root directory, and its sectors.\<close>

definition table_start :: "fatfs \<Rightarrow> u32 \<Rightarrow> u32" where
  "table_start fs c = (if c = 0 \<and> fs_type fs = FS_FAT32 then fs_dirbase fs else c)"

definition dir_clusters :: "('w \<Rightarrow> u32 \<Rightarrow> byte list) \<Rightarrow> 'w vol \<Rightarrow> u32 \<Rightarrow> u32 list \<Rightarrow> bool" where
  "dir_clusters sc v c xs \<longleftrightarrow> (let c = table_start (v_fs v) c in
     if c = 0 then xs = [] else xs \<noteq> [] \<and> is_chain (fat_entry sc v) (fs_n_fatent (v_fs v)) c xs)"

definition dir_sectors :: "fatfs \<Rightarrow> u32 list \<Rightarrow> u32 list" where
  "dir_sectors fs xs =
     (if xs = [] then map (\<lambda>k. fs_dirbase fs + of_nat k) [0 ..< unat (fs_n_rootdir fs) div 16]
      else concat (map (cluster_sectors fs) xs))"

text \<open>A table in order: its sectors are not FAT copies, and a 16-bit index reaches all entries.\<close>

definition table_ok :: "fatfs \<Rightarrow> u32 list \<Rightarrow> bool" where
  "table_ok fs xs \<longleftrightarrow> (\<forall>s \<in> set (dir_sectors fs xs). s \<noteq> 0 \<and> \<not> mirror fs s) \<and> dir_sectors fs xs \<noteq> [] \<and>
     16 * length (dir_sectors fs xs) \<le> 65536"

definition entry_at :: "('w \<Rightarrow> u32 \<Rightarrow> byte list) \<Rightarrow> 'w vol \<Rightarrow> u32 list \<Rightarrow> nat \<Rightarrow> byte list" where
  "entry_at sc v ss i = take 32 (drop (32 * (i mod 16)) (view sc v (ss ! (i div 16))))"

definition dir_entries :: "('w \<Rightarrow> u32 \<Rightarrow> byte list) \<Rightarrow> 'w vol \<Rightarrow> u32 list \<Rightarrow> byte list list" where
  "dir_entries sc v ss = map (entry_at sc v ss) [0 ..< 16 * length ss]"

text \<open>The search: the first entry with the name that is no volume label, before the end mark.\<close>

fun dir_lookup :: "byte list \<Rightarrow> byte list list \<Rightarrow> nat option" where
  "dir_lookup fn [] = None"
| "dir_lookup fn (e # es) =
     (if e ! 0 = 0 then None
      else if e ! DIR_Attr AND AM_VOL = 0 \<and> take 11 e = take 11 fn then Some 0
      else map_option Suc (dir_lookup fn es))"

section \<open>Positions in a table\<close>

text \<open>The object \<open>dj\<close> is at entry \<open>i\<close> of the table with the clusters \<open>xs\<close>.\<close>

definition dir_pos :: "fatfs \<Rightarrow> u32 list \<Rightarrow> dir \<Rightarrow> nat \<Rightarrow> bool" where
  "dir_pos fs xs dj i \<longleftrightarrow> i < 16 * length (dir_sectors fs xs) \<and> d_index dj = of_nat i \<and>
     d_sect dj = dir_sectors fs xs ! (i div 16) \<and> d_dir dj = Some (32 * (i mod 16)) \<and>
     d_clust dj = (if xs = [] then 0 else xs ! (i div 16 div unat (fs_csize fs)))"

lemma same_layout_clust2sect: "same_layout fs fs' \<Longrightarrow> clust2sect fs' = clust2sect fs"
  by (rule ext) (simp add: clust2sect_def same_layout_fields Let_def)

lemma same_layout_dir_sectors: "same_layout fs fs' \<Longrightarrow> dir_sectors fs' = dir_sectors fs"
  by (rule ext) (simp add: dir_sectors_def cluster_sectors_def [abs_def] same_layout_clust2sect same_layout_fields)

lemma same_layout_dir_pos: "same_layout fs fs' \<Longrightarrow> dir_pos fs' = dir_pos fs"
  by (intro ext) (simp add: dir_pos_def same_layout_dir_sectors same_layout_fields)

lemma length_cluster_sectors [simp]: "length (cluster_sectors fs c) = unat (fs_csize fs)"
  by (simp add: cluster_sectors_def)

lemma concat_equal_nth:
  "(\<And>x. x \<in> set xs \<Longrightarrow> length (f x) = n) \<Longrightarrow> k < length xs * n \<Longrightarrow>
    concat (map f xs) ! k = f (xs ! (k div n)) ! (k mod n)"
proof (induction xs arbitrary: k)
  case (Cons x xs)
  have n: "0 < n" using Cons.prems(2) by (cases n) auto
  have l: "length (f x) = n" using Cons.prems(1) by simp
  show ?case
  proof (cases "k < n")
    case False
    then have "k div n = Suc ((k - n) div n)" "k mod n = (k - n) mod n"
      using n by (simp_all add: le_div_geq le_mod_geq)
    moreover have "k - n < length xs * n" using Cons.prems(2) False by simp
    ultimately show ?thesis using Cons False l by (simp add: nth_append)
  qed (simp add: nth_append l)
qed simp

lemma dir_sectors_chain:
  assumes "xs \<noteq> []" "k < length xs * unat (fs_csize fs)"
  shows "dir_sectors fs xs ! k = clust2sect fs (xs ! (k div unat (fs_csize fs))) + of_nat (k mod unat (fs_csize fs))"
proof -
  have "0 < unat (fs_csize fs)" using assms(2) by (cases "unat (fs_csize fs)") auto
  then have "k mod unat (fs_csize fs) < unat (fs_csize fs)" by simp
  then show ?thesis using assms concat_equal_nth [of xs "cluster_sectors fs" "unat (fs_csize fs)" k]
    by (simp add: dir_sectors_def) (simp add: cluster_sectors_def)
qed

lemma length_dir_sectors: "xs \<noteq> [] \<Longrightarrow> length (dir_sectors fs xs) = length xs * unat (fs_csize fs)"
  by (simp add: dir_sectors_def length_concat comp_def sum_list_triv)

lemma nat_and_pow2: "(x :: nat) AND (2 ^ k - 1) = x mod 2 ^ k"
  by (metis mask_nat_def take_bit_eq_mask take_bit_eq_mod)

text \<open>The test for a cluster boundary.\<close>

lemma cluster_boundary:
  assumes "fs_csize fs \<noteq> 0" "fs_csize fs AND (fs_csize fs - 1) = 0"
  shows "(ucast (w :: u16) :: u32) AND (ucast (fs_csize fs) - 1) = 0 \<longleftrightarrow> unat w mod unat (fs_csize fs) = 0"
proof -
  obtain k where k: "k < 8" "unat (fs_csize fs) = 2 ^ k" using power_of_two_byte [OF assms] by blast
  have one: "(1 :: u32) \<le> ucast (fs_csize fs)" using k by (simp add: word_le_nat_alt)
  have "unat ((ucast w :: u32) AND (ucast (fs_csize fs) - 1)) = unat w AND (2 ^ k - 1)"
    using k unat_sub [OF one] by (simp add: unsigned_and_eq)
  then have "unat ((ucast w :: u32) AND (ucast (fs_csize fs) - 1)) = unat w mod 2 ^ k" by (simp only: nat_and_pow2)
  then show ?thesis by (metis k(2) unat_eq_zero)
qed

lemma is_chain_nth:
  "is_chain E N c xs \<Longrightarrow> j < length xs \<Longrightarrow>
    (if Suc j < length xs then E (xs ! j) = xs ! Suc j else N \<le> E (xs ! j))"
proof (induction xs arbitrary: c j)
  case (Cons x xs)
  then show ?case by (cases j; cases xs) auto
qed simp

lemma index_step:
  assumes "(i + 1) mod 16 \<noteq> (0 :: nat)"
  shows "(i + 1) div 16 = i div 16" "(i + 1) mod 16 = i mod 16 + 1"
  using assms by (simp_all add: div_Suc mod_Suc split: if_splits)

lemma index_wrap:
  assumes "(i + 1) mod 16 = (0 :: nat)"
  shows "i div 16 = (i + 1) div 16 - 1" "0 < (i + 1) div 16" "16 * ((i + 1) div 16) = i + 1"
  using assms mult_div_mod_eq [of 16 "i + 1"] by (simp_all add: div_Suc mod_Suc split: if_splits)

lemma same_cluster:
  assumes "0 < (k :: nat)" "k mod n \<noteq> 0"
  shows "(k - 1) div n = k div n" "Suc ((k - 1) mod n) = k mod n"
  using assms by (cases k; simp add: div_Suc mod_Suc split: if_splits)+

lemma last_of_cluster: "0 < n \<Longrightarrow> (n * Suc j - 1) div n = (j :: nat)"
  by (rule div_nat_eqI) (cases n, simp_all)

context reliable_device
begin

lemma dir_sdi_first:
  assumes ok: "fat_ok sec v" and sd: "sound (v_dsk v)" and cs: "fs_csize (v_fs v) \<noteq> 0"
    and cl: "dir_clusters sec v (d_sclust dj) xs" and tb: "table_ok (v_fs v) xs"
  shows "\<exists>dj'. dir_sdi ops dj 0 v = Some (FR_OK, dj', v) \<and> same_table dj dj' \<and> dir_pos (v_fs v) xs dj' 0"
proof -
  let ?fs = "v_fs v"
  have N: "2 < fs_n_fatent ?fs" using ok by (simp add: fat_ok_def)
  have ic: "\<not> 16 * ucast (fs_csize ?fs) \<le> (0 :: u16)"
    using cs by (simp add: word_le_nat_alt unat_entries_per_cluster unat_gt_0)
  have follow: "sdi_follow ops (16 * ucast (fs_csize ?fs)) 0 c v = Some (Inr (c, 0), v)" for c
    using ic by (subst sdi_follow.simps) simp
  have len: "0 < length (dir_sectors ?fs xs)" using tb by (simp add: table_ok_def)
  show ?thesis
  proof (cases "table_start ?fs (d_sclust dj) = 0")
    case True
    then have xs: "xs = []" and c: "d_sclust dj = 0" "\<not> (fs_type ?fs = FS_FAT32 \<and> fs_dirbase ?fs \<noteq> 0)"
      using cl by (auto simp: dir_clusters_def table_start_def split: if_splits)
    have n: "0 < unat (fs_n_rootdir ?fs) div 16" using len by (simp add: dir_sectors_def xs)
    then have "\<not> fs_n_rootdir ?fs \<le> 0" by (cases "fs_n_rootdir ?fs = 0") auto
    then show ?thesis using c N n xs
      by (auto simp: dir_sdi_def Let_def same_table_def dir_pos_def dir_sectors_def entry_ofs_def)
  next
    case False
    then have ch: "is_chain (fat_entry sec v) (fs_n_fatent ?fs) (table_start ?fs (d_sclust dj)) xs" "xs \<noteq> []"
      using cl by (auto simp: dir_clusters_def Let_def)
    then obtain y ys where xs: "xs = y # ys" by (cases xs) auto
    have y: "y = table_start ?fs (d_sclust dj)" "2 \<le> y" "y < fs_n_fatent ?fs" using ch(1) xs by auto
    have sc: "d_sclust dj \<noteq> 1 \<and> \<not> fs_n_fatent ?fs \<le> d_sclust dj"
      using y N by (auto simp: table_start_def word_le_nat_alt word_less_nat_alt split: if_splits)
    have "dir_sectors ?fs xs ! 0 = clust2sect ?fs y"
      using dir_sectors_chain [OF ch(2), of 0 ?fs] xs cs by (simp add: unat_gt_0)
    then show ?thesis using sc False y(1) follow len xs
      by (auto simp: dir_sdi_def Let_def same_table_def dir_pos_def entry_ofs_def table_start_def)
  qed
qed

text \<open>The next cluster of a table in a chain, or its end.\<close>

lemma next_clust_chain:
  assumes "fat_ok sec v" "sound (v_dsk v)" "is_chain (fat_entry sec v) (fs_n_fatent (v_fs v)) c xs" "j < length xs"
  shows "\<exists>v'. next_clust ops (xs ! j) False v =
      Some (if Suc j < length xs then Inr (xs ! Suc j) else Inl FR_NO_FILE, v') \<and>
    keeps_view sec v v' \<and> sound (v_dsk v')"
proof -
  obtain e v1 where g: "get_fat ops (xs ! j) v = (e, v1)" by fastforce
  have cr: "2 \<le> xs ! j" "xs ! j < fs_n_fatent (v_fs v)"
    using is_chain_range [OF assms(3) nth_mem [OF assms(4)]] by simp_all
  have e: "e = fat_entry sec v (xs ! j)" "sound (v_dsk v1)" "keeps_view sec v v1"
    using get_fat_sound [OF assms(1,2) g] cr get_fat_entry [OF assms(1) g] by auto
  have N: "fs_n_fatent (v_fs v1) = fs_n_fatent (v_fs v)" "2 < fs_n_fatent (v_fs v)"
    using e(3) assms(1) by (simp_all add: keeps_view_def same_layout_fields fat_ok_def)
  have nf: "e \<noteq> 0xFFFFFFFF" using e(1) fat_entry_bound by simp
  note link = is_chain_nth [OF assms(3,4)]
  have "2 \<le> e" using link e(1) N(2) is_chain_range [OF assms(3) nth_mem, of "Suc j"]
    by (cases "Suc j < length xs") (auto simp: word_le_nat_alt word_less_nat_alt)
  then have "\<not> e \<le> 1" by (simp add: word_le_nat_alt)
  moreover have "fs_n_fatent (v_fs v1) \<le> e \<longleftrightarrow> \<not> Suc j < length xs"
    using link e(1) N(1) is_chain_range [OF assms(3) nth_mem, of "Suc j"] by (auto split: if_splits)
  ultimately show ?thesis using g e nf link by (auto simp: next_clust_def)
qed

text \<open>The steps of \<open>dir_next\<close> on an object at entry \<open>i\<close>, by the boundary it crosses.\<close>

definition moved :: "nat \<Rightarrow> dir \<Rightarrow> dir" where
  "moved i dj = dj\<lparr>d_index := of_nat i, d_dir := Some (32 * (i mod 16))\<rparr>"

lemma dir_next_steps:
  assumes "d_index dj = of_nat i" "d_sect dj \<noteq> 0" "i + 1 < 65536"
    and cs: "fs_csize (v_fs v) \<noteq> 0" "fs_csize (v_fs v) AND (fs_csize (v_fs v) - 1) = 0"
  shows "(i + 1) mod 16 \<noteq> 0 \<Longrightarrow> dir_next ops dj False v = Some (FR_OK, moved (i + 1) dj, v)"
    and "(i + 1) mod 16 = 0 \<Longrightarrow> d_clust dj = 0 \<Longrightarrow> dir_next ops dj False v =
      Some (if unat (fs_n_rootdir (v_fs v)) \<le> i + 1 then (FR_NO_FILE, dj\<lparr>d_sect := d_sect dj + 1\<rparr>, v)
            else (FR_OK, moved (i + 1) (dj\<lparr>d_sect := d_sect dj + 1\<rparr>), v))"
    and "(i + 1) mod 16 = 0 \<Longrightarrow> d_clust dj \<noteq> 0 \<Longrightarrow> (i + 1) div 16 mod unat (fs_csize (v_fs v)) \<noteq> 0 \<Longrightarrow>
      dir_next ops dj False v = Some (FR_OK, moved (i + 1) (dj\<lparr>d_sect := d_sect dj + 1\<rparr>), v)"
    and "(i + 1) mod 16 = 0 \<Longrightarrow> d_clust dj \<noteq> 0 \<Longrightarrow> (i + 1) div 16 mod unat (fs_csize (v_fs v)) = 0 \<Longrightarrow>
      next_clust ops (d_clust dj) False v = Some (r, v') \<Longrightarrow> dir_next ops dj False v =
      Some (case r of Inl res \<Rightarrow> (res, dj\<lparr>d_sect := d_sect dj + 1\<rparr>, v')
            | Inr e \<Rightarrow> (FR_OK, moved (i + 1) (dj\<lparr>d_sect := clust2sect (v_fs v') e, d_clust := e\<rparr>), v'))"
proof -
  have idx: "d_index dj + 1 = of_nat (i + 1)" using assms(1) by simp
  have u: "unat (of_nat (i + 1) :: u16) = i + 1" using assms(3) by (simp only: unat_of_nat) simp
  have ofs: "entry_ofs (of_nat (i + 1)) = 32 * ((i + 1) mod 16)"
    unfolding entry_ofs_def SZ_DIR_def unat_mod u by simp
  have nz: "(of_nat (i + 1) :: u16) \<noteq> 0" and md: "of_nat (i + 1) mod 16 = (0 :: u16) \<longleftrightarrow> (i + 1) mod 16 = 0"
    using u by (auto simp: word_unat_eq_iff unat_mod simp del: of_nat_add)
  have kd: "unat (of_nat (i + 1) div 16 :: u16) = (i + 1) div 16" using u by (simp add: unat_div del: of_nat_add)
  note test = cluster_boundary [OF cs, of "of_nat (i + 1) div 16", unfolded kd]
  have le: "fs_n_rootdir (v_fs v) \<le> of_nat (i + 1) \<longleftrightarrow> unat (fs_n_rootdir (v_fs v)) \<le> i + 1"
    unfolding word_le_nat_alt u ..
  note D = dir_next_def Let_def idx ofs md test le moved_def
  show "(i + 1) mod 16 \<noteq> 0 \<Longrightarrow> dir_next ops dj False v = Some (FR_OK, moved (i + 1) dj, v)"
    using assms(2) nz unfolding D by simp
  show "(i + 1) mod 16 = 0 \<Longrightarrow> d_clust dj = 0 \<Longrightarrow> dir_next ops dj False v =
      Some (if unat (fs_n_rootdir (v_fs v)) \<le> i + 1 then (FR_NO_FILE, dj\<lparr>d_sect := d_sect dj + 1\<rparr>, v)
            else (FR_OK, moved (i + 1) (dj\<lparr>d_sect := d_sect dj + 1\<rparr>), v))"
    using assms(2) nz unfolding D by simp
  show "(i + 1) mod 16 = 0 \<Longrightarrow> d_clust dj \<noteq> 0 \<Longrightarrow> (i + 1) div 16 mod unat (fs_csize (v_fs v)) \<noteq> 0 \<Longrightarrow>
      dir_next ops dj False v = Some (FR_OK, moved (i + 1) (dj\<lparr>d_sect := d_sect dj + 1\<rparr>), v)"
    using assms(2) nz unfolding D by simp
  show "(i + 1) mod 16 = 0 \<Longrightarrow> d_clust dj \<noteq> 0 \<Longrightarrow> (i + 1) div 16 mod unat (fs_csize (v_fs v)) = 0 \<Longrightarrow>
      next_clust ops (d_clust dj) False v = Some (r, v') \<Longrightarrow> dir_next ops dj False v =
      Some (case r of Inl res \<Rightarrow> (res, dj\<lparr>d_sect := d_sect dj + 1\<rparr>, v')
            | Inr e \<Rightarrow> (FR_OK, moved (i + 1) (dj\<lparr>d_sect := clust2sect (v_fs v') e, d_clust := e\<rparr>), v'))"
    using assms(2) nz unfolding D by (simp split: sum.split)
qed

text \<open>What a step from entry \<open>i\<close> must do: reach the next entry, or report the end of the table.\<close>

definition stepped :: "'a vol \<Rightarrow> u32 list \<Rightarrow> nat \<Rightarrow> dir \<Rightarrow> (FRESULT \<times> dir \<times> 'a vol) option \<Rightarrow> bool" where
  "stepped v xs i dj res \<longleftrightarrow> (\<exists>r dj' v'. res = Some (r, dj', v') \<and> keeps_view sec v v' \<and> sound (v_dsk v') \<and>
     same_table dj dj' \<and>
     (if i + 1 < 16 * length (dir_sectors (v_fs v) xs) then r = FR_OK \<and> dir_pos (v_fs v) xs dj' (i + 1)
      else r = FR_NO_FILE))"

lemma stepped_ok:
  assumes "keeps_view sec v v'" "sound (v_dsk v')" "i + 1 < 16 * length (dir_sectors (v_fs v) xs)"
    "s = dir_sectors (v_fs v) xs ! ((i + 1) div 16)"
    "cl = (if xs = [] then 0 else xs ! ((i + 1) div 16 div unat (fs_csize (v_fs v))))"
  shows "stepped v xs i dj (Some (FR_OK, moved (i + 1) (dj\<lparr>d_sect := s, d_clust := cl\<rparr>), v'))"
  using assms by (auto simp: stepped_def dir_pos_def moved_def same_table_def simp del: of_nat_add)

lemma stepped_end:
  assumes "keeps_view sec v v'" "sound (v_dsk v')" "\<not> i + 1 < 16 * length (dir_sectors (v_fs v) xs)"
  shows "stepped v xs i dj (Some (FR_NO_FILE, dj\<lparr>d_sect := s\<rparr>, v'))"
  using assms by (auto simp: stepped_def same_table_def)

text \<open>Over a sector boundary of the static root directory.\<close>

lemma dir_next_static:
  assumes "fat_ok sec v" "sound (v_dsk v)" "fs_csize (v_fs v) \<noteq> 0" "fs_csize (v_fs v) AND (fs_csize (v_fs v) - 1) = 0"
    "fs_n_rootdir (v_fs v) mod 16 = 0" "xs = []" "dir_pos (v_fs v) xs dj i" "d_sect dj \<noteq> 0" "i + 1 < 65536"
    "(i + 1) mod 16 = 0"
  shows "stepped v xs i dj (dir_next ops dj False v)"
proof -
  let ?fs = "v_fs v" and ?ss = "dir_sectors (v_fs v) xs" and ?k = "(i + 1) div 16"
  note W = index_wrap [OF assms(10)]
  have k0: "keeps_view sec v v" using assms(1) by (simp add: keeps_view_refl fat_ok_vol)
  have P: "d_index dj = of_nat i" "d_sect dj = ?ss ! (i div 16)" "d_clust dj = 0"
    using assms(6,7) by (simp_all add: dir_pos_def)
  have L: "length ?ss = unat (fs_n_rootdir ?fs) div 16" using assms(6) by (simp add: dir_sectors_def)
  have "unat (fs_n_rootdir ?fs) mod 16 = 0" using arg_cong [OF assms(5), of unat] by (simp add: unat_mod)
  then have "unat (fs_n_rootdir ?fs) = 16 * length ?ss" unfolding L by presburger
  then have test: "unat (fs_n_rootdir ?fs) \<le> i + 1 \<longleftrightarrow> \<not> ?k < length ?ss" using W(3) by linarith
  note nx = dir_next_steps(2) [OF P(1) assms(8,9,3,4,10) P(3), unfolded test]
  show ?thesis
  proof (cases "?k < length ?ss")
    case True
    have s: "?ss ! j = fs_dirbase ?fs + of_nat j" if "j < length ?ss" for j
      using that L assms(6) by (simp add: dir_sectors_def)
    have "of_nat (?k - 1) + 1 = (of_nat ?k :: u32)" using W(2) by (simp add: of_nat_diff)
    then have "?ss ! (i div 16) + 1 = ?ss ! ?k" using True W(1,2) s by (simp add: add.assoc)
    moreover have "i + 1 < 16 * length ?ss" using True W(3) by linarith
    moreover have "dj\<lparr>d_sect := s\<rparr> = dj\<lparr>d_sect := s, d_clust := 0\<rparr>" for s using P(3) by simp
    ultimately show ?thesis using nx True P(2) assms(6) stepped_ok [OF k0 assms(2), of i xs "?ss ! ?k" 0 dj] by simp
  next
    case False
    then have "\<not> i + 1 < 16 * length ?ss" using W(3) by linarith
    then show ?thesis using nx False stepped_end [OF k0 assms(2)] by simp
  qed
qed

text \<open>Over a sector boundary of a table in a chain, inside a cluster or to the next one.\<close>

lemma dir_next_chain:
  assumes "fat_ok sec v" "sound (v_dsk v)" "fs_csize (v_fs v) \<noteq> 0" "fs_csize (v_fs v) AND (fs_csize (v_fs v) - 1) = 0"
    "is_chain (fat_entry sec v) (fs_n_fatent (v_fs v)) c xs" "xs \<noteq> []" "dir_pos (v_fs v) xs dj i" "d_sect dj \<noteq> 0"
    "i + 1 < 65536" "(i + 1) mod 16 = 0"
  shows "stepped v xs i dj (dir_next ops dj False v)"
proof -
  let ?fs = "v_fs v" and ?ss = "dir_sectors (v_fs v) xs" and ?k = "(i + 1) div 16" and ?n = "unat (fs_csize (v_fs v))"
  note W = index_wrap [OF assms(10)]
  have n: "0 < ?n" using assms(3) by (simp add: unat_gt_0)
  have k0: "keeps_view sec v v" using assms(1) by (simp add: keeps_view_refl fat_ok_vol)
  have P: "d_index dj = of_nat i" "d_sect dj = ?ss ! (i div 16)" "d_clust dj = xs ! ((?k - 1) div ?n)"
    and i: "i < 16 * length ?ss" using assms(6,7) W(1) by (simp_all add: dir_pos_def)
  have L: "length ?ss = length xs * ?n" by (rule length_dir_sectors [OF assms(6)])
  have kL: "?k \<le> length ?ss" using i W by linarith
  have kn: "(?k - 1) div ?n < length xs" using kL W(2) L n by (simp add: less_mult_imp_div_less)
  have "2 \<le> d_clust dj" using is_chain_range [OF assms(5) nth_mem [OF kn]] P(3) by simp
  then have c0: "d_clust dj \<noteq> 0" by auto
  show ?thesis
  proof (cases "?k mod ?n = 0")
    case False
    then have lt: "?k < length xs * ?n" using kL L by (metis le_neq_implies_less mod_mult_self2_is_0)
    note S = same_cluster [OF W(2) False]
    have "?k - 1 < length xs * ?n" using lt by simp
    then have s: "?ss ! (i div 16) + 1 = ?ss ! ?k" unfolding W(1) dir_sectors_chain [OF assms(6) \<open>?k - 1 < length xs * ?n\<close>]
        dir_sectors_chain [OF assms(6) lt] S(1) S(2) [symmetric] by simp
    have "dj\<lparr>d_sect := s\<rparr> = dj\<lparr>d_sect := s, d_clust := xs ! (?k div ?n)\<rparr>" for s using P(3) S(1) by simp
    moreover have "i + 1 < 16 * length ?ss" using lt L W(3) by linarith
    ultimately show ?thesis
      using dir_next_steps(3) [OF P(1) assms(8,9,3,4,10) c0 False] s P(2) assms(6)
        stepped_ok [OF k0 assms(2), of i xs "?ss ! ?k" "xs ! (?k div ?n)" dj] by simp
  next
    case True
    obtain j where j: "?k = ?n * Suc j" using True W(2)
      by (metis dvd_def gr0_conv_Suc mod_0_imp_dvd mult_0_right neq0_conv)
    have jd: "(?k - 1) div ?n = j" unfolding j by (rule last_of_cluster [OF n])
    have jk: "?k div ?n = Suc j" using j n by simp
    obtain v' where nc: "next_clust ops (d_clust dj) False v =
        Some (if Suc j < length xs then Inr (xs ! Suc j) else Inl FR_NO_FILE, v')"
      and v': "keeps_view sec v v'" "sound (v_dsk v')"
      using next_clust_chain [OF assms(1,2,5), of j] kn jd P(3) by auto
    have lay: "clust2sect (v_fs v') = clust2sect ?fs" using v'(1) by (simp add: keeps_view_def same_layout_clust2sect)
    note nx = dir_next_steps(4) [OF P(1) assms(8,9,3,4,10) c0 True nc, unfolded lay]
    show ?thesis
    proof (cases "Suc j < length xs")
      case more: True
      have "?k < length xs * ?n"
        unfolding j mult.commute [of "length xs"] using more n by (simp only: mult_less_cancel1 simp_thms)
      then have "?ss ! ?k = clust2sect ?fs (xs ! Suc j)" "i + 1 < 16 * length ?ss"
        using dir_sectors_chain [OF assms(6), of ?k ?fs] jk True W(3) L by (simp, linarith)
      then show ?thesis using nx more assms(6) jk
          stepped_ok [OF v', of i xs "?ss ! ?k" "xs ! (?k div ?n)" dj] by simp
    next
      case False
      have "length xs * ?n \<le> ?k"
        unfolding j mult.commute [of "length xs"] using False by (intro mult_le_mono2) simp
      then have "\<not> i + 1 < 16 * length ?ss" using W(3) L by linarith
      then show ?thesis using nx False stepped_end [OF v'] by simp
    qed
  qed
qed

lemma dir_next_pos:
  assumes ok: "fat_ok sec v" and sd: "sound (v_dsk v)"
    and cs: "fs_csize (v_fs v) \<noteq> 0" "fs_csize (v_fs v) AND (fs_csize (v_fs v) - 1) = 0"
    and cl: "dir_clusters sec v c xs" and tb: "table_ok (v_fs v) xs" and pos: "dir_pos (v_fs v) xs dj i"
    and rt: "fs_n_rootdir (v_fs v) mod 16 = 0"
  shows "stepped v xs i dj (dir_next ops dj False v)"
proof -
  let ?ss = "dir_sectors (v_fs v) xs"
  have k0: "keeps_view sec v v" using ok by (simp add: keeps_view_refl fat_ok_vol)
  have i: "i < 16 * length ?ss" "16 * length ?ss \<le> 65536" and P: "d_index dj = of_nat i" "d_sect dj = ?ss ! (i div 16)"
    using pos tb by (simp_all add: dir_pos_def table_ok_def)
  have "?ss ! (i div 16) \<in> set ?ss" using i by (intro nth_mem) simp
  then have sect: "d_sect dj \<noteq> 0" using tb P(2) by (auto simp: table_ok_def)
  consider "i + 1 = 65536" | "i + 1 < 65536" "(i + 1) mod 16 \<noteq> 0" | "i + 1 < 65536" "(i + 1) mod 16 = 0"
    using i by linarith
  then show ?thesis
  proof cases
    case 1
    then have "of_nat (i + 1) = (0 :: u16)" by (simp only:) simp
    then have "d_index dj + 1 = 0" using P(1) by (simp add: add.commute)
    then have "dir_next ops dj False v = Some (FR_NO_FILE, dj\<lparr>d_sect := d_sect dj\<rparr>, v)" by (simp add: dir_next_def Let_def)
    moreover have "\<not> i + 1 < 16 * length ?ss" using 1 i by linarith
    ultimately show ?thesis using stepped_end [OF k0 sd] by metis
  next
    case 2
    have lt: "i + 1 < 16 * length ?ss" using i(1) 2(2) by presburger
    have s: "d_sect dj = ?ss ! ((i + 1) div 16)" using P(2) index_step(1) [OF 2(2)] by simp
    have c: "d_clust dj = (if xs = [] then 0 else xs ! ((i + 1) div 16 div unat (fs_csize (v_fs v))))"
      using pos unfolding index_step(1) [OF 2(2)] dir_pos_def by blast
    have "stepped v xs i dj (Some (FR_OK, moved (i + 1) (dj\<lparr>d_sect := d_sect dj, d_clust := d_clust dj\<rparr>), v))"
      by (rule stepped_ok [OF k0 sd lt s c])
    then show ?thesis using dir_next_steps(1) [OF P(1) sect 2(1) cs 2(2)] by simp
  next
    case 3
    show ?thesis
    proof (cases "xs = []")
      case True
      then show ?thesis by (rule dir_next_static [OF ok sd cs rt _ pos sect 3])
    next
      case False
      then have "is_chain (fat_entry sec v) (fs_n_fatent (v_fs v)) (table_start (v_fs v) c) xs"
        using cl by (auto simp: dir_clusters_def Let_def split: if_splits)
      then show ?thesis by (rule dir_next_chain [OF ok sd cs _ False pos sect 3])
    qed
  qed
qed

text \<open>The loop from entry \<open>i\<close> on searches the rest of the list.\<close>

lemma entry_at_keeps:
  assumes "keeps_view sec v v'" "table_ok (v_fs v) xs" "i < 16 * length (dir_sectors (v_fs v) xs)"
  shows "entry_at sec v' (dir_sectors (v_fs v) xs) i = entry_at sec v (dir_sectors (v_fs v) xs) i"
proof -
  have "dir_sectors (v_fs v) xs ! (i div 16) \<in> set (dir_sectors (v_fs v) xs)" using assms(3) by (intro nth_mem) simp
  then show ?thesis using assms(1,2) by (simp add: entry_at_def table_ok_def keeps_view_def)
qed

lemma window_entry:
  assumes "length w = 512" "p = 32 * (i mod 16)" "e = take 32 (drop p w)"
  shows "w ! (p + 0) = e ! 0" "w ! (p + DIR_Attr) = e ! DIR_Attr" "length e = 32" "take 11 (drop p w) = take 11 e"
proof -
  have "i mod 16 < 16" by simp
  then have "p + 32 \<le> 512" unfolding assms(2) by linarith
  then show "w ! (p + 0) = e ! 0" "w ! (p + DIR_Attr) = e ! DIR_Attr" "length e = 32" "take 11 (drop p w) = take 11 e"
    using assms(1) by (simp_all add: assms(3) DIR_Attr_def take_take)
qed

definition found_at :: "u32 list \<Rightarrow> 'a vol \<Rightarrow> nat option \<Rightarrow> FRESULT \<Rightarrow> dir \<Rightarrow> 'a vol \<Rightarrow> bool" where
  "found_at xs v found r dj' v' \<longleftrightarrow> (case found of None \<Rightarrow> r = FR_NO_FILE
     | Some k \<Rightarrow> r = FR_OK \<and> dir_pos (v_fs v) xs dj' k \<and> fs_winsect (v_fs v') = d_sect dj')"

lemma keeps_view_entries:
  assumes "keeps_view sec v v'" "fat_ok sec v" "m < fs_n_fatent (v_fs v)"
  shows "fat_entry sec v' m = fat_entry sec v m"
proof -
  have lay: "same_layout (v_fs v) (v_fs v')" using assms(1) by (simp add: keeps_view_def)
  show ?thesis using fat_entry_cong [OF assms(2) lay keeps_view_fat_byte [OF assms(1,2)]] assms(3)
    by (simp add: fat_entry_def)
qed

lemma keeps_view_clusters:
  assumes "keeps_view sec v v'" "fat_ok sec v" "dir_clusters sec v c xs"
  shows "dir_clusters sec v' c xs"
proof -
  have lay: "same_layout (v_fs v) (v_fs v')" using assms(1) by (simp add: keeps_view_def)
  show ?thesis using assms(3) is_chain_cong [of "fat_entry sec v" _ _ xs "fat_entry sec v'"]
      keeps_view_entries [OF assms(1,2)] is_chain_range [of "fat_entry sec v" "fs_n_fatent (v_fs v)" _ xs]
    by (auto simp: dir_clusters_def table_start_def Let_def same_layout_fields [OF lay] split: if_splits)
qed

lemma dirfind_loop_pos:
  assumes "fat_ok sec v" "sound (v_dsk v)" "fs_csize (v_fs v) \<noteq> 0"
    "fs_csize (v_fs v) AND (fs_csize (v_fs v) - 1) = 0" "fs_n_rootdir (v_fs v) mod 16 = 0"
    "dir_clusters sec v c xs" "table_ok (v_fs v) xs" "dir_pos (v_fs v) xs dj i" "11 \<le> length (d_fn dj)"
  shows "\<exists>r dj' v'. dirfind_loop ops dj v = Some (r, dj', v') \<and> keeps_view sec v v' \<and> sound (v_dsk v') \<and>
    same_table dj dj' \<and> found_at xs v (map_option ((+) i)
      (dir_lookup (d_fn dj) (drop i (dir_entries sec v (dir_sectors (v_fs v) xs))))) r dj' v'"
  using assms
proof (induction "65536 - i" arbitrary: i dj v rule: less_induct)
  case less
  let ?ss = "dir_sectors (v_fs v) xs" and ?p = "32 * (i mod 16)"
  note ok = less.prems(1) and tb = less.prems(7) and pos = less.prems(8)
  have i: "i < 16 * length ?ss" "16 * length ?ss \<le> 65536" and p: "d_dir dj = Some ?p"
    and sct: "d_sect dj = ?ss ! (i div 16)" using pos tb by (simp_all add: dir_pos_def table_ok_def)
  have "?ss ! (i div 16) \<in> set ?ss" using i by (intro nth_mem) simp
  then have s: "d_sect dj \<noteq> 0" "\<not> mirror (v_fs v) (d_sect dj)" using tb sct by (auto simp: table_ok_def)
  obtain v1 where m: "move_window ops (d_sect dj) v = (FR_OK, v1)" "sound (v_dsk v1)"
    using move_window_sound [OF less.prems(2) fat_ok_vol [OF ok]] by blast
  have k1: "keeps_view sec v v1" and w: "fs_win (v_fs v1) = view sec v (d_sect dj)" "fs_winsect (v_fs v1) = d_sect dj"
    using move_window_keeps [OF fat_ok_vol [OF ok] m(1)] s by auto
  have len: "length (fs_win (v_fs v1)) = 512" using k1 by (simp add: keeps_view_def vol_ok_def geom_def)
  let ?e = "entry_at sec v ?ss i"
  have "?e = take 32 (drop ?p (fs_win (v_fs v1)))" by (simp add: entry_at_def w(1) sct)
  note E = window_entry [OF len refl this]
  have drp: "drop i (dir_entries sec v ?ss) = ?e # drop (Suc i) (dir_entries sec v ?ss)"
    using i(1) by (subst Cons_nth_drop_Suc [symmetric]) (simp_all add: dir_entries_def)
  have match: "sfn_match v1 ?p (d_fn dj) \<longleftrightarrow> ?e ! DIR_Attr AND AM_VOL = 0 \<and> take 11 ?e = take 11 (d_fn dj)"
  proof -
    have "i mod 16 < 16" by simp
    then have "11 \<le> length (drop ?p (fs_win (v_fs v1)))" using len by simp
    then show ?thesis using E less.prems(9) by (simp add: sfn_match_def ent_byte_def mem_cmp_eq_0)
  qed
  have lay: "same_layout (v_fs v) (v_fs v1)" using k1 by (simp add: keeps_view_def)
  note F = same_layout_fields [OF lay]
  have ss1: "dir_sectors (v_fs v1) xs = ?ss" using same_layout_dir_sectors [OF lay] by simp
  have tb1: "table_ok (v_fs v1) xs" using tb by (simp add: table_ok_def ss1 same_layout_mirror [OF lay])
  have pos1: "dir_pos (v_fs v1) xs dj i" using pos by (simp add: same_layout_dir_pos [OF lay])
  have ok1: "fat_ok sec v1" by (rule keeps_view_fat_ok [OF k1 ok])
  show ?case
  proof (cases "?e ! 0 = 0 \<or> sfn_match v1 ?p (d_fn dj)")
    case True
    then show ?thesis using m k1 p E(1) match w(2) pos
      by (subst dirfind_loop.simps) (auto simp: drp found_at_def ent_byte_def)
  next
    case False
    have lk: "dir_lookup (d_fn dj) (drop i (dir_entries sec v ?ss)) =
        map_option Suc (dir_lookup (d_fn dj) (drop (Suc i) (dir_entries sec v ?ss)))"
      using False match by (auto simp: drp)
    obtain r dj2 v2 where n: "dir_next ops dj False v1 = Some (r, dj2, v2)" "keeps_view sec v1 v2" "sound (v_dsk v2)"
      "same_table dj dj2" "if i + 1 < 16 * length ?ss then r = FR_OK \<and> dir_pos (v_fs v1) xs dj2 (i + 1) else r = FR_NO_FILE"
      using dir_next_pos [OF ok1 m(2) _ _ keeps_view_clusters [OF k1 ok less.prems(6)] tb1 pos1] less.prems(3-5) F ss1
      unfolding stepped_def by auto
    have k2: "keeps_view sec v v2" by (rule keeps_view_trans [OF k1 n(2)])
    have step: "dirfind_loop ops dj v = (if r = FR_OK then dirfind_loop ops dj2 v2 else Some (r, dj2, v2))"
      using False m p E(1) n(1) by (subst dirfind_loop.simps) (simp add: ent_byte_def)
    show ?thesis
    proof (cases "i + 1 < 16 * length ?ss")
      case False
      then have "drop (Suc i) (dir_entries sec v ?ss) = []" by (simp add: dir_entries_def)
      then show ?thesis using step n k2 False lk by (auto simp: found_at_def)
    next
      case True
      have lay2: "same_layout (v_fs v) (v_fs v2)" using k2 by (simp add: keeps_view_def)
      have ss2: "dir_sectors (v_fs v2) xs = ?ss" using same_layout_dir_sectors [OF lay2] by simp
      have "dir_entries sec v2 ?ss = dir_entries sec v ?ss"
        using entry_at_keeps [OF k2 tb] by (auto simp: dir_entries_def)
      moreover have "65536 - (i + 1) < 65536 - i" using i by simp
      ultimately obtain r' dj' v' where l: "dirfind_loop ops dj2 v2 = Some (r', dj', v')" "keeps_view sec v2 v'"
        "sound (v_dsk v')" "same_table dj2 dj'" "found_at xs v2 (map_option ((+) (i + 1))
          (dir_lookup (d_fn dj2) (drop (i + 1) (dir_entries sec v ?ss)))) r' dj' v'"
        using less.hyps [of "i + 1" v2 dj2] keeps_view_fat_ok [OF k2 ok] n(3,4,5) True less.prems(3-5,9)
          keeps_view_clusters [OF k2 ok less.prems(6)] tb same_layout_mirror [OF lay2] same_layout_dir_pos [OF lay2]
          same_layout_dir_pos [OF lay] same_layout_fields [OF lay2] ss2
        by (auto simp: table_ok_def same_table_def)
      have "found_at xs v = found_at xs v2" by (intro ext) (simp add: found_at_def same_layout_dir_pos [OF lay2] split: option.split)
      moreover have "d_fn dj2 = d_fn dj" using n(4) by (simp add: same_table_def)
      moreover have "(+) (Suc i) = (\<lambda>x. Suc (i + x))" by (simp add: fun_eq_iff)
      ultimately show ?thesis using step l n True lk keeps_view_trans [OF k2 l(2)] same_table_trans [OF n(4) l(4)]
        by (auto simp: option.map_comp comp_def)
    qed
  qed
qed

lemma dir_find_searches:
  assumes "fat_ok sec v" "sound (v_dsk v)" "fs_csize (v_fs v) \<noteq> 0"
    "fs_csize (v_fs v) AND (fs_csize (v_fs v) - 1) = 0" "fs_n_rootdir (v_fs v) mod 16 = 0"
    "dir_clusters sec v (d_sclust dj) xs" "table_ok (v_fs v) xs" "11 \<le> length (d_fn dj)"
  shows "\<exists>r dj' v'. dir_find ops dj v = Some (r, dj', v') \<and> keeps_view sec v v' \<and> sound (v_dsk v') \<and>
    same_table dj dj' \<and>
    found_at xs v (dir_lookup (d_fn dj) (dir_entries sec v (dir_sectors (v_fs v) xs))) r dj' v'"
proof -
  obtain dj1 where s: "dir_sdi ops dj 0 v = Some (FR_OK, dj1, v)" "same_table dj dj1" "dir_pos (v_fs v) xs dj1 0"
    using dir_sdi_first [OF assms(1-3,6,7)] by blast
  have fn: "d_fn dj1 = d_fn dj" using s(2) by (simp add: same_table_def)
  have id: "map_option ((+) 0) x = x" for x :: "nat option" by (cases x) simp_all
  show ?thesis
    using dirfind_loop_pos [OF assms(1-7) s(3)] assms(8) s(1) same_table_trans [OF s(2)] fn
    by (auto simp: dir_find_def id)
qed

end

end
