(* ===== verification/FatNames.thy ===== *)
theory FatNames
  imports FatLookup
begin

text \<open>
  Names in both directions: a path segment in the 8.3 form is padded into the name field of an entry
  in upper case, and that field is shown as the same name.
\<close>

section \<open>Valid names\<close>

definition upc :: "byte \<Rightarrow> byte" where
  "upc c = (if IsLower c then c - 0x20 else c)"

definition name_char :: "byte \<Rightarrow> bool" where
  "name_char c \<longleftrightarrow> 0x20 < c \<and> c < 0x80 \<and> c \<noteq> 0x2E \<and> \<not> is_sep c \<and> chk_chr illegal_sfn c = 0"

lemma name_char_upc:
  assumes "name_char c"
  shows "upc c \<noteq> 0x20" "upc c \<noteq> 0" "upc c \<noteq> NDDE" "upc c \<noteq> DDE"
proof -
  have u: "32 < unat c" "unat c < 128" using assms by (simp_all add: name_char_def word_less_nat_alt)
  have "unat (upc c) = (if IsLower c then unat c - 32 else unat c)"
    by (simp add: upc_def IsLower_def word_le_nat_alt unat_sub)
  then have "33 \<le> unat (upc c)" "unat (upc c) < 128"
    using u by (auto simp: IsLower_def word_le_nat_alt split: if_splits)
  then show "upc c \<noteq> 0x20" "upc c \<noteq> 0" "upc c \<noteq> NDDE" "upc c \<noteq> DDE"
    by (auto simp: NDDE_def DDE_def)
qed

lemma upper_not_lower: "IsUpper c \<Longrightarrow> \<not> IsLower c"
  by (auto simp: IsUpper_def IsLower_def word_le_nat_alt)

text \<open>Valid characters are stored one after the other.\<close>

lemma cn_loop_chars:
  assumes "\<forall>c \<in> set cs. name_char c" "i + length cs \<le> ni" "ni \<le> length sfn"
  shows "\<exists>b'. cn_loop (cs @ rest) i ni b sfn =
    cn_loop rest (i + length cs) ni b' (take i sfn @ map upc cs @ drop (i + length cs) sfn)"
  using assms
proof (induction cs arbitrary: i b sfn)
  case Nil
  then show ?case by auto
next
  case (Cons c cs)
  have c: "\<not> c \<le> 0x20" "\<not> is_sep c" "c \<noteq> 0x2E" "\<not> 0x80 \<le> c" "chk_chr illegal_sfn c = 0" "\<not> ni \<le> i"
    using Cons.prems by (simp_all add: name_char_def not_le)
  have "\<exists>b1. cn_loop ((c # cs) @ rest) i ni b sfn = cn_loop (cs @ rest) (i + 1) ni b1 (sfn[i := upc c])"
    using c upper_not_lower [of c] by (cases "IsUpper c"; cases "IsLower c") (auto simp: upc_def)
  then obtain b1 where step: "cn_loop ((c # cs) @ rest) i ni b sfn = cn_loop (cs @ rest) (i + 1) ni b1 (sfn[i := upc c])" ..
  obtain b2 where "cn_loop (cs @ rest) (i + 1) ni b1 (sfn[i := upc c]) = cn_loop rest (i + 1 + length cs) ni b2
      (take (i + 1) (sfn[i := upc c]) @ map upc cs @ drop (i + 1 + length cs) (sfn[i := upc c]))"
    using Cons.IH [of "i + 1" "sfn[i := upc c]" b1] Cons.prems by auto
  moreover have "take (i + 1) (sfn[i := upc c]) = take i sfn @ [upc c]"
    using Cons.prems by (simp add: take_Suc_conv_app_nth)
  ultimately show ?case using step Cons.prems by (auto simp: add.assoc)
qed

definition pad :: "nat \<Rightarrow> byte list \<Rightarrow> byte list" where
  "pad n cs = cs @ replicate (n - length cs) 0x20"

lemma length_pad [simp]: "length cs \<le> n \<Longrightarrow> length (pad n cs) = n"
  by (simp add: pad_def)

definition sfn_of :: "byte list \<Rightarrow> byte list \<Rightarrow> byte list" where
  "sfn_of base ext = pad 8 (map upc base) @ pad 3 (map upc ext)"

definition path_of :: "byte list \<Rightarrow> byte list \<Rightarrow> byte list" where
  "path_of base ext = base @ (if ext = [] then [] else 0x2E # ext)"

definition valid_name :: "byte list \<Rightarrow> byte list \<Rightarrow> bool" where
  "valid_name base ext \<longleftrightarrow> (\<forall>c \<in> set (base @ ext). name_char c) \<and> base \<noteq> [] \<and> length base \<le> 8 \<and> length ext \<le> 3"

lemma cn_loop_name:
  assumes "valid_name base ext" "length sfn = 12" "take 11 sfn = replicate 11 0x20" "e \<le> 0x20 \<or> is_sep e"
  shows "\<exists>i ni b. cn_loop (path_of base ext @ e # rest) 0 8 0 sfn =
    Some (Inr (e, i, ni, b, sfn_of base ext @ [sfn ! 11], rest)) \<and> i \<noteq> 0"
proof -
  have v: "\<forall>c \<in> set base. name_char c" "\<forall>c \<in> set ext. name_char c" "base \<noteq> []" "length base \<le> 8" "length ext \<le> 3"
    using assms(1) by (auto simp: valid_name_def)
  have sfn: "sfn = replicate 11 0x20 @ [sfn ! 11]"
    using append_take_drop_id [of 11 sfn] Cons_nth_drop_Suc [of 11 sfn] assms(2,3) by simp
  obtain x where x: "sfn ! 11 = x" by blast
  have d: "drop n sfn = replicate (11 - n) 0x20 @ [x]" if "n \<le> 11" for n
    using that by (subst sfn) (simp add: x)
  let ?s1 = "map upc base @ drop (length base) sfn"
  have l1: "length ?s1 = 12" using v(4) assms(2) by simp
  have base: "\<exists>b1. cn_loop (base @ r) 0 8 0 sfn = cn_loop r (length base) 8 b1 ?s1" for r
    using cn_loop_chars [OF v(1), of 0 8 sfn r 0] v(4) assms(2) by simp
  have nz: "length base \<noteq> 0" using v(3) by simp
  show ?thesis
  proof (cases "ext = []")
    case True
    have "?s1 = sfn_of base ext @ [x]" using v(4) True
      by (simp add: d sfn_of_def pad_def replicate_add [symmetric])
    then show ?thesis using base [of "e # rest"] assms(4) True nz x by (auto simp: path_of_def)
  next
    case False
    obtain b1 where b1: "cn_loop (base @ 0x2E # ext @ e # rest) 0 8 0 sfn = cn_loop (0x2E # ext @ e # rest) (length base) 8 b1 ?s1"
      using base by blast
    have dot: "cn_loop (0x2E # r) i 8 b s = cn_loop r 8 11 (push_bit 2 b) s" for r i b s
      by (simp add: is_sep_def)
    obtain b2 where b2: "cn_loop (ext @ e # rest) 8 11 (push_bit 2 b1) ?s1 = cn_loop (e # rest) (8 + length ext) 11 b2
        (take 8 ?s1 @ map upc ext @ drop (8 + length ext) ?s1)"
      using cn_loop_chars [OF v(2), of 8 11 ?s1 "e # rest" "push_bit 2 b1"] v(5) l1 by auto
    have "take 8 ?s1 = pad 8 (map upc base)" "drop (8 + length ext) ?s1 = replicate (3 - length ext) 0x20 @ [x]"
      using v(4,5) by (simp_all add: d pad_def)
    then have "take 8 ?s1 @ map upc ext @ drop (8 + length ext) ?s1 = sfn_of base ext @ [x]"
      by (simp add: sfn_of_def pad_def)
    then show ?thesis using b1 dot b2 assms(4) False x by (auto simp: path_of_def)
  qed
qed


lemma create_name_valid:
  assumes "valid_name base ext" "length (d_fn dj) = 12" "e \<le> 0x20 \<or> is_sep e"
  shows "\<exists>flags. create_name dj (path_of base ext @ e # rest) =
    Some (FR_OK, dj\<lparr>d_fn := sfn_of base ext @ [flags]\<rparr>, rest) \<and> (flags AND NS_LAST \<noteq> 0 \<longleftrightarrow> e \<le> 0x20)"
proof -
  obtain b bs where b: "base = b # bs" using assms(1) by (cases base) (auto simp: valid_name_def)
  have bc: "name_char b" using assms(1) b by (simp add: valid_name_def)
  then have nosep: "dropWhile is_sep (path_of base ext @ e # rest) = path_of base ext @ e # rest"
    using b by (simp add: path_of_def name_char_def)
  let ?fn = "mem_set (d_fn dj) 0 0x20 11"
  have fn: "length ?fn = 12" "take 11 ?fn = replicate 11 0x20" using assms(2) by (simp_all add: mem_set_def)
  obtain i ni f where c: "cn_loop (path_of base ext @ e # rest) 0 8 0 ?fn =
      Some (Inr (e, i, ni, f, sfn_of base ext @ [?fn ! 11], rest))" "i \<noteq> 0"
    using cn_loop_name [OF assms(1) fn assms(3)] by blast
  have len: "length (sfn_of base ext) = 11" using assms(1) by (simp add: sfn_of_def valid_name_def)
  have hd: "(sfn_of base ext @ [y]) ! 0 = upc b" for y by (simp add: sfn_of_def pad_def b)
  have ns: "(sfn_of base ext @ [y])[NS := z] = sfn_of base ext @ [z]" for y z
    using len by (simp add: NS_def list_update_append)
  let ?c0 = "if e \<le> 0x20 then NS_LAST else 0" and ?f = "if ni = 8 then push_bit 2 f else f"
  let ?c1 = "if ?f AND 0x03 = 0x01 then ?c0 OR NS_EXT else ?c0"
  let ?c2 = "if ?f AND 0x0C = 0x04 then ?c1 OR NS_BODY else ?c1"
  have "create_name dj (path_of base ext @ e # rest) = Some (FR_OK, dj\<lparr>d_fn := sfn_of base ext @ [?c2]\<rparr>, rest)"
    unfolding create_name_def Let_def nosep c(1) using c(2) hd name_char_upc(4) [OF bc]
    by (simp only: option.simps bind.bind_lunit sum.simps prod.simps if_False ns)
  moreover have "?c2 AND NS_LAST \<noteq> 0 \<longleftrightarrow> e \<le> 0x20" by (simp add: name_flags)
  ultimately show ?thesis by blast
qed

section \<open>From the entry back to the name\<close>

lemma fi_body_pad:
  "\<forall>c \<in> set cs. c \<noteq> 0x20 \<and> c \<noteq> NDDE \<Longrightarrow> p + length cs \<le> length s \<Longrightarrow>
    fi_body (cs @ replicate n 0x20) p s = (p + length cs, take p s @ cs @ drop (p + length cs) s)"
proof (induction cs arbitrary: p s)
  case Nil
  then show ?case by (cases n) simp_all
next
  case (Cons c cs)
  then show ?case using Cons.IH [of "p + 1" "s[p := c]"] by (simp add: take_Suc_conv_app_nth)
qed

lemma fi_ext_pad:
  "\<forall>c \<in> set cs. c \<noteq> 0x20 \<Longrightarrow> p + length cs \<le> length s \<Longrightarrow>
    fi_ext (cs @ replicate n 0x20) p s = (p + length cs, take p s @ cs @ drop (p + length cs) s)"
proof (induction cs arbitrary: p s)
  case Nil
  then show ?case by (cases n) simp_all
next
  case (Cons c cs)
  then show ?case using Cons.IH [of "p + 1" "s[p := c]"] by (simp add: take_Suc_conv_app_nth)
qed

lemma get_fileinfo_name:
  assumes "valid_name base ext" "d_sect dj \<noteq> 0" "d_dir dj = Some p" "length (fi_fname fno) = 13"
    "take 11 (drop p (fs_win (v_fs v))) = sfn_of base ext"
  shows "\<exists>fno'. get_fileinfo dj fno v = Some fno' \<and> length (fi_fname fno') = 13 \<and>
    take (length (path_of base ext) + 1) (fi_fname fno') = map upc (path_of base ext) @ [0]"
proof -
  let ?e = "drop p (fs_win (v_fs v))" and ?s = "fi_fname fno"
  have v: "\<forall>c \<in> set base. name_char c" "\<forall>c \<in> set ext. name_char c" "base \<noteq> []" "length base \<le> 8" "length ext \<le> 3"
    using assms(1) by (auto simp: valid_name_def)
  have len: "length (sfn_of base ext) = 11" using v by (simp add: sfn_of_def)
  then have le: "11 \<le> length ?e" using assms(5) by (metis length_take min.cobounded1)
  have e8: "take 8 ?e = map upc base @ replicate (8 - length base) 0x20"
    using arg_cong [OF assms(5), of "take 8"] v by (simp add: take_take sfn_of_def pad_def)
  have e3: "take 3 (drop 8 ?e) = map upc ext @ replicate (3 - length ext) 0x20"
    using arg_cong [OF assms(5), of "drop 8"] v le by (simp add: drop_take sfn_of_def pad_def)
  have e8': "?e ! 8 = (if ext = [] then 0x20 else upc (hd ext))"
  proof -
    have "?e ! 8 = sfn_of base ext ! 8" unfolding assms(5) [symmetric] by simp
    also have "\<dots> = pad 3 (map upc ext) ! 0" using v by (simp add: sfn_of_def nth_append)
    finally show ?thesis by (cases ext) (simp_all add: pad_def)
  qed
  have dot: "upc 0x2E = 0x2E" by (simp add: upc_def IsLower_def)
  let ?s1 = "map upc base @ drop (length base) ?s"
  have b1: "fi_body (take 8 ?e) 0 ?s = (length base, ?s1)"
    unfolding e8 using fi_body_pad [of "map upc base" 0 ?s "8 - length base"] v(1,4) assms(4) name_char_upc by auto
  have l1: "length ?s1 = 13" using v(4) assms(4) by simp
  show ?thesis
  proof (cases "ext = []")
    case True
    let ?t = "?s1[length base := 0]"
    have "take (length base + 1) ?t = map upc base @ [0]"
      using v(4) assms(4) by (simp add: take_Suc_conv_app_nth list_update_append)
    then show ?thesis using assms(2,3,4) b1 e8' True v(4) by (auto simp: get_fileinfo_def Let_def path_of_def)
  next
    case False
    have h: "upc (hd ext) \<noteq> 0x20" using False v(2) name_char_upc(1) by (cases ext) auto
    let ?s2 = "?s1[length base := 0x2E]" and ?q = "length base + 1"
    have t2: "take ?q ?s2 = map upc base @ [0x2E]"
      using v(4) assms(4) by (simp add: take_Suc_conv_app_nth list_update_append)
    let ?s3 = "take ?q ?s2 @ map upc ext @ drop (?q + length ext) ?s2"
    have b2: "fi_ext (take 3 (drop 8 ?e)) ?q ?s2 = (?q + length ext, ?s3)"
      unfolding e3 using fi_ext_pad [of "map upc ext" ?q ?s2 "3 - length ext"] v l1 name_char_upc(1) by auto
    have l3: "length ?s3 = 13" using v l1 by simp
    let ?t = "?s3[?q + length ext := 0]"
    have "take (?q + length ext + 1) ?t = map upc base @ [0x2E] @ map upc ext @ [0]"
      unfolding t2 using v l1 by (simp add: take_Suc_conv_app_nth list_update_append)
    then show ?thesis using assms(2,3) b1 b2 e8' h False l3 dot by (auto simp: get_fileinfo_def Let_def path_of_def)
  qed
qed

section \<open>Names in directory form\<close>

text \<open>A character that may stand in the name field: a blank, or a printable one that is not special.\<close>

definition field_char :: "byte \<Rightarrow> bool" where
  "field_char c \<longleftrightarrow> c = 0x20 \<or> 0x20 < c \<and> c \<noteq> 0x2E \<and> \<not> is_sep c \<and> \<not> IsLower c \<and> chk_chr illegal_sfn c = 0"

lemma length_ExCvt: "length ExCvt = 128"
  by (simp add: ExCvt_def)

lemma ExCvt_chars: "\<forall>c \<in> set ExCvt. 0x20 < c \<and> c \<noteq> 0x2E \<and> \<not> is_sep c \<and> \<not> IsLower c"
  by (simp add: ExCvt_def is_sep_def IsLower_def word_le_nat_alt word_less_nat_alt)

lemma field_upper:
  assumes "IsLower c"
  shows "field_char (c - 0x20)"
proof -
  have c: "97 \<le> unat c" "unat c \<le> 122" using assms by (simp_all add: IsLower_def word_le_nat_alt)
  then have "0x20 \<le> c" by (simp add: word_le_nat_alt)
  then have u: "unat (c - 0x20) = unat c - 32" by (simp add: unat_sub)
  have "65 \<le> unat (c - 0x20)" "unat (c - 0x20) \<le> 90" using c u by linarith+
  then show ?thesis
    by (auto simp: field_char_def is_sep_def IsLower_def illegal_sfn_def word_le_nat_alt word_less_nat_alt word_unat_eq_iff)
qed

lemma cn_loop_field:
  assumes "cn_loop p i ni b sfn = Some (Inr (c, i', ni', b', s, rest))" "ni \<le> 11" "length sfn = 12"
    "\<forall>k < 11. field_char (sfn ! k)"
  shows "length s = 12 \<and> (\<forall>k < 11. field_char (s ! k)) \<and> (c \<le> 0x20 \<or> is_sep c)"
  using assms
proof (induction p i ni b sfn rule: cn_loop.induct)
  case (2 x p i ni b sfn)
  show ?case
  proof (cases "x \<le> 0x20 \<or> is_sep x")
    case True
    then show ?thesis using 2 by auto
  next
    case False
    show ?thesis
    proof (cases "x = 0x2E \<or> ni \<le> i")
      case True
      then show ?thesis using 2 False by (auto split: if_splits)
    next
      case F: False
      obtain c1 b1 where cb1: "(if 0x80 \<le> x then (ExCvt ! unat (x - 0x80), b OR 3) else (x, b)) = (c1, b1)" by fastforce
      obtain c2 b2 where cb2: "(if IsUpper c1 then (c1, b1 OR 2) else if IsLower c1 then (c1 - 0x20, b1 OR 1) else (c1, b1)) = (c2, b2)" by (metis surj_pair)
      have nil: "chk_chr illegal_sfn c1 = 0" and e: "cn_loop (x # p) i ni b sfn = cn_loop p (i + 1) ni b2 (sfn[i := c2])"
        using 2(3) False F by (auto simp: cb1 cb2 split: if_splits)
      have "0x20 < c1 \<and> c1 \<noteq> 0x2E \<and> \<not> is_sep c1"
      proof (cases "0x80 \<le> x")
        case True
        have "unat (x - 0x80) = unat x - 128" using True by (simp add: unat_sub)
        then have "unat (x - 0x80) < 128" using unat_byte_lt [of x] by linarith
        then have "c1 \<in> set ExCvt" using cb1 True length_ExCvt by auto
        then show ?thesis using ExCvt_chars by blast
      qed (use cb1 False F in \<open>auto simp: not_le split: if_splits\<close>)
      then have "field_char c2"
        using cb2 nil field_upper [of c1] upper_not_lower [of c1] by (auto simp: field_char_def split: if_splits)
      then have "field_char (sfn[i := c2] ! k)" if "k < 11" for k
        using that 2(5,6) by (cases "k = i") simp_all
      then show ?thesis using 2(2) [OF False F cb1 [symmetric] _ _ cb2 [symmetric] _] 2(3-5) e nil by auto
    qed
  qed
qed simp

lemma create_name_field:
  assumes "create_name dj path = Some (FR_OK, dj', rest)" "length (d_fn dj) = 12"
  shows "length (d_fn dj') = 12 \<and> (\<forall>k \<in> {1..<11}. field_char (d_fn dj' ! k)) \<and>
    (field_char (d_fn dj' ! 0) \<or> d_fn dj' ! 0 = NDDE) \<and> d_fn dj' ! 0 \<noteq> DDE \<and> d_fn dj' ! 0 \<noteq> 0"
proof -
  let ?p = "dropWhile is_sep path" and ?s0 = "mem_set (d_fn dj) 0 0x20 11"
  have s0: "length ?s0 = 12" "\<forall>k < 11. field_char (?s0 ! k)"
    using assms(2) by (simp_all add: mem_set_def nth_append field_char_def)
  obtain c i ni b s r where c: "cn_loop ?p 0 8 0 ?s0 = Some (Inr (c, i, ni, b, s, r))" "i \<noteq> 0"
    and d: "\<exists>flags. dj' = dj\<lparr>d_fn := (if s ! 0 = DDE then s[0 := NDDE] else s)[NS := flags]\<rparr>"
    using assms(1) by (auto simp: create_name_def Let_def split: bind_splits sum.splits if_splits prod.splits)
  have f: "length s = 12" "\<forall>k < 11. field_char (s ! k)" using cn_loop_field [OF c(1) _ s0] by simp_all
  have "field_char (s ! 0)" using f(2) by simp
  then have "s ! 0 \<noteq> 0" by (auto simp: field_char_def)
  then show ?thesis using d f by (cases "s ! 0 = DDE") (auto simp: NS_def nth_list_update NDDE_def DDE_def)
qed

section \<open>What the conversions promise\<close>

text \<open>C31: whatever bytes the path holds, a name that \<open>create_name\<close> accepts is in directory form: eleven
  characters of the field (capital, printable, none of the forbidden ones, blanks as fill), a first
  character that is neither the deletion mark nor the end mark of a table, and the status byte.\<close>

theorem create_name_directory_form:
  assumes "create_name dj path = Some (FR_OK, dj', rest)" "length (d_fn dj) = 12"
  shows "length (d_fn dj') = 12 \<and> (\<forall>k \<in> {1..<11}. field_char (d_fn dj' ! k)) \<and>
    (field_char (d_fn dj' ! 0) \<or> d_fn dj' ! 0 = NDDE) \<and> d_fn dj' ! 0 \<noteq> DDE \<and> d_fn dj' ! 0 \<noteq> 0"
  by (rule create_name_field [OF assms])

definition blank_dir :: dir where
  "blank_dir = \<lparr>d_fs = None, d_id = 0, d_index = 0, d_sclust = 0, d_clust = 0, d_sect = 0, d_dir = None, d_fn = replicate 12 0\<rparr>"

theorem create_name_directory_form_witness:
  "\<exists>dj' rest. create_name blank_dir [0x2F, 0x84, 0x2E, 0x63, 0] = Some (FR_OK, dj', rest) \<and> d_fn dj' ! 0 = 0x8E \<and>
     (\<forall>k \<in> {1..<11}. field_char (d_fn dj' ! k))"
proof -
  have l: "length (d_fn blank_dir) = 12" by (simp add: blank_dir_def)
  obtain dj' rest where c: "create_name blank_dir [0x2F, 0x84, 0x2E, 0x63, 0] = Some (FR_OK, dj', rest)"
    and h: "d_fn dj' ! 0 = 0x8E"
    by (simp add: create_name_def blank_dir_def is_sep_def mem_set_def ExCvt_def illegal_sfn_def IsUpper_def IsLower_def
        DDE_def NS_def Let_def replicate_eq_replicate)
  from create_name_directory_form [OF c l] h c show ?thesis by blast
qed

text \<open>C32: an 8.3 name of plain characters survives the way into a directory entry and back: when the
  entry in the window carries the field that \<open>create_name\<close> makes of the path segment, the name that
  \<open>get_fileinfo\<close> reports is the segment in capitals, terminated by a zero byte.\<close>

theorem short_name_roundtrip:
  assumes "valid_name base ext" "length (d_fn dj) = 12" "e \<le> 0x20 \<or> is_sep e"
  shows "\<exists>dj1. create_name dj (path_of base ext @ e # rest) = Some (FR_OK, dj1, rest) \<and>
    (d_fn dj1 ! NS AND NS_LAST \<noteq> 0 \<longleftrightarrow> e \<le> 0x20) \<and>
    (\<forall>v dk p fno. d_sect dk \<noteq> 0 \<and> d_dir dk = Some p \<and> length (fi_fname fno) = 13 \<and>
       take 11 (drop p (fs_win (v_fs v))) = take 11 (d_fn dj1) \<longrightarrow>
       (\<exists>fno'. get_fileinfo dk fno v = Some fno' \<and>
          take (length (path_of base ext) + 1) (fi_fname fno') = map upc (path_of base ext) @ [0]))"
proof -
  have l: "length (sfn_of base ext) = 11" using assms(1) by (simp add: sfn_of_def valid_name_def)
  obtain f where "create_name dj (path_of base ext @ e # rest) = Some (FR_OK, dj\<lparr>d_fn := sfn_of base ext @ [f]\<rparr>, rest)"
    "f AND NS_LAST \<noteq> 0 \<longleftrightarrow> e \<le> 0x20"
    using create_name_valid [OF assms] by blast
  moreover have "\<forall>v dk p fno. d_sect dk \<noteq> 0 \<and> d_dir dk = Some p \<and> length (fi_fname fno) = 13 \<and>
       take 11 (drop p (fs_win (v_fs (v :: 'a vol)))) = sfn_of base ext \<longrightarrow>
     (\<exists>fno'. get_fileinfo dk fno v = Some fno' \<and>
      take (length (path_of base ext) + 1) (fi_fname fno') = map upc (path_of base ext) @ [0])"
    using get_fileinfo_name [OF assms(1)] by blast
  ultimately show ?thesis
    using l by (intro exI [of _ "dj\<lparr>d_fn := sfn_of base ext @ [f]\<rparr>"]) (simp add: NS_def nth_append)
qed

theorem short_name_roundtrip_witness:
  "\<exists>dj1. create_name blank_dir [0x68, 0x69, 0x2E, 0x63, 0] = Some (FR_OK, dj1, []) \<and> d_fn dj1 ! NS AND NS_LAST \<noteq> 0"
proof -
  have "valid_name [0x68, 0x69] [0x63]"
    by (simp add: valid_name_def name_char_def is_sep_def illegal_sfn_def)
  moreover have "length (d_fn blank_dir) = 12" "(0 :: byte) \<le> 0x20 \<or> is_sep 0" by (simp_all add: blank_dir_def)
  moreover have "path_of [0x68, 0x69] [0x63] @ [0] = [0x68, 0x69, 0x2E, 0x63, 0 :: byte]" by (simp add: path_of_def)
  ultimately show ?thesis using short_name_roundtrip [of "[0x68, 0x69]" "[0x63]" blank_dir 0 "[]"] by auto
qed

text \<open>A segment that is a single dot is not rejected: it is turned into a name of blanks, which no
  entry may have, and not into the dot entry.\<close>

theorem create_name_accepts_dot:
  "create_name blank_dir [0x2E, 0] = Some (FR_OK, blank_dir\<lparr>d_fn := replicate 11 0x20 @ [NS_LAST]\<rparr>, [])"
  by (simp add: create_name_def blank_dir_def is_sep_def mem_set_def DDE_def NS_def Let_def NS_LAST_def)
    (simp add: nth_append list_update_append)

end
