(* ===== verification/FatBoot.thy ===== *)
theory FatBoot
  imports FatEntries
begin

text \<open>
  The boot sector. The views of theory \<open>FatWindow\<close> leave sector 0 out, because \<^verbatim>\<open>sync_fs\<close> and the mount
  operation name it as the sector of a window that holds something else. Here its medium is followed
  through a change of a FAT entry: it is never written as long as the window is not dirty for sector 0, and the one way to
  make it so is \<^verbatim>\<open>put_fat\<close>, which sets the dirty flag even when it could not move the window.
\<close>

definition boot_safe :: "'w vol \<Rightarrow> bool" where
  "boot_safe v \<longleftrightarrow> fs_winsect (v_fs v) \<noteq> 0 \<or> fs_wflag (v_fs v) = 0"

text \<open>A step of the window that leaves the boot sector alone, and does not come back to it.\<close>

definition boot_step :: "('w \<Rightarrow> u32 \<Rightarrow> byte list) \<Rightarrow> 'w vol \<Rightarrow> 'w vol \<Rightarrow> bool" where
  "boot_step sc v v' \<longleftrightarrow> sc (v_dsk v') 0 = sc (v_dsk v) 0 \<and> (fs_winsect (v_fs v) \<noteq> 0 \<longrightarrow> fs_winsect (v_fs v') \<noteq> 0)"

lemma boot_step_refl [simp]: "boot_step sc v v"
  by (simp add: boot_step_def)

lemma boot_step_trans: "boot_step sc u v \<Longrightarrow> boot_step sc v w \<Longrightarrow> boot_step sc u w"
  by (simp add: boot_step_def)

lemma boot_step_window [simp]:
  "boot_step sc u (set_wflag v) = boot_step sc u v" "boot_step sc u (set_win w v) = boot_step sc u v"
  "boot_step sc u (put_win_byte i b v) = boot_step sc u v"
  by (simp_all add: boot_step_def set_wflag_def set_win_def put_win_byte_def)

lemma boot_safe_moved: "fs_winsect (v_fs v) \<noteq> 0 \<Longrightarrow> boot_safe v"
  by (simp add: boot_safe_def)

context block_device
begin

lemma sync_window_boot:
  assumes ok: "vol_ok sec v" "fs_fatbase (v_fs v) \<noteq> 0" "boot_safe v" and s: "sync_window ops v = (res, v')"
  shows "boot_step sec v v' \<and> fs_winsect (v_fs v') = fs_winsect (v_fs v)"
proof (cases "fs_wflag (v_fs v) = 0")
  case True
  then show ?thesis using s by (simp add: sync_window_def)
next
  case dirty: False
  then have w: "fs_winsect (v_fs v) \<noteq> 0" using ok(3) by (simp add: boot_safe_def)
  have g: "geom (v_fs v)" "length (fs_win (v_fs v)) = 512" and rd: "ready sec (v_dsk v)"
    using ok(1) by (auto simp: vol_ok_def geom_def)
  obtain r d where d: "d_write ops 0 (fs_win (v_fs v)) (fs_winsect (v_fs v)) 1 (v_dsk v) = (r, d)"
    by fastforce
  have m: "\<not> mirror (v_fs v) 0" using ok(2) by (simp add: mirror_def unat_eq_zero)
  have "sec (v_dsk v') 0 = sec d 0"
    using sync_window_dirty [OF g(1) dirty rd d] m s by auto
  also have "sec d 0 = sec (v_dsk v) 0"
    using write_one_frame [OF rd d g(2)] w by simp
  finally show ?thesis
    using sync_window_keeps [OF ok(1) s] by (simp add: boot_step_def)
qed

lemma move_window_boot:
  assumes ok: "vol_ok sec v" "fs_fatbase (v_fs v) \<noteq> 0" "boot_safe v" "s \<noteq> 0" and m: "move_window ops s v = (r, v')"
  shows "boot_step sec v v' \<and> boot_safe v' \<and> (r = FR_OK \<longrightarrow> fs_winsect (v_fs v') \<noteq> 0)"
proof (cases "s = fs_winsect (v_fs v)")
  case True
  then show ?thesis using ok m by (simp add: move_window_def)
next
  case False
  obtain res1 v1 where s1: "sync_window ops v = (res1, v1)" by fastforce
  note b1 = sync_window_boot [OF ok(1-3) s1]
  have k1: "vol_ok sec v1" "res1 = FR_OK \<Longrightarrow> fs_wflag (v_fs v1) = 0" "res1 \<noteq> FR_OK \<Longrightarrow> v_fs v1 = v_fs v"
    using sync_window_keeps [OF ok(1) s1] s1 by (auto simp: keeps_view_def sync_window_def Let_def split: if_splits prod.splits)
  have r1: "ready sec (v_dsk v1)" "fs_drv (v_fs v1) = 0" using k1(1) by (simp_all add: vol_ok_def geom_def)
  obtain q win d where rd: "d_read ops 0 (fs_win (v_fs v1)) s 1 (v_dsk v1) = (q, win, d)"
    by (metis prod_cases3)
  have d: "sec d = sec (v_dsk v1)" by (rule read_keeps [OF r1(1) rd])
  show ?thesis
  proof (cases "res1 = FR_OK")
    case True
    then show ?thesis
      using False m s1 rd r1(2) b1 d k1(2) ok(4)
      by (auto simp: move_window_def Let_def boot_step_def boot_safe_def split: if_splits)
  next
    case err: False
    then have "v' = v1" "r = FR_DISK_ERR" using False m s1 by (auto simp: move_window_def)
    then show ?thesis
      using b1 k1(3) [OF err] ok(3) by (simp add: boot_safe_def FRESULT.distinct)
  qed
qed

text \<open>The window of the table.\<close>

lemma move_fat_boot:
  assumes "fat_ok sec v" "boot_safe v" "k < 512 * unat (fs_fsize (v_fs v))" "move_window ops (fat_sector (v_fs v) k) v = (r, v')"
  shows "boot_step sec v v' \<and> (r = FR_OK \<longrightarrow> fs_winsect (v_fs v') \<noteq> 0)"
proof -
  have "geom (v_fs v)" "fs_fatbase (v_fs v) \<noteq> 0" using assms(1) by (simp_all add: fat_ok_def vol_ok_def)
  then show ?thesis
    using move_window_boot [OF fat_ok_vol [OF assms(1)] _ assms(2) fat_sector_nz assms(4)] assms(3) by blast
qed

lemma vol_ok_store: "vol_ok sec v \<Longrightarrow> vol_ok sec (set_wflag (put_win_byte i b v))"
  by (simp add: vol_ok_def geom_def clean_def set_wflag_def put_win_byte_def set_win_def)

lemma put_fat12_boot:
  assumes ok: "fat_ok sec v" "boot_safe v" and c: "2 \<le> c" "c < fs_n_fatent (v_fs v)" "fs_type (v_fs v) = FS_FAT12"
    and p: "put_fat ops c val v = (r, v')"
  shows "boot_step sec v v' \<and> (r = FR_OK \<longrightarrow> fs_winsect (v_fs v') \<noteq> 0)"
proof -
  let ?s = "fs_fatbase (v_fs v) + (c + c div 2) div 512" and ?s' = "fs_fatbase (v_fs v) + (c + c div 2 + 1) div 512"
  note cell = clst_cell [OF ok(1) c(2,3)]
  have g: "geom (v_fs v)" "fs_fatbase (v_fs v) \<noteq> 0" using ok(1) by (simp_all add: fat_ok_def vol_ok_def)
  have nz: "?s \<noteq> 0" "?s' \<noteq> 0"
    using fat_sector_nz [OF g(1) _ g(2)] cell fat_sector_word [of "v_fs v" "c + c div 2"] fat_sector_word [of "v_fs v" "c + c div 2 + 1"]
    by (metis Suc_lessD)+
  obtain r1 v1 where m1: "move_window ops ?s v = (r1, v1)" by fastforce
  note b1 = move_window_boot [OF fat_ok_vol [OF ok(1)] g(2) ok(2) nz(1) m1]
  have k1: "vol_ok sec v1" "fs_fatbase (v_fs v1) = fs_fatbase (v_fs v)"
    using move_window_keeps [OF fat_ok_vol [OF ok(1)] m1] by (simp_all add: keeps_view_def same_layout_fields)
  show ?thesis
  proof (cases "r1 = FR_OK")
    case False
    then have "boot_step sec v v' \<and> r = r1" using p m1 c b1 by (auto simp: put_fat_def Let_def not_less [symmetric])
    then show ?thesis using False by simp
  next
    case True
    define b where "b = (if c AND 1 \<noteq> 0 then (win_byte (v_fs v1) (c + c div 2) AND 0x0F) OR push_bit 4 (ucast val)
      else (ucast val :: byte))"
    define v2 where "v2 = set_wflag (put_win_byte (c + c div 2) b v1)"
    obtain r2 v3 where m2: "move_window ops ?s' v2 = (r2, v3)" by fastforce
    have v2: "vol_ok sec v2" "fs_fatbase (v_fs v2) \<noteq> 0" "fs_winsect (v_fs v2) \<noteq> 0" "boot_step sec v v2"
      using vol_ok_store [OF k1(1)] k1(2) g(2) b1 True by (simp_all add: v2_def) (simp_all add: set_wflag_def put_win_byte_def set_win_def)
    note b2 = move_window_boot [OF v2(1,2) boot_safe_moved [OF v2(3)] nz(2) m2]
    have s3: "boot_step sec v v3" using boot_step_trans [OF v2(4)] b2 by blast
    have w3: "fs_winsect (v_fs v3) \<noteq> 0" using b2 v2(3) by (simp add: boot_step_def)
    have "v' = set_wflag v3 \<or> (\<exists>b'. v' = set_wflag (put_win_byte (c + c div 2 + 1) b' v3))"
      using p m1 m2 c True by (auto simp: put_fat_def Let_def not_less [symmetric] v2_def b_def split: if_splits)
    then show ?thesis
      using s3 w3 by (elim disjE exE) (simp_all, simp_all add: set_wflag_def put_win_byte_def set_win_def)
  qed
qed

text \<open>The other two types store an entry in one sector.\<close>

lemma put_fat_aligned_boot:
  assumes ok: "fat_ok sec v" "boot_safe v" and c: "2 \<le> c" "c < fs_n_fatent (v_fs v)" "fs_type (v_fs v) \<noteq> FS_FAT12"
    and p: "put_fat ops c val v = (r, v')"
  shows "\<exists>s v1. s \<noteq> 0 \<and> move_window ops s v = (r, v1) \<and> boot_step sec v v1 \<and> (r = FR_OK \<longrightarrow> fs_winsect (v_fs v1) \<noteq> 0) \<and>
    (v' = set_wflag v1 \<and> r \<noteq> FR_OK \<or> (\<exists>w. v' = set_wflag (set_win w v1)) \<and> r = FR_OK)"
proof -
  have t: "fs_type (v_fs v) \<in> {FS_FAT16, FS_FAT32}" "FS_FAT16 \<noteq> FS_FAT12" "FS_FAT32 \<noteq> FS_FAT12" "FS_FAT32 \<noteq> FS_FAT16"
    using ok(1) c(3) by (auto simp: fat_ok_def fs_types)
  define k where "k = (if fs_type (v_fs v) = FS_FAT16 then 2 * unat c else 4 * unat c)"
  have "k < 512 * unat (fs_fsize (v_fs v))"
    using ok(1) c t entry_in_extent(2,3) [of "unat c" "unat (fs_n_fatent (v_fs v))"]
    by (auto simp: fat_ok_def word_less_nat_alt k_def)
  note mb = move_fat_boot [OF ok this]
  have nz: "fat_sector (v_fs v) k \<noteq> 0"
    using fat_sector_nz ok(1) \<open>k < 512 * unat (fs_fsize (v_fs v))\<close> by (simp add: fat_ok_def vol_ok_def)
  have s: "fat_sector (v_fs v) k = (if fs_type (v_fs v) = FS_FAT16 then fs_fatbase (v_fs v) + c div 256 else fs_fatbase (v_fs v) + c div 128)"
    by (simp add: fat_sector_def k_def div_512_of_double)
  obtain r1 v1 where m1: "move_window ops (fat_sector (v_fs v) k) v = (r1, v1)" by fastforce
  have "r = r1 \<and> (v' = set_wflag v1 \<and> r \<noteq> FR_OK \<or> (\<exists>w. v' = set_wflag (set_win w v1)) \<and> r = FR_OK)"
    using p m1 c t s by (auto simp: put_fat_def Let_def not_less [symmetric] split: if_splits)
  then show ?thesis using mb [OF m1] m1 nz by blast
qed

lemma put_fat_boot:
  assumes ok: "fat_ok sec v" "boot_safe v" and p: "put_fat ops c val v = (r, v')"
  shows "sec (v_dsk v') 0 = sec (v_dsk v) 0" "boot_safe v' \<or> r = FR_DISK_ERR \<and> fs_winsect (v_fs v) = 0"
proof -
  have *: "boot_step sec v v' \<and> (boot_safe v' \<or> r = FR_DISK_ERR \<and> fs_winsect (v_fs v) = 0)"
  proof (cases "c < 2 \<or> fs_n_fatent (v_fs v) \<le> c")
    case True
    then have "v' = v" using p by (auto simp: put_fat_def)
    then show ?thesis using ok(2) by simp
  next
    case False
    then have c: "2 \<le> c" "c < fs_n_fatent (v_fs v)" by auto
    have r: "r \<in> {FR_OK, FR_DISK_ERR}" using put_fat_entry(2,3) [OF ok(1) p] False by auto
    have "boot_step sec v v' \<and> (r = FR_OK \<longrightarrow> fs_winsect (v_fs v') \<noteq> 0)"
    proof (cases "fs_type (v_fs v) = FS_FAT12")
      case True
      then show ?thesis by (rule put_fat12_boot [OF ok c _ p])
    next
      case False
      from put_fat_aligned_boot [OF ok c False p] show ?thesis
        by (elim exE conjE disjE) (simp_all, simp_all add: set_wflag_def set_win_def)
    qed
    then show ?thesis using r by (auto simp: boot_step_def boot_safe_def)
  qed
  then show "sec (v_dsk v') 0 = sec (v_dsk v) 0" "boot_safe v' \<or> r = FR_DISK_ERR \<and> fs_winsect (v_fs v) = 0"
    by (auto simp: boot_step_def)
qed

text \<open>
  What goes wrong otherwise: after \<^verbatim>\<open>sync_fs\<close> has written the FSInfo sector, the window holds its image under the
  number 0. When the next \<^verbatim>\<open>put_fat\<close> cannot read the table, it marks this window dirty, and the next write back of the window puts
  the FSInfo image on the boot sector.
\<close>

lemma sync_after_failed_put_fat:
  assumes ok: "fat_ok sec v" "fs_type (v_fs v) = FS_FAT32" "fs_fsi_flag (v_fs v) \<noteq> 0" and s: "sync_fs ops v = (FR_OK, v1)"
    and p: "put_fat ops c val v1 = (FR_DISK_ERR, v2)" and wr: "sync_window ops v2 = (FR_OK, v3)"
  shows "sec (v_dsk v3) 0 = fsinfo_sector (v_fs v)"
proof -
  obtain ra va where a: "sync_window ops v = (ra, va)" by fastforce
  have ra: "ra = FR_OK" using s a by (auto simp: sync_fs_def split: if_splits)
  have ka: "geom (v_fs va)" "ready sec (v_dsk va)" "same_layout (v_fs v) (v_fs va)" "fs_win (v_fs va) = fs_win (v_fs v)" "fs_wflag (v_fs va) = 0"
    using sync_window_keeps [OF fat_ok_vol [OF ok(1)] a] ra by (simp_all add: keeps_view_def vol_ok_def)
  note fields = same_layout_fields [OF ka(3)]
  have drv: "fs_drv (v_fs va) = 0" and fb: "fs_fatbase (v_fs va) \<noteq> 0"
    using ok(1) ka(1) fields by (simp_all add: geom_def fat_ok_def)
  let ?w = "fsinfo_sector (v_fs v)"
  have w: "fsinfo_sector (v_fs va) = ?w" "length ?w = 512"
    using fields ka(1,4) by (simp_all add: fsinfo_sector_def geom_def)
  obtain rb db where b: "d_write ops 0 ?w (fs_fsi_sector (v_fs va)) 1 (v_dsk va) = (rb, db)" by fastforce
  obtain rc dc where c: "d_ioctl ops 0 CTRL_SYNC db = (rc, dc)" by fastforce
  have v1: "v1 = \<lparr>v_fs = (v_fs va)\<lparr>fs_winsect := 0, fs_win := ?w, fs_fsi_flag := 0\<rparr>, v_dsk = dc\<rparr>"
    using s a ra b c ok(2,3) drv fields w(1) by (auto simp: sync_fs_def Let_def split: if_splits)
  have rdb: "ready sec db" by (rule write_one_ready [OF ka(2) b w(2)])
  have rdc: "ready sec dc" using ioctl_keeps [OF rdb c] rdb by (simp add: ready_def)
  have sw: "sync_window ops v1 = (FR_OK, v1)" by (simp add: v1 sync_window_def ka(5))
  obtain r m where m: "move_window ops (fs_fatbase (v_fs v1) + c div 128) v1 = (r, m)" by fastforce
  have v2: "v2 = set_wflag m" "r = FR_DISK_ERR"
    using p m ok(2) fields by (auto simp: put_fat_def Let_def fs_types v1 split: if_splits prod.splits)
  obtain q win d where d: "d_read ops 0 ?w (fs_fatbase (v_fs v1) + c div 128) 1 (v_dsk v1) = (q, win, d)"
    by (metis prod_cases3)
  have "q \<noteq> RES_OK" and m': "m = v1\<lparr>v_fs := (v_fs v1)\<lparr>fs_win := win\<rparr>, v_dsk := d\<rparr>"
    using m d sw v2(2) drv by (auto simp: move_window_def Let_def v1 split: if_splits)
  then have "win = ?w" using read_fail [of "v_dsk v1" ?w _ q win d] rdc d w(2) by (simp add: v1)
  moreover have "sec d = sec dc" using read_keeps [of "v_dsk v1" ?w _ 1 q win d] rdc d by (simp add: v1)
  ultimately have f: "fs_win (v_fs v2) = ?w" "fs_winsect (v_fs v2) = 0" "fs_wflag (v_fs v2) \<noteq> 0" "ready sec (v_dsk v2)" "geom (v_fs v2)"
    using rdc ka(1) w(2) by (simp_all add: v2 m' v1 set_wflag_def ready_def geom_def)
  obtain rw dw where dw: "d_write ops 0 ?w 0 1 (v_dsk v2) = (rw, dw)" by fastforce
  with sync_window_dirty [OF f(5,3,4)] f(1,2) wr have "rw = RES_OK" "sec (v_dsk v3) 0 = sec dw 0"
    by (auto split: if_splits)
  then show ?thesis using write_one [OF f(4)] dw w(2) by simp
qed

end

end
