(* ===== verification/FatVolume.thy ===== *)
theory FatVolume
  imports FatReliable FatBoot DiskIO
begin

text \<open>
  What the FAT layer promises to the rest of the file system, for every block device, with examples
  on a volume held by the simulated SD card behind the console's own disk layer.
\<close>

section \<open>A small volume\<close>

text \<open>
  A FAT16 volume whose only FAT copy is sector 1: cluster 2 links to cluster 3, which ends the
  chain; clusters 4 to 9 are free. The first window load can be made to fail.
\<close>

definition demo_fat :: "byte list" where
  "demo_fat = [0xF8, 0xFF, 0xFF, 0xFF, 3, 0, 0xFF, 0xFF] @ replicate 504 0"

definition demo_card :: "bool list \<Rightarrow> sim sd" where
  "demo_card faults = \<lparr>typeSDSC = False, initialized = True, sd_sectors = 100,
     sd_card = \<lparr>sim_mem = (\<lambda>a. if a = 1 then demo_fat else replicate 512 0), sim_mode = SIdle, sim_faults = faults\<rparr>\<rparr>"

definition demo_fs :: fatfs where
  "demo_fs = \<lparr>fs_type = FS_FAT16, fs_drv = 0, fs_csize = 1, fs_n_fats = 1, fs_wflag = 0, fs_fsi_flag = 0,
     fs_id = 1, fs_n_rootdir = 16, fs_last_clust = 0, fs_free_clust = 6, fs_fsi_sector = 0, fs_n_fatent = 10,
     fs_fsize = 1, fs_volbase = 0, fs_fatbase = 1, fs_dirbase = 2, fs_database = 3, fs_winsect = 0,
     fs_win = replicate 512 0\<rparr>"

definition demo_vol :: "bool list \<Rightarrow> sim sd vol" where
  "demo_vol faults = \<lparr>v_fs = demo_fs, v_dsk = demo_card faults\<rparr>"

lemma demo_sec: "sd_sec (demo_card fl) a = (if a = 1 then demo_fat else replicate 512 0)"
  by (simp add: sd_sec_def demo_card_def)

lemma length_demo_fat: "length demo_fat = 512"
  by (simp add: demo_fat_def)

lemma demo_ok: "fat_ok sd_sec (demo_vol fl)"
proof -
  have "ready sd_sec (demo_card fl)" by (simp add: ready_def demo_sec length_demo_fat)
  then show ?thesis
    by (simp add: fat_ok_def vol_ok_def geom_def clean_def demo_vol_def demo_fs_def fs_types val_mask_def fat_extent_def)
qed

lemma demo_byte: "k < 512 \<Longrightarrow> fat_byte sd_sec (demo_vol fl) k = demo_fat ! k"
  by (simp add: fat_byte_def fat_sector_def view_def demo_vol_def demo_fs_def demo_sec)

lemma demo_entries:
  "fat_entry sd_sec (demo_vol fl) 2 = 3" "fat_entry sd_sec (demo_vol fl) 3 = 0xFFFF"
  "fat_entry sd_sec (demo_vol fl) 4 = 0"
proof -
  have t: "fs_type (v_fs (demo_vol fl)) = FS_FAT16" by (simp add: demo_vol_def demo_fs_def)
  show "fat_entry sd_sec (demo_vol fl) 2 = 3" "fat_entry sd_sec (demo_vol fl) 3 = 0xFFFF"
    "fat_entry sd_sec (demo_vol fl) 4 = 0"
    by (simp_all add: fat_entry_def t entry_of_def fs_types ent16_def demo_byte demo_fat_def)
qed

lemma demo_free: "4 \<le> m \<Longrightarrow> m < 10 \<Longrightarrow> fat_entry sd_sec (demo_vol fl) m = 0"
proof -
  assume "4 \<le> m" "m < 10"
  then have m: "4 \<le> unat m" "unat m < 10" by (simp_all add: word_le_nat_alt word_less_nat_alt)
  have z: "demo_fat ! k = 0" if "8 \<le> k" "k < 512" for k
    using that by (simp add: demo_fat_def nth_append)
  have t: "fs_type (v_fs (demo_vol fl)) = FS_FAT16" by (simp add: demo_vol_def demo_fs_def)
  show ?thesis
    using m z [of "2 * unat m"] z [of "2 * unat m + 1"]
    by (simp add: fat_entry_def t entry_of_def fs_types ent16_def demo_byte)
qed

lemma demo_chain: "is_chain (fat_entry sd_sec (demo_vol fl)) (fs_n_fatent (v_fs (demo_vol fl))) 2 [2, 3]"
  by (simp add: demo_entries) (simp add: demo_vol_def demo_fs_def)


section \<open>The simulated card as a reliable device\<close>

definition healthy :: "sim sd \<Rightarrow> bool" where
  "healthy s \<longleftrightarrow> initialized s \<and> sim_faults (sd_card s) = [] \<and> ready sd_sec s"

interpretation sdr: reliable_device "sd_disk sim_io" sd_sec healthy
proof
  fix w w' :: "sim sd" and buf buf' :: "byte list" and s :: u32 and r :: DRESULT
  assume h: "healthy w"
  then have i: "initialized w" "\<not> typeSDSC w" "length (sim_mem (sd_card w) s) = 512" "sim_faults (sd_card w) = []"
    and rd: "ready sd_sec w" by (auto simp: healthy_def ready_sd)
  note defs = sd_disk_def disk_read_def disk_write_def disk_ioctl_def sdStatus_def
  show "ready sd_sec w" by (rule rd)
  show "r = RES_OK \<and> healthy w'" if "d_read (sd_disk sim_io) 0 buf s 1 w = (r, buf', w')" "length buf = 512"
    using that i rd sim_read [OF i(1-3)] by (auto simp: defs healthy_def ready_sd)
  show "r = RES_OK \<and> healthy w'" if w: "d_write (sd_disk sim_io) 0 buf s 1 w = (r, w')" "length buf = 512"
  proof -
    have "512 \<le> length buf" using that(2) by simp
    from sim_write [OF i(1,2) this, of s] w i rd show ?thesis
      by (auto simp: defs healthy_def ready_sd)
  qed
  show "r = RES_OK \<and> healthy w'" if "d_ioctl (sd_disk sim_io) 0 CTRL_SYNC w = (r, w')"
    using that i rd by (auto simp: defs healthy_def)
qed

lemma demo_healthy: "healthy (v_dsk (demo_vol []))"
  using fat_ok_vol [OF demo_ok] by (simp add: healthy_def vol_ok_def) (simp add: demo_vol_def demo_card_def)

lemma demo_fields [simp]:
  "fs_n_fatent (v_fs (demo_vol fl)) = 10" "fs_type (v_fs (demo_vol fl)) = FS_FAT16"
  by (simp_all add: demo_vol_def demo_fs_def)

section \<open>Properties of the allocation table\<close>

text \<open>C13: on any block device, \<open>get_fat\<close> returns the entry of the cluster in the table (1 for a
  cluster number out of range) or 0xFFFFFFFF, and never changes the logical contents of the volume.\<close>

theorem get_fat_reads_table:
  assumes "block_device ops sec" "fat_ok sec v" "get_fat ops c v = (r, v')"
  shows "keeps_view sec v v' \<and>
    (r = (if c < 2 \<or> fs_n_fatent (v_fs v) \<le> c then 1 else fat_entry sec v c) \<or> r = 0xFFFFFFFF)"
  by (rule block_device.get_fat_entry [OF assms])

theorem get_fat_reads_table_witness: "fst (get_fat (sd_disk sim_io) 2 (demo_vol [True])) \<in> {3, 0xFFFFFFFF}"
  using get_fat_reads_table [OF sd.block_device_axioms demo_ok [of "[True]"], of 2] demo_entries(1) [of "[True]"]
  by (cases "get_fat (sd_disk sim_io) 2 (demo_vol [True])") auto

text \<open>A failed \<open>put_fat\<close> after \<^verbatim>\<open>sync_fs\<close> makes the FSInfo image go to the boot sector.\<close>

theorem failed_put_fat_spoils_boot_sector:
  assumes "block_device ops sec" "fat_ok sec v" "fs_type (v_fs v) = FS_FAT32" "fs_fsi_flag (v_fs v) \<noteq> 0"
    "sync_fs ops v = (FR_OK, v1)" "put_fat ops c val v1 = (FR_DISK_ERR, v2)" "sync_window ops v2 = (FR_OK, v3)"
  shows "sec (v_dsk v3) 0 = fsinfo_sector (v_fs v)"
  by (rule block_device.sync_after_failed_put_fat [OF assms])

text \<open>C10: on any block device, \<open>put_fat\<close> that returns \<open>FR_OK\<close> has made the entry read back as the
  value, in the width of the FAT type; whatever it returns, every other entry of the table is as before, FAT12 entries that
  share a byte included, and so is every sector outside the FAT copies other than sector 0. Sector 0 is not written either, provided
  the window is not dirty under that number (\<open>boot_safe\<close>), and this stays so except in one case: a device error while the
  window stood at sector 0, after which the next write back spoils the boot sector, as the theorem above shows.\<close>

theorem put_fat_updates_entry:
  assumes "block_device ops sec" "fat_ok sec v" "put_fat ops c val v = (r, v')"
  shows "fat_step sec v v' \<and>
    (\<forall>m < fs_n_fatent (v_fs v). m \<noteq> c \<longrightarrow> fat_entry sec v' m = fat_entry sec v m) \<and>
    (r = FR_OK \<longrightarrow> fat_entry sec v' c = val AND val_mask (fs_type (v_fs v))) \<and>
    (r = FR_INT_ERR \<longleftrightarrow> c < 2 \<or> fs_n_fatent (v_fs v) \<le> c) \<and>
    (boot_safe v \<longrightarrow> sec (v_dsk v') 0 = sec (v_dsk v) 0 \<and> (boot_safe v' \<or> r = FR_DISK_ERR \<and> fs_winsect (v_fs v) = 0))"
  using block_device.put_fat_entry [OF assms] block_device.put_fat_step [OF assms]
    block_device.put_fat_boot [OF assms(1,2) _ assms(3)] by blast

theorem put_fat_updates_entry_witness:
  "\<exists>r v'. put_fat (sd_disk sim_io) 3 4 (demo_vol []) = (r, v') \<and> fat_entry sd_sec v' 2 = 3 \<and> sd_sec (v_dsk v') 0 = replicate 512 0"
proof -
  obtain r v' where p: "put_fat (sd_disk sim_io) 3 4 (demo_vol []) = (r, v')" by fastforce
  have "boot_safe (demo_vol [])" "sd_sec (v_dsk (demo_vol [])) 0 = replicate 512 0"
    by (simp_all add: boot_safe_def demo_vol_def demo_fs_def demo_sec)
  with put_fat_updates_entry [OF sd.block_device_axioms demo_ok p] demo_entries(1) [of "[]"] p
  show ?thesis by auto
qed

text \<open>C14: freeing always ends. For any start cluster, on any block device, whatever the table
  contains (loops in it included), \<open>remove_chain\<close> returns and leaves every sector outside the FAT
  copies other than sector 0 as it was.\<close>

theorem remove_chain_returns:
  assumes "block_device ops sec" "fat_ok sec v"
  shows "\<exists>r v'. remove_chain ops c v = Some (r, v') \<and> fat_step sec v v'"
proof (cases "c < 2 \<or> fs_n_fatent (v_fs v) \<le> c")
  case True
  with assms(2) show ?thesis by (auto simp: remove_chain_def fat_step_refl)
next
  case False
  with block_device.remove_loop_returns [OF assms, of c] show ?thesis by (auto simp: remove_chain_def)
qed

theorem remove_chain_returns_witness:
  "\<exists>r v'. remove_chain (sd_disk sim_io) 2 (demo_vol [False, True]) = Some (r, v')"
  using remove_chain_returns [OF sd.block_device_axioms demo_ok, of 2 "[False, True]"] by blast

text \<open>C12: on a reliable device, removing a chain succeeds, frees exactly its clusters, leaves all other
  entries alone and keeps the free cluster count exact.\<close>

theorem remove_chain_frees_chain:
  assumes "reliable_device ops sec sound" "fat_ok sec v" "sound (v_dsk v)"
    and "is_chain (fat_entry sec v) (fs_n_fatent (v_fs v)) c xs" "c < fs_n_fatent (v_fs v)"
  shows "\<exists>v'. remove_chain ops c v = Some (FR_OK, v') \<and> sound (v_dsk v') \<and>
    (\<forall>m < fs_n_fatent (v_fs v). fat_entry sec v' m = (if m \<in> set xs then 0 else fat_entry sec v m)) \<and>
    (free_count_ok sec v \<longrightarrow> free_count_ok sec v')"
proof -
  have bd: "block_device ops sec" using assms(1) by (simp add: reliable_device_def)
  have c: "2 \<le> c" using assms(4,5) by (cases xs) auto
  obtain r v' where r: "remove_loop ops c v = Some (r, v')"
    using block_device.remove_loop_returns [OF bd assms(2) c] by blast
  have "r = FR_OK" "sound (v_dsk v')"
    using reliable_device.remove_loop_sound [OF assms(1-4) r] by auto
  with block_device.remove_loop_chain [OF bd assms(2,4) r] r c assms(5) show ?thesis
    by (auto simp: remove_chain_def)
qed

theorem remove_chain_frees_chain_witness:
  "\<exists>v'. remove_chain (sd_disk sim_io) 2 (demo_vol []) = Some (FR_OK, v') \<and> fat_entry sd_sec v' 2 = 0 \<and>
    fat_entry sd_sec v' 3 = 0"
proof -
  obtain v' where "remove_chain (sd_disk sim_io) 2 (demo_vol []) = Some (FR_OK, v')"
    "\<forall>m < 10. fat_entry sd_sec v' m = (if m \<in> set [2, 3] then 0 else fat_entry sd_sec (demo_vol []) m)"
    using remove_chain_frees_chain [OF sdr.reliable_device_axioms demo_ok demo_healthy demo_chain] by auto
  then show ?thesis by simp
qed

text \<open>C11: on a reliable device, asking for a new chain (cluster 0) or for a cluster after the last of a
  chain returns a cluster that was free, marked as the end of the chain and linked to the old end, all
  other entries unchanged and the free count exact; it returns 0 only if no cluster is free, and 1 only
  if the table holds the invalid link 1. It always returns.\<close>

theorem create_chain_allocates:
  assumes "reliable_device ops sec sound" "fat_ok sec v" "sound (v_dsk v)"
    and "clst = 0 \<or> 2 \<le> clst \<and> clst < fs_n_fatent (v_fs v) \<and> fs_n_fatent (v_fs v) \<le> fat_entry sec v clst"
  shows "\<exists>r v'. create_chain ops clst v = Some (r, v') \<and> fat_step sec v v' \<and>
    (r = 0 \<and> free_set (fat_entry sec v) (fs_n_fatent (v_fs v)) = {} \<or>
     r = 1 \<and> (\<exists>m. 2 \<le> m \<and> m < fs_n_fatent (v_fs v) \<and> fat_entry sec v m = 1) \<or>
     allocated sec clst r v v')"
proof -
  have bd: "block_device ops sec" using assms(1) by (simp add: reliable_device_def)
  have N: "2 < fs_n_fatent (v_fs v)" using assms(2) by (simp add: fat_ok_def)
  have no: "r \<noteq> 0xFFFFFFFF" if "create_chain ops clst v = Some (r, v')" for r v'
    using reliable_device.create_chain_sound [OF assms(1-3) _ that] assms(4) by blast
  show ?thesis
  proof (cases "clst = 0")
    case True
    with block_device.create_chain_new [OF bd assms(2)] no show ?thesis by blast
  next
    case False
    with assms(4) have c: "2 \<le> clst" "clst < fs_n_fatent (v_fs v)" and e: "fs_n_fatent (v_fs v) \<le> fat_entry sec v clst"
      by auto
    have nz: "fat_entry sec v clst \<noteq> 0" "fat_entry sec v clst \<noteq> 1" "\<not> fat_entry sec v clst < fs_n_fatent (v_fs v)"
      using e N by (auto simp: word_le_nat_alt word_less_nat_alt)
    have "fst (get_fat ops clst v) \<noteq> 0xFFFFFFFF"
      using reliable_device.get_fat_sound(2) [OF assms(1-3) _ c, of "fst (get_fat ops clst v)"] fat_entry_bound
      by (metis prod.collapse)
    with block_device.create_chain_stretch [OF bd assms(2) c nz(1)] nz no show ?thesis by blast
  qed
qed

lemma demo_no_link_1: "2 \<le> m \<Longrightarrow> m < 10 \<Longrightarrow> fat_entry sd_sec (demo_vol fl) m \<noteq> 1"
proof -
  assume m: "2 \<le> m" "m < 10"
  then have "m = 2 \<or> m = 3 \<or> 4 \<le> m"
    by (auto simp: word_le_nat_alt word_less_nat_alt word_unat_eq_iff)
  then show ?thesis using demo_entries [of fl] demo_free [of m fl] m by auto
qed

lemma demo_some_free: "free_set (fat_entry sd_sec (demo_vol fl)) 10 \<noteq> {}"
proof -
  have "4 \<in> free_set (fat_entry sd_sec (demo_vol fl)) 10" by (simp add: free_set_def demo_entries)
  then show ?thesis by blast
qed

theorem create_chain_allocates_witness:
  "\<exists>r v'. create_chain (sd_disk sim_io) 3 (demo_vol []) = Some (r, v') \<and> allocated sd_sec 3 r (demo_vol []) v'"
  using create_chain_allocates [OF sdr.reliable_device_axioms demo_ok demo_healthy, of 3]
    demo_no_link_1 [of _ "[]"] demo_some_free [of "[]"]
  by (auto simp: demo_entries)

lemma demo_read_error: "get_fat (sd_disk sim_io) 2 (demo_vol [True]) = (0xFFFFFFFF, demo_vol [])"
proof -
  have i: "initialized (demo_card [True])" "\<not> typeSDSC (demo_card [True])"
    "length (sim_mem (sd_card (demo_card [True])) 1) = 512"
    by (simp_all add: demo_card_def length_demo_fat)
  have "d_read (sd_disk sim_io) 0 buf 1 1 (demo_card [True]) = (RES_ERROR, buf, demo_card [])" for buf
    using i sim_read [OF i]
    by (simp add: sd_disk_def disk_read_def sdStatus_def) (simp add: demo_card_def pop_fault_def go_def)
  then have "move_window (sd_disk sim_io) 1 (demo_vol [True]) = (FR_DISK_ERR, demo_vol [])"
    by (simp add: move_window_def sync_window_def demo_vol_def demo_fs_def)
  then show ?thesis by (simp add: get_fat_def fs_types) (simp add: demo_vol_def demo_fs_def)
qed

text \<open>C16: on the example volume, when the link of the last known cluster cannot be read, \<open>create_chain\<close> does not report the
  error but goes on as at the end of the chain: with one transient read error, stretching the chain
  2, 3 at cluster 2 links cluster 2 to a free cluster and returns that. Cluster 3 is lost to the file.\<close>

theorem create_chain_ignores_read_error:
  "fat_entry sd_sec (demo_vol [True]) 2 = 3 \<and>
   (\<exists>r v'. create_chain (sd_disk sim_io) 2 (demo_vol [True]) = Some (r, v') \<and>
     fat_entry sd_sec (demo_vol [True]) r = 0 \<and> fat_entry sd_sec v' 2 = r \<and> fat_entry sd_sec v' 3 = 0xFFFF)"
proof -
  let ?v = "demo_vol []"
  have e: "fat_entry sd_sec (demo_vol fl) = fat_entry sd_sec ?v" for fl
    by (simp add: fat_entry_def fat_byte_def [abs_def] view_def demo_vol_def demo_sec fun_eq_iff cong: if_cong)
  obtain r v' where f: "create_from (sd_disk sim_io) 2 2 ?v = Some (r, v')"
    "r = 0 \<and> free_set (fat_entry sd_sec ?v) 10 = {} \<or> r = 1 \<and> (\<exists>m. 2 \<le> m \<and> m < 10 \<and> fat_entry sd_sec ?v m = 1) \<or>
     r = 0xFFFFFFFF \<or> allocated sd_sec 2 r ?v v'"
    using block_device.create_from_spec [OF sd.block_device_axioms demo_ok, of 2 "[]" 2] by (auto simp: demo_entries)
  have "r \<noteq> 0xFFFFFFFF" using sdr.create_from_sound [OF demo_ok demo_healthy, of 2 2 r v'] f(1) by simp
  with f(2) demo_some_free demo_no_link_1 have al: "allocated sd_sec 2 r ?v v'" by blast
  have "create_chain (sd_disk sim_io) 2 (demo_vol [True]) = Some (r, v')"
    using f(1) by (simp add: create_chain_def demo_read_error)
  moreover have "r \<noteq> 3" using al demo_entries(2) [of "[]"] by (auto simp: allocated_def)
  ultimately show ?thesis
    using al by (auto simp: allocated_def demo_entries e [of "[True]"])
qed

end
