(* ===== verification/FatOps.thy ===== *)
theory FatOps
  imports FatSearch FatNames FatVolume
begin

text \<open>
  What the file operations promise, with examples on a small FAT12 volume: boot record in sector 0,
  one FAT in sector 1, the root directory in sector 2 with one file of 600 bytes in clusters 2 and 3.
\<close>

section \<open>A volume with a file\<close>

definition demo_boot :: "byte list" where
  "demo_boot = (replicate 512 0)[11 := 0, 12 := 2, 13 := 1, 14 := 1, 16 := 1, 17 := 16, 19 := 11, 22 := 1,
     54 := 0x46, 55 := 0x41, 56 := 0x54, 510 := 0x55, 511 := 0xAA]"

definition demo_name :: "byte list" where
  "demo_name = [0x48, 0x45, 0x4C, 0x4C, 0x4F, 0x20, 0x20, 0x20, 0x54, 0x58, 0x54]"

definition demo_root :: "byte list" where
  "demo_root = demo_name @ [0x20, 0, 0, 0, 0, 0, 0, 0, 0, 0, 0, 0, 0, 0, 0, 2, 0, 0x58, 2, 0, 0] @ replicate 480 0"

definition demo_fat12 :: "byte list" where
  "demo_fat12 = [0xF8, 0xFF, 0xFF, 0x03, 0xF0, 0xFF] @ replicate 506 0"

definition demo_image :: "u32 \<Rightarrow> byte list" where
  "demo_image a = (if a = 0 then demo_boot else if a = 1 then demo_fat12 else if a = 2 then demo_root
     else if a = 3 then replicate 512 0x41 else if a = 4 then replicate 512 0x42 else replicate 512 0)"

definition file_card :: "sim sd" where
  "file_card = \<lparr>typeSDSC = False, initialized = True, sd_sectors = 100,
     sd_card = \<lparr>sim_mem = demo_image, sim_mode = SIdle, sim_faults = []\<rparr>\<rparr>"

definition file_sys :: "fatfs \<Rightarrow> sim sd sys" where
  "file_sys fs = \<lparr>s_obj = (\<lambda>_. fs), s_FatFs = Some 0, s_Fsid = 0, s_dsk = file_card\<rparr>"

lemma length_image: "length (demo_image a) = 512"
  by (simp add: demo_image_def demo_boot_def demo_fat12_def demo_root_def demo_name_def)

lemma file_sec: "sd_sec file_card = demo_image"
  by (simp add: sd_sec_def file_card_def)

lemma file_healthy: "healthy file_card"
  by (simp add: healthy_def ready_def file_sec length_image) (simp add: file_card_def)

lemma demo_bpb: "read_bpb 0 (fs\<lparr>fs_win := demo_boot\<rparr>) = (FR_OK, FS_FAT12,
    fs\<lparr>fs_win := demo_boot, fs_fsize := 1, fs_n_fats := 1, fs_csize := 1, fs_n_rootdir := 16, fs_n_fatent := 10,
      fs_volbase := 0, fs_fatbase := 1, fs_database := 3, fs_dirbase := 2\<rparr>)"
  by (simp add: read_bpb_def bpb_limits_def fat_bytes_def Let_def boot_offsets ld_word_def ld_dword_def demo_boot_def
      MIN_FAT16_def MIN_FAT32_def fs_types)


definition file_fs :: fatfs where
  "file_fs = \<lparr>fs_type = FS_FAT12, fs_drv = 0, fs_csize = 1, fs_n_fats = 1, fs_wflag = 0, fs_fsi_flag = 0,
     fs_id = 1, fs_n_rootdir = 16, fs_last_clust = 0, fs_free_clust = 0xFFFFFFFF, fs_fsi_sector = 0, fs_n_fatent = 10,
     fs_fsize = 1, fs_volbase = 0, fs_fatbase = 1, fs_dirbase = 2, fs_database = 3, fs_winsect = 0,
     fs_win = demo_boot\<rparr>"

definition file_vol :: "sim sd vol" where
  "file_vol = \<lparr>v_fs = file_fs, v_dsk = file_card\<rparr>"

lemma file_vol_ok: "fat_ok sd_sec file_vol"
  using file_healthy length_image [of 0]
  by (simp add: fat_ok_def vol_ok_def geom_def clean_def file_vol_def file_fs_def healthy_def fs_types val_mask_def
      fat_extent_def demo_image_def)

lemma file_mounts:
  "\<exists>s'. mount_volume (sd_disk sim_io) 0 wmode (file_sys (file_fs\<lparr>fs_type := 0\<rparr>)) = (FR_OK, s') \<and> vol_of s' 0 = file_vol"
proof -
  let ?v = "vol_of (file_sys (file_fs\<lparr>fs_type := 0\<rparr>)) 0"
  obtain r win d where rd: "d_read (sd_disk sim_io) 0 demo_boot 0 1 file_card = (r, win, d)" by (metis prod_cases3)
  have i: "initialized file_card" "\<not> typeSDSC file_card" "length (sim_mem (sd_card file_card) 0) = 512"
    by (simp_all add: file_card_def length_image)
  have "d_read (sd_disk sim_io) 0 demo_boot 0 1 file_card = (RES_OK, demo_boot, file_card)"
    using i sim_read [OF i] length_image [of 0]
    by (simp add: sd_disk_def disk_read_def sdStatus_def)
       (simp add: file_card_def pop_fault_def go_def mem_cpy_def demo_image_def)
  then have "check_fs (sd_disk sim_io) 0 \<lparr>v_fs = fs, v_dsk = file_card\<rparr> = (0, \<lparr>v_fs = fs, v_dsk = file_card\<rparr>)"
    if "fs_drv fs = 0" "fs_win fs = demo_boot" for fs
    using that by (cases fs) (simp add: check_fs_def boot_offsets ld_word_def ld_dword_def demo_boot_def)
  then have "find_boot (sd_disk sim_io) \<lparr>v_fs = fs, v_dsk = file_card\<rparr> = (0, 0, \<lparr>v_fs = fs, v_dsk = file_card\<rparr>)"
    if "fs_drv fs = 0" "fs_win fs = demo_boot" for fs
    using that by (simp add: find_boot_def)
  moreover have "d_initialize (sd_disk sim_io) 0 file_card = (0, file_card)"
    by (simp add: sd_disk_def disk_initialize_def sdStatus_def i(1))
  moreover have "read_bpb 0 (file_fs\<lparr>fs_type := 0, fs_drv := 0\<rparr>) = (FR_OK, FS_FAT12, file_fs\<lparr>fs_type := 0\<rparr>)"
    using demo_bpb [of "file_fs\<lparr>fs_type := 0\<rparr>"] by (simp add: file_fs_def)
  moreover have "read_fsinfo (sd_disk sim_io) FS_FAT12 0 \<lparr>v_fs = fs, v_dsk = file_card\<rparr> =
      \<lparr>v_fs = fs\<lparr>fs_free_clust := 0xFFFFFFFF, fs_last_clust := 0\<rparr>, v_dsk = file_card\<rparr>" for fs
    by (simp add: read_fsinfo_def fs_types)
  ultimately show ?thesis
    by (simp add: mount_volume_def vol_of_def put_vol_def file_sys_def file_vol_def file_fs_def Let_def)
qed

lemma file_mounted: "mounted (sd_disk sim_io) sd_sec 0 (file_sys file_fs)"
proof -
  have "vol_of (file_sys file_fs) 0 = file_vol" by (simp add: vol_of_def file_sys_def file_vol_def)
  then show ?thesis using file_vol_ok
    by (simp add: mounted_def) (simp add: file_sys_def file_fs_def sd_disk_def disk_status_def sdStatus_def file_card_def)
qed

section \<open>Mounting\<close>

text \<open>C27: whenever mounting returns \<open>FR_OK\<close> on a block device that initialization left ready, and the boot record on
  the medium fits (\<open>boot_fits\<close>: its reserved, FAT and root sectors lie in the volume it describes, this in 32-bit sector numbers, and
  its clusters in 28-bit entries; the code computes all three in 32 bits without a check), the new file system object satisfies the
  invariant of the table operations, with the sectors and the number of clusters that the record has in natural numbers, a FAT
  area behind the boot record, a cluster size that is a power of two and a fresh mount identifier, and nothing on the medium
  has changed.\<close>

theorem mount_establishes_invariant:
  assumes "block_device ops sec"
    and "mount_volume ops q wmode s = (FR_OK, s')" "d_initialize ops 0 (s_dsk s) = (stat, w)" "ready sec w"
    and "length (fs_win (s_obj s q)) = 512" "fs = s_obj s' q"
    and "base = boot_base (sec w)" "b = sec w base" "boot_fits b base"
  shows "fat_ok sec (vol_of s' q) \<and> sec (s_dsk s') = sec w \<and> fs_id fs = s_Fsid s + 1 \<and> s_Fsid s' = s_Fsid s + 1 \<and>
    (\<exists>k < 8. unat (fs_csize fs) = 2 ^ k) \<and> fs_volbase fs = base \<and> unat base < unat (fs_fatbase fs) \<and>
    fs_database fs = fs_fatbase fs + fs_fsize fs * ucast (fs_n_fats fs) + ucast (fs_n_rootdir fs div 16) \<and>
    unat (fs_database fs) = unat base + boot_area b \<and> unat (fs_n_fatent fs) = boot_clusters b + 2"
proof -
  have f: "v_fs (vol_of s' q) = fs" "v_dsk (vol_of s' q) = s_dsk s'" by (simp_all add: vol_of_def assms(6))
  note m = block_device.mount_fat_ok [OF assms(1-5) refl refl assms(7-9), unfolded f]
  have "\<exists>k < 8. unat (fs_csize fs) = 2 ^ k" "unat base < unat (fs_fatbase fs)"
    using m power_of_two_byte [of "fs_csize fs"] by (blast, metis)
  with m show ?thesis by blast
qed

theorem mount_establishes_invariant_witness:
  "\<exists>s'. mount_volume (sd_disk sim_io) 0 True (file_sys (file_fs\<lparr>fs_type := 0\<rparr>)) = (FR_OK, s') \<and>
     fat_ok sd_sec (vol_of s' 0) \<and> unat (fs_database (s_obj s' 0)) = 3 \<and> unat (fs_n_fatent (s_obj s' 0)) = 10"
proof -
  let ?s = "file_sys (file_fs\<lparr>fs_type := 0\<rparr>)"
  obtain s' where m: "mount_volume (sd_disk sim_io) 0 True ?s = (FR_OK, s')" "vol_of s' 0 = file_vol"
    using file_mounts by blast
  have init: "d_initialize (sd_disk sim_io) 0 (s_dsk ?s) = (0, file_card)"
    by (simp add: sd_disk_def disk_initialize_def sdStatus_def file_sys_def file_card_def)
  have ready: "ready sd_sec file_card" using file_healthy by (simp add: healthy_def)
  have len: "length (fs_win (s_obj ?s 0)) = 512"
    using length_image [of 0] by (simp add: file_sys_def file_fs_def demo_image_def)
  have base: "0 = boot_base (sd_sec file_card)"
    by (simp add: boot_base_def file_sec demo_image_def boot_offsets ld_word_def ld_dword_def demo_boot_def)
  have boot: "demo_boot = sd_sec file_card 0" by (simp add: file_sec demo_image_def)
  have area: "boot_area demo_boot = 3" "boot_total demo_boot = 11" "demo_boot ! BPB_SecPerClus = 1"
    by (simp_all add: boot_area_def boot_total_def boot_fatsz_def boot_offsets ld_word_def ld_dword_def demo_boot_def)
  then have clusters: "boot_clusters demo_boot = 8" by (simp add: boot_clusters_def)
  have fits: "boot_fits demo_boot 0" by (simp add: boot_fits_def area clusters)
  note m' = mount_establishes_invariant [OF sd.block_device_axioms m(1) init ready len refl base boot fits, unfolded area clusters]
  from m' have "fat_ok sd_sec (vol_of s' 0)" by blast
  moreover from m' have "unat (fs_database (s_obj s' 0)) = unat (0 :: u32) + 3" "unat (fs_n_fatent (s_obj s' 0)) = 8 + 2" by blast+
  ultimately show ?thesis using m(1) by auto
qed

text \<open>C33: registering or unregistering a file system object cuts off every file and directory object of
  the file system that was registered, and of the new one: they are all invalid until reopened.\<close>

theorem f_mount_invalidates_objects:
  "(\<exists>s'. f_mount 0 fs s = (FR_OK, s') \<and> s_FatFs s' = fs \<and>
     (\<forall>q id. s_FatFs s = Some q \<or> fs = Some q \<longrightarrow> validate ops (Some (Some q, id)) s' = FR_INVALID_OBJECT) \<and>
     (\<forall>p. s_FatFs s \<noteq> Some p \<and> fs \<noteq> Some p \<longrightarrow> s_obj s' p = s_obj s p)) \<and>
   (\<forall>vol. vol \<noteq> 0 \<longrightarrow> f_mount vol fs s = (FR_INVALID_DRIVE, s))"
proof -
  have "\<not> (1 :: byte) \<le> 0" "vol \<noteq> 0 \<Longrightarrow> 1 \<le> vol" for vol :: byte
    by (simp_all add: word_le_nat_alt unat_gt_0 Suc_leI)
  then show ?thesis
    by (auto simp: f_mount_def clear_type_def validate_def split: option.splits)
qed

theorem f_mount_invalidates_objects_witness:
  "\<exists>s'. f_mount 0 None (file_sys file_fs) = (FR_OK, s') \<and> validate (sd_disk sim_io) (Some (Some 0, 1)) s' = FR_INVALID_OBJECT"
proof -
  have "s_FatFs (file_sys file_fs) = Some 0" by (simp add: file_sys_def)
  with f_mount_invalidates_objects [of None "file_sys file_fs" "sd_disk sim_io"] show ?thesis by blast
qed

section \<open>Lookups\<close>

text \<open>C29: on a mounted volume asking for the status of any path returns, whatever the tables and
  directories on the volume contain (cluster loops included), and leaves the logical contents alone.\<close>

theorem f_stat_returns:
  assumes "block_device ops sec" "mounted ops sec q s" "0 \<in> set path"
  shows "\<exists>r fno' s'. f_stat ops path fno s = Some ((r, fno'), s') \<and> keeps_view sec (vol_of s q) (vol_of s' q)"
proof -
  have ok: "fat_ok sec (vol_of s q)" "fs_csize (v_fs (vol_of s q)) \<noteq> 0" using assms(2) by (simp_all add: mounted_def)
  have k: "keeps_view sec (vol_of s q) (vol_of s q)" using ok by (simp add: keeps_view_refl fat_ok_vol)
  let ?body = "\<lambda>q path v. do {
     (res, dj, v) \<leftarrow> follow_path ops (new_dir q) path v;
     (if res \<noteq> FR_OK then Some ((res, fno), v)
      else if d_dir dj = None then Some ((FR_INVALID_NAME, fno), v)
      else do { fno \<leftarrow> get_fileinfo dj fno v; Some ((FR_OK, fno), v) }) }"
  have "\<exists>r a v'. ?body q p (vol_of s q) = Some ((r, a), v') \<and> keeps_view sec (vol_of s q) v'" if p: "0 \<in> set p" for p
  proof -
    obtain r dj v' where f: "follow_path ops (new_dir q) p (vol_of s q) = Some (r, dj, v')"
      "keeps_view sec (vol_of s q) v'" "r = FR_OK \<longrightarrow> d_dir dj = None \<or> at_entry dj"
      using block_device.stat_returns [OF assms(1) ok p] by blast
    show ?thesis
    proof (cases "d_dir dj")
      case (Some e)
      then show ?thesis using f block_device.get_fileinfo_returns [OF assms(1) Some, of fno v'] by (cases "r = FR_OK") auto
    qed (use f in \<open>cases "r = FR_OK"; auto\<close>)
  qed
  from with_vol_mounted [OF assms(2,3), where body = ?body and P = "\<lambda>r a v'. keeps_view sec (vol_of s q) v'", OF this]
  show ?thesis unfolding f_stat_def using k by fastforce
qed

theorem f_stat_returns_witness:
  "\<forall>fno. \<exists>r fno' s'. f_stat (sd_disk sim_io) [0x2F, 0x48, 0x45, 0x4C, 0x4C, 0x4F, 0x2E, 0x54, 0x58, 0x54, 0] fno (file_sys file_fs) =
    Some ((r, fno'), s')"
proof -
  have "0 \<in> set [0x2F, 0x48, 0x45, 0x4C, 0x4C, 0x4F, 0x2E, 0x54, 0x58, 0x54, 0 :: byte]" by simp
  from f_stat_returns [OF sd.block_device_axioms file_mounted this] show ?thesis by blast
qed

text \<open>Opening a directory and reading it entry by entry, the number of calls given.\<close>

fun readdirs :: "'w disk_ops \<Rightarrow> nat \<Rightarrow> dir \<Rightarrow> filinfo \<Rightarrow> 'w sys \<Rightarrow> (dir \<times> 'w sys) option" where
  "readdirs ops 0 dj fno s = Some (dj, s)"
| "readdirs ops (Suc n) dj fno s = do {
     ((res, dj, fi), s) \<leftarrow> f_readdir ops dj (Some fno) s;
     readdirs ops n dj fno s }"

lemma readdirs_keep:
  assumes "block_device ops sec" "fat_ok sec (vol_of s q)" "d_fs dj = Some q" "at_entry dj"
  shows "\<exists>dj' s'. readdirs ops n dj fno s = Some (dj', s') \<and> keeps_view sec (vol_of s q) (vol_of s' q)"
  using assms(2-4)
proof (induction n arbitrary: dj s)
  case 0
  then show ?case by (simp add: keeps_view_refl fat_ok_vol)
next
  case (Suc n)
  show ?case
  proof (cases "validate ops (Some (d_fs dj, d_id dj)) s = FR_OK")
    case False
    then show ?thesis using Suc by (simp add: f_readdir_def)
  next
    case True
    obtain r dj1 fi v where b: "readdir_body ops dj fno (vol_of s q) = Some ((r, dj1, fi), v)"
      "keeps_view sec (vol_of s q) v" "at_entry dj1" "d_fs dj1 = d_fs dj"
      using block_device.readdir_body_returns [OF assms(1) Suc.prems(1,3)] by blast
    have "f_readdir ops dj (Some fno) s = Some ((r, dj1, Some fi), put_vol q v s)"
      using True b(1) Suc.prems(2) by (simp add: f_readdir_def on_vol_def)
    moreover have "fat_ok sec (vol_of (put_vol q v s) q)" using keeps_view_fat_ok [OF b(2) Suc.prems(1)] by simp
    then obtain dj' s' where "readdirs ops n dj1 fno (put_vol q v s) = Some (dj', s')" "keeps_view sec v (vol_of s' q)"
      using Suc.IH [of "put_vol q v s" dj1] b(3,4) Suc.prems(2) by auto
    ultimately show ?thesis using keeps_view_trans [OF b(2)] by auto
  qed
qed

text \<open>C30: listing a directory never modifies the volume. Opening any path and then reading any number of
  entries returns, and leaves the logical contents of every sector outside the mirror copies alone, on
  any block device, whether its operations succeed or fail.\<close>

theorem listing_keeps_volume:
  assumes "block_device ops sec" "mounted ops sec q s" "0 \<in> set path"
  shows "\<exists>r dj' s'. f_opendir ops (Some dj) path s = Some ((r, Some dj'), s') \<and>
    keeps_view sec (vol_of s q) (vol_of s' q) \<and>
    (r = FR_OK \<longrightarrow> (\<exists>dj'' s''. readdirs ops n dj' fno s' = Some (dj'', s'') \<and>
       keeps_view sec (vol_of s q) (vol_of s'' q)))"
proof -
  have ok: "fat_ok sec (vol_of s q)" "fs_csize (v_fs (vol_of s q)) \<noteq> 0" using assms(2) by (simp_all add: mounted_def)
  have k: "keeps_view sec (vol_of s q) (vol_of s q)" using ok by (simp add: keeps_view_refl fat_ok_vol)
  let ?P = "\<lambda>r dj' v'. keeps_view sec (vol_of s q) v' \<and> (r = FR_OK \<longrightarrow> at_entry dj' \<and> d_fs dj' = Some q)"
  let ?body = "\<lambda>q path v. opendir_body ops (dj\<lparr>d_fs := Some q, d_fn := replicate 12 0\<rparr>) path v"
  have body: "\<exists>r a v'. ?body q p (vol_of s q) = Some ((r, a), v') \<and> ?P r a v'" if "0 \<in> set p" for p
    using block_device.opendir_body_returns [OF assms(1) ok that, of "dj\<lparr>d_fs := Some q, d_fn := replicate 12 0\<rparr>"] by simp
  let ?open = "with_vol ops path False (dj\<lparr>d_fs := None\<rparr>) ?body s"
  have "(\<exists>r \<in> {FR_INVALID_DRIVE, FR_WRITE_PROTECTED}. ?open = Some ((r, dj\<lparr>d_fs := None\<rparr>), s)) \<or>
      (\<exists>r a v'. ?open = Some ((r, a), put_vol q v' s) \<and> ?P r a v')"
    by (rule with_vol_mounted [where body = ?body and P = ?P, OF assms(2,3)]) (rule body)
  then show ?thesis
  proof (elim disjE bexE exE conjE)
    fix r assume r: "r \<in> {FR_INVALID_DRIVE, FR_WRITE_PROTECTED}"
      "with_vol ops path False (dj\<lparr>d_fs := None\<rparr>) ?body s = Some ((r, dj\<lparr>d_fs := None\<rparr>), s)"
    then have "r \<noteq> FR_OK" by auto
    with r(2) k show ?thesis by (simp add: f_opendir_def)
  next
    fix r a v' assume w: "with_vol ops path False (dj\<lparr>d_fs := None\<rparr>) ?body s = Some ((r, a), put_vol q v' s)"
      and kv: "keeps_view sec (vol_of s q) v'" and a: "r = FR_OK \<longrightarrow> at_entry a \<and> d_fs a = Some q"
    have "\<exists>dj'' s''. readdirs ops n a fno (put_vol q v' s) = Some (dj'', s'') \<and> keeps_view sec (vol_of s q) (vol_of s'' q)"
      if "r = FR_OK"
    proof -
      have "fat_ok sec (vol_of (put_vol q v' s) q)" using keeps_view_fat_ok [OF kv ok(1)] by simp
      from readdirs_keep [OF assms(1) this, of a n fno] a that keeps_view_trans [OF kv] show ?thesis by auto
    qed
    with w kv show ?thesis by (simp add: f_opendir_def)
  qed
qed

theorem listing_keeps_volume_witness:
  "\<exists>r dj' s'. f_opendir (sd_disk sim_io) (Some (new_dir 0)) [0x2F, 0] (file_sys file_fs) = Some ((r, Some dj'), s') \<and>
     keeps_view sd_sec (vol_of (file_sys file_fs) 0) (vol_of s' 0)"
proof -
  have "0 \<in> set [0x2F, 0 :: byte]" by simp
  from listing_keeps_volume [OF sd.block_device_axioms file_mounted this] show ?thesis by blast
qed

section \<open>Search\<close>

text \<open>C28: on a reliable device \<open>dir_find\<close> is the search of the directory's list of entries: it finds the
  first entry that has the name and is no volume label, and stands at it with its sector in the window,
  or reports \<open>FR_NO_FILE\<close> when the end mark or the end of the table comes first. This holds for the
  static root directory and for tables in a cluster chain.\<close>

theorem dir_find_refines_search:
  assumes "reliable_device ops sec sound" "fat_ok sec v" "sound (v_dsk v)"
    and "fs_csize (v_fs v) \<noteq> 0" "fs_csize (v_fs v) AND (fs_csize (v_fs v) - 1) = 0" "fs_n_rootdir (v_fs v) mod 16 = 0"
    and "dir_clusters sec v (d_sclust dj) xs" "table_ok (v_fs v) xs" "11 \<le> length (d_fn dj)"
  shows "\<exists>r dj' v'. dir_find ops dj v = Some (r, dj', v') \<and> keeps_view sec v v' \<and>
    (case dir_lookup (d_fn dj) (dir_entries sec v (dir_sectors (v_fs v) xs)) of
       None \<Rightarrow> r = FR_NO_FILE
     | Some k \<Rightarrow> r = FR_OK \<and> d_index dj' = of_nat k \<and> d_sect dj' = dir_sectors (v_fs v) xs ! (k div 16) \<and>
         d_dir dj' = Some (32 * (k mod 16)) \<and> fs_winsect (v_fs v') = d_sect dj')"
  using reliable_device.dir_find_searches [OF assms]
  by (auto simp: reliable_device.found_at_def [OF assms(1)] dir_pos_def split: option.splits)

lemma file_root_table: "dir_clusters sd_sec file_vol 0 []" "table_ok (v_fs file_vol) []"
  "dir_sectors (v_fs file_vol) [] = [2]"
  by (simp_all add: dir_clusters_def table_start_def table_ok_def dir_sectors_def mirror_def)
     (simp_all add: file_vol_def file_fs_def fs_types)

lemma file_lookup: "dir_lookup demo_name (dir_entries sd_sec file_vol [2]) = Some 0"
proof -
  have "view sd_sec file_vol 2 = demo_root"
    by (simp add: view_def file_vol_def file_fs_def file_sec demo_image_def)
  then have "entry_at sd_sec file_vol [2] 0 = take 32 demo_root" by (simp add: entry_at_def)
  moreover have "dir_entries sd_sec file_vol [2] = entry_at sd_sec file_vol [2] 0 # map (entry_at sd_sec file_vol [2]) [1 ..< 16]"
    by (simp add: dir_entries_def upt_rec)
  ultimately show ?thesis by (simp add: demo_root_def demo_name_def DIR_Attr_def AM_VOL_def)
qed

theorem dir_find_refines_search_witness:
  "\<exists>dj' v'. dir_find (sd_disk sim_io) ((new_dir 0)\<lparr>d_fn := demo_name @ [0]\<rparr>) file_vol = Some (FR_OK, dj', v') \<and>
    d_sect dj' = 2 \<and> d_dir dj' = Some 0"
proof -
  let ?dj = "(new_dir 0)\<lparr>d_fn := demo_name @ [0]\<rparr>"
  have "dir_lookup (demo_name @ [0]) es = dir_lookup demo_name es" for es
    by (induction es) (simp_all add: demo_name_def)
  moreover have "fs_csize (v_fs file_vol) \<noteq> 0" "fs_csize (v_fs file_vol) AND (fs_csize (v_fs file_vol) - 1) = 0"
    "fs_n_rootdir (v_fs file_vol) mod 16 = 0" "healthy (v_dsk file_vol)"
    using file_healthy by (simp_all add: file_vol_def file_fs_def)
  moreover have "d_sclust ?dj = 0" "11 \<le> length (d_fn ?dj)" by (simp_all add: new_dir_def demo_name_def)
  ultimately show ?thesis
    using dir_find_refines_search [OF sdr.reliable_device_axioms file_vol_ok, of ?dj "[]"] file_root_table file_lookup
    by auto
qed

end
