(* ===== verification/FatRead.thy ===== *)
theory FatRead
  imports FatSearch FatVolume
begin

text \<open>
  Reading a file returns the bytes of its cluster chain. The contents of a file are the sectors of its
  clusters one after the other; a file object is in order when its cluster and sector fields agree
  with its position in that list.
\<close>

section \<open>The contents of a file\<close>

definition file_sectors :: "fatfs \<Rightarrow> u32 list \<Rightarrow> u32 list" where
  "file_sectors fs xs = concat (map (cluster_sectors fs) xs)"

definition file_bytes :: "('w \<Rightarrow> u32 \<Rightarrow> byte list) \<Rightarrow> 'w vol \<Rightarrow> u32 list \<Rightarrow> byte list" where
  "file_bytes sc v xs = concat (map (view sc v) (file_sectors (v_fs v) xs))"

text \<open>The chain of the file, long enough for its size and apart from the FAT copies.\<close>

definition file_ok :: "('w \<Rightarrow> u32 \<Rightarrow> byte list) \<Rightarrow> 'w vol \<Rightarrow> fil \<Rightarrow> u32 list \<Rightarrow> bool" where
  "file_ok sc v fp xs \<longleftrightarrow> (xs = [] \<or> is_chain (fat_entry sc v) (fs_n_fatent (v_fs v)) (fl_sclust fp) xs) \<and>
     unat (fl_fsize fp) \<le> 512 * length (file_sectors (v_fs v) xs) \<and>
     (\<forall>s \<in> set (file_sectors (v_fs v) xs). s \<noteq> 0 \<and> \<not> mirror (v_fs v) s)"

text \<open>The position: the cluster of the byte before it, and inside a sector that sector.\<close>

definition file_pos :: "fatfs \<Rightarrow> fil \<Rightarrow> u32 list \<Rightarrow> bool" where
  "file_pos fs fp xs \<longleftrightarrow> (let n = unat (fl_fptr fp) in n \<le> unat (fl_fsize fp) \<and>
     (n \<noteq> 0 \<longrightarrow> fl_clust fp = xs ! ((n - 1) div 512 div unat (fs_csize fs))) \<and>
     (n mod 512 \<noteq> 0 \<longrightarrow> fl_dsect fp = file_sectors fs xs ! (n div 512)))"

lemma length_file_sectors: "length (file_sectors fs xs) = length xs * unat (fs_csize fs)"
  by (simp add: file_sectors_def length_concat comp_def sum_list_triv)

lemma file_sectors_nth:
  assumes "k < length xs * unat (fs_csize fs)"
  shows "file_sectors fs xs ! k = clust2sect fs (xs ! (k div unat (fs_csize fs))) + of_nat (k mod unat (fs_csize fs))"
proof -
  have "xs \<noteq> []" using assms by auto
  then have "file_sectors fs xs = dir_sectors fs xs" by (simp add: file_sectors_def dir_sectors_def)
  then show ?thesis using dir_sectors_chain [OF \<open>xs \<noteq> []\<close> assms] by simp
qed

lemma same_layout_file_sectors: "same_layout fs fs' \<Longrightarrow> file_sectors fs' = file_sectors fs"
  by (rule ext) (simp add: file_sectors_def cluster_sectors_def [abs_def] same_layout_clust2sect same_layout_fields)

lemma length_view: "vol_ok sc v \<Longrightarrow> length (view sc v s) = 512"
  by (simp add: view_def vol_ok_def geom_def ready_def)

lemma length_file_bytes: "vol_ok sc v \<Longrightarrow> length (file_bytes sc v xs) = 512 * length (file_sectors (v_fs v) xs)"
  by (simp add: file_bytes_def length_concat comp_def length_view sum_list_triv)

text \<open>A piece of the contents inside one sector.\<close>

lemma concat_equal_piece:
  "(\<And>x. x \<in> set xs \<Longrightarrow> length (f x) = n) \<Longrightarrow> k < length xs \<Longrightarrow> j + m \<le> n \<Longrightarrow>
    take m (drop (k * n + j) (concat (map f xs))) = take m (drop j (f (xs ! k)))"
proof (induction xs arbitrary: k)
  case (Cons x xs)
  have l: "length (f x) = n" using Cons.prems(1) by simp
  show ?case
  proof (cases k)
    case 0
    then show ?thesis using Cons.prems(3) l by simp
  next
    case (Suc i)
    then have "take m (drop (i * n + j) (concat (map f xs))) = take m (drop j (f (xs ! i)))" using Cons by simp
    then show ?thesis using Suc l by (simp add: add.assoc)
  qed
qed simp

lemma file_piece:
  assumes "vol_ok sc v" "n div 512 < length (file_sectors (v_fs v) xs)" "n mod 512 + m \<le> 512"
  shows "take m (drop n (file_bytes sc v xs)) = take m (drop (n mod 512) (view sc v (file_sectors (v_fs v) xs ! (n div 512))))"
  using concat_equal_piece [of "file_sectors (v_fs v) xs" "view sc v" 512 "n div 512" "n mod 512" m] assms length_view [OF assms(1)]
  by (simp add: file_bytes_def)

section \<open>Devices that fill a buffer\<close>

text \<open>A reliable device that reads one sector into the front of a longer buffer.\<close>

locale data_device = reliable_device +
  assumes read_into: "sound w \<Longrightarrow> d_read ops 0 buf s 1 w = (r, buf', w') \<Longrightarrow> 512 \<le> length buf \<Longrightarrow>
    r = RES_OK \<and> sound w' \<and> buf' = sec w s @ drop 512 buf"
begin

lemma read_into_keeps:
  "sound w \<Longrightarrow> d_read ops 0 buf s 1 w = (r, buf', w') \<Longrightarrow> sec w' = sec w"
  using read_keeps sound_ready by blast

end

interpretation sdd: data_device "sd_disk sim_io" sd_sec healthy
proof
  fix w w' :: "sim sd" and buf buf' :: "byte list" and s :: u32 and r :: DRESULT
  assume h: "healthy w" and d: "d_read (sd_disk sim_io) 0 buf s 1 w = (r, buf', w')" "512 \<le> length buf"
  from h have i: "initialized w" "\<not> typeSDSC w" "length (sim_mem (sd_card w) s) = 512" "sim_faults (sd_card w) = []"
    and rd: "ready sd_sec w" by (auto simp: healthy_def ready_sd)
  show "r = RES_OK \<and> healthy w' \<and> buf' = sd_sec w s @ drop 512 buf"
    using d i rd sim_read [OF i(1-3)]
    by (auto simp: sd_disk_def disk_read_def sdStatus_def healthy_def ready_sd mem_cpy_def sd_sec_def)
qed

section \<open>Steps of the read loop\<close>

lemma csect_value:
  assumes "fs_csize (v_fs v) \<noteq> 0" "fs_csize (v_fs v) AND (fs_csize (v_fs v) - 1) = 0"
  shows "unat (csect_of fp v) = unat (fl_fptr fp) div 512 mod unat (fs_csize (v_fs v))"
proof -
  let ?c = "fs_csize (v_fs v)"
  obtain k where k: "k < 8" "unat ?c = 2 ^ k" using power_of_two_byte [OF assms] by blast
  have one: "(1 :: u32) \<le> ucast ?c" using k by (simp add: word_le_nat_alt)
  have "unat ((fl_fptr fp div 512) AND (ucast ?c - 1)) = unat (fl_fptr fp) div 512 AND (2 ^ k - 1)"
    using k unat_sub [OF one] by (simp add: unsigned_and_eq unat_div)
  then have m: "unat ((fl_fptr fp div 512) AND (ucast ?c - 1)) = unat (fl_fptr fp) div 512 mod 2 ^ k" by (simp only: nat_and_pow2)
  have "(2 :: nat) ^ k \<le> 2 ^ 7" using k(1) by (intro power_increasing) simp_all
  then have "unat (fl_fptr fp) div 512 mod 2 ^ k < 256" by (intro less_le_trans [OF mod_less_divisor]) simp_all
  then show ?thesis using m k(2) by (simp add: csect_of_def unat_ucast_32_8)
qed

lemma zero_iff_unat: "(x :: 'a::len word) = 0 \<longleftrightarrow> unat x = 0"
  by (simp add: unat_eq_0)

lemma chain_member:
  assumes "is_chain E N c xs" "j < length xs"
  shows "2 \<le> xs ! j" "xs ! j < N"
  using is_chain_range [OF assms(1) nth_mem [OF assms(2)]] by simp_all

lemma file_bytes_keeps:
  assumes "keeps_view sc v v'" "file_ok sc v fp xs"
  shows "file_bytes sc v' xs = file_bytes sc v xs"
proof -
  have lay: "same_layout (v_fs v) (v_fs v')" using assms(1) by (simp add: keeps_view_def)
  show ?thesis unfolding file_bytes_def same_layout_file_sectors [OF lay]
    using assms by (intro arg_cong [where f = concat] map_cong) (auto simp: keeps_view_def file_ok_def)
qed

lemma sector_before:
  assumes "n mod 512 = 0" "n \<noteq> (0 :: nat)"
  shows "(n - 1) div 512 = n div 512 - 1" "0 < n div 512"
proof -
  obtain q where q: "n = 512 * q" using assms(1) by (auto elim: dvdE)
  then obtain r where r: "q = Suc r" using assms(2) by (cases q) auto
  show "(n - 1) div 512 = n div 512 - 1" unfolding q r using last_of_cluster [of 512 r] by simp
  show "0 < n div 512" unfolding q r by simp
qed

context data_device
begin

lemma file_ok_keeps:
  assumes "keeps_view sec v v'" "fat_ok sec v" "file_ok sec v fp xs"
  shows "file_ok sec v' fp xs"
proof -
  have lay: "same_layout (v_fs v) (v_fs v')" using assms(1) by (simp add: keeps_view_def)
  show ?thesis
    using assms(3) is_chain_cong [of "fat_entry sec v" _ _ xs "fat_entry sec v'"] keeps_view_entries [OF assms(1,2)]
      is_chain_range [of "fat_entry sec v" "fs_n_fatent (v_fs v)" _ xs]
    by (auto simp: file_ok_def same_layout_file_sectors [OF lay] same_layout_fields [OF lay] same_layout_mirror [OF lay])
qed

text \<open>On a sector boundary inside the file the sector of the position is found.\<close>

lemma read_sect_finds:
  assumes ok: "fat_ok sec v" and sd: "sound (v_dsk v)"
    and cs: "fs_csize (v_fs v) \<noteq> 0" "fs_csize (v_fs v) AND (fs_csize (v_fs v) - 1) = 0"
    and fo: "file_ok sec v fp xs" and pos: "file_pos (v_fs v) fp xs"
    and n: "n = unat (fl_fptr fp)" "n mod 512 = 0" "n < unat (fl_fsize fp)"
  shows "\<exists>fp' v'. read_sect ops fp v = (Inr (file_sectors (v_fs v) xs ! (n div 512), csect_of fp v), fp', v') \<and>
    keeps_view sec v v' \<and> sound (v_dsk v') \<and> fp' = fp\<lparr>fl_clust := xs ! (n div 512 div unat (fs_csize (v_fs v)))\<rparr>"
proof -
  let ?fs = "v_fs v" and ?c = "unat (fs_csize (v_fs v))"
  let ?k = "n div 512"
  have c: "0 < ?c" using cs(1) by (simp add: unat_gt_0)
  have "n < 512 * length (file_sectors ?fs xs)" using fo n(3) by (auto simp: file_ok_def)
  then have k: "?k < length xs * ?c" by (simp add: length_file_sectors)
  then have j: "?k div ?c < length xs" by (simp add: less_mult_imp_div_less)
  then have chain: "is_chain (fat_entry sec v) (fs_n_fatent ?fs) (fl_sclust fp) xs" using fo by (auto simp: file_ok_def)
  have m: "?k mod ?c < ?c" using c by simp
  have cv: "unat (csect_of fp v) = ?k mod ?c" using csect_value [OF cs, of fp] n(1) by simp
  have cz: "csect_of fp v = 0 \<longleftrightarrow> ?k mod ?c = 0" using cv by (simp add: zero_iff_unat)
  have cu: "(ucast (csect_of fp v) :: u32) = of_nat (?k mod ?c)"
  proof -
    have "?k mod ?c < 4294967296" using m unat_byte_lt [of "fs_csize ?fs"] by linarith
    then show ?thesis using cv by (simp add: word_unat_eq_iff unat_of_nat_u32)
  qed
  define g where "g = (if csect_of fp v \<noteq> 0 then (fl_clust fp, v)
     else if fl_fptr fp = 0 then (fl_sclust fp, v) else get_fat ops (fl_clust fp) v)"
  have "\<exists>v'. g = (xs ! (?k div ?c), v') \<and> keeps_view sec v v' \<and> sound (v_dsk v')"
  proof (cases "csect_of fp v = 0")
    case False
    then have "?k mod ?c \<noteq> 0" using cz by simp
    moreover from this have "n \<noteq> 0" by (cases "n = 0") simp_all
    ultimately have kc: "?k mod ?c \<noteq> 0" and "n \<noteq> 0" by blast+
    note k1 = sector_before [OF n(2) \<open>n \<noteq> 0\<close>]
    then have "fl_clust fp = xs ! (?k div ?c)"
      using pos n(1) \<open>n \<noteq> 0\<close> same_cluster(1) [OF _ kc] by (simp add: file_pos_def Let_def)
    then show ?thesis using False ok sd by (simp add: g_def keeps_view_refl fat_ok_vol)
  next
    case True
    show ?thesis
    proof (cases "fl_fptr fp = 0")
      case z: True
      have "xs \<noteq> []" using j by auto
      then have "fl_sclust fp = xs ! 0" using chain by (cases xs) auto
      then show ?thesis using True z n(1) ok sd by (simp add: g_def keeps_view_refl fat_ok_vol)
    next
      case nz: False
      then have n0: "n \<noteq> 0" using n(1) by (simp add: unat_eq_0)
      note k1 = sector_before [OF n(2) n0]
      obtain j' where j': "?k = ?c * Suc j'" using True cz k1(2)
        by (metis dvd_def gr0_conv_Suc mod_0_imp_dvd mult_0_right neq0_conv)
      have "fl_clust fp = xs ! ((?k - 1) div ?c)" using pos n(1) n0 k1(1) by (simp add: file_pos_def Let_def)
      then have "fl_clust fp = xs ! j'" unfolding j' last_of_cluster [OF c] .
      moreover have jj: "Suc j' < length xs" "?k div ?c = Suc j'" using j j' c by simp_all
      obtain e v1 where e: "get_fat ops (xs ! j') v = (e, v1)" by fastforce
      have "e = fat_entry sec v (xs ! j')" "sound (v_dsk v1)" "keeps_view sec v v1"
        using get_fat_sound [OF ok sd e] get_fat_entry [OF ok e] chain_member [OF chain, of j'] jj(1) by auto
      moreover have "fat_entry sec v (xs ! j') = xs ! Suc j'" using is_chain_nth [OF chain, of j'] jj(1) by simp
      ultimately show ?thesis using True nz e jj(2) by (simp add: g_def)
    qed
  qed
  then obtain v' where g: "g = (xs ! (?k div ?c), v')" and v': "keeps_view sec v v'" "sound (v_dsk v')" by blast
  have lay: "same_layout ?fs (v_fs v')" using v'(1) by (simp add: keeps_view_def)
  let ?x = "xs ! (?k div ?c)"
  have "?k - ?k mod ?c < length xs * ?c" "(?k - ?k mod ?c) div ?c = ?k div ?c" "(?k - ?k mod ?c) mod ?c = 0"
    using k c j by (simp_all add: minus_mod_eq_mult_div)
  then have "file_sectors ?fs xs ! (?k - ?k mod ?c) = clust2sect ?fs ?x" by (simp add: file_sectors_nth)
  moreover have "file_sectors ?fs xs ! (?k - ?k mod ?c) \<in> set (file_sectors ?fs xs)"
    using \<open>?k - ?k mod ?c < length xs * ?c\<close> by (intro nth_mem) (simp add: length_file_sectors)
  ultimately have s0: "clust2sect ?fs ?x \<noteq> 0" using fo by (auto simp: file_ok_def)
  have x: "2 \<le> ?x" "?x < fs_n_fatent ?fs" using chain_member [OF chain j] by simp_all
  have xf: "?x \<noteq> 0xFFFFFFFF" using x(2) fat_ok_fatent [OF ok] by auto
  have "file_sectors ?fs xs ! ?k = clust2sect ?fs ?x + ucast (csect_of fp v)" using file_sectors_nth [OF k] cu by simp
  then show ?thesis
    using g s0 x xf v' same_layout_clust2sect [OF lay] unfolding g_def
    by (simp add: read_sect_def Let_def not_less)
qed

end

text \<open>Positions inside a file as plain numbers.\<close>

lemma part_cnt_value:
  "unat (part_cnt fptr n) = min (unat n) (512 - unat fptr mod 512)"
proof -
  have m: "unat (fptr mod 512) < 512" by (simp add: unat_mod)
  then have "fptr mod 512 \<le> 512" by (simp add: word_le_nat_alt)
  then have "unat (512 - fptr mod 512) = 512 - unat fptr mod 512" by (simp add: unat_sub unat_mod)
  then show ?thesis by (auto simp: part_cnt_def Let_def word_less_nat_alt)
qed

definition stored_bytes :: "nat \<Rightarrow> byte list \<Rightarrow> byte list \<Rightarrow> byte list" where
  "stored_bytes p s b = take p b @ s @ drop (p + length s) b"

lemma length_stored_bytes [simp]: "p + length s \<le> length b \<Longrightarrow> length (stored_bytes p s b) = length b"
  by (simp add: stored_bytes_def)

lemma stored_bytes_twice:
  "p + length s + length t \<le> length b \<Longrightarrow> stored_bytes (p + length s) t (stored_bytes p s b) = stored_bytes p (s @ t) b"
  by (simp add: stored_bytes_def ac_simps)

lemma stored_bytes_Nil [simp]: "stored_bytes p [] b = b"
  by (simp add: stored_bytes_def)

text \<open>The position behind the bytes of a step.\<close>

lemma file_pos_step:
  assumes "file_pos fs fp xs" "n = unat (fl_fptr fp)" "0 < m" "n mod 512 + m \<le> 512" "n + m \<le> unat (fl_fsize fp)"
    and "fl_clust fp' = xs ! (n div 512 div unat (fs_csize fs))" "fl_fsize fp' = fl_fsize fp"
    and "n mod 512 + m < 512 \<Longrightarrow> fl_dsect fp' = file_sectors fs xs ! (n div 512)"
    and "unat (fl_fptr fp') = n + m"
  shows "file_pos fs fp' xs"
proof -
  have "(n + m - 1) div 512 = n div 512"
  proof (rule div_nat_eqI)
    have "n = 512 * (n div 512) + n mod 512" by simp
    then show "512 * (n div 512) \<le> n + m - 1" "n + m - 1 < 512 * Suc (n div 512)"
      using assms(3,4) unfolding mult_Suc_right by linarith+
  qed
  moreover have "(n + m) mod 512 \<noteq> 0 \<Longrightarrow> n mod 512 + m < 512 \<and> (n + m) div 512 = n div 512"
  proof -
    assume nz: "(n + m) mod 512 \<noteq> 0"
    have e: "n + m = n div 512 * 512 + (n mod 512 + m)" by simp
    have "n mod 512 + m \<noteq> 512"
    proof
      assume "n mod 512 + m = 512"
      then have "n + m = Suc (n div 512) * 512" using e by simp
      then show False using nz by simp
    qed
    then have l: "n mod 512 + m < 512" using assms(4) by simp
    have "n = 512 * (n div 512) + n mod 512" by simp
    then have "(n + m) div 512 = n div 512"
      using l by (intro div_nat_eqI) (unfold mult_Suc_right, linarith+)
    then show ?thesis using l by simp
  qed
  ultimately show ?thesis using assms(3,5-9) by (simp add: file_pos_def Let_def)
qed

context data_device
begin

lemma read_direct_one:
  assumes ok: "vol_ok sec v" and sd: "sound (v_dsk v)" and s: "s \<noteq> 0" and l: "p + 512 \<le> length buf"
  shows "\<exists>v'. read_direct ops s 1 p buf v = Some (Inr 512, stored_bytes p (view sec v s) buf, v') \<and>
    keeps_view sec v v' \<and> sound (v_dsk v') \<and> v_fs v' = v_fs v"
proof -
  let ?fs = "v_fs v"
  have g: "fs_drv ?fs = 0" "length (fs_win ?fs) = 512" "clean sec v" "ready sec (v_dsk v)"
    using ok by (simp_all add: vol_ok_def geom_def)
  obtain r buf' d where d: "d_read ops 0 (drop p buf) s 1 (v_dsk v) = (r, buf', d)" by (metis prod_cases3)
  have R: "r = RES_OK" "sound d" "buf' = sec (v_dsk v) s @ drop 512 (drop p buf)" "sec d = sec (v_dsk v)"
    using read_into [OF sd d] read_into_keeps [OF sd d] l by auto
  let ?v = "v\<lparr>v_dsk := d\<rparr>"
  have "view sec ?v = view sec v" by (rule ext) (simp add: view_def R(4))
  moreover have "clean sec ?v" using g(3) by (simp add: clean_def R(4))
  moreover have "ready sec d" using g(4) by (simp add: ready_def R(4))
  ultimately have keep: "keeps_view sec v ?v" using ok by (simp add: keeps_view_def vol_ok_def)
  have one: "(ucast (1 :: u32) :: byte) = 1" "unat (1 :: byte) = 1" by simp_all
  have len: "length (sec (v_dsk v) s) = 512" using g(4) by (simp add: ready_def)
  have e: "d_read ops (fs_drv ?fs) (drop p buf) s (ucast (1 :: u32)) (v_dsk v) = (RES_OK, sec (v_dsk v) s @ drop (p + 512) buf, d)"
    using d R(1,3) g(1) by (simp add: add.commute)
  have lt: "fs_winsect ?fs - s < 1 \<longleftrightarrow> fs_winsect ?fs = s" by (simp add: word_less_nat_alt unat_eq_0)
  have room: "\<not> length buf < p + 512 * unat (ucast (1 :: u32) :: byte)" using l by simp
  show ?thesis
  proof (cases "fs_wflag ?fs \<noteq> 0 \<and> fs_winsect ?fs = s")
    case True
    let ?b = "take p buf @ sec (v_dsk v) s @ drop (p + 512) buf"
    have v: "view sec v s = fs_win ?fs" using True by (simp add: view_def)
    have z: "unat ((fs_winsect ?fs - s) * 512) = 0" using True by simp
    have "read_direct ops s 1 p buf v = Some (Inr 512, mem_cpy ?b p (fs_win ?fs) 0 512, ?v)"
      using True len l unfolding read_direct_def Let_def e z add_0_right by (simp add: lt)
    moreover have "mem_cpy ?b p (fs_win ?fs) 0 512 = stored_bytes p (view sec v s) buf"
      using g(2) len l by (simp add: v mem_cpy_def stored_bytes_def)
    ultimately show ?thesis using keep R(2) by simp
  next
    case False
    then have v: "view sec v s = sec (v_dsk v) s" using g(3) s by (auto simp: view_def clean_def)
    have "read_direct ops s 1 p buf v = Some (Inr 512, take p buf @ sec (v_dsk v) s @ drop (p + 512) buf, ?v)"
      using False len l unfolding read_direct_def Let_def e by (auto simp: lt)
    then show ?thesis using keep R(2) len by (simp add: v stored_bytes_def)
  qed
qed

lemma read_part_inside:
  assumes ok: "vol_ok sec v" and sd: "sound (v_dsk v)" and s: "fl_dsect fp \<noteq> 0" "\<not> mirror (v_fs v) (fl_dsect fp)"
    and l: "p + m \<le> length buf" and m: "m = min (unat btr) (512 - unat (fl_fptr fp) mod 512)"
  shows "\<exists>v'. read_part ops fp btr p buf v =
      Some (Inr (of_nat m), stored_bytes p (take m (drop (unat (fl_fptr fp) mod 512) (view sec v (fl_dsect fp)))) buf, v') \<and>
    keeps_view sec v v' \<and> sound (v_dsk v')"
proof -
  obtain v' where w: "move_window ops (fl_dsect fp) v = (FR_OK, v')" "sound (v_dsk v')"
    using move_window_sound [OF sd ok] by blast
  then have k: "keeps_view sec v v'" "fs_win (v_fs v') = view sec v (fl_dsect fp)"
    using move_window_keeps [OF ok w(1)] s by auto
  have c: "unat (part_cnt (fl_fptr fp) btr) = m" using m by (simp add: part_cnt_value)
  have cw: "part_cnt (fl_fptr fp) btr = of_nat m" using c [symmetric] by simp
  have o: "unat (fl_fptr fp mod 512) = unat (fl_fptr fp) mod 512" by (simp add: unat_mod)
  have "m \<le> 512 - unat (fl_fptr fp) mod 512" using m by simp
  then have "length (take m (drop (unat (fl_fptr fp) mod 512) (view sec v (fl_dsect fp)))) = m"
    using length_view [OF ok] by simp
  then show ?thesis using w k l c cw o
    by (simp add: read_part_def Let_def mem_cpy_def stored_bytes_def)
qed

end

lemma aligned_word: "(x :: u32) mod 512 = 0 \<longleftrightarrow> unat x mod 512 = 0"
  by (simp add: zero_iff_unat unat_mod)

lemma one_sector: "512 \<le> unat (btr :: u32) \<Longrightarrow> unat btr < 1024 \<Longrightarrow> btr div 512 = 1"
proof -
  assume b: "512 \<le> unat btr" "unat btr < 1024"
  have "unat btr div 512 = 1" using b by (intro div_nat_eqI) simp_all
  then show ?thesis by (simp add: word_unat_eq_iff unat_div)
qed

lemma clip_one:
  assumes "fs_csize fs \<noteq> 0" "unat c < unat (fs_csize fs)"
  shows "clip_cc c 1 (fs_csize fs) = 1"
proof -
  have "unat ((ucast c :: u32) + 1) = unat c + 1" 
  proof -
    have "unat c + 1 < 4294967296" using unat_byte_lt [of c] by linarith
    then show ?thesis by (subst unat_add_small) simp_all
  qed
  then show ?thesis using assms(2) by (simp add: clip_cc_def word_less_nat_alt)
qed

text \<open>The fields of a file object that reading moves.\<close>

definition same_file :: "fil \<Rightarrow> fil \<Rightarrow> bool" where
  "same_file fp fp' \<longleftrightarrow> (\<exists>p c s. fp' = fp\<lparr>fl_fptr := p, fl_clust := c, fl_dsect := s\<rparr>)"

lemma same_file_trans: "same_file a b \<Longrightarrow> same_file b c \<Longrightarrow> same_file a c"
  unfolding same_file_def by (elim exE) (simp, blast)

lemma same_file_refl: "same_file fp fp"
  unfolding same_file_def by (intro exI [of _ "fl_fptr fp"] exI [of _ "fl_clust fp"] exI [of _ "fl_dsect fp"]) simp

lemma same_file_ok: "same_file fp fp' \<Longrightarrow> file_ok sc v fp xs \<Longrightarrow> file_ok sc v fp' xs"
  by (auto simp: same_file_def file_ok_def)

context data_device
begin

definition step_reads :: "'a vol \<Rightarrow> u32 list \<Rightarrow> fil \<Rightarrow> u32 \<Rightarrow> nat \<Rightarrow> byte list \<Rightarrow>
    ((FRESULT + u32) \<times> fil \<times> byte list \<times> 'a vol) option \<Rightarrow> bool" where
  "step_reads v xs fp btr p buf res \<longleftrightarrow> (\<exists>m fp' v'. 0 < m \<and> m \<le> unat btr \<and>
     res = Some (Inr (of_nat m), fp', stored_bytes p (take m (drop (unat (fl_fptr fp)) (file_bytes sec v xs))) buf, v') \<and>
     keeps_view sec v v' \<and> sound (v_dsk v') \<and> same_file fp fp' \<and> fl_fptr fp' = fl_fptr fp \<and>
     file_pos (v_fs v) (fp'\<lparr>fl_fptr := fl_fptr fp + of_nat m\<rparr>) xs)"

lemma read_step_reads:
  assumes ok: "fat_ok sec v" and sd: "sound (v_dsk v)"
    and cs: "fs_csize (v_fs v) \<noteq> 0" "fs_csize (v_fs v) AND (fs_csize (v_fs v) - 1) = 0"
    and fo: "file_ok sec v fp xs" and pos: "file_pos (v_fs v) fp xs"
    and b: "0 < unat btr" "unat btr < 1024" "unat (fl_fptr fp) + unat btr \<le> unat (fl_fsize fp)" "p + unat btr \<le> length buf"
  shows "step_reads v xs fp btr p buf (read_step ops fp btr p buf v)"
proof -
  let ?fs = "v_fs v" and ?n = "unat (fl_fptr fp)" and ?ss = "file_sectors (v_fs v) xs"
  let ?x = "xs ! (?n div 512 div unat (fs_csize (v_fs v)))"
  have vok: "vol_ok sec v" by (rule fat_ok_vol [OF ok])
  have nl: "?n < 512 * length ?ss" using fo b(1,3) by (auto simp: file_ok_def)
  then have k: "?n div 512 < length ?ss" by (simp add: less_mult_imp_div_less mult.commute)
  then have s: "?ss ! (?n div 512) \<noteq> 0" "\<not> mirror ?fs (?ss ! (?n div 512))" using fo by (auto simp: file_ok_def)
  have add: "unat (fl_fptr fp + of_nat m) = ?n + m" if "m \<le> unat btr" for m
  proof -
    have "?n + m < 4294967296" using that b(3) unat_u32_lt [of "fl_fsize fp"] by linarith
    then have "unat (of_nat m :: u32) = m" by (intro unat_of_nat_u32) simp
    then show ?thesis using \<open>?n + m < 4294967296\<close> by (subst unat_add_small) simp_all
  qed
  have step: "file_pos ?fs (fp'\<lparr>fl_fptr := fl_fptr fp + of_nat m\<rparr>) xs"
    if "0 < m" "m \<le> unat btr" "?n mod 512 + m \<le> 512" "fl_clust fp' = ?x" "fl_fsize fp' = fl_fsize fp"
      "?n mod 512 + m < 512 \<Longrightarrow> fl_dsect fp' = ?ss ! (?n div 512)" for fp' m
    using that b(3) add [OF that(2)] by (intro file_pos_step [OF pos refl, of m]) simp_all
  have piece: "take m (drop ?n (file_bytes sec v xs)) = take m (drop (?n mod 512) (view sec v (?ss ! (?n div 512))))"
    if "?n mod 512 + m \<le> 512" for m
    by (rule file_piece [OF vok k that])
  show ?thesis
  proof (cases "?n mod 512 = 0")
    case False
    let ?m = "min (unat btr) (512 - ?n mod 512)"
    have ds: "fl_dsect fp = ?ss ! (?n div 512)" and n0: "0 < ?n" using pos False by (auto simp: file_pos_def Let_def)
    have cl: "fl_clust fp = ?x" using pos n0 same_cluster(1) [OF n0 False] by (simp add: file_pos_def Let_def)
    have "?n mod 512 < 512" by simp
    then have m: "0 < ?m" "?m \<le> unat btr" "?n mod 512 + ?m \<le> 512" using b(1) by linarith+
    obtain v' where r: "read_part ops fp btr p buf v =
        Some (Inr (of_nat ?m), stored_bytes p (take ?m (drop (?n mod 512) (view sec v (fl_dsect fp)))) buf, v')"
      and v': "keeps_view sec v v'" "sound (v_dsk v')"
      using read_part_inside [OF vok sd, of fp p ?m buf btr] s ds m(2) b(4) by auto
    have "read_step ops fp btr p buf v = Some (Inr (of_nat ?m), fp, stored_bytes p (take ?m (drop ?n (file_bytes sec v xs))) buf, v')"
      using r False piece [OF m(3)] by (simp add: read_step_def aligned_word ds)
    moreover have "file_pos ?fs (fp\<lparr>fl_fptr := fl_fptr fp + of_nat ?m\<rparr>) xs"
      using step [OF m, of fp] cl ds by simp
    ultimately show ?thesis
      unfolding step_reads_def using m(1,2) v' same_file_refl by (intro exI [of _ ?m] exI [of _ fp] exI [of _ v']) blast
  next
    case True
    obtain fp1 v1 where r: "read_sect ops fp v = (Inr (?ss ! (?n div 512), csect_of fp v), fp1, v1)"
      and v1: "keeps_view sec v v1" "sound (v_dsk v1)" and fp1: "fp1 = fp\<lparr>fl_clust := ?x\<rparr>"
      using read_sect_finds [OF ok sd cs fo pos refl True] b(1,3) by fastforce
    have lay: "same_layout ?fs (v_fs v1)" using v1(1) by (simp add: keeps_view_def)
    have v1ok: "vol_ok sec v1" using v1(1) by (simp add: keeps_view_def)
    have s1: "view sec v1 (?ss ! (?n div 512)) = view sec v (?ss ! (?n div 512))" "\<not> mirror (v_fs v1) (?ss ! (?n div 512))"
      using v1(1) s by (simp_all add: keeps_view_def same_layout_mirror [OF lay])
    have cc: "unat (csect_of fp v) < unat (fs_csize ?fs)"
      using csect_value [OF cs, of fp] cs(1) by (simp add: unat_gt_0)
    show ?thesis
    proof (cases "512 \<le> unat btr")
      case big: True
      have q: "btr div 512 = 1" by (rule one_sector [OF big b(2)])
      have clip: "clip_cc (csect_of fp v) (btr div 512) (fs_csize (v_fs v1)) = 1"
        using clip_one [OF cs(1) cc] q by (simp add: same_layout_fields [OF lay])
      obtain v2 where d: "read_direct ops (?ss ! (?n div 512)) 1 p buf v1 =
          Some (Inr 512, stored_bytes p (view sec v (?ss ! (?n div 512))) buf, v2)"
        and v2: "keeps_view sec v1 v2" "sound (v_dsk v2)"
        using read_direct_one [OF v1ok v1(2) s(1), of p buf] big b(4) s1(1) by auto
      have w: "take 512 (drop ?n (file_bytes sec v xs)) = view sec v (?ss ! (?n div 512))"
        using piece [of 512] True length_view [OF vok] by simp
      have "read_step ops fp btr p buf v = Some (Inr (of_nat 512), fp1, stored_bytes p (take 512 (drop ?n (file_bytes sec v xs))) buf, v2)"
        using r True d clip w q by (simp add: read_step_def aligned_word)
      moreover have "file_pos ?fs (fp1\<lparr>fl_fptr := fl_fptr fp + of_nat 512\<rparr>) xs"
        using step [of 512 fp1] big True fp1 by simp
      moreover have "same_file fp fp1" unfolding same_file_def fp1
        by (intro exI [of _ "fl_fptr fp"] exI [of _ ?x] exI [of _ "fl_dsect fp"]) simp
      ultimately show ?thesis
        unfolding step_reads_def using big v2 keeps_view_trans [OF v1(1)] fp1
        by (intro exI [of _ 512] exI [of _ fp1] exI [of _ v2]) simp
    next
      case small: False
      let ?m = "unat btr" and ?fp = "fp1\<lparr>fl_dsect := ?ss ! (?n div 512)\<rparr>"
      have q: "btr div 512 = 0" using small by (simp add: zero_iff_unat unat_div)
      have m: "?m = min (unat btr) (512 - unat (fl_fptr ?fp) mod 512)" using small True fp1 by simp
      obtain v2 where d: "read_part ops ?fp btr p buf v1 =
          Some (Inr (of_nat ?m), stored_bytes p (take ?m (drop (?n mod 512) (view sec v (?ss ! (?n div 512))))) buf, v2)"
        and v2: "keeps_view sec v1 v2" "sound (v_dsk v2)"
        using read_part_inside [OF v1ok v1(2), of ?fp p ?m buf btr] s s1 m b(4) fp1 by auto
      have "read_step ops fp btr p buf v = Some (Inr (of_nat ?m), ?fp, stored_bytes p (take ?m (drop ?n (file_bytes sec v xs))) buf, v2)"
        using r True d q piece [of ?m] small by (simp add: read_step_def aligned_word)
      moreover have "file_pos ?fs (?fp\<lparr>fl_fptr := fl_fptr fp + of_nat ?m\<rparr>) xs"
        using step [of ?m ?fp] b(1) small True fp1 by simp
      moreover have "same_file fp ?fp" unfolding same_file_def fp1
        by (intro exI [of _ "fl_fptr fp"] exI [of _ ?x] exI [of _ "?ss ! (?n div 512)"]) simp
      ultimately show ?thesis
        unfolding step_reads_def using b(1) v2 keeps_view_trans [OF v1(1)] fp1
        by (intro exI [of _ ?m] exI [of _ ?fp] exI [of _ v2]) simp
    qed
  qed
qed

text \<open>The loop delivers the requested bytes.\<close>

lemma fread_loop_reads:
  assumes "fat_ok sec v" "sound (v_dsk v)"
    "fs_csize (v_fs v) \<noteq> 0" "fs_csize (v_fs v) AND (fs_csize (v_fs v) - 1) = 0"
    "file_ok sec v fp xs" "file_pos (v_fs v) fp xs"
    "unat btr < 1024" "unat (fl_fptr fp) + unat btr \<le> unat (fl_fsize fp)" "p + unat btr \<le> length buf"
  shows "\<exists>fp' v'. fread_loop ops fp btr p br buf v =
      Some ((FR_OK, br + btr, fp', stored_bytes p (take (unat btr) (drop (unat (fl_fptr fp)) (file_bytes sec v xs))) buf), v') \<and>
    keeps_view sec v v' \<and> sound (v_dsk v') \<and> same_file fp fp' \<and> fl_fptr fp' = fl_fptr fp + btr \<and>
    file_ok sec v' fp' xs \<and> file_pos (v_fs v') fp' xs"
  using assms
proof (induction "unat btr" arbitrary: fp btr p br buf v rule: less_induct)
  case less
  let ?n = "unat (fl_fptr fp)" and ?B = "file_bytes sec v xs"
  show ?case
  proof (cases "btr = 0")
    case True
    then show ?thesis using less.prems same_file_refl [of fp]
      by (subst fread_loop.simps) (simp add: keeps_view_refl fat_ok_vol)
  next
    case False
    then have pos: "0 < unat btr" by (simp add: unat_gt_0)
    obtain m fp1 v1 where m: "0 < m" "m \<le> unat btr"
      and st: "read_step ops fp btr p buf v = Some (Inr (of_nat m), fp1, stored_bytes p (take m (drop ?n ?B)) buf, v1)"
      and v1: "keeps_view sec v v1" "sound (v_dsk v1)" and f1: "same_file fp fp1" "fl_fptr fp1 = fl_fptr fp"
      and p1: "file_pos (v_fs v) (fp1\<lparr>fl_fptr := fl_fptr fp + of_nat m\<rparr>) xs"
      using read_step_reads [OF less.prems(1-6) pos less.prems(7-9)] unfolding step_reads_def by blast
    have lay: "same_layout (v_fs v) (v_fs v1)" using v1(1) by (simp add: keeps_view_def)
    let ?fp = "fp1\<lparr>fl_fptr := fl_fptr fp + of_nat m\<rparr>" and ?btr = "btr - of_nat m"
    let ?buf = "stored_bytes p (take m (drop ?n ?B)) buf"
    have um: "unat (of_nat m :: u32) = m" using m(2) unat_u32_lt [of btr] by (intro unat_of_nat_u32) linarith
    then have ub: "unat ?btr = unat btr - m" using m(2) by (subst unat_sub) (simp_all add: word_le_nat_alt)
    have "?n + m < 4294967296" using m(2) less.prems(8) unat_u32_lt [of "fl_fsize fp"] by linarith
    then have uf: "unat (fl_fptr fp + of_nat m) = ?n + m" using um by (subst unat_add_small) simp_all
    obtain q c s where e: "fp1 = fp\<lparr>fl_fptr := q, fl_clust := c, fl_dsect := s\<rparr>" using f1(1) unfolding same_file_def by blast
    have "?fp = fp\<lparr>fl_fptr := fl_fptr fp + of_nat m, fl_clust := c, fl_dsect := s\<rparr>" unfolding e by simp
    then have sf: "same_file fp ?fp" unfolding same_file_def by blast
    have fs: "fl_fsize ?fp = fl_fsize fp" unfolding e by simp
    have lB: "?n + m \<le> length ?B"
      using less.prems(5,8) m(2) length_file_bytes [OF fat_ok_vol [OF less.prems(1)], of xs] by (auto simp: file_ok_def)
    then have lt: "length (take m (drop ?n ?B)) = m" by simp
    have B1: "file_bytes sec v1 xs = ?B" by (rule file_bytes_keeps [OF v1(1) less.prems(5)])
    have ok1: "file_ok sec v1 ?fp xs" by (rule same_file_ok [OF sf file_ok_keeps [OF v1(1) less.prems(1,5)]])
    have pos1: "file_pos (v_fs v1) ?fp xs"
      using p1 by (simp add: file_pos_def same_layout_file_sectors [OF lay] same_layout_fields [OF lay])
    have lb: "length ?buf = length buf" using lt m(2) less.prems(9) by (intro length_stored_bytes) simp
    have lk: "unat btr - m < 1024" using less.prems(7) by linarith
    obtain fp' v' where ih: "fread_loop ops ?fp ?btr (p + m) (br + of_nat m) ?buf v1 =
        Some ((FR_OK, br + of_nat m + ?btr, fp', stored_bytes (p + m) (take (unat btr - m) (drop (?n + m) ?B)) ?buf), v')"
      and v': "keeps_view sec v1 v'" "sound (v_dsk v')" "same_file ?fp fp'" "fl_fptr fp' = fl_fptr fp + of_nat m + ?btr"
        "file_ok sec v' fp' xs" "file_pos (v_fs v') fp' xs"
      using less.hyps [of ?btr v1 ?fp "p + m" ?buf "br + of_nat m"] ub uf fs B1 m less.prems ok1 pos1 lb v1(2) lk
        keeps_view_fat_ok [OF v1(1) less.prems(1)]
      by (auto simp: same_layout_fields [OF lay])
    have two: "stored_bytes (p + m) (take (unat btr - m) (drop (?n + m) ?B)) ?buf = stored_bytes p (take (unat btr) (drop ?n ?B)) buf"
    proof -
      have "take m (drop ?n ?B) @ take (unat btr - m) (drop (?n + m) ?B) = take (unat btr) (drop ?n ?B)"
        using take_add [of m "unat btr - m" "drop ?n ?B"] m(2) by (simp add: add.commute)
      then show ?thesis using stored_bytes_twice [of p "take m (drop ?n ?B)" "take (unat btr - m) (drop (?n + m) ?B)" buf] lt m(2) less.prems(9)
        by simp
    qed
    have "fread_loop ops fp btr p br buf v = fread_loop ops ?fp ?btr (p + m) (br + of_nat m) ?buf v1"
      using False st f1(2) um by (subst fread_loop.simps) simp
    then show ?thesis using ih two v' same_file_trans [OF sf v'(3)] keeps_view_trans [OF v1(1) v'(1)] by simp
  qed
qed

end

end
