(* ===== verification/FatFileOps.thy ===== *)
theory FatFileOps
  imports FatOps FatRead
begin

text \<open>
  Reading delivers the contents of a file, and the position of the file object advances with it.
\<close>

section \<open>Reading a file\<close>

lemma f_read_reads:
  assumes "data_device ops sec sound" "fat_ok sec (vol_of s q)" "sound (s_dsk s)"
    "fs_csize (s_obj s q) \<noteq> 0" "fs_csize (s_obj s q) AND (fs_csize (s_obj s q) - 1) = 0"
    "file_ok sec (vol_of s q) fp xs" "file_pos (s_obj s q) fp xs"
    "validate_fil ops fp s = FR_OK" "fl_fs fp = Some q" "fl_flag fp AND FA__ERROR = 0" "fl_flag fp AND FA_READ \<noteq> 0"
    "unat btr < 1024" "unat btr \<le> length buf"
    "n = min (unat btr) (unat (fl_fsize fp) - unat (fl_fptr fp))"
  shows "\<exists>fp' v'. f_read ops fp buf btr s =
      Some ((FR_OK, of_nat n, fp', take n (drop (unat (fl_fptr fp)) (file_bytes sec (vol_of s q) xs)) @ drop n buf), put_vol q v' s) \<and>
    unat (fl_fptr fp') = unat (fl_fptr fp) + n \<and> file_ok sec v' fp' xs \<and> file_pos (v_fs v') fp' xs \<and>
    keeps_view sec (vol_of s q) v' \<and> same_file fp fp' \<and> sound (v_dsk v')"
proof -
  let ?v = "vol_of s q" and ?n = "unat (fl_fptr fp)"
  let ?btr = "if fl_fsize fp - fl_fptr fp < btr then fl_fsize fp - fl_fptr fp else btr"
  have v: "v_fs ?v = s_obj s q" "v_dsk ?v = s_dsk s" by (simp_all add: vol_of_def)
  have le: "?n \<le> unat (fl_fsize fp)" using assms(7) by (simp add: file_pos_def Let_def)
  then have sub: "unat (fl_fsize fp - fl_fptr fp) = unat (fl_fsize fp) - ?n"
    by (simp add: unat_sub word_le_nat_alt)
  have n: "unat ?btr = n" using sub assms(14) by (simp add: word_less_nat_alt)
  have b: "n < 1024" "?n + n \<le> unat (fl_fsize fp)" "0 + n \<le> length buf" using assms(12-14) le by simp_all
  obtain fp' v' where r: "fread_loop ops fp ?btr 0 0 buf ?v =
      Some ((FR_OK, 0 + ?btr, fp', stored_bytes 0 (take n (drop ?n (file_bytes sec ?v xs))) buf), v')"
    and v': "keeps_view sec ?v v'" "fl_fptr fp' = fl_fptr fp + ?btr" "file_ok sec v' fp' xs" "file_pos (v_fs v') fp' xs"
      "same_file fp fp'" "sound (v_dsk v')"
    using data_device.fread_loop_reads [OF assms(1,2), of fp xs ?btr 0 buf 0] assms(3-7) b unfolding n v by blast
  have len: "length (take n (drop ?n (file_bytes sec ?v xs))) = n"
    using b(2) assms(6) length_file_bytes [OF fat_ok_vol [OF assms(2)], of xs] by (auto simp: file_ok_def)
  have "?n + n < 4294967296" using b(2) unat_u32_lt [of "fl_fsize fp"] by linarith
  then have ptr: "unat (fl_fptr fp') = ?n + n" unfolding v'(2) using n by (subst unat_add_small) simp_all
  have w: "0 + ?btr = of_nat n" unfolding n [symmetric] by simp
  have "f_read ops fp buf btr s = on_vol q (fread_loop ops fp ?btr 0 0 buf) s"
    using assms(8-11) by (simp add: f_read_def Let_def)
  then have "f_read ops fp buf btr s =
      Some ((FR_OK, of_nat n, fp', take n (drop ?n (file_bytes sec ?v xs)) @ drop n buf), put_vol q v' s)"
    using r len unfolding w by (simp add: on_vol_def stored_bytes_def)
  then show ?thesis using ptr v' by (intro exI [of _ fp'] exI [of _ v']) simp
qed

text \<open>C9: on a sound device, \<open>f_read\<close> of an open, readable file object that is in order for its cluster
  chain, with a request of less than 1024 bytes, returns FR_OK, the number of bytes that remain of those asked for, and exactly
  these bytes of the contents at the position, the rest of the buffer as it was; the position advances by that number. The file
  object stays in order and differs only in its position, cluster and sector; of the system only the device and the file
  system object of the drive change, and the volume keeps its layout and its logical contents (\<open>keeps_view\<close>). For requests that
  make the disk layer transfer several sectors at once see theory \<open>DiskIO\<close>.\<close>

lemma f_read_delivers_file:
  assumes "data_device ops sec sound" "fat_ok sec (vol_of s q)" "sound (s_dsk s)"
    "fs_csize (s_obj s q) \<noteq> 0" "fs_csize (s_obj s q) AND (fs_csize (s_obj s q) - 1) = 0"
    "file_ok sec (vol_of s q) fp xs" "file_pos (s_obj s q) fp xs"
    "validate_fil ops fp s = FR_OK" "fl_fs fp = Some q" "fl_flag fp AND FA__ERROR = 0" "fl_flag fp AND FA_READ \<noteq> 0"
    "unat btr < 1024" "unat btr \<le> length buf"
    "n = min (unat btr) (unat (fl_fsize fp) - unat (fl_fptr fp))"
  shows "\<exists>fp' v'. f_read ops fp buf btr s =
      Some ((FR_OK, of_nat n, fp', take n (drop (unat (fl_fptr fp)) (file_bytes sec (vol_of s q) xs)) @ drop n buf), put_vol q v' s) \<and>
    unat (fl_fptr fp') = unat (fl_fptr fp) + n \<and> fp' = fp\<lparr>fl_fptr := fl_fptr fp', fl_clust := fl_clust fp', fl_dsect := fl_dsect fp'\<rparr> \<and>
    file_ok sec v' fp' xs \<and> file_pos (v_fs v') fp' xs \<and> keeps_view sec (vol_of s q) v'"
proof -
  have "fp' = fp\<lparr>fl_fptr := fl_fptr fp', fl_clust := fl_clust fp', fl_dsect := fl_dsect fp'\<rparr>" if "same_file fp fp'" for fp'
    using that by (auto simp: same_file_def)
  then show ?thesis using f_read_reads [OF assms] by blast
qed

text \<open>The file HELLO.TXT of the example volume, open for reading.\<close>

definition demo_file :: fil where
  "demo_file = \<lparr>fl_fs = Some 0, fl_id = 1, fl_flag = FA_READ, fl_fptr = 0, fl_fsize = 600, fl_sclust = 2, fl_clust = 0,
     fl_dsect = 0, fl_dir_sect = 2, fl_dir_ptr = Some 0\<rparr>"

lemma demo_fat_view: "view sd_sec file_vol 1 = demo_fat12"
  by (simp add: view_def file_vol_def file_fs_def file_sec demo_image_def)

lemma file_entries: "fat_entry sd_sec file_vol 2 = 3" "fat_entry sd_sec file_vol 3 = 0xFFF"
proof -
  have b: "fat_byte sd_sec file_vol k = demo_fat12 ! k" if "k < 512" for k
    using that by (simp add: fat_byte_def fat_sector_def) (simp add: file_vol_def file_fs_def demo_fat_view [unfolded file_vol_def file_fs_def])
  have t: "fs_type (v_fs file_vol) = FS_FAT12" by (simp add: file_vol_def file_fs_def)
  show "fat_entry sd_sec file_vol 2 = 3" "fat_entry sd_sec file_vol 3 = 0xFFF"
    by (simp_all add: fat_entry_def t entry_of_def fs_types ent12_def b demo_fat12_def)
qed

lemma file_contents:
  "file_sectors file_fs [2, 3] = [3, 4]"
  "file_bytes sd_sec file_vol [2, 3] = replicate 512 0x41 @ replicate 512 0x42"
proof -
  show s: "file_sectors file_fs [2, 3] = [3, 4]"
    by (simp add: file_sectors_def cluster_sectors_def clust2sect_def file_fs_def word_le_nat_alt)
  show "file_bytes sd_sec file_vol [2, 3] = replicate 512 0x41 @ replicate 512 0x42"
    using s by (simp add: file_bytes_def file_vol_def view_def) (simp add: file_fs_def file_sec demo_image_def)
qed

lemma demo_file_ok: "file_ok sd_sec file_vol demo_file [2, 3]" "file_pos file_fs demo_file [2, 3]"
proof -
  have v: "v_fs file_vol = file_fs" by (simp add: file_vol_def)
  have n: "fs_n_fatent file_fs = 10" by (simp add: file_fs_def)
  show "file_ok sd_sec file_vol demo_file [2, 3]"
    using file_entries by (simp add: file_ok_def v n file_contents) (simp add: demo_file_def mirror_def file_fs_def fs_types)
  show "file_pos file_fs demo_file [2, 3]" by (simp add: file_pos_def demo_file_def)
qed

lemma f_read_delivers_file_witness:
  "\<exists>fp' v'. f_read (sd_disk sim_io) demo_file (replicate 700 0) 650 (file_sys file_fs) =
     Some ((FR_OK, 600, fp', replicate 512 0x41 @ replicate 88 0x42 @ replicate 100 0), put_vol 0 v' (file_sys file_fs)) \<and>
     unat (fl_fptr fp') = 600 \<and> fp' = demo_file\<lparr>fl_fptr := fl_fptr fp', fl_clust := fl_clust fp', fl_dsect := fl_dsect fp'\<rparr>"
proof -
  have v: "vol_of (file_sys file_fs) 0 = file_vol" "s_obj (file_sys file_fs) 0 = file_fs" "s_dsk (file_sys file_fs) = file_card"
    by (simp_all add: vol_of_def file_sys_def file_vol_def)
  have val: "validate_fil (sd_disk sim_io) demo_file (file_sys file_fs) = FR_OK"
    by (simp add: validate_fil_def validate_def demo_file_def v) (simp add: file_fs_def fs_types sd_disk_def disk_status_def sdStatus_def file_card_def)
  have c: "fs_csize file_fs \<noteq> 0" "fs_csize file_fs AND (fs_csize file_fs - 1) = 0" by (simp_all add: file_fs_def)
  have d: "fl_fs demo_file = Some 0" "fl_flag demo_file AND FA__ERROR = 0" "fl_flag demo_file AND FA_READ \<noteq> 0"
    "fl_fptr demo_file = 0" "fl_fsize demo_file = 600" by (simp_all add: demo_file_def fa_bits)
  have "take 600 (replicate 512 0x41 @ replicate 512 (0x42 :: byte)) = replicate 512 0x41 @ replicate 88 0x42" by simp
  then show ?thesis
    using f_read_delivers_file [OF sdd.data_device_axioms, of "file_sys file_fs" 0 demo_file "[2, 3]" 650 "replicate 700 0" 600]
      file_vol_ok file_healthy demo_file_ok val c d
    unfolding v file_contents by simp blast
qed

section \<open>Opening a file\<close>

text \<open>The start cluster that an entry of 32 bytes holds.\<close>

definition entry_clust :: "fatfs \<Rightarrow> byte list \<Rightarrow> u32" where
  "entry_clust fs e =
     (let cl = ucast (ld_word e DIR_FstClusLO)
      in if fs_type fs = FS_FAT32 then cl OR push_bit 16 (ucast (ld_word e DIR_FstClusHI)) else cl)"

lemma entry_byte:
  assumes "e = take 32 (drop p w)" "k < 32" "p + 32 \<le> length w"
  shows "w ! (p + k) = e ! k"
  using assms by simp

lemma entry_loads:
  assumes "e = take 32 (drop p w)" "p + 32 \<le> length w"
  shows "k + 2 \<le> 32 \<Longrightarrow> ld_word w (p + k) = ld_word e k" "k + 4 \<le> 32 \<Longrightarrow> ld_dword w (p + k) = ld_dword e k"
  using assms by (simp_all add: ld_word_def ld_dword_def add.assoc)

lemma drive_of_name:
  assumes "valid_name base ext"
  shows "drive_of (path_of base ext @ [0]) = Some (0, path_of base ext @ [0])"
proof -
  have c: "name_char x \<Longrightarrow> x \<noteq> 0x3A" for x by (auto simp: name_char_def illegal_sfn_def)
  obtain b bs where b: "base = b # bs" using assms by (cases base) (auto simp: valid_name_def)
  obtain y ys where "path_of base ext @ [0] = b # y # ys" "y \<noteq> 0x3A"
  proof (cases bs)
    case Nil
    then show ?thesis using that [of "hd (tl (path_of base ext @ [0]))" "tl (tl (path_of base ext @ [0]))"] b
      by (cases ext) (simp_all add: path_of_def)
  next
    case (Cons x xs)
    then have "x \<noteq> 0x3A" using assms b c by (simp add: valid_name_def)
    then show ?thesis using that Cons b by (simp add: path_of_def)
  qed
  then show ?thesis by (simp add: drive_of_def Let_def)
qed

lemma path_first:
  assumes "valid_name base ext"
  obtains c cs where "path_of base ext @ [0] = c # cs" "\<not> is_sep c" "\<not> c < 0x20"
proof -
  obtain b bs where b: "base = b # bs" using assms by (cases base) (auto simp: valid_name_def)
  then have "name_char b" using assms by (simp add: valid_name_def)
  then show ?thesis using that b by (auto simp: path_of_def name_char_def)
qed

text \<open>Following a path that is one name: a search of the root directory.\<close>

lemma follow_name:
  assumes "valid_name base ext" "length (d_fn dj) = 12"
    and find: "\<And>f. \<exists>r dj' v'. dir_find ops (dj\<lparr>d_sclust := 0, d_fn := sfn_of base ext @ [f]\<rparr>) v = Some (r, dj', v') \<and>
      d_fn dj' = sfn_of base ext @ [f] \<and> P r dj' v'"
  shows "\<exists>r dj' v'. follow_path ops dj (path_of base ext @ [0]) v = Some (r, dj', v') \<and> P r dj' v'"
proof -
  obtain f where n: "create_name (dj\<lparr>d_sclust := 0\<rparr>) (path_of base ext @ [0]) = Some (FR_OK, dj\<lparr>d_sclust := 0, d_fn := sfn_of base ext @ [f]\<rparr>, [])"
    and f: "f AND NS_LAST \<noteq> 0"
    using create_name_valid [OF assms(1), of "dj\<lparr>d_sclust := 0\<rparr>" 0 "[]"] assms(2) by auto
  obtain r dj' v' where d: "dir_find ops (dj\<lparr>d_sclust := 0, d_fn := sfn_of base ext @ [f]\<rparr>) v = Some (r, dj', v')"
    "d_fn dj' = sfn_of base ext @ [f]" "P r dj' v'" using find [of f] by blast
  obtain c cs where p: "path_of base ext @ [0] = c # cs" "\<not> is_sep c" "\<not> c < 0x20" by (rule path_first [OF assms(1)])
  have l: "length (sfn_of base ext) = 11" using assms(1) by (simp add: sfn_of_def valid_name_def)
  have "follow_path ops dj (path_of base ext @ [0]) v = follow_loop ops (dj\<lparr>d_sclust := 0\<rparr>) (path_of base ext @ [0]) v"
    using p by (simp add: follow_path_def)
  also have "\<dots> = Some (r, dj', v')"
    using n f l d(1,2) by (subst follow_loop.simps) (simp add: Let_def NS_def nth_append)
  finally show ?thesis using d(3) by blast
qed

lemma f_open_finds:
  assumes "reliable_device ops sec sound" "mounted ops sec q s" "sound (s_dsk s)"
    "fs_csize (s_obj s q) AND (fs_csize (s_obj s q) - 1) = 0" "fs_n_rootdir (s_obj s q) mod 16 = 0"
    "dir_clusters sec (vol_of s q) 0 xs" "table_ok (s_obj s q) xs" "valid_name base ext"
  shows "\<exists>r fp' v'. f_open ops (Some fp) (path_of base ext @ [0]) FA_READ s = Some ((r, Some fp'), put_vol q v' s) \<and>
    keeps_view sec (vol_of s q) v' \<and> sound (v_dsk v') \<and>
    (case dir_lookup (sfn_of base ext) (dir_entries sec (vol_of s q) (dir_sectors (s_obj s q) xs)) of
       None \<Rightarrow> r = FR_NO_FILE
     | Some k \<Rightarrow> let e = entry_at sec (vol_of s q) (dir_sectors (s_obj s q) xs) k in
         if e ! DIR_Attr AND AM_DIR \<noteq> 0 then r = FR_NO_FILE
         else r = FR_OK \<and> fl_fs fp' = Some q \<and> fl_id fp' = fs_id (v_fs v') \<and> fl_flag fp' = FA_READ \<and>
           fl_fptr fp' = 0 \<and> fl_fsize fp' = ld_dword e DIR_FileSize \<and> fl_sclust fp' = entry_clust (s_obj s q) e)"
proof -
  let ?v = "vol_of s q" and ?ss = "dir_sectors (s_obj s q) xs"
  let ?found = "dir_lookup (sfn_of base ext) (dir_entries sec ?v ?ss)"
  have m: "s_FatFs s = Some q" "fs_type (s_obj s q) \<noteq> 0" "fs_drv (s_obj s q) = 0" "d_status ops 0 (s_dsk s) AND STA_NOINIT = 0"
    "fat_ok sec ?v" "fs_csize (s_obj s q) \<noteq> 0"
    using assms(2) by (auto simp: mounted_def fat_ok_def vol_ok_def geom_def fs_types)
  have fa: "FA_READ AND (FA_READ OR FA_WRITE OR FA_CREATE_ALWAYS OR FA_OPEN_ALWAYS OR FA_CREATE_NEW) = FA_READ"
    "FA_READ AND NOT FA_READ = 0" "FA_READ AND (FA_CREATE_ALWAYS OR FA_OPEN_ALWAYS OR FA_CREATE_NEW) = 0"
    "FA_READ AND FA_WRITE = 0" "FA_READ AND FA_CREATE_ALWAYS = 0" by (simp_all add: fa_bits)
  have chk: "chk_mounted ops (path_of base ext @ [0]) False s = Some (FR_OK, path_of base ext @ [0], Some q, s)"
    using m drive_of_name [OF assms(8)] by (simp add: chk_mounted_def)
  have l: "length (sfn_of base ext) = 11" using assms(8) by (simp add: sfn_of_def valid_name_def)
  have same: "dir_lookup (sfn_of base ext @ [f]) es = dir_lookup (sfn_of base ext) es" for f es
    using l by (induction es) simp_all
  have find: "\<exists>r dj' v'. dir_find ops ((new_dir q)\<lparr>d_sclust := 0, d_fn := sfn_of base ext @ [f]\<rparr>) ?v = Some (r, dj', v') \<and>
      d_fn dj' = sfn_of base ext @ [f] \<and>
      (keeps_view sec ?v v' \<and> sound (v_dsk v') \<and> reliable_device.found_at xs ?v ?found r dj' v')" for f
    using reliable_device.dir_find_searches [OF assms(1) m(5), of "(new_dir q)\<lparr>d_sclust := 0, d_fn := sfn_of base ext @ [f]\<rparr>" xs]
      assms(3-7) m(6) l by (simp add: same same_table_def) blast
  obtain r dj v1 where f: "follow_path ops (new_dir q) (path_of base ext @ [0]) ?v = Some (r, dj, v1)"
    and v1: "keeps_view sec ?v v1" "sound (v_dsk v1)" and fa1: "reliable_device.found_at xs ?v ?found r dj v1"
    using follow_name [OF assms(8) _ find] by (auto simp: new_dir_def)
  show ?thesis
  proof (cases ?found)
    case None
    then have "r = FR_NO_FILE" using fa1 by (simp add: reliable_device.found_at_def [OF assms(1)])
    then show ?thesis using chk fa f v1 None
      by (simp add: f_open_def open_body_def open_existing_def on_vol_def) blast
  next
    case (Some k)
    let ?e = "entry_at sec ?v ?ss k"
    have r: "r = FR_OK" "fs_winsect (v_fs v1) = d_sect dj" and p: "d_dir dj = Some (32 * (k mod 16))"
      "d_sect dj = ?ss ! (k div 16)" "k < 16 * length ?ss"
      using fa1 Some by (simp_all add: reliable_device.found_at_def [OF assms(1)] dir_pos_def)
    have "k div 16 < length ?ss" using p(3) by (simp add: less_mult_imp_div_less mult.commute)
    then have "?ss ! (k div 16) \<in> set ?ss" by simp
    then have sec: "?ss ! (k div 16) \<noteq> 0" "\<not> mirror (s_obj s q) (?ss ! (k div 16))" using assms(7) by (simp_all add: table_ok_def)
    have "fs_win (v_fs v1) = view sec v1 (?ss ! (k div 16))" using r(2) p(2) by (simp add: view_def)
    also have "\<dots> = view sec ?v (?ss ! (k div 16))" using v1(1) sec by (simp add: keeps_view_def)
    finally have e: "?e = take 32 (drop (32 * (k mod 16)) (fs_win (v_fs v1)))" by (simp add: entry_at_def)
    have "k mod 16 < 16" by simp
    then have w: "32 * (k mod 16) + 32 \<le> length (fs_win (v_fs v1))"
      using v1(1) length_view [of sec v1 "fs_winsect (v_fs v1)"] by (simp add: keeps_view_def view_def)
    have lay: "same_layout (s_obj s q) (v_fs v1)" using v1(1) by (simp add: keeps_view_def)
    have ld: "ent_byte v1 (32 * (k mod 16)) DIR_Attr = ?e ! DIR_Attr"
      "ld_clust (v_fs v1) (32 * (k mod 16)) = entry_clust (s_obj s q) ?e"
      "ld_dword (fs_win (v_fs v1)) (32 * (k mod 16) + DIR_FileSize) = ld_dword ?e DIR_FileSize"
      using entry_byte [OF e _ w, of DIR_Attr] entry_loads [OF e w]
      by (simp_all add: ent_byte_def ld_clust_def entry_clust_def same_layout_fields [OF lay]
          DIR_Attr_def DIR_FstClusLO_def DIR_FstClusHI_def DIR_FileSize_def Let_def cong: if_cong)
    show ?thesis using chk fa f v1 Some r p ld
      by (auto simp: f_open_def open_body_def open_existing_def on_vol_def Let_def)
  qed
qed

text \<open>C3: on a sound device with a mounted volume, opening an existing file of the root directory for
  reading finds the entry that the list of directory entries has under the name, and the file object gets
  the start cluster and the size stored there, position 0 and the identity of the volume; a name that is
  not in the list gives FR_NO_FILE. The volume keeps its contents.\<close>

lemma f_open_finds_file:
  assumes "reliable_device ops sec sound" "mounted ops sec q s" "sound (s_dsk s)"
    "fs_csize (s_obj s q) AND (fs_csize (s_obj s q) - 1) = 0" "fs_n_rootdir (s_obj s q) mod 16 = 0"
    "dir_clusters sec (vol_of s q) 0 xs" "table_ok (s_obj s q) xs" "valid_name base ext"
  shows "\<exists>r fp' v'. f_open ops (Some fp) (path_of base ext @ [0]) FA_READ s = Some ((r, Some fp'), put_vol q v' s) \<and>
    keeps_view sec (vol_of s q) v' \<and> sound (v_dsk v') \<and>
    (case dir_lookup (sfn_of base ext) (dir_entries sec (vol_of s q) (dir_sectors (s_obj s q) xs)) of
       None \<Rightarrow> r = FR_NO_FILE
     | Some k \<Rightarrow> let e = entry_at sec (vol_of s q) (dir_sectors (s_obj s q) xs) k in
         if e ! DIR_Attr AND AM_DIR \<noteq> 0 then r = FR_NO_FILE
         else r = FR_OK \<and> fl_fs fp' = Some q \<and> fl_id fp' = fs_id (v_fs v') \<and> fl_flag fp' = FA_READ \<and>
           fl_fptr fp' = 0 \<and> fl_fsize fp' = ld_dword e DIR_FileSize \<and> fl_sclust fp' = entry_clust (s_obj s q) e)"
  by (rule f_open_finds [OF assms])

lemma replicate_numeral3: "replicate 3 x = [x, x, x]"
  by (simp add: numeral_eq_Suc)

lemma demo_file_entry: "entry_at sd_sec file_vol [2] 0 = take 32 demo_root"
  by (simp add: entry_at_def view_def file_vol_def file_fs_def file_sec demo_image_def)

lemma f_open_finds_file_witness:
  "\<exists>fp' s'. f_open (sd_disk sim_io) (Some demo_file) [0x68, 0x65, 0x6C, 0x6C, 0x6F, 0x2E, 0x74, 0x78, 0x74, 0] FA_READ (file_sys file_fs) =
     Some ((FR_OK, Some fp'), s') \<and> fl_fsize fp' = 600 \<and> fl_sclust fp' = 2 \<and> fl_fptr fp' = 0"
proof -
  let ?b = "[0x68, 0x65, 0x6C, 0x6C, 0x6F] :: byte list" and ?e = "[0x74, 0x78, 0x74] :: byte list"
  have n: "valid_name ?b ?e" by (simp add: valid_name_def name_char_def is_sep_def illegal_sfn_def)
  have f: "sfn_of ?b ?e = demo_name" by (simp add: sfn_of_def pad_def upc_def IsLower_def demo_name_def word_le_nat_alt replicate_numeral3)
  have p: "path_of ?b ?e @ [0] = [0x68, 0x65, 0x6C, 0x6C, 0x6F, 0x2E, 0x74, 0x78, 0x74, 0]" by (simp add: path_of_def)
  have v: "vol_of (file_sys file_fs) 0 = file_vol" "s_obj (file_sys file_fs) 0 = file_fs" "s_dsk (file_sys file_fs) = file_card"
    by (simp_all add: vol_of_def file_sys_def file_vol_def)
  have g: "fs_csize file_fs AND (fs_csize file_fs - 1) = 0" "fs_n_rootdir file_fs mod 16 = 0" by (simp_all add: file_fs_def)
  have r: "v_fs file_vol = file_fs" by (simp add: file_vol_def)
  have e: "take 32 demo_root ! DIR_Attr AND AM_DIR = 0" "ld_dword (take 32 demo_root) DIR_FileSize = 600"
    "entry_clust file_fs (take 32 demo_root) = 2"
    by (simp_all add: demo_root_def demo_name_def entry_clust_def DIR_Attr_def DIR_FileSize_def DIR_FstClusLO_def AM_DIR_def
        ld_dword_def ld_word_def file_fs_def fs_types)
  show ?thesis
    using f_open_finds_file [OF sdr.reliable_device_axioms file_mounted, of "[]" ?b ?e demo_file]
      file_healthy g n file_root_table [unfolded r] file_lookup e
    unfolding v f p by (simp add: demo_file_entry Let_def) blast
qed

end
