(* ===== verification/Stdio.thy ===== *)
theory Stdio
  imports Prelude "HOL-Library.Char_ord"
begin

text \<open>
  The formatted output of \<^verbatim>\<open>stdio.cpp\<close>.

  Text is a list of characters. A pointer into a string is the list of the characters from there to
  the end of the object that holds it, the terminating zero included; reading on behind the end of
  the list is \<^term>\<open>None\<close>. A buffer is the list of its characters and a pointer into it a position;
  writing behind its end is \<^term>\<open>None\<close>. What is sent to the UART is a list of characters.
\<close>

section \<open>Memory\<close>

abbreviation NUL :: char where "NUL \<equiv> CHR 0x00"

definition put_char :: "nat \<Rightarrow> char \<Rightarrow> char list \<Rightarrow> char list option" where
  "put_char p c b = (if p < length b then Some (b[p := c]) else None)"

definition get_char_at :: "char list \<Rightarrow> nat \<Rightarrow> char option" where
  "get_char_at s n = (if n < length s then Some (s ! n) else None)"

definition upper_digits :: string where
  "upper_digits = ''0123456789ABCDEFGHIJKLMNOPQRSTUVWXYZ'' @ [NUL]"

definition lower_digits :: string where
  "lower_digits = ''0123456789abcdefghijklmnopqrstuvwxyz'' @ [NUL]"

section \<open>Characters and strings to the UART\<close>

definition putchar :: "char \<Rightarrow> string \<Rightarrow> string" where
  "putchar ch out = (if ch = CHR 0x0A then out @ [CHR 0x0D, ch] else out @ [ch])"

fun puts_loop :: "char list \<Rightarrow> string \<Rightarrow> string option" where
  "puts_loop [] out = None"
| "puts_loop (c # s) out = (if c = NUL then Some out else puts_loop s (putchar c out))"

definition puts :: "char list \<Rightarrow> string \<Rightarrow> (int \<times> string) option" where
  "puts s out = do { out \<leftarrow> puts_loop s out; Some (1, putchar (CHR 0x0A) out) }"

section \<open>Numbers to text\<close>

text \<open>
  The digits in front of the last one are written by the recursive call. The result is the position
  behind the last digit, where the terminating zero stands, and the buffer. Division by zero has no
  result, and with radix one the recursion does not end.
\<close>

partial_function (option) ultoa :: "u32 \<Rightarrow> nat \<Rightarrow> char list \<Rightarrow> u32 \<Rightarrow> char list \<Rightarrow> (nat \<times> char list) option" where
  "ultoa v p b radix digits =
     (if radix = 0 then None
      else do {
        (p, b) \<leftarrow> (if v div radix \<noteq> 0 then ultoa (v div radix) p b radix digits else Some (p, b));
        c \<leftarrow> get_char_at digits (unat (v mod radix));
        b \<leftarrow> put_char p c b;
        b \<leftarrow> put_char (p + 1) NUL b;
        Some (p + 1, b) })"

text \<open>Copying a string that the program text holds, terminating zero included.\<close>

fun strcpy :: "nat \<Rightarrow> char list \<Rightarrow> char list \<Rightarrow> char list option" where
  "strcpy p [] b = None"
| "strcpy p (c # s) b = do { b \<leftarrow> put_char p c b; (if c = NUL then Some b else strcpy (p + 1) s b) }"

definition not_implemented :: "char list" where
  "not_implemented = ''Not implemented'' @ [NUL]"

partial_function (option) ulltoa :: "u64 \<Rightarrow> nat \<Rightarrow> char list \<Rightarrow> u32 \<Rightarrow> char list \<Rightarrow> (nat \<times> char list) option" where
  "ulltoa v p b radix digits =
     (if radix \<noteq> 16 \<and> radix \<noteq> 8 then do { b \<leftarrow> strcpy p not_implemented b; Some (p, b) }
      else
        let (shift, msk) = (if radix = 16 then (4, 15) else (3, 7))
        in do {
          (p, b) \<leftarrow> (if drop_bit shift v \<noteq> 0 then ulltoa (drop_bit shift v) p b radix digits else Some (p, b));
          c \<leftarrow> get_char_at digits (unat (v AND msk));
          b \<leftarrow> put_char p c b;
          b \<leftarrow> put_char (p + 1) NUL b;
          Some (p + 1, b) })"

text \<open>The value is a word read as a signed number; negating the least number gives that number again.\<close>

definition ltoa :: "u32 \<Rightarrow> char list \<Rightarrow> int \<Rightarrow> char list option" where
  "ltoa v b radix =
     (if radix < 2 \<or> 36 < radix then put_char 0 NUL b
      else do {
        (v, p, b) \<leftarrow> (if radix = 10 \<and> v <s 0 then do { b \<leftarrow> put_char 0 (CHR ''-'') b; Some (- v, 1, b) }
                       else Some (v, 0, b));
        (p, b) \<leftarrow> ultoa v p b (of_int radix) lower_digits;
        Some b })"

definition lltoa :: "u64 \<Rightarrow> char list \<Rightarrow> int \<Rightarrow> char list option" where
  "lltoa v b radix =
     (if radix < 2 \<or> 36 < radix then put_char 0 NUL b
      else do {
        (v, p, b) \<leftarrow> (if radix = 10 \<and> v <s 0 then do { b \<leftarrow> put_char 0 (CHR ''-'') b; Some (- v, 1, b) }
                       else Some (v, 0, b));
        (p, b) \<leftarrow> ulltoa v p b (of_int radix) lower_digits;
        Some b })"

section \<open>Fields\<close>

text \<open>The width that the string leaves: the loop stops at the end of the string or at width zero.\<close>

fun width_left :: "int \<Rightarrow> char list \<Rightarrow> int option" where
  "width_left w [] = None"
| "width_left w (c # s) = (if c \<noteq> NUL \<and> 0 < w then width_left (w - 1) s else Some w)"

definition chrout :: "int \<Rightarrow> char \<Rightarrow> char list \<Rightarrow> string \<Rightarrow> string option" where
  "chrout width padchar src out = do {
     width \<leftarrow> width_left width src;
     puts_loop src (fold putchar (replicate (nat width) padchar) out) }"

text \<open>
  Into a buffer: the position, the buffer and the number of characters so far. A tab in the source
  is also reported on the UART.
\<close>

fun pad_loop :: "nat \<Rightarrow> char \<Rightarrow> nat \<Rightarrow> char list \<Rightarrow> (nat \<times> char list) option" where
  "pad_loop 0 c p b = Some (p, b)"
| "pad_loop (Suc n) c p b = do { b \<leftarrow> put_char p c b; pad_loop n c (p + 1) b }"

fun copy_loop :: "char list \<Rightarrow> nat \<Rightarrow> char list \<Rightarrow> string \<Rightarrow> (nat \<times> char list \<times> string) option" where
  "copy_loop [] p b out = None"
| "copy_loop (c # s) p b out =
     (if c = NUL then Some (p, b, out)
      else do {
        b \<leftarrow> put_char p c b;
        copy_loop s (p + 1) b (if c = CHR 0x09 then out @ ''[TAB]'' else out) })"

definition strout :: "int \<Rightarrow> char \<Rightarrow> nat \<Rightarrow> char list \<Rightarrow> char list \<Rightarrow> string \<Rightarrow> (nat \<times> nat \<times> char list \<times> string) option" where
  "strout width padchar dest b src out = do {
     width \<leftarrow> width_left width src;
     (p, b) \<leftarrow> pad_loop (nat width) padchar dest b;
     (p, b, out) \<leftarrow> copy_loop src p b out;
     Some (p - dest, p, b, out) }"

section \<open>Conversion specifications\<close>

record spec =
  sp_padchar :: char
  sp_width :: u32
  sp_prec :: u32
  sp_type :: nat
  sp_leftFlag :: bool

fun next_char :: "char list \<Rightarrow> (char \<times> char list) option" where
  "next_char [] = None"
| "next_char (c # s) = Some (c, s)"

definition is_digit :: "char \<Rightarrow> bool" where
  "is_digit c \<longleftrightarrow> CHR ''0'' \<le> c \<and> c \<le> CHR ''9''"

fun number_loop :: "u32 \<Rightarrow> char \<Rightarrow> char list \<Rightarrow> (u32 \<times> char \<times> char list) option" where
  "number_loop n ch [] = (if is_digit ch then None else Some (n, ch, []))"
| "number_loop n ch (c # s) =
     (if is_digit ch then number_loop (n * 10 + (of_char ch - of_char (CHR ''0''))) c s else Some (n, ch, c # s))"

text \<open>From behind the percent sign: the conversion character, the specification and the rest.\<close>

definition parse_spec :: "char list \<Rightarrow> (char \<times> spec \<times> char list) option" where
  "parse_spec fmt = do {
     (ch, fmt) \<leftarrow> next_char fmt;
     (left, ch, fmt) \<leftarrow> (if ch = CHR ''-'' then do { (ch, fmt) \<leftarrow> next_char fmt; Some (True, ch, fmt) }
                          else Some (False, ch, fmt));
     (padchar, ch, fmt) \<leftarrow> (if ch = CHR ''0'' then do { (c, fmt) \<leftarrow> next_char fmt; Some (ch, c, fmt) }
                             else Some (CHR '' '', ch, fmt));
     (width, ch, fmt) \<leftarrow> number_loop 0 ch fmt;
     (prec, ch, fmt) \<leftarrow> (if ch = CHR ''.'' then do { (ch, fmt) \<leftarrow> next_char fmt; number_loop 0 ch fmt }
                          else Some (0, ch, fmt));
     (type, ch, fmt) \<leftarrow> (if ch = CHR ''l'' then do { (ch, fmt) \<leftarrow> next_char fmt; Some (1, ch, fmt) }
                          else Some (0, ch, fmt));
     (type, ch, fmt) \<leftarrow> (if ch = CHR ''l'' then do { (ch, fmt) \<leftarrow> next_char fmt; Some (2, ch, fmt) }
                          else Some (type, ch, fmt));
     Some (ch, \<lparr>sp_padchar = padchar, sp_width = width, sp_prec = prec, sp_type = type, sp_leftFlag = left\<rparr>, fmt) }"

text \<open>The variable arguments: 32-bit and 64-bit integers and pointers to strings.\<close>

datatype arg = A32 u32 | A64 u64 | AStr "char list"

definition arg32 :: "arg list \<Rightarrow> (u32 \<times> arg list) option" where
  "arg32 ap = (case ap of A32 v # ap \<Rightarrow> Some (v, ap) | _ \<Rightarrow> None)"

definition arg64 :: "arg list \<Rightarrow> (u64 \<times> arg list) option" where
  "arg64 ap = (case ap of A64 v # ap \<Rightarrow> Some (v, ap) | _ \<Rightarrow> None)"

definition arg_str :: "arg list \<Rightarrow> (char list \<times> arg list) option" where
  "arg_str ap = (case ap of AStr s # ap \<Rightarrow> Some (s, ap) | _ \<Rightarrow> None)"

text \<open>The text of an unsigned conversion, in the buffer \<open>temp\<close>.\<close>

definition unsigned_conv :: "nat \<Rightarrow> u32 \<Rightarrow> char list \<Rightarrow> char list \<Rightarrow> arg list \<Rightarrow> (char list \<times> arg list) option" where
  "unsigned_conv type radix digits temp ap =
     (if type = 2 then do { (v, ap) \<leftarrow> arg64 ap; (p, temp) \<leftarrow> ulltoa v 0 temp radix digits; Some (temp, ap) }
      else do { (v, ap) \<leftarrow> arg32 ap; (p, temp) \<leftarrow> ultoa v 0 temp radix digits; Some (temp, ap) })"

text \<open>Radix and digits of the unsigned conversion characters.\<close>

definition radix_of :: "char \<Rightarrow> (u32 \<times> char list) option" where
  "radix_of ch =
     (if ch = CHR ''u'' then Some (10, lower_digits) else if ch = CHR ''o'' then Some (8, lower_digits)
      else if ch = CHR ''x'' then Some (16, lower_digits) else if ch = CHR ''X'' then Some (16, upper_digits)
      else None)"

section \<open>printf\<close>

definition printf_signed :: "nat \<Rightarrow> char list \<Rightarrow> arg list \<Rightarrow> (char list \<times> arg list) option" where
  "printf_signed type temp ap =
     (if type = 2 then do { (v, ap) \<leftarrow> arg64 ap; temp \<leftarrow> lltoa v temp 10; Some (temp, ap) }
      else do { (v, ap) \<leftarrow> arg32 ap; temp \<leftarrow> ltoa v temp 10; Some (temp, ap) })"

definition printf_conv :: "char \<Rightarrow> spec \<Rightarrow> char list \<Rightarrow> arg list \<Rightarrow> string \<Rightarrow> (char list \<times> arg list \<times> string) option" where
  "printf_conv ch sp temp ap out =
     (let w = sint (sp_width sp)
      in case radix_of ch of
           Some (radix, digits) \<Rightarrow> do {
             (temp, ap) \<leftarrow> unsigned_conv (sp_type sp) radix digits temp ap;
             out \<leftarrow> chrout w (sp_padchar sp) temp out;
             Some (temp, ap, out) }
         | None \<Rightarrow>
             if ch = CHR ''d'' then do {
               (temp, ap) \<leftarrow> printf_signed (sp_type sp) temp ap;
               out \<leftarrow> chrout w (sp_padchar sp) temp out;
               Some (temp, ap, out) }
             else if ch = CHR ''c'' then do {
               (v, ap) \<leftarrow> arg32 ap;
               Some (temp, ap, putchar (char_of (unat v)) out) }
             else if ch = CHR ''s'' then do {
               (s, ap) \<leftarrow> arg_str ap;
               out \<leftarrow> chrout w NUL s out;
               Some (temp, ap, out) }
             else if ch = CHR ''%'' then Some (temp, ap, putchar ch out)
             else Some (temp, ap, out))"

text \<open>The result is always zero; \<open>temp\<close> is the local buffer of 128 characters.\<close>

partial_function (option) printf_loop :: "char list \<Rightarrow> char list \<Rightarrow> arg list \<Rightarrow> string \<Rightarrow> (int \<times> string) option" where
  "printf_loop fmt temp ap out = do {
     (ch, fmt) \<leftarrow> next_char fmt;
     (if ch = NUL then Some (0, out)
      else if ch \<noteq> CHR ''%'' then printf_loop fmt temp ap (putchar ch out)
      else do {
        (ch, sp, fmt) \<leftarrow> parse_spec fmt;
        (if ch = NUL then Some (0, out)
         else do {
           (temp, ap, out) \<leftarrow> printf_conv ch sp temp ap out;
           printf_loop fmt temp ap out }) }) }"

definition printf :: "char list \<Rightarrow> arg list \<Rightarrow> string \<Rightarrow> (int \<times> string) option" where
  "printf fmt ap out = printf_loop fmt (replicate 128 NUL) ap out"

section \<open>vsnprintf\<close>

text \<open>Every signed conversion is printed as a 64-bit number.\<close>

definition vsn_signed :: "nat \<Rightarrow> char list \<Rightarrow> arg list \<Rightarrow> (char list \<times> arg list) option" where
  "vsn_signed type temp ap =
     (if type = 2 then do { (v, ap) \<leftarrow> arg64 ap; temp \<leftarrow> lltoa v temp 10; Some (temp, ap) }
      else do { (v, ap) \<leftarrow> arg32 ap; temp \<leftarrow> lltoa (scast v) temp 10; Some (temp, ap) })"

text \<open>State of the output: position in the buffer, the buffer, the count and the UART.\<close>

type_synonym vsn = "nat \<times> char list \<times> int \<times> string"

definition vsn_strout :: "spec \<Rightarrow> char \<Rightarrow> char list \<Rightarrow> vsn \<Rightarrow> vsn option" where
  "vsn_strout sp padchar src st =
     (let (p, buf, ret, out) = st
      in do {
        (n, p, buf, out) \<leftarrow> strout (sint (sp_width sp)) padchar p buf src out;
        Some (p, buf, ret + int n, out) })"

definition vsn_char :: "char \<Rightarrow> vsn \<Rightarrow> vsn option" where
  "vsn_char ch st = (let (p, buf, ret, out) = st in do { buf \<leftarrow> put_char p ch buf; Some (p + 1, buf, ret + 1, out) })"

definition vsn_conv :: "char \<Rightarrow> spec \<Rightarrow> char list \<Rightarrow> arg list \<Rightarrow> vsn \<Rightarrow> (char list \<times> arg list \<times> vsn) option" where
  "vsn_conv ch sp temp ap st =
     (case radix_of ch of
        Some (radix, digits) \<Rightarrow> do {
          (temp, ap) \<leftarrow> unsigned_conv (sp_type sp) radix digits temp ap;
          st \<leftarrow> vsn_strout sp (sp_padchar sp) temp st;
          Some (temp, ap, st) }
      | None \<Rightarrow>
          if ch = CHR ''d'' then do {
            (temp, ap) \<leftarrow> vsn_signed (sp_type sp) temp ap;
            st \<leftarrow> vsn_strout sp (sp_padchar sp) temp st;
            Some (temp, ap, st) }
          else if ch = CHR ''c'' then do {
            (v, ap) \<leftarrow> arg32 ap;
            st \<leftarrow> vsn_char (char_of (unat v)) st;
            Some (temp, ap, st) }
          else if ch = CHR ''s'' then do {
            (s, ap) \<leftarrow> arg_str ap;
            st \<leftarrow> vsn_strout sp NUL s st;
            Some (temp, ap, st) }
          else if ch = CHR ''%'' then do { st \<leftarrow> vsn_char ch st; Some (temp, ap, st) }
          else Some (temp, ap, st))"

text \<open>A format that ends inside a specification leaves the buffer without a terminating zero.\<close>

partial_function (option) vsn_loop :: "char list \<Rightarrow> char list \<Rightarrow> arg list \<Rightarrow> vsn \<Rightarrow> (int \<times> char list \<times> string) option" where
  "vsn_loop fmt temp ap st = do {
     (ch, fmt) \<leftarrow> next_char fmt;
     (if ch = NUL then
        (let (p, buf, ret, out) = st in do { buf \<leftarrow> put_char p NUL buf; Some (ret, buf, out) })
      else if ch \<noteq> CHR ''%'' then do { st \<leftarrow> vsn_char ch st; vsn_loop fmt temp ap st }
      else do {
        (ch, sp, fmt) \<leftarrow> parse_spec fmt;
        (if ch = NUL then (let (p, buf, ret, out) = st in Some (ret, buf, out))
         else do {
           (temp, ap, st) \<leftarrow> vsn_conv ch sp temp ap st;
           vsn_loop fmt temp ap st }) }) }"

text \<open>The size of the buffer is decreased, if it is not zero, and not looked at again.\<close>

definition vsnprintf :: "nat \<Rightarrow> char list \<Rightarrow> u32 \<Rightarrow> char list \<Rightarrow> arg list \<Rightarrow> string \<Rightarrow> (int \<times> char list \<times> string) option" where
  "vsnprintf p buf n fmt ap out =
     (let n = (if 0 < n then n - 1 else n)
      in vsn_loop fmt (replicate 80 NUL) ap (p, buf, 0, out))"

definition sprintf :: "nat \<Rightarrow> char list \<Rightarrow> char list \<Rightarrow> arg list \<Rightarrow> string \<Rightarrow> (int \<times> char list \<times> string) option" where
  "sprintf p buf fmt ap out = vsnprintf p buf (NOT 0) fmt ap out"

definition snprintf :: "nat \<Rightarrow> char list \<Rightarrow> u32 \<Rightarrow> char list \<Rightarrow> arg list \<Rightarrow> string \<Rightarrow> (int \<times> char list \<times> string) option" where
  "snprintf p buf n fmt ap out = vsnprintf p buf n fmt ap out"

text \<open>The loops are executable.\<close>

declare ultoa.simps [code]
  ulltoa.simps [code]
  printf_loop.simps [code]
  vsn_loop.simps [code]

end
