(* ===== verification/StdioText.thy ===== *)
theory StdioText
  imports Stdio
begin

text \<open>
  What the conversions of \<^verbatim>\<open>stdio.cpp\<close> print: the digits of a number in a radix, and from them the
  text of a whole format, which \<^verbatim>\<open>printf\<close> sends to the UART and \<^verbatim>\<open>vsnprintf\<close> stores.
\<close>

section \<open>Numerals\<close>

function radix_digits :: "nat \<Rightarrow> nat \<Rightarrow> nat list" where
  "radix_digits r n = (if n < r \<or> r < 2 then [n] else radix_digits r (n div r) @ [n mod r])"
  by auto
termination by (relation "measure snd") (auto intro: div_less_dividend)

declare radix_digits.simps [simp del]

definition value_of :: "nat \<Rightarrow> nat list \<Rightarrow> nat" where
  "value_of r ds = foldl (\<lambda>a d. a * r + d) 0 ds"

lemma value_of_snoc [simp]: "value_of r (ds @ [d]) = value_of r ds * r + d"
  by (simp add: value_of_def)

lemma value_radix_digits: "value_of r (radix_digits r n) = n"
proof (induction r n rule: radix_digits.induct)
  case (1 r n)
  then show ?case by (subst radix_digits.simps) (auto simp: value_of_def)
qed

lemma radix_digits_nonempty [simp]: "radix_digits r n \<noteq> []"
  by (subst radix_digits.simps) simp

lemma radix_digits_less: "2 \<le> r \<Longrightarrow> d \<in> set (radix_digits r n) \<Longrightarrow> d < r"
proof (induction r n rule: radix_digits.induct)
  case (1 r n)
  then show ?case by (auto simp: radix_digits.simps [of r n] split: if_splits)
qed

lemma radix_digits_hd: "2 \<le> r \<Longrightarrow> hd (radix_digits r n) = 0 \<Longrightarrow> n = 0"
proof (induction r n rule: radix_digits.induct)
  case (1 r n)
  show ?case
  proof (cases "n < r")
    case True
    then show ?thesis using 1(3) by (subst (asm) radix_digits.simps) simp
  next
    case False
    then have "hd (radix_digits r n) = hd (radix_digits r (n div r))"
      using 1(2) by (subst radix_digits.simps) simp
    then have "n div r = 0" using 1 False by auto
    then show ?thesis using False 1(2) by (simp add: div_eq_0_iff)
  qed
qed

lemma radix_digits_length: "2 \<le> r \<Longrightarrow> n < r ^ Suc k \<Longrightarrow> length (radix_digits r n) \<le> Suc k"
proof (induction k arbitrary: n)
  case 0
  then show ?case by (subst radix_digits.simps) simp
next
  case (Suc k)
  show ?case
  proof (cases "n < r")
    case True
    then show ?thesis by (subst radix_digits.simps) simp
  next
    case False
    have "n div r < r ^ Suc k" using Suc.prems by (simp add: less_mult_imp_div_less mult.commute)
    then show ?thesis using Suc False by (subst radix_digits.simps) simp
  qed
qed

section \<open>Writing digits\<close>

text \<open>The text \<open>s\<close> and its terminating zero at position \<open>p\<close> of the buffer.\<close>

definition text_at :: "nat \<Rightarrow> char list \<Rightarrow> char list \<Rightarrow> char list" where
  "text_at p b s = take p b @ s @ NUL # drop (p + length s + 1) b"

lemma length_text_at [simp]: "p + length s < length b \<Longrightarrow> length (text_at p b s) = length b"
  by (simp add: text_at_def)

lemma put_first:
  assumes "p + 1 < length b"
  shows "do { b \<leftarrow> put_char p c b; b \<leftarrow> put_char (p + 1) NUL b; Some (p + 1, b) } = Some (p + 1, text_at p b [c])"
proof -
  have "drop (p + 1) b = b ! (p + 1) # drop (p + 2) b" using assms by (simp add: Cons_nth_drop_Suc)
  then show ?thesis
    using assms by (simp add: put_char_def text_at_def upd_conv_take_nth_drop list_update_append)
qed

lemma put_next:
  assumes "p + length s + 1 < length b"
  shows "do { b \<leftarrow> put_char (p + length s) c (text_at p b s); b \<leftarrow> put_char (p + length s + 1) NUL b; Some (p + length s + 1, b) } =
    Some (p + length (s @ [c]), text_at p b (s @ [c]))"
proof -
  have "drop (p + length s + 1) b = b ! (p + length s + 1) # drop (p + length s + 2) b"
    using assms by (simp add: Cons_nth_drop_Suc)
  then show ?thesis using assms by (simp add: put_char_def text_at_def list_update_append)
qed

lemma div_word_eq_0: "v div r = 0 \<longleftrightarrow> r = 0 \<or> unat v < unat (r :: 'a::len word)"
  by (simp add: word_unat_eq_iff unat_div div_eq_0_iff) (auto simp: unat_eq_0)

lemma ultoa_last:
  assumes "v div r = 0" "r \<noteq> 0" "unat v < length digits" "p + 1 < length b"
  shows "ultoa v p b r digits = Some (p + 1, text_at p b [digits ! unat v])"
proof -
  have "unat (v mod r) = unat v" using assms(1,2) by (simp add: unat_mod div_word_eq_0)
  then have "get_char_at digits (unat (v mod r)) = Some (digits ! unat v)" using assms(3) by (simp add: get_char_at_def)
  with put_first [OF assms(4), of "digits ! unat v"] show ?thesis
    using assms(1,2) by (simp add: ultoa.simps [of v])
qed

lemma ultoa_step:
  assumes "v div r \<noteq> 0" "unat (v mod r) < length digits" "ultoa (v div r) p b r digits = Some (p + length s, text_at p b s)"
    "p + length s + 1 < length b"
  shows "ultoa v p b r digits = Some (p + length s + 1, text_at p b (s @ [digits ! unat (v mod r)]))"
proof -
  have "r \<noteq> 0" using assms(1) by (auto simp: div_word_eq_0)
  with put_next [OF assms(4), of "digits ! unat (v mod r)"] show ?thesis
    using assms(1-3) by (simp add: ultoa.simps [of v] get_char_at_def)
qed

lemma ultoa_writes:
  assumes "2 \<le> unat r" "unat r \<le> length digits" "p + length (radix_digits (unat r) (unat v)) < length b"
  shows "ultoa v p b r digits = Some (p + length (radix_digits (unat r) (unat v)),
    text_at p b (map ((!) digits) (radix_digits (unat r) (unat v))))"
  using assms(3)
proof (induction "unat v" arbitrary: v rule: less_induct)
  case less
  have r0: "r \<noteq> 0" using assms(1) by auto
  show ?case
  proof (cases "unat v < unat r")
    case True
    have d: "radix_digits (unat r) (unat v) = [unat v]" using True by (subst radix_digits.simps) simp
    show ?thesis using ultoa_last [of v r digits p b] less(2) True r0 assms(2)
      by (simp add: d div_word_eq_0)
  next
    case False
    let ?ds = "radix_digits (unat r) (unat v div unat r)"
    have d: "radix_digits (unat r) (unat v) = ?ds @ [unat v mod unat r]"
      using False assms(1) by (subst radix_digits.simps) simp
    have l: "p + length ?ds + 1 < length b" using less(2) by (simp add: d)
    have "unat (v div r) < unat v" using False assms(1) by (simp add: unat_div)
    then have "ultoa (v div r) p b r digits = Some (p + length (map ((!) digits) ?ds), text_at p b (map ((!) digits) ?ds))"
      using less(1) [of "v div r"] l by (simp add: unat_div)
    moreover have "unat (v mod r) = unat v mod unat r" "unat v mod unat r < length digits"
      using assms(1,2) by (simp_all add: unat_mod less_le_trans [OF mod_less_divisor])
    ultimately show ?thesis
      using ultoa_step [of v r digits p b "map ((!) digits) ?ds"] l False r0 by (simp add: d div_word_eq_0)
  qed
qed

definition shift_of :: "u32 \<Rightarrow> nat" where
  "shift_of r = (if r = 16 then 4 else 3)"

lemma unat_drop_u64: "unat (drop_bit n (v :: u64)) = unat v div 2 ^ n"
  by (simp only: unat_drop_bit_eq) (simp only: drop_bit_eq_div)

lemma unat_and_mask: "unat ((v :: u64) AND mask n) = unat v mod 2 ^ n"
  by (simp only: take_bit_eq_mask [symmetric] unsigned_take_bit_eq) (simp only: take_bit_eq_mod)

lemma drop_u64_eq_0: "drop_bit n (v :: u64) = 0 \<longleftrightarrow> unat v < 2 ^ n"
  by (simp add: word_unat_eq_iff unat_drop_u64 div_eq_0_iff)

lemma ulltoa_eq:
  assumes "r = 16 \<or> r = 8"
  shows "ulltoa v p b r digits = do {
    (p, b) \<leftarrow> (if drop_bit (shift_of r) v \<noteq> 0 then ulltoa (drop_bit (shift_of r) v) p b r digits else Some (p, b));
    c \<leftarrow> get_char_at digits (unat v mod unat r);
    b \<leftarrow> put_char p c b;
    b \<leftarrow> put_char (p + 1) NUL b;
    Some (p + 1, b) }"
proof -
  have "unat (v AND 15) = unat v mod 16" "unat (v AND 7) = unat v mod 8"
    using unat_and_mask [of v 4] unat_and_mask [of v 3] by (simp_all add: mask_numeral)
  then show ?thesis using assms by (auto simp: ulltoa.simps [of v] shift_of_def)
qed

lemma ulltoa_writes:
  assumes "r = 16 \<or> r = 8" "16 \<le> length digits" "p + length (radix_digits (unat r) (unat v)) < length b"
  shows "ulltoa v p b r digits = Some (p + length (radix_digits (unat r) (unat v)),
    text_at p b (map ((!) digits) (radix_digits (unat r) (unat v))))"
  using assms(3)
proof (induction "unat v" arbitrary: v rule: less_induct)
  case less
  have r: "2 \<le> unat r" "unat r \<le> length digits" "2 ^ shift_of r = unat r" "0 < unat r"
    using assms(1,2) by (auto simp: shift_of_def)
  have m: "unat v mod unat r < length digits" using r by (simp add: less_le_trans [OF mod_less_divisor])
  then have c: "get_char_at digits (unat v mod unat r) = Some (digits ! (unat v mod unat r))"
    by (simp add: get_char_at_def)
  show ?case
  proof (cases "unat v < unat r")
    case True
    have d: "radix_digits (unat r) (unat v) = [unat v]" using True by (subst radix_digits.simps) simp
    have "drop_bit (shift_of r) v = 0" using True r(3) by (simp add: drop_u64_eq_0)
    then show ?thesis using put_first [of p b "digits ! unat v"] c less(2) True
      by (simp add: ulltoa_eq [OF assms(1), of v] d)
  next
    case False
    let ?ds = "radix_digits (unat r) (unat v div unat r)"
    let ?s = "map ((!) digits) ?ds"
    have d: "radix_digits (unat r) (unat v) = ?ds @ [unat v mod unat r]"
      using False r by (subst radix_digits.simps) simp
    have l: "p + length ?s + 1 < length b" using less(2) by (simp add: d)
    have q: "unat (drop_bit (shift_of r) v) = unat v div unat r" "drop_bit (shift_of r) v \<noteq> 0"
      using False r(3) by (simp_all add: unat_drop_u64 drop_u64_eq_0)
    have "unat v div unat r < unat v" using False r by simp
    then have "ulltoa (drop_bit (shift_of r) v) p b r digits = Some (p + length ?s, text_at p b ?s)"
      using less(1) [of "drop_bit (shift_of r) v"] l q by simp
    then show ?thesis
      using put_next [OF l, of "digits ! (unat v mod unat r)"] c q
      by (simp add: ulltoa_eq [OF assms(1), of v] d)
  qed
qed

lemma strcpy_writes:
  "NUL \<notin> set s \<Longrightarrow> p + length s < length b \<Longrightarrow> strcpy p (s @ NUL # r) b = Some (text_at p b s)"
proof (induction s arbitrary: p b)
  case Nil
  then show ?case by (simp add: put_char_def text_at_def upd_conv_take_nth_drop)
next
  case (Cons c s)
  have "text_at (p + 1) (b[p := c]) s = text_at p b (c # s)"
    using Cons.prems by (simp add: text_at_def take_Suc_conv_app_nth)
  moreover have "c \<noteq> NUL" using Cons.prems by auto
  ultimately show ?case using Cons.prems Cons.IH [of "p + 1" "b[p := c]"] by (simp add: put_char_def)
qed

lemma ulltoa_other:
  assumes "r \<noteq> 16" "r \<noteq> 8" "p + 15 < length b"
  shows "ulltoa v p b r digits = Some (p, text_at p b ''Not implemented'')"
proof -
  have "strcpy p not_implemented b = Some (text_at p b ''Not implemented'')"
    unfolding not_implemented_def using assms(3) by (intro strcpy_writes) simp_all
  then show ?thesis using assms(1,2) by (simp add: ulltoa.simps [of v])
qed

section \<open>Fields\<close>

text \<open>A field of the given width: the text, filled on the left.\<close>

definition field :: "int \<Rightarrow> char \<Rightarrow> string \<Rightarrow> string" where
  "field w pad s = replicate (nat w - length s) pad @ s"

text \<open>The string at a pointer.\<close>

definition cstring :: "char list \<Rightarrow> string option" where
  "cstring s = (if NUL \<in> set s then Some (takeWhile (\<lambda>c. c \<noteq> NUL) s) else None)"

lemma cstring_SomeD: "cstring s = Some t \<Longrightarrow> NUL \<notin> set t \<and> (\<exists>r. s = t @ NUL # r)"
proof -
  assume "cstring s = Some t"
  then have n: "NUL \<in> set s" "t = takeWhile (\<lambda>c. c \<noteq> NUL) s" by (auto simp: cstring_def split: if_splits)
  then have "dropWhile (\<lambda>c. c \<noteq> NUL) s \<noteq> []" by (simp add: dropWhile_eq_Nil_conv)
  then have "dropWhile (\<lambda>c. c \<noteq> NUL) s = NUL # tl (dropWhile (\<lambda>c. c \<noteq> NUL) s)"
    using hd_dropWhile [of "\<lambda>c. c \<noteq> NUL" s] by (cases "dropWhile (\<lambda>c. c \<noteq> NUL) s") auto
  then have "s = t @ NUL # tl (dropWhile (\<lambda>c. c \<noteq> NUL) s)"
    using n(2) takeWhile_dropWhile_id [of "\<lambda>c. c \<noteq> NUL" s] by metis
  moreover have "NUL \<notin> set t" using n(2) by (auto dest: set_takeWhileD)
  ultimately show ?thesis by blast
qed

lemma cstring_text_at [simp]: "NUL \<notin> set s \<Longrightarrow> cstring (text_at 0 b s) = Some s"
  by (auto simp: cstring_def text_at_def takeWhile_append)

lemma width_left_text:
  "NUL \<notin> set s \<Longrightarrow> \<exists>w'. width_left w (s @ NUL # r) = Some w' \<and> nat w' = nat w - length s"
proof (induction s arbitrary: w)
  case (Cons c s)
  show ?case
  proof (cases "0 < w")
    case True
    have "nat w - Suc n = nat (w - 1) - n" for n using True by simp
    then show ?thesis using Cons True by auto
  qed (use Cons.prems in auto)
qed simp

lemma puts_loop_text: "NUL \<notin> set s \<Longrightarrow> puts_loop (s @ NUL # r) out = Some (fold putchar s out)"
  by (induction s arbitrary: out) auto

lemma chrout_text:
  assumes "cstring src = Some s"
  shows "chrout w pad src out = Some (fold putchar (field w pad s) out)"
proof -
  obtain r where s: "src = s @ NUL # r" "NUL \<notin> set s" using cstring_SomeD [OF assms] by blast
  obtain w' where "width_left w src = Some w'" "nat w' = nat w - length s" using width_left_text [OF s(2), of w r] s by auto
  then show ?thesis using puts_loop_text [OF s(2)] s by (simp add: chrout_def field_def fold_append)
qed

text \<open>The buffer with \<open>s\<close> stored at \<open>p\<close>.\<close>

definition stored :: "nat \<Rightarrow> string \<Rightarrow> char list \<Rightarrow> char list" where
  "stored p s b = take p b @ s @ drop (p + length s) b"

lemma length_stored [simp]: "p + length s \<le> length b \<Longrightarrow> length (stored p s b) = length b"
  by (simp add: stored_def)

lemma stored_Nil [simp]: "stored p [] b = b"
  by (simp add: stored_def)

lemma stored_stored: "p + length s + length t \<le> length b \<Longrightarrow> stored (p + length s) t (stored p s b) = stored p (s @ t) b"
  by (simp add: stored_def ac_simps)

lemma stored_Cons: "p + length s < length b \<Longrightarrow> stored (Suc p) s (b[p := c]) = stored p (c # s) b"
  by (simp add: stored_def take_Suc_conv_app_nth)

lemma pad_loop_text: "p + n \<le> length b \<Longrightarrow> pad_loop n c p b = Some (p + n, stored p (replicate n c) b)"
proof (induction n arbitrary: p b)
  case (Suc n)
  then show ?case using Suc.IH [of "Suc p" "b[p := c]"] stored_Cons [of p "replicate n c" b c] by (simp add: put_char_def)
qed simp

lemma pad_loop_overrun: "length b < p + n \<Longrightarrow> p \<le> length b \<Longrightarrow> pad_loop n c p b = None"
  by (induction n arbitrary: p b) (auto simp: put_char_def)

text \<open>What \<open>strout\<close> reports on the UART: one mark for each tab.\<close>

definition tabs :: "string \<Rightarrow> string" where
  "tabs s = concat (map (\<lambda>c. if c = CHR 0x09 then ''[TAB]'' else []) s)"

lemma tabs_simps [simp]: "tabs [] = []" "tabs (c # s) = (if c = CHR 0x09 then ''[TAB]'' @ tabs s else tabs s)"
  "tabs (s @ t) = tabs s @ tabs t"
  by (simp_all add: tabs_def)

lemma copy_loop_text:
  "NUL \<notin> set s \<Longrightarrow> p + length s \<le> length b \<Longrightarrow>
    copy_loop (s @ NUL # r) p b out = Some (p + length s, stored p s b, out @ tabs s)"
proof (induction s arbitrary: p b out)
  case (Cons c s)
  have "c \<noteq> NUL" using Cons.prems by auto
  then show ?case using Cons.prems Cons.IH [of "Suc p" "b[p := c]"] stored_Cons [of p s b c] by (auto simp: put_char_def)
qed simp

lemma copy_loop_overrun:
  "NUL \<notin> set s \<Longrightarrow> length b < p + length s \<Longrightarrow> p \<le> length b \<Longrightarrow> copy_loop (s @ NUL # r) p b out = None"
  by (induction s arbitrary: p b out) (auto simp: put_char_def)

lemma strout_text:
  assumes "cstring src = Some s" "p \<le> length b"
  shows "strout w pad p b src out =
    (if p + length (field w pad s) \<le> length b
     then Some (length (field w pad s), p + length (field w pad s), stored p (field w pad s) b, out @ tabs s) else None)"
proof -
  obtain r where s: "src = s @ NUL # r" "NUL \<notin> set s" using cstring_SomeD [OF assms(1)] by blast
  obtain w' where w: "width_left w src = Some w'" "nat w' = nat w - length s" using width_left_text [OF s(2), of w r] s by auto
  let ?n = "nat w - length s"
  show ?thesis
  proof (cases "p + ?n \<le> length b")
    case True
    then have pl: "pad_loop ?n pad p b = Some (p + ?n, stored p (replicate ?n pad) b)" by (rule pad_loop_text)
    show ?thesis
    proof (cases "p + ?n + length s \<le> length b")
      case T2: True
      then show ?thesis
        using w pl copy_loop_text [OF s(2), of "p + ?n" "stored p (replicate ?n pad) b" r out] True
          stored_stored [of p "replicate ?n pad" s b]
        by (simp add: strout_def field_def s(1) add.assoc)
    next
      case F2: False
      then show ?thesis
        using w pl copy_loop_overrun [OF s(2), of "stored p (replicate ?n pad) b" "p + ?n" r out] True
        by (simp add: strout_def field_def s(1) add.assoc)
    qed
  next
    case False
    then show ?thesis using w pad_loop_overrun [of b p ?n pad] assms(2) by (simp add: strout_def field_def)
  qed
qed

section \<open>The text of a conversion\<close>

definition digit_text :: "char list \<Rightarrow> nat \<Rightarrow> nat \<Rightarrow> string" where
  "digit_text digits r n = map ((!) digits) (radix_digits r n)"

definition unsigned_text :: "nat \<Rightarrow> u32 \<Rightarrow> char list \<Rightarrow> arg list \<Rightarrow> (string \<times> arg list) option" where
  "unsigned_text type r digits ap =
     (if type = 2 then do { (v, ap) \<leftarrow> arg64 ap;
        Some (if r = 16 \<or> r = 8 then digit_text digits (unat r) (unat v) else ''Not implemented'', ap) }
      else do { (v, ap) \<leftarrow> arg32 ap; Some (digit_text digits (unat r) (unat v), ap) })"

definition minus_sign :: "bool \<Rightarrow> string" where
  "minus_sign neg = (if neg then ''-'' else [])"

definition printf_signed_text :: "nat \<Rightarrow> arg list \<Rightarrow> (string \<times> arg list) option" where
  "printf_signed_text type ap =
     (if type = 2 then do { (v, ap) \<leftarrow> arg64 ap; Some (minus_sign (v <s 0) @ ''Not implemented'', ap) }
      else do { (v, ap) \<leftarrow> arg32 ap;
        Some (minus_sign (v <s 0) @ digit_text lower_digits 10 (unat (if v <s 0 then - v else v)), ap) })"

definition vsn_signed_text :: "nat \<Rightarrow> arg list \<Rightarrow> (string \<times> arg list) option" where
  "vsn_signed_text type ap =
     (if type = 2 then do { (v, ap) \<leftarrow> arg64 ap; Some (minus_sign (v <s 0) @ ''Not implemented'', ap) }
      else do { (v, ap) \<leftarrow> arg32 ap; Some (minus_sign ((scast v :: u64) <s 0) @ ''Not implemented'', ap) })"

lemma length_digit_tables: "length lower_digits = 37" "length upper_digits = 37"
  by (simp_all add: lower_digits_def upper_digits_def)

lemma digit_not_NUL: "d < 36 \<Longrightarrow> lower_digits ! d \<noteq> NUL \<and> upper_digits ! d \<noteq> NUL"
proof -
  assume d: "d < 36"
  have l: "\<forall>c \<in> set (butlast lower_digits). c \<noteq> NUL" "\<forall>c \<in> set (butlast upper_digits). c \<noteq> NUL"
    by (simp_all add: lower_digits_def upper_digits_def)
  have "lower_digits ! d \<in> set (butlast lower_digits)" "upper_digits ! d \<in> set (butlast upper_digits)"
    using d length_digit_tables by (metis diff_Suc_1 eval_nat_numeral(3) length_butlast nth_butlast nth_mem)+
  with l show ?thesis by blast
qed

lemma digit_text_no_NUL:
  assumes "digits = lower_digits \<or> digits = upper_digits" "2 \<le> r" "r \<le> 36"
  shows "NUL \<notin> set (digit_text digits r n)"
proof
  assume "NUL \<in> set (digit_text digits r n)"
  then obtain d where "d \<in> set (radix_digits r n)" "digits ! d = NUL" by (auto simp: digit_text_def)
  with radix_digits_less [OF assms(2)] digit_not_NUL [of d] assms(1,3) show False by fastforce
qed

lemma digit_text_length:
  "8 \<le> r \<Longrightarrow> n < 8 ^ Suc k \<Longrightarrow> length (digit_text digits r n) \<le> Suc k"
  using radix_digits_length [of r n k] power_mono [of 8 r "Suc k"] by (auto simp: digit_text_def)

lemma radix_of_cases:
  assumes "radix_of ch = Some (r, digits)"
  shows "(r = 8 \<or> r = 10 \<or> r = 16) \<and> (digits = lower_digits \<or> digits = upper_digits)"
  using assms by (auto simp: radix_of_def split: if_splits)

lemma unsigned_conv_text:
  assumes "radix_of ch = Some (r, digits)" "40 \<le> length temp"
  shows "unsigned_conv type r digits temp ap =
    (case unsigned_text type r digits ap of None \<Rightarrow> None | Some (s, ap') \<Rightarrow> Some (text_at 0 temp s, ap')) \<and>
    (\<forall>s ap'. unsigned_text type r digits ap = Some (s, ap') \<longrightarrow> NUL \<notin> set s \<and> length s < 40)"
proof -
  have r: "r = 8 \<or> r = 10 \<or> r = 16" "digits = lower_digits \<or> digits = upper_digits" using radix_of_cases [OF assms(1)] by simp_all
  have u: "unat r = 8 \<or> unat r = 10 \<or> unat r = 16" using r(1) by auto
  have l: "length digits = 37" using r(2) length_digit_tables by auto
  have n: "NUL \<notin> set (digit_text digits (unat r) k)" for k using digit_text_no_NUL [OF r(2), of "unat r" k] u by auto
  have l32: "length (digit_text digits (unat r) (unat v)) < 40" for v :: u32
    using digit_text_length [of "unat r" "unat v" 10 digits] u unat_u32_lt [of v] by auto
  have l64: "length (digit_text digits (unat r) (unat v)) < 40" for v :: u64
    using digit_text_length [of "unat r" "unat v" 21 digits] u unat_less_size [of v] by auto
  have c32: "ultoa v 0 temp r digits = Some (length (digit_text digits (unat r) (unat v)), text_at 0 temp (digit_text digits (unat r) (unat v)))" for v
    using ultoa_writes [of r digits 0 v temp] u l l32 [of v] assms(2) by (auto simp: digit_text_def)
  have c64: "ulltoa v 0 temp r digits = Some (length (digit_text digits (unat r) (unat v)), text_at 0 temp (digit_text digits (unat r) (unat v)))"
    if "r = 16 \<or> r = 8" for v
    using ulltoa_writes [OF that, of digits 0 v temp] l l64 [of v] assms(2) by (auto simp: digit_text_def)
  have cni: "ulltoa v 0 temp r digits = Some (0, text_at 0 temp ''Not implemented'')" if "r \<noteq> 16" "r \<noteq> 8" for v
    using ulltoa_other [OF that] assms(2) by simp
  show ?thesis
    using n l32 l64 c32 c64 cni
    by (auto simp: unsigned_conv_def unsigned_text_def split: bind_splits option.splits)
qed

lemma text_at_put_first:
  "0 < length b \<Longrightarrow> text_at 1 (b[0 := c]) s = text_at 0 b (c # s)"
  by (cases b) (simp_all add: text_at_def)

lemma ltoa_text:
  assumes "40 \<le> length b"
  shows "ltoa v b 10 = Some (text_at 0 b (minus_sign (v <s 0) @ digit_text lower_digits 10 (unat (if v <s 0 then - v else v))))"
proof -
  have l: "length (digit_text lower_digits 10 (unat w)) < 39" for w :: u32
    using digit_text_length [of 10 "unat w" 10 lower_digits] unat_u32_lt [of w] by auto
  have w: "ultoa w p c 10 lower_digits = Some (p + length (digit_text lower_digits 10 (unat w)), text_at p c (digit_text lower_digits 10 (unat w)))"
    if "p \<le> 1" "length c = length b" for w p c
    using ultoa_writes [of 10 lower_digits p w c] that l [of w] assms length_digit_tables by (simp add: digit_text_def)
  show ?thesis
    using w [of 0 b v] w [of 1 "b[0 := CHR ''-'']" "- v"] text_at_put_first [of b "CHR ''-''"] assms
    by (auto simp: ltoa_def minus_sign_def put_char_def)
qed

lemma lltoa_text:
  assumes "40 \<le> length b"
  shows "lltoa v b 10 = Some (text_at 0 b (minus_sign (v <s 0) @ ''Not implemented''))"
  using ulltoa_other [of 10 1 "b[0 := CHR ''-'']" "- v" lower_digits] ulltoa_other [of 10 0 b v lower_digits]
    text_at_put_first [of b "CHR ''-''"] assms
  by (auto simp: lltoa_def minus_sign_def put_char_def)

definition conv_spec :: "(nat \<Rightarrow> char list \<Rightarrow> arg list \<Rightarrow> (char list \<times> arg list) option) \<Rightarrow>
    (nat \<Rightarrow> arg list \<Rightarrow> (string \<times> arg list) option) \<Rightarrow> bool" where
  "conv_spec conv txt \<longleftrightarrow> (\<forall>type temp ap. 40 \<le> length temp \<longrightarrow>
     conv type temp ap = (case txt type ap of None \<Rightarrow> None | Some (s, ap') \<Rightarrow> Some (text_at 0 temp s, ap')) \<and>
     (\<forall>s ap'. txt type ap = Some (s, ap') \<longrightarrow> NUL \<notin> set s \<and> length s < 40))"

lemma conv_specD:
  assumes "conv_spec conv txt" "40 \<le> length temp"
  shows "conv type temp ap = (case txt type ap of None \<Rightarrow> None | Some (s, ap') \<Rightarrow> Some (text_at 0 temp s, ap'))"
    "txt type ap = Some (s, ap') \<Longrightarrow> NUL \<notin> set s \<and> length s < 40"
  using assms unfolding conv_spec_def by blast+

lemma signed_text_bounds:
  "NUL \<notin> set (minus_sign neg @ digit_text lower_digits 10 (unat (w :: u32)))"
  "length (minus_sign neg @ digit_text lower_digits 10 (unat (w :: u32))) < 40"
  "NUL \<notin> set (minus_sign neg @ ''Not implemented'')" "length (minus_sign neg @ ''Not implemented'') < 40"
  using digit_text_no_NUL [of lower_digits 10 "unat w"] digit_text_length [of 10 "unat w" 10 lower_digits] unat_u32_lt [of w]
  by (auto simp: minus_sign_def)

lemma printf_signed_spec: "conv_spec printf_signed printf_signed_text"
  using signed_text_bounds
  by (auto simp: conv_spec_def printf_signed_def printf_signed_text_def ltoa_text lltoa_text split: bind_splits option.splits)

lemma vsn_signed_spec: "conv_spec vsn_signed vsn_signed_text"
  using signed_text_bounds
  by (auto simp: conv_spec_def vsn_signed_def vsn_signed_text_def lltoa_text split: bind_splits option.splits)

section \<open>The text of a format\<close>

text \<open>What a conversion prints, with the marks that \<open>strout\<close> sends to the UART.\<close>

definition conv_text :: "(nat \<Rightarrow> arg list \<Rightarrow> (string \<times> arg list) option) \<Rightarrow> char \<Rightarrow> spec \<Rightarrow> arg list \<Rightarrow>
    (string \<times> string \<times> arg list) option" where
  "conv_text sgd ch sp ap =
     (let w = sint (sp_width sp); pad = sp_padchar sp
      in case radix_of ch of
           Some (r, digits) \<Rightarrow> do { (s, ap) \<leftarrow> unsigned_text (sp_type sp) r digits ap; Some (field w pad s, tabs s, ap) }
         | None \<Rightarrow>
             if ch = CHR ''d'' then do { (s, ap) \<leftarrow> sgd (sp_type sp) ap; Some (field w pad s, tabs s, ap) }
             else if ch = CHR ''c'' then do { (v, ap) \<leftarrow> arg32 ap; Some ([char_of (unat v)], [], ap) }
             else if ch = CHR ''s'' then do {
               (s, ap) \<leftarrow> arg_str ap; s \<leftarrow> cstring s; Some (field w NUL s, tabs s, ap) }
             else if ch = CHR ''%'' then Some ([ch], [], ap)
             else Some ([], [], ap))"

text \<open>
  The text of a format: whether the format was read to its end, the text, and the marks on the UART.
\<close>

partial_function (option) text_of :: "(nat \<Rightarrow> arg list \<Rightarrow> (string \<times> arg list) option) \<Rightarrow> char list \<Rightarrow> arg list \<Rightarrow>
    (bool \<times> string \<times> string) option" where
  "text_of sgd fmt ap = do {
     (ch, fmt) \<leftarrow> next_char fmt;
     (if ch = NUL then Some (True, [], [])
      else if ch \<noteq> CHR ''%'' then do { (full, t, m) \<leftarrow> text_of sgd fmt ap; Some (full, ch # t, m) }
      else do {
        (ch, sp, fmt) \<leftarrow> parse_spec fmt;
        (if ch = NUL then Some (False, [], [])
         else do {
           (s, m, ap) \<leftarrow> conv_text sgd ch sp ap;
           (full, t, m') \<leftarrow> text_of sgd fmt ap;
           Some (full, s @ t, m @ m') }) }) }"


lemma number_loop_shorter: "number_loop n ch s = Some (k, c, r) \<Longrightarrow> length r \<le> length s"
  by (induction n ch s rule: number_loop.induct) (auto split: if_splits)

lemma next_char_shorter: "next_char s = Some (c, r) \<Longrightarrow> length r < length s"
  by (cases s) auto

lemma parse_spec_shorter: "parse_spec fmt = Some (ch, sp, r) \<Longrightarrow> length r < length fmt"
  by (auto simp: parse_spec_def split: bind_splits if_splits dest!: number_loop_shorter next_char_shorter)

lemma chrout_none: "cstring src = None \<Longrightarrow> chrout w pad src out = None"
proof -
  assume "cstring src = None"
  then have "NUL \<notin> set src" by (simp add: cstring_def split: if_splits)
  then have "puts_loop src o' = None" for o' by (induction src arbitrary: o') auto
  then show ?thesis by (simp add: chrout_def split: bind_splits)
qed

lemma radix_of_other [simp]: "radix_of CHR ''d'' = None" "radix_of CHR ''c'' = None" "radix_of CHR ''s'' = None" "radix_of CHR ''%'' = None"
  by (simp_all add: radix_of_def)

lemma printf_conv_text:
  assumes "40 \<le> length temp"
  shows "case conv_text printf_signed_text ch sp ap of
      None \<Rightarrow> printf_conv ch sp temp ap out = None
    | Some (s, m, ap') \<Rightarrow> \<exists>temp'. printf_conv ch sp temp ap out = Some (temp', ap', fold putchar s out) \<and> 40 \<le> length temp'"
proof (cases "radix_of ch")
  case (Some rd)
  obtain r digits where rd: "radix_of ch = Some (r, digits)" using Some by (cases rd) auto
  show ?thesis using unsigned_conv_text [OF rd assms, of "sp_type sp" ap] assms
    by (auto simp: printf_conv_def conv_text_def Let_def rd chrout_text split: bind_splits option.splits)
next
  case None
  note s = conv_specD [OF printf_signed_spec assms, of "sp_type sp" ap]
  have c: "chrout w pad src out = (case cstring src of None \<Rightarrow> None | Some s \<Rightarrow> Some (fold putchar (field w pad s) out))"
    for w pad src
    using chrout_text [of src _ w pad out] chrout_none [of src w pad out] by (auto split: option.split)
  show ?thesis
  proof (cases "ch = CHR ''d''")
    case True
    show ?thesis
    proof (cases "printf_signed_text (sp_type sp) ap")
      case N: None
      then show ?thesis using s(1) True by (simp add: printf_conv_def conv_text_def Let_def)
    next
      case (Some y)
      obtain t ap' where y: "printf_signed_text (sp_type sp) ap = Some (t, ap')" using Some by (cases y) auto
      then show ?thesis using s(1) s(2) [OF y] True assms
        by (simp add: printf_conv_def conv_text_def Let_def chrout_text)
    qed
  next
    case nd: False
    show ?thesis
    proof (cases "ch = CHR ''s''")
      case True
      then show ?thesis using assms
        by (simp add: printf_conv_def conv_text_def Let_def c split: bind_split option.split)
    next
      case False
      then show ?thesis using assms nd
        by (simp add: printf_conv_def conv_text_def Let_def None split: bind_split option.split)
    qed
  qed
qed

lemma printf_loop_text:
  "40 \<le> length temp \<Longrightarrow>
    printf_loop fmt temp ap out = (case text_of printf_signed_text fmt ap of
      None \<Rightarrow> None | Some (full, t, m) \<Rightarrow> Some (0, fold putchar t out))"
proof (induction "length fmt" arbitrary: fmt temp ap out rule: less_induct)
  case less
  note unf = printf_loop.simps [of fmt temp ap out] text_of.simps [of printf_signed_text fmt ap]
  show ?case
  proof (cases "next_char fmt")
    case None
    then show ?thesis by (simp add: unf)
  next
    case (Some cr)
    obtain c r where n: "next_char fmt = Some (c, r)" using Some by (cases cr) auto
    consider "c = NUL" | "c \<noteq> NUL" "c \<noteq> CHR ''%''" | "c = CHR ''%''" by blast
    then show ?thesis
    proof cases
      case 2
      then show ?thesis using less.hyps [OF next_char_shorter [OF n] less.prems, of ap "putchar c out"]
        by (simp add: unf n split: option.split)
    next
      case 3
      show ?thesis
      proof (cases "parse_spec r")
        case (Some x)
        obtain ch sp r' where p: "parse_spec r = Some (ch, sp, r')" using Some by (cases x) auto
        have l: "length r' < length fmt" using next_char_shorter [OF n] parse_spec_shorter [OF p] by simp
        show ?thesis
        proof (cases "ch = NUL")
          case False
          show ?thesis
          proof (cases "conv_text printf_signed_text ch sp ap")
            case None
            then show ?thesis using printf_conv_text [OF less.prems, of ch sp ap out] 3 False by (simp add: unf n p)
          next
            case (Some y)
            obtain s m ap' where y: "conv_text printf_signed_text ch sp ap = Some (s, m, ap')" using Some by (cases y) auto
            obtain temp' where t: "printf_conv ch sp temp ap out = Some (temp', ap', fold putchar s out)" "40 \<le> length temp'"
              using printf_conv_text [OF less.prems, of ch sp ap out] y by auto
            show ?thesis using less.hyps [OF l t(2), of ap' "fold putchar s out"] t(1) y 3 False
              by (simp add: unf n p fold_append split: option.split)
          qed
        qed (use 3 in \<open>simp add: unf n p\<close>)
      qed (use 3 in \<open>simp add: unf n\<close>)
    qed (simp add: unf n)
  qed
qed

lemma strout_none: "cstring src = None \<Longrightarrow> strout w pad p b src out = None"
proof -
  assume "cstring src = None"
  then have "NUL \<notin> set src" by (simp add: cstring_def split: if_splits)
  then have "copy_loop src p' b' out = None" for p' b' by (induction src arbitrary: p' b' out) (auto split: bind_split)
  then show ?thesis by (simp add: strout_def split: bind_split)
qed

text \<open>Storing a text: the new state, or nothing when it does not fit.\<close>

definition vsn_put :: "string \<Rightarrow> string \<Rightarrow> vsn \<Rightarrow> vsn option" where
  "vsn_put s m st = (let (p, b, ret, out) = st
     in if p + length s \<le> length b then Some (p + length s, stored p s b, ret + int (length s), out @ m) else None)"

lemma vsn_strout_text:
  "p \<le> length b \<Longrightarrow> vsn_strout sp pad src (p, b, ret, out) =
    (case cstring src of None \<Rightarrow> None | Some s \<Rightarrow> vsn_put (field (sint (sp_width sp)) pad s) (tabs s) (p, b, ret, out))"
  using strout_text [of src _ p b] strout_none [of src]
  by (auto simp: vsn_strout_def vsn_put_def split: option.split)

lemma vsn_char_text: "vsn_char c (p, b, ret, out) = vsn_put [c] [] (p, b, ret, out)"
  by (auto simp: vsn_char_def vsn_put_def put_char_def stored_def upd_conv_take_nth_drop)

lemma vsn_conv_text:
  assumes "40 \<le> length temp" "p \<le> length b"
  shows "case conv_text vsn_signed_text ch sp ap of
      None \<Rightarrow> vsn_conv ch sp temp ap (p, b, ret, out) = None
    | Some (s, m, ap') \<Rightarrow>
        (case vsn_put s m (p, b, ret, out) of None \<Rightarrow> vsn_conv ch sp temp ap (p, b, ret, out) = None
         | Some st \<Rightarrow> \<exists>temp'. vsn_conv ch sp temp ap (p, b, ret, out) = Some (temp', ap', st) \<and> 40 \<le> length temp')"
proof (cases "radix_of ch")
  case (Some rd)
  obtain r digits where rd: "radix_of ch = Some (r, digits)" using Some by (cases rd) auto
  show ?thesis
  proof (cases "unsigned_text (sp_type sp) r digits ap")
    case None
    then show ?thesis using unsigned_conv_text [OF rd assms(1), of "sp_type sp" ap]
      by (simp add: vsn_conv_def conv_text_def Let_def rd)
  next
    case (Some y)
    obtain t ap' where y: "unsigned_text (sp_type sp) r digits ap = Some (t, ap')" using Some by (cases y) auto
    then show ?thesis using unsigned_conv_text [OF rd assms(1), of "sp_type sp" ap] assms
      by (simp add: vsn_conv_def conv_text_def Let_def rd vsn_strout_text split: option.split)
  qed
next
  case None
  note s = conv_specD [OF vsn_signed_spec assms(1), of "sp_type sp" ap]
  show ?thesis
  proof (cases "ch = CHR ''d''")
    case True
    show ?thesis
    proof (cases "vsn_signed_text (sp_type sp) ap")
      case N: None
      then show ?thesis using s(1) True by (simp add: vsn_conv_def conv_text_def Let_def)
    next
      case (Some y)
      obtain t ap' where y: "vsn_signed_text (sp_type sp) ap = Some (t, ap')" using Some by (cases y) auto
      then show ?thesis using s(1) s(2) [OF y] True assms
        by (simp add: vsn_conv_def conv_text_def Let_def vsn_strout_text split: option.split)
    qed
  next
    case nd: False
    show ?thesis
    proof (cases "ch = CHR ''s''")
      case True
      then show ?thesis using assms
        by (simp add: vsn_conv_def conv_text_def Let_def vsn_strout_text split: bind_split option.split)
    next
      case False
      then show ?thesis using assms nd
        by (simp add: vsn_conv_def conv_text_def Let_def None vsn_char_text vsn_put_def [of "[]"] split: bind_split option.split)
    qed
  qed
qed

text \<open>The end of \<open>vsnprintf\<close>: the terminating zero, unless the format was cut off.\<close>

definition vsn_result :: "bool \<Rightarrow> string \<Rightarrow> string \<Rightarrow> vsn \<Rightarrow> (int \<times> char list \<times> string) option" where
  "vsn_result full t m st = (let (p, b, ret, out) = st; u = (if full then t @ [NUL] else t)
     in if p + length u \<le> length b then Some (ret + int (length t), stored p u b, out @ m) else None)"

lemma vsn_result_put:
  assumes "vsn_put s m (p, b, ret, out) = Some st"
  shows "vsn_result full t m' st = vsn_result full (s @ t) (m @ m') (p, b, ret, out)"
  using assms stored_stored [of p s "if full then t @ [NUL] else t" b]
  by (auto simp: vsn_put_def vsn_result_def add.assoc split: if_splits)

lemma vsn_result_none:
  "vsn_put s m (p, b, ret, out) = None \<Longrightarrow> vsn_result full (s @ t) m' (p, b, ret, out) = None"
  by (auto simp: vsn_put_def vsn_result_def split: if_splits)

lemma vsn_put_bound: "vsn_put s m (p, b, ret, out) = Some (p', b', ret', out') \<Longrightarrow> p' \<le> length b'"
  by (auto simp: vsn_put_def split: if_splits)

lemma vsn_loop_text:
  "40 \<le> length temp \<Longrightarrow> fst st \<le> length (fst (snd st)) \<Longrightarrow>
    vsn_loop fmt temp ap st = (case text_of vsn_signed_text fmt ap of
      None \<Rightarrow> None | Some (full, t, m) \<Rightarrow> vsn_result full t m st)"
proof (induction "length fmt" arbitrary: fmt temp ap st rule: less_induct)
  case less
  obtain p b ret out where st: "st = (p, b, ret, out)" by (cases st) auto
  have pb: "p \<le> length b" using less.prems st by simp
  note unf = vsn_loop.simps [of fmt temp ap st] text_of.simps [of vsn_signed_text fmt ap]
  show ?case
  proof (cases "next_char fmt")
    case None
    then show ?thesis by (simp add: unf)
  next
    case (Some cr)
    obtain c r where n: "next_char fmt = Some (c, r)" using Some by (cases cr) auto
    have ahead: "vsn_loop fmt' temp' ap' st' = (case text_of vsn_signed_text fmt' ap' of
      None \<Rightarrow> None | Some (full, t, m') \<Rightarrow> vsn_result full (s @ t) (m @ m') st)"
      if "vsn_put s m st = Some st'" "length fmt' < length fmt" "40 \<le> length temp'" for s m st' fmt' temp' ap'
      using less.hyps [OF that(2,3), of st' ap'] vsn_put_bound [of s m p b ret out] vsn_result_put [of s m p b ret out st'] that(1) st
      by (cases st') (auto split: option.split)
    have fail: "None = (case text_of vsn_signed_text fmt' ap' of
      None \<Rightarrow> None | Some (full, t, m') \<Rightarrow> vsn_result full (s @ t) (m @ m') st)" if "vsn_put s m st = None" for s m fmt' ap'
      using vsn_result_none [of s m p b ret out] that st by (auto split: option.split)
    consider "c = NUL" | "c \<noteq> NUL" "c \<noteq> CHR ''%''" | "c = CHR ''%''" by blast
    then show ?thesis
    proof cases
      case 1
      then show ?thesis
        by (simp add: unf(2) vsn_loop.simps [of fmt temp ap "(p, b, ret, out)"] n st vsn_result_def put_char_def stored_def
            upd_conv_take_nth_drop)
    next
      case 2
      have e: "vsn_char c st = vsn_put [c] [] st" using vsn_char_text st by simp
      show ?thesis
      proof (cases "vsn_put [c] [] st")
        case None
        then show ?thesis using fail [OF None, of r ap] 2 by (auto simp: unf n e split: option.splits)
      next
        case (Some st')
        then show ?thesis using ahead [OF Some next_char_shorter [OF n] less.prems(1), of ap] 2
          by (simp add: unf n e split: option.split)
      qed
    next
      case 3
      show ?thesis
      proof (cases "parse_spec r")
        case (Some x)
        obtain ch sp r' where q: "parse_spec r = Some (ch, sp, r')" using Some by (cases x) auto
        have l: "length r' < length fmt" using next_char_shorter [OF n] parse_spec_shorter [OF q] by simp
        show ?thesis
        proof (cases "ch = NUL")
          case True
          then show ?thesis using 3 pb
            by (simp add: unf(2) vsn_loop.simps [of fmt temp ap "(p, b, ret, out)"] n q st vsn_result_def)
        next
          case False
          note conv = vsn_conv_text [OF less.prems(1) pb, of ch sp ap ret out]
          show ?thesis
          proof (cases "conv_text vsn_signed_text ch sp ap")
            case None
            then show ?thesis using conv 3 False
              by (simp add: unf(2) vsn_loop.simps [of fmt temp ap "(p, b, ret, out)"] n q st)
          next
            case (Some y)
            obtain s m ap' where y: "conv_text vsn_signed_text ch sp ap = Some (s, m, ap')" using Some by (cases y) auto
            show ?thesis
            proof (cases "vsn_put s m st")
              case None
              then show ?thesis using fail [OF None, of r' ap'] conv y 3 False
                by (auto simp: unf n q st [symmetric] split: option.splits)
            next
              case (Some st')
              then obtain temp' where t: "vsn_conv ch sp temp ap st = Some (temp', ap', st')" "40 \<le> length temp'"
                using conv y st by auto
              show ?thesis using ahead [OF Some l t(2), of ap'] t(1) y 3 False
                by (simp add: unf n q split: option.split)
            qed
          qed
        qed
      qed (use 3 in \<open>simp add: unf n\<close>)
    qed
  qed
qed

text \<open>The loops are executable.\<close>

declare text_of.simps [code]

end
