(* ===== verification/StdioOps.thy ===== *)
theory StdioOps
  imports StdioText
begin

text \<open>
  What the formatted output promises: numbers can be read back, the 64-bit conversion agrees with the
  32-bit one, \<^verbatim>\<open>printf\<close> and \<^verbatim>\<open>sprintf\<close> produce the same text except for signed decimal
  numbers, and the size given to \<^verbatim>\<open>snprintf\<close> does not bound what is written.
\<close>

section \<open>Reading numbers back\<close>

text \<open>The value of a digit character: its place in the table.\<close>

definition digit_value :: "char \<Rightarrow> nat" where
  "digit_value c = length (takeWhile (\<lambda>x. x \<noteq> c) lower_digits)"

lemma takeWhile_nth_distinct:
  "distinct xs \<Longrightarrow> d < length xs \<Longrightarrow> length (takeWhile (\<lambda>x. x \<noteq> xs ! d) xs) = d"
proof (induction xs arbitrary: d)
  case (Cons x xs)
  then show ?case by (cases d) auto
qed simp

lemma digit_value_nth: "d < 36 \<Longrightarrow> digit_value (lower_digits ! d) = d"
proof -
  assume "d < 36"
  moreover have "distinct lower_digits" by (simp add: lower_digits_def)
  ultimately show ?thesis
    unfolding digit_value_def using length_digit_tables(1) by (intro takeWhile_nth_distinct) simp_all
qed

lemma digit_text_value:
  assumes "2 \<le> r" "r \<le> 36"
  shows "value_of r (map digit_value (digit_text lower_digits r n)) = n"
proof -
  have "map digit_value (digit_text lower_digits r n) = radix_digits r n"
    unfolding digit_text_def map_map
    using less_le_trans [OF radix_digits_less [OF assms(1)] assms(2)] by (intro map_idI) (simp add: digit_value_nth)
  then show ?thesis by (simp add: value_radix_digits)
qed

lemma digit_text_hd:
  assumes "2 \<le> r" "r \<le> 36" "hd (digit_text lower_digits r n) = CHR ''0''"
  shows "n = 0"
proof -
  let ?d = "hd (radix_digits r n)"
  have d: "?d < 36" using radix_digits_less [OF assms(1) hd_in_set [OF radix_digits_nonempty]] assms(2) by (rule less_le_trans)
  have "lower_digits ! ?d = CHR ''0''" using assms(3) by (simp add: digit_text_def hd_map)
  then have "digit_value (CHR ''0'') = ?d" using digit_value_nth [OF d] by simp
  then have "?d = 0" by (simp add: digit_value_def lower_digits_def)
  then show ?thesis by (rule radix_digits_hd [OF assms(1)])
qed

lemma digit_text_length2:
  assumes "2 \<le> r" "n < 2 ^ Suc k"
  shows "length (digit_text digits r n) \<le> Suc k"
  using radix_digits_length [of r n k] power_mono [of 2 r "Suc k"] assms by (simp add: digit_text_def)

text \<open>C34: \<open>ultoa\<close> is right in every radix from 2 to 36: in a buffer with room for 33 characters it writes
  at most 32 digits and the terminating zero, nothing else, and returns the position of that zero; the
  digits read in the radix give the number back, and only zero starts with the digit zero.\<close>

theorem ultoa_roundtrip:
  assumes "2 \<le> unat r" "unat r \<le> 36" "p + 33 \<le> length b"
  shows "\<exists>s. ultoa v p b r lower_digits = Some (p + length s, take p b @ s @ NUL # drop (p + length s + 1) b) \<and>
    1 \<le> length s \<and> length s \<le> 32 \<and> value_of (unat r) (map digit_value s) = unat v \<and> (hd s = CHR ''0'' \<longrightarrow> v = 0)"
proof -
  let ?s = "digit_text lower_digits (unat r) (unat v)"
  have l: "length ?s \<le> 32" "1 \<le> length ?s"
    using digit_text_length2 [OF assms(1), of "unat v" 31] unat_u32_lt [of v]
    by (simp_all add: digit_text_def Suc_leI)
  have "ultoa v p b r lower_digits = Some (p + length ?s, text_at p b ?s)"
    using ultoa_writes [OF assms(1), of lower_digits p v b] l assms(2,3) length_digit_tables by (simp add: digit_text_def)
  then show ?thesis
    using l digit_text_value [OF assms(1,2)] digit_text_hd [OF assms(1,2), of "unat v"]
    by (intro exI [of _ ?s]) (auto simp: text_at_def unat_eq_0)
qed

theorem ultoa_roundtrip_witness:
  "\<exists>s. ultoa 4000000000 0 (replicate 80 NUL) 10 lower_digits = Some (length s, s @ NUL # replicate (79 - length s) NUL) \<and>
     length s \<le> 32 \<and> value_of 10 (map digit_value s) = 4000000000"
proof -
  have "2 \<le> unat (10 :: u32)" "unat (10 :: u32) \<le> 36" "0 + 33 \<le> length (replicate 80 NUL)" by simp_all
  from ultoa_roundtrip [OF this, of 4000000000] show ?thesis by auto
qed

text \<open>C35: the 64-bit conversion, which shifts and masks instead of dividing, agrees with the dividing one on
  every 32-bit number, in the radices it supports; above that its digits still give the number back.\<close>

theorem ulltoa_agrees:
  assumes "r = 8 \<or> r = 16" "p + 33 \<le> length b"
  shows "ulltoa (ucast (v :: u32)) p b r lower_digits = ultoa v p b r lower_digits \<and>
    (\<exists>s. ulltoa w p b r lower_digits = Some (p + length s, take p b @ s @ NUL # drop (p + length s + 1) b) \<and>
      length s \<le> 22 \<and> value_of (unat r) (map digit_value s) = unat w)"
proof -
  have r: "8 \<le> unat r" "unat r \<le> 36" "2 \<le> unat r" "r = 16 \<or> r = 8" using assms(1) by auto
  have u: "unat (ucast v :: u64) = unat v" 
    by (simp add: unsigned_ucast_eq take_bit_eq_mod mod_less [OF less_trans [OF unat_u32_lt]])
  have l: "length (digit_text lower_digits (unat r) (unat w)) \<le> 22" for w :: u64
    using digit_text_length [OF r(1), of "unat w" 21 lower_digits] unat_less_size [of w] by simp
  have n: "16 \<le> length lower_digits" "unat r \<le> length lower_digits" using length_digit_tables r(2) by simp_all
  have U: "ulltoa w p b r lower_digits = Some (p + length (digit_text lower_digits (unat r) (unat w)),
      text_at p b (digit_text lower_digits (unat r) (unat w)))" for w
    using ulltoa_writes [OF r(4) n(1), of p w b] l [of w] assms(2) by (simp add: digit_text_def)
  have "ultoa v p b r lower_digits = Some (p + length (digit_text lower_digits (unat r) (unat v)),
      text_at p b (digit_text lower_digits (unat r) (unat v)))"
    using ultoa_writes [OF r(3) n(2), of p v b] l [of "ucast v"] assms(2) u by (simp add: digit_text_def)
  with U [of "ucast v"] u have "ulltoa (ucast v) p b r lower_digits = ultoa v p b r lower_digits" by simp
  with U [of w] l [of w] digit_text_value [OF r(3,2)] show ?thesis by (auto simp: text_at_def)
qed

theorem ulltoa_agrees_witness:
  "ulltoa 0xFFFFFFFF 0 (replicate 80 NUL) 8 lower_digits = ultoa 0xFFFFFFFF 0 (replicate 80 NUL) 8 lower_digits"
proof -
  have "(8 :: u32) = 8 \<or> (8 :: u32) = 16" "0 + 33 \<le> length (replicate 80 NUL)" by simp_all
  from ulltoa_agrees [OF this, of "0xFFFFFFFF" "0"] show ?thesis by simp
qed

section \<open>printf and sprintf\<close>

text \<open>C37: the size given to \<open>snprintf\<close> bounds nothing. A format with its arguments stands for one text, of
  any length; that text and a zero are written at the pointer whatever size was given, and the call is
  defined exactly when they fit the buffer that is really there.\<close>

theorem snprintf_ignores_size:
  "(\<forall>p buf n out. p \<le> length buf \<longrightarrow> snprintf p buf n fmt ap out = None) \<or>
   (\<exists>t u m. (u = t \<or> u = t @ [NUL]) \<and> (\<forall>p buf n out. p \<le> length buf \<longrightarrow> snprintf p buf n fmt ap out =
      (if p + length u \<le> length buf
       then Some (int (length t), take p buf @ u @ drop (p + length u) buf, out @ m) else None)))"
proof (cases "text_of vsn_signed_text fmt ap")
  case None
  then show ?thesis using vsn_loop_text [where temp = "replicate 80 NUL" and fmt = fmt and ap = ap] by (simp add: snprintf_def vsnprintf_def)
next
  case (Some x)
  obtain full t m where x: "text_of vsn_signed_text fmt ap = Some (full, t, m)" using Some by (cases x) auto
  have "snprintf p buf n fmt ap out = vsn_result full t m (p, buf, 0, out)" if "p \<le> length buf" for p buf n out
    using vsn_loop_text [where temp = "replicate 80 NUL" and st = "(p, buf, 0, out)" and fmt = fmt and ap = ap] that by (simp add: snprintf_def vsnprintf_def x)
  then show ?thesis
    by (intro disjI2 exI [of _ t] exI [of _ "if full then t @ [NUL] else t"] exI [of _ m])
       (simp add: vsn_result_def stored_def)
qed

theorem snprintf_ignores_size_witness:
  "snprintf 0 (replicate 3 NUL) 1 (''ab'' @ [NUL]) [] [] = snprintf 0 (replicate 3 NUL) 100 (''ab'' @ [NUL]) [] []"
  using snprintf_ignores_size [of "''ab'' @ [NUL]" "[]"] by auto

text \<open>A format without signed decimal conversions; the letter \<open>d\<close> may occur as text.\<close>

function no_signed :: "char list \<Rightarrow> bool" where
  "no_signed fmt =
     (case next_char fmt of
        None \<Rightarrow> True
      | Some (c, r) \<Rightarrow>
          c = NUL \<or>
          (if c \<noteq> CHR ''%'' then no_signed r
           else case parse_spec r of
             None \<Rightarrow> True
           | Some (ch, sp, r) \<Rightarrow> ch = NUL \<or> ch \<noteq> CHR ''d'' \<and> no_signed r))"
  by pat_completeness auto

termination
  by (relation "measure length") (auto dest!: next_char_shorter parse_spec_shorter)

declare no_signed.simps [simp del]

lemma text_of_unsigned:
  "no_signed fmt \<Longrightarrow> text_of f fmt ap = text_of g fmt ap"
proof (induction "length fmt" arbitrary: fmt ap rule: less_induct)
  case less
  note unf = text_of.simps [of f fmt ap] text_of.simps [of g fmt ap]
  show ?case
  proof (cases "next_char fmt")
    case (Some cr)
    obtain c r where n: "next_char fmt = Some (c, r)" using Some by (cases cr) auto
    have d: "length r < length fmt" by (rule next_char_shorter [OF n])
    note ns = less.prems [unfolded no_signed.simps [of fmt] n]
    show ?thesis
    proof (cases "c = CHR ''%''")
      case True
      show ?thesis
      proof (cases "parse_spec r")
        case (Some x)
        obtain ch sp r' where q: "parse_spec r = Some (ch, sp, r')" using Some by (cases x) auto
        have ch: "ch = NUL \<or> ch \<noteq> CHR ''d'' \<and> no_signed r'" "length r' < length fmt"
          using ns True q d parse_spec_shorter [OF q] by auto
        have "ch \<noteq> CHR ''d'' \<Longrightarrow> conv_text f ch sp ap = conv_text g ch sp ap" by (simp add: conv_text_def Let_def cong: if_cong)
        then show ?thesis using less.hyps [OF ch(2)] ch(1) True by (auto simp: unf n q)
      qed (use True in \<open>simp add: unf n\<close>)
    next
      case False
      then show ?thesis using ns less.hyps [OF d] by (auto simp: unf n)
    qed
  qed (simp add: unf)
qed

text \<open>C36: apart from signed decimal numbers \<open>printf\<close> and \<open>sprintf\<close> are the same: when \<open>sprintf\<close> is
  defined and the format has no conversion \<^verbatim>\<open>%d\<close> (\<open>no_signed\<close>), the characters that it stores, as many as it returns, are those
  that \<open>printf\<close> sends to the UART for the same format and arguments, with every newline expanded.\<close>

theorem printf_prints_sprintf:
  assumes "sprintf p buf fmt ap out = Some (ret, buf', out')" "no_signed fmt" "p \<le> length buf"
  shows "\<exists>t. ret = int (length t) \<and> take (length t) (drop p buf') = t \<and> take p buf' = take p buf \<and>
    printf fmt ap u = Some (0, fold putchar t u)"
proof -
  have v: "(case text_of vsn_signed_text fmt ap of None \<Rightarrow> None
      | Some (full, t, m) \<Rightarrow> vsn_result full t m (p, buf, 0, out)) = Some (ret, buf', out')"
    using vsn_loop_text [where temp = "replicate 80 NUL" and st = "(p, buf, 0, out)" and fmt = fmt and ap = ap] assms(1,3)
    by (simp add: sprintf_def vsnprintf_def)
  then obtain full t m where t: "text_of vsn_signed_text fmt ap = Some (full, t, m)"
    and r: "vsn_result full t m (p, buf, 0, out) = Some (ret, buf', out')"
    by (auto split: option.splits)
  have "printf fmt ap u = Some (0, fold putchar t u)"
    using printf_loop_text [where temp = "replicate 128 NUL" and fmt = fmt and ap = ap] t
      text_of_unsigned [OF assms(2), of printf_signed_text ap vsn_signed_text]
    by (simp add: printf_def)
  moreover have "ret = int (length t) \<and> take (length t) (drop p buf') = t \<and> take p buf' = take p buf"
    using r assms(3) by (auto simp: vsn_result_def stored_def split: if_splits)
  ultimately show ?thesis by blast
qed

lemma parse_u: "parse_spec (CHR ''u'' # s) = Some (CHR ''u'', \<lparr>sp_padchar = CHR '' '', sp_width = 0, sp_prec = 0, sp_type = 0, sp_leftFlag = False\<rparr>, s)"
  by (cases s) (simp_all add: parse_spec_def is_digit_def)

lemma parse_d: "parse_spec (CHR ''d'' # s) = Some (CHR ''d'', \<lparr>sp_padchar = CHR '' '', sp_width = 0, sp_prec = 0, sp_type = 0, sp_leftFlag = False\<rparr>, s)"
  by (cases s) (simp_all add: parse_spec_def is_digit_def)

lemma text_of_end [simp]: "text_of f [NUL] ap = Some (True, [], [])"
  by (subst text_of.simps) simp

lemma text_of_u: "text_of f (''%u'' @ [NUL]) [A32 v] = Some (True, digit_text lower_digits 10 (unat v), tabs (digit_text lower_digits 10 (unat v)))"
  by (subst text_of.simps) (simp add: parse_u conv_text_def Let_def radix_of_def unsigned_text_def arg32_def field_def)

lemma text_of_du: "text_of f (''d%u'' @ [NUL]) [A32 v] =
    Some (True, CHR ''d'' # digit_text lower_digits 10 (unat v), tabs (CHR ''d'' # digit_text lower_digits 10 (unat v)))"
  using text_of_u [of f v] by (subst text_of.simps) (simp add: tabs_def)

theorem printf_prints_sprintf_witness:
  "\<exists>t. printf (''d%u'' @ [NUL]) [A32 4294967295] [] = Some (0, fold putchar t [])"
proof -
  let ?t = "digit_text lower_digits 10 4294967295"
  have l: "length ?t \<le> 11" using digit_text_length [of 10 4294967295 10 lower_digits] by simp
  have ns: "no_signed (''d%u'' @ [NUL])" by (simp add: no_signed.simps parse_u)
  obtain ret buf' out' where "sprintf 0 (replicate 40 NUL) (''d%u'' @ [NUL]) [A32 4294967295] [] = Some (ret, buf', out')"
    using vsn_loop_text [where temp = "replicate 80 NUL" and st = "(0, replicate 40 NUL, 0, [])" and fmt = "''d%u'' @ [NUL]"
        and ap = "[A32 4294967295]"] text_of_du [of vsn_signed_text 4294967295] l
    by (simp add: sprintf_def vsnprintf_def vsn_result_def)
  from printf_prints_sprintf [OF this ns, of "[]"] show ?thesis by auto
qed

lemma scast_negative: "(scast (v :: u32) :: u64) <s 0 \<longleftrightarrow> v <s 0"
  by (simp add: word_sless_alt sint_up_scast is_up)

lemma text_of_d: "text_of f (''%d'' @ [NUL]) [A32 v] = (case f 0 [A32 v] of None \<Rightarrow> None | Some (s, ap) \<Rightarrow> Some (True, s, tabs s))"
  by (subst text_of.simps) (simp add: parse_d conv_text_def Let_def field_def split: option.split)

lemma dropWhile_minus: "dropWhile (\<lambda>c. c = CHR ''-'') (minus_sign neg @ digit_text lower_digits 10 n) = digit_text lower_digits 10 n"
proof -
  let ?t = "digit_text lower_digits 10 n"
  have "CHR ''-'' \<notin> set ?t"
  proof
    assume "CHR ''-'' \<in> set ?t"
    then obtain d where "d \<in> set (radix_digits 10 n)" "lower_digits ! d = CHR ''-''" by (auto simp: digit_text_def)
    then have "d < 10" "lower_digits ! d = CHR ''-''" using radix_digits_less [of 10 d n] by simp_all
    moreover have "\<forall>c \<in> set lower_digits. c \<noteq> CHR ''-''" by (simp add: lower_digits_def)
    ultimately show False using length_digit_tables(1) nth_mem [of d lower_digits] by fastforce
  qed
  then have "dropWhile (\<lambda>c. c = CHR ''-'') ?t = ?t" by (cases ?t) auto
  then show ?thesis by (simp add: minus_sign_def)
qed

text \<open>\<open>snprintf\<close> cannot print signed decimal numbers: for every 32-bit value \<open>%d\<close> stores the words
  "Not implemented", behind a minus sign when the value is negative, where \<open>printf\<close> prints the number.\<close>

theorem snprintf_decimal_not_implemented:
  assumes "17 \<le> length buf"
  shows "\<exists>s buf'. s = (if v <s 0 then ''-Not implemented'' else ''Not implemented'') \<and>
    snprintf 0 buf n (''%d'' @ [NUL]) [A32 v] out = Some (int (length s), s @ NUL # drop (length s + 1) buf, out) \<and>
    (\<exists>t. printf (''%d'' @ [NUL]) [A32 v] u = Some (0, fold putchar t u) \<and>
      value_of 10 (map digit_value (dropWhile (\<lambda>c. c = CHR ''-'') t)) = unat (if v <s 0 then - v else v))"
proof -
  let ?s = "minus_sign (v <s 0) @ ''Not implemented''"
  let ?t = "minus_sign (v <s 0) @ digit_text lower_digits 10 (unat (if v <s 0 then - v else v))"
  have "text_of vsn_signed_text (''%d'' @ [NUL]) [A32 v] = Some (True, ?s, [])"
    by (simp only: text_of_d) (simp add: vsn_signed_text_def arg32_def scast_negative minus_sign_def)
  then have "snprintf 0 buf n (''%d'' @ [NUL]) [A32 v] out = Some (int (length ?s), ?s @ NUL # drop (length ?s + 1) buf, out)"
    using vsn_loop_text [where temp = "replicate 80 NUL" and st = "(0, buf, 0, out)" and fmt = "''%d'' @ [NUL]" and ap = "[A32 v]"] assms
    by (simp add: snprintf_def vsnprintf_def vsn_result_def stored_def minus_sign_def)
  moreover have "?s = (if v <s 0 then ''-Not implemented'' else ''Not implemented'')" by (simp add: minus_sign_def)
  moreover have "text_of printf_signed_text (''%d'' @ [NUL]) [A32 v] = Some (True, ?t, tabs ?t)"
    by (simp only: text_of_d) (simp add: printf_signed_text_def arg32_def)
  then have "printf (''%d'' @ [NUL]) [A32 v] u = Some (0, fold putchar ?t u)"
    using printf_loop_text [where temp = "replicate 128 NUL" and fmt = "''%d'' @ [NUL]" and ap = "[A32 v]"]
    by (simp add: printf_def)
  moreover have "value_of 10 (map digit_value (dropWhile (\<lambda>c. c = CHR ''-'') ?t)) = unat (if v <s 0 then - v else v)"
    using digit_text_value [of 10 "unat (if v <s 0 then - v else v)"] by (simp only: dropWhile_minus)
  ultimately show ?thesis by blast
qed

theorem snprintf_decimal_not_implemented_witness:
  "\<exists>t. printf (''%d'' @ [NUL]) [A32 (- 5)] [] = Some (0, fold putchar t []) \<and>
     value_of 10 (map digit_value (dropWhile (\<lambda>c. c = CHR ''-'') t)) = 5"
proof -
  have "17 \<le> length (replicate 20 NUL)" by simp
  from snprintf_decimal_not_implemented [OF this, of "- 5" 20 "[]" "[]"] show ?thesis by (auto simp: word_sless_alt)
qed

end
