(* ===== verification/Dasm.thy ===== *)
theory Dasm
  imports StdioOps
begin

text \<open>
  The disassembler of \<^verbatim>\<open>dasm.cpp\<close>: a 36-bit instruction is printed with \<^verbatim>\<open>sprintf\<close>
  into a static buffer of 32 characters, first its fields in octal, then the mnemonic from a table of
  512 entries and the operands.
\<close>

section \<open>Fields of an instruction\<close>

definition insn_op :: "u64 \<Rightarrow> u32" where "insn_op insn = ucast (drop_bit 27 insn AND 0x1FF)"
definition insn_ac :: "u64 \<Rightarrow> u32" where "insn_ac insn = ucast (drop_bit 23 insn AND 0xF)"
definition insn_in :: "u64 \<Rightarrow> u32" where "insn_in insn = ucast (drop_bit 22 insn AND 1)"
definition insn_xr :: "u64 \<Rightarrow> u32" where "insn_xr insn = ucast (drop_bit 18 insn AND 0xF)"
definition insn_ea :: "u64 \<Rightarrow> u32" where "insn_ea insn = ucast (insn AND 0x3FFFF)"

section \<open>Printing piece by piece\<close>

text \<open>One \<^verbatim>\<open>len += sprintf(&ptr[len], ...)\<close>: the length so far, the buffer and the UART.\<close>

definition emit :: "string \<Rightarrow> arg list \<Rightarrow> nat \<times> char list \<times> string \<Rightarrow> (nat \<times> char list \<times> string) option" where
  "emit fmt ap st =
     (let (len, buf, out) = st
      in do { (n, buf, out) \<leftarrow> sprintf len buf (fmt @ [NUL]) ap out; Some (len + nat n, buf, out) })"

definition emit_if :: "bool \<Rightarrow> string \<Rightarrow> arg list \<Rightarrow> nat \<times> char list \<times> string \<Rightarrow> (nat \<times> char list \<times> string) option" where
  "emit_if c fmt ap st = (if c then emit fmt ap st else Some st)"

text \<open>The octal fields in front of every line: \<^verbatim>\<open>"%03o %02o %01o %02o %06o\t"\<close>.\<close>

definition emit_fields :: "u64 \<Rightarrow> nat \<times> char list \<times> string \<Rightarrow> (nat \<times> char list \<times> string) option" where
  "emit_fields insn st = emit (''%03o %02o %01o %02o %06o'' @ [CHR 0x09])
     [A32 (insn_op insn), A32 (insn_ac insn), A32 (insn_in insn), A32 (insn_xr insn), A32 (insn_ea insn)] st"

definition emit_name :: "string \<Rightarrow> nat \<times> char list \<times> string \<Rightarrow> (nat \<times> char list \<times> string) option" where
  "emit_name name st = emit (''%s'' @ [CHR 0x09]) [AStr (name @ [NUL])] st"

text \<open>The address of a standard instruction is printed with its sign.\<close>

definition emit_address :: "u32 \<Rightarrow> nat \<times> char list \<times> string \<Rightarrow> (nat \<times> char list \<times> string) option" where
  "emit_address ea st =
     (if ea AND 0x20000 \<noteq> 0 then emit ''-%o'' [A32 ((NOT ea + 1) AND 0x1FFFF)] st else emit ''%o'' [A32 ea] st)"

definition opSTD :: "string \<Rightarrow> char list \<Rightarrow> u64 \<Rightarrow> string \<Rightarrow> (char list \<times> string) option" where
  "opSTD opcode buf insn out =
     (let ac = insn_ac insn; ind = insn_in insn; xr = insn_xr insn; ea = insn_ea insn
      in do {
        st \<leftarrow> emit_fields insn (0, buf, out);
        st \<leftarrow> emit_name opcode st;
        st \<leftarrow> emit_if (ac \<noteq> 0) ''%o,'' [A32 ac] st;
        st \<leftarrow> emit_if (ind \<noteq> 0) ''@'' [] st;
        st \<leftarrow> (if ac \<noteq> 0 \<or> ind \<noteq> 0 \<or> xr \<noteq> 0 \<or> ea \<noteq> 0 then emit_address ea st else Some st);
        st \<leftarrow> emit_if (xr \<noteq> 0) ''(%o)'' [A32 xr] st;
        Some (snd st) })"

text \<open>The operands of input-output and jump instructions have no accumulator and no sign.\<close>

definition emit_operands :: "u64 \<Rightarrow> nat \<times> char list \<times> string \<Rightarrow> (nat \<times> char list \<times> string) option" where
  "emit_operands insn st =
     (let ind = insn_in insn; xr = insn_xr insn; ea = insn_ea insn
      in do {
        st \<leftarrow> emit_if (ind \<noteq> 0) ''@'' [] st;
        st \<leftarrow> emit_if (ind \<noteq> 0 \<or> xr \<noteq> 0 \<or> ea \<noteq> 0) ''%o'' [A32 ea] st;
        emit_if (xr \<noteq> 0) ''(%o)'' [A32 xr] st })"

definition lookup :: "string list \<Rightarrow> nat \<Rightarrow> string option" where
  "lookup table n = (if n < length table then Some (table ! n) else None)"

definition iot_table :: "string list" where
  "iot_table =
    [''APRID'', ''70004'', ''70010'', ''70014'', ''WRAPR'', ''RDAPR'', ''70030'', ''70034'',
     ''70040'', ''70044'', ''70050'', ''70054'', ''WRPI'', ''RDPI'', ''70070'', ''70014'',
     ''70100'', ''RDUBR'', ''CLRPT'', ''WRUBR'', ''WREBR'', ''RDEBR'', ''70130'', ''70134'',
     ''70140'', ''70144'', ''70150'', ''70154'', ''70160'', ''70164'', ''70170'', ''70174'',
     ''RDSPB'', ''RDCSB'', ''RDPUR'', ''RDCSTM'', ''RDTIM'', ''RDINT'', ''RDHSB'', ''70234'',
     ''WRSPB'', ''WRCSB'', ''WRPUR'', ''WRCSTM'', ''WRTIM'', ''WRINT'', ''WRHSB'', ''70274'']"

definition opIOT :: "char list \<Rightarrow> u64 \<Rightarrow> string \<Rightarrow> (char list \<times> string) option" where
  "opIOT buf insn out =
     (let f = unat (drop_bit 23 insn AND 0x3F)
      in do {
        st \<leftarrow> emit_fields insn (0, buf, out);
        name \<leftarrow> lookup iot_table f;
        st \<leftarrow> emit_name name st;
        st \<leftarrow> emit_operands insn st;
        Some (snd st) })"

definition jrst_table :: "string list" where
  "jrst_table =
    [''JRST'', ''PORTAL'', ''JRSTF'', ''UUO'', ''HALT'', ''XJRSTF'', ''XJEN'', ''XPCW'',
     ''JRST10'', ''UUO'', ''JEN'', ''UUO'', ''SFM'', ''UUO'', ''UUO'', ''UUO'']"

definition opJRST :: "char list \<Rightarrow> u64 \<Rightarrow> string \<Rightarrow> (char list \<times> string) option" where
  "opJRST buf insn out = do {
     st \<leftarrow> emit_fields insn (0, buf, out);
     name \<leftarrow> lookup jrst_table (unat (insn_ac insn));
     st \<leftarrow> emit_name name st;
     st \<leftarrow> emit_operands insn st;
     Some (snd st) }"

section \<open>The table of instructions\<close>

datatype op_fun = OpSTD | OpIOT | OpJRST

text \<open>Sixty-four entries at a time.\<close>

definition op_table0 :: "(string \<times> op_fun) list" where
  "op_table0 =
    [(''UUO'', OpSTD), (''SJCL'', OpSTD), (''SJCE'', OpSTD), (''SJCLE'', OpSTD),
     (''EDIT'', OpSTD), (''SJCGE'', OpSTD), (''SJCN'', OpSTD), (''SJCG'', OpSTD),
     (''CVTDBO'', OpSTD), (''CVTDBT'', OpSTD), (''CVTBDO'', OpSTD), (''CVTBDT'', OpSTD),
     (''MOVSO'', OpSTD), (''MOVST'', OpSTD), (''MOVSLJ'', OpSTD), (''MOVSRJ'', OpSTD),
     (''XBLT'', OpSTD), (''LUUO21'', OpSTD), (''LUUO22'', OpSTD), (''LUUO23'', OpSTD),
     (''LUUO24'', OpSTD), (''LUUO25'', OpSTD), (''LUUO26'', OpSTD), (''LUUO27'', OpSTD),
     (''LUUO30'', OpSTD), (''LUUO31'', OpSTD), (''LUUO32'', OpSTD), (''LUUO33'', OpSTD),
     (''LUUO34'', OpSTD), (''LUUO35'', OpSTD), (''LUUO36'', OpSTD), (''LUUO37'', OpSTD),
     (''MUUO30'', OpSTD), (''MUUO31'', OpSTD), (''MUUO32'', OpSTD), (''MUUO23'', OpSTD),
     (''MUUO24'', OpSTD), (''MUUO25'', OpSTD), (''MUUO26'', OpSTD), (''MUUO27'', OpSTD),
     (''MUUO50'', OpSTD), (''MLUU51'', OpSTD), (''MUUO52'', OpSTD), (''MUUO53'', OpSTD),
     (''MUUO54'', OpSTD), (''MUUO55'', OpSTD), (''MUUO56'', OpSTD), (''MUUO57'', OpSTD),
     (''MUUO60'', OpSTD), (''MUUO61'', OpSTD), (''MUUO62'', OpSTD), (''MUUO63'', OpSTD),
     (''MUUO64'', OpSTD), (''MUUO65'', OpSTD), (''MUUO66'', OpSTD), (''MUUO67'', OpSTD),
     (''LUUO00'', OpSTD), (''LUUO21'', OpSTD), (''LUUO22'', OpSTD), (''LUUO23'', OpSTD),
     (''LUUO24'', OpSTD), (''LUUO25'', OpSTD), (''LUUO26'', OpSTD), (''LUUO27'', OpSTD)]"

definition op_table1 :: "(string \<times> op_fun) list" where
  "op_table1 =
    [(''UJEN'', OpSTD), (''UUO101'', OpSTD), (''UUO102'', OpSTD), (''UUO103'', OpSTD),
     (''JSYS'', OpSTD), (''ADJSP'', OpSTD), (''UUO106'', OpSTD), (''UUO107'', OpSTD),
     (''DFAD'', OpSTD), (''DFSB'', OpSTD), (''DFMP'', OpSTD), (''DFDV'', OpSTD),
     (''DADD'', OpSTD), (''DSUB'', OpSTD), (''DMUL'', OpSTD), (''DDIV'', OpSTD),
     (''DMOVE'', OpSTD), (''DMOVN'', OpSTD), (''FIX'', OpSTD), (''EXTEND'', OpSTD),
     (''DMOVEM'', OpSTD), (''DMOVNM'', OpSTD), (''FIXR'', OpSTD), (''FLTR'', OpSTD),
     (''UFA'', OpSTD), (''DFN'', OpSTD), (''FSC'', OpSTD), (''IBP'', OpSTD),
     (''ILDB'', OpSTD), (''LDB'', OpSTD), (''IDPB'', OpSTD), (''DPB'', OpSTD),
     (''FAD'', OpSTD), (''FADL'', OpSTD), (''FADM'', OpSTD), (''FADB'', OpSTD),
     (''FADRI'', OpSTD), (''FADRL'', OpSTD), (''FADRM'', OpSTD), (''FADRB'', OpSTD),
     (''FSB'', OpSTD), (''FSBL'', OpSTD), (''FSBM'', OpSTD), (''FSBB'', OpSTD),
     (''FSBRI'', OpSTD), (''FSBRL'', OpSTD), (''FSBRM'', OpSTD), (''FSBRB'', OpSTD),
     (''FMP'', OpSTD), (''FMPL'', OpSTD), (''FMPM'', OpSTD), (''FMPB'', OpSTD),
     (''FMPRI'', OpSTD), (''FMPRL'', OpSTD), (''FMPRM'', OpSTD), (''FMPRB'', OpSTD),
     (''FDV'', OpSTD), (''FDVL'', OpSTD), (''FDVM'', OpSTD), (''FDVB'', OpSTD),
     (''FDVRI'', OpSTD), (''FDVRL'', OpSTD), (''FDVRM'', OpSTD), (''FDVRB'', OpSTD)]"

definition op_table2 :: "(string \<times> op_fun) list" where
  "op_table2 =
    [(''MOVE'', OpSTD), (''MOVEI'', OpSTD), (''MOVEM'', OpSTD), (''MOVES'', OpSTD),
     (''MOVS'', OpSTD), (''MOVSI'', OpSTD), (''MOVSM'', OpSTD), (''MOVSS'', OpSTD),
     (''MOVN'', OpSTD), (''MOVNI'', OpSTD), (''MOVNM'', OpSTD), (''MOVNS'', OpSTD),
     (''MOVM'', OpSTD), (''MOVMI'', OpSTD), (''MOVMM'', OpSTD), (''MOVMS'', OpSTD),
     (''IMUL'', OpSTD), (''IMULI'', OpSTD), (''IMULM'', OpSTD), (''IMULB'', OpSTD),
     (''MUL'', OpSTD), (''MULI'', OpSTD), (''MULM'', OpSTD), (''MULB'', OpSTD),
     (''IDIV'', OpSTD), (''IDIVI'', OpSTD), (''IDIVM'', OpSTD), (''IDIVB'', OpSTD),
     (''DIV'', OpSTD), (''DIVI'', OpSTD), (''DIVM'', OpSTD), (''DIVB'', OpSTD),
     (''ASH'', OpSTD), (''ROT'', OpSTD), (''LSH'', OpSTD), (''JFFO'', OpSTD),
     (''ASHC'', OpSTD), (''ROTC'', OpSTD), (''LSHC'', OpSTD), (''UUO247'', OpSTD),
     (''EXCH'', OpSTD), (''BLT'', OpSTD), (''AOBJP'', OpSTD), (''AOBJN'', OpSTD),
     (''JRST'', OpJRST), (''JFCL'', OpSTD), (''XCT'', OpSTD), (''MAP'', OpSTD),
     (''PUSHJ'', OpSTD), (''PUSH'', OpSTD), (''POP'', OpSTD), (''POPJ'', OpSTD),
     (''JSR'', OpSTD), (''JSP'', OpSTD), (''JSA'', OpSTD), (''JRA'', OpSTD),
     (''ADD'', OpSTD), (''ADDI'', OpSTD), (''ADDM'', OpSTD), (''ADDB'', OpSTD),
     (''SUB'', OpSTD), (''SUBI'', OpSTD), (''SUBM'', OpSTD), (''SUBB'', OpSTD)]"

definition op_table3 :: "(string \<times> op_fun) list" where
  "op_table3 =
    [(''CAI'', OpSTD), (''CAIL'', OpSTD), (''CAIE'', OpSTD), (''CAILE'', OpSTD),
     (''CAIA'', OpSTD), (''CAIGE'', OpSTD), (''CAIN'', OpSTD), (''CAIG'', OpSTD),
     (''CAM'', OpSTD), (''CAML'', OpSTD), (''CAME'', OpSTD), (''CAMLE'', OpSTD),
     (''CAMA'', OpSTD), (''CAMGE'', OpSTD), (''CAMN'', OpSTD), (''CAMG'', OpSTD),
     (''JUMP'', OpSTD), (''JUMPL'', OpSTD), (''JUMPE'', OpSTD), (''JUMPLE'', OpSTD),
     (''JUMPA'', OpSTD), (''JUMPGE'', OpSTD), (''JUMPN'', OpSTD), (''JUMPG'', OpSTD),
     (''SKIP'', OpSTD), (''SKIPL'', OpSTD), (''SKIPE'', OpSTD), (''SKIPLE'', OpSTD),
     (''SKIPA'', OpSTD), (''SKIPGE'', OpSTD), (''SKIPN'', OpSTD), (''SKIPG'', OpSTD),
     (''AOJ'', OpSTD), (''AOJL'', OpSTD), (''AOJE'', OpSTD), (''AOJLE'', OpSTD),
     (''AOJA'', OpSTD), (''AOJGE'', OpSTD), (''AOJN'', OpSTD), (''AOJG'', OpSTD),
     (''AOS'', OpSTD), (''AOSL'', OpSTD), (''AOSE'', OpSTD), (''AOSLE'', OpSTD),
     (''AOSA'', OpSTD), (''AOSGE'', OpSTD), (''AOSN'', OpSTD), (''AOSG'', OpSTD),
     (''SOJ'', OpSTD), (''SOJL'', OpSTD), (''SOJE'', OpSTD), (''SOJLE'', OpSTD),
     (''SOJA'', OpSTD), (''SOJGE'', OpSTD), (''SOJN'', OpSTD), (''SOJG'', OpSTD),
     (''SOS'', OpSTD), (''SOSL'', OpSTD), (''SOSE'', OpSTD), (''SOSLE'', OpSTD),
     (''SOSA'', OpSTD), (''SOSGE'', OpSTD), (''SOSN'', OpSTD), (''SOSG'', OpSTD)]"

definition op_table4 :: "(string \<times> op_fun) list" where
  "op_table4 =
    [(''SETZ'', OpSTD), (''SETZI'', OpSTD), (''SETZM'', OpSTD), (''SETZB'', OpSTD),
     (''AND'', OpSTD), (''ANDI'', OpSTD), (''ANDM'', OpSTD), (''ANDB'', OpSTD),
     (''ANDCA'', OpSTD), (''ANDCAI'', OpSTD), (''ANDCAM'', OpSTD), (''ANDCAB'', OpSTD),
     (''SETM'', OpSTD), (''SETMI'', OpSTD), (''SETMM'', OpSTD), (''SETMB'', OpSTD),
     (''ANDCM'', OpSTD), (''ANDCMI'', OpSTD), (''ANDCMM'', OpSTD), (''ANDCMB'', OpSTD),
     (''SETA'', OpSTD), (''SETAI'', OpSTD), (''SETAM'', OpSTD), (''SETAB'', OpSTD),
     (''XOR'', OpSTD), (''XORI'', OpSTD), (''XORM'', OpSTD), (''XORB'', OpSTD),
     (''OR'', OpSTD), (''ORI'', OpSTD), (''ORM'', OpSTD), (''ORB'', OpSTD),
     (''ANDCB'', OpSTD), (''ANDCBI'', OpSTD), (''ANDCBM'', OpSTD), (''ANDCBB'', OpSTD),
     (''EQV'', OpSTD), (''EQVI'', OpSTD), (''EQVM'', OpSTD), (''EQVB'', OpSTD),
     (''SETCA'', OpSTD), (''SETCAI'', OpSTD), (''SETCAM'', OpSTD), (''SETCAB'', OpSTD),
     (''ORCA'', OpSTD), (''ORCAI'', OpSTD), (''ORCAM'', OpSTD), (''ORCAB'', OpSTD),
     (''SETCM'', OpSTD), (''SETCMI'', OpSTD), (''SETCMM'', OpSTD), (''SETCMB'', OpSTD),
     (''ORCM'', OpSTD), (''ORCMI'', OpSTD), (''ORCMM'', OpSTD), (''ORCMB'', OpSTD),
     (''ORCB'', OpSTD), (''ORCBI'', OpSTD), (''ORCBM'', OpSTD), (''ORCBB'', OpSTD),
     (''SETO'', OpSTD), (''SETOI'', OpSTD), (''SETOM'', OpSTD), (''SETOB'', OpSTD)]"

definition op_table5 :: "(string \<times> op_fun) list" where
  "op_table5 =
    [(''HLL'', OpSTD), (''HLLI'', OpSTD), (''HLLM'', OpSTD), (''HLLS'', OpSTD),
     (''HRL'', OpSTD), (''HRLI'', OpSTD), (''HRLM'', OpSTD), (''HRLS'', OpSTD),
     (''HLLZ'', OpSTD), (''HLLZI'', OpSTD), (''HLLZM'', OpSTD), (''HLLZS'', OpSTD),
     (''HRLZ'', OpSTD), (''HRLZI'', OpSTD), (''HRLZM'', OpSTD), (''HRLZS'', OpSTD),
     (''HLLO'', OpSTD), (''HLLOI'', OpSTD), (''HLLOM'', OpSTD), (''HLLOS'', OpSTD),
     (''HRLO'', OpSTD), (''HRLOI'', OpSTD), (''HRLOM'', OpSTD), (''HRLOS'', OpSTD),
     (''HLLE'', OpSTD), (''HLLEI'', OpSTD), (''HLLEM'', OpSTD), (''HLLES'', OpSTD),
     (''HRLE'', OpSTD), (''HRLEI'', OpSTD), (''HRLEM'', OpSTD), (''HRLES'', OpSTD),
     (''HRR'', OpSTD), (''HRRI'', OpSTD), (''HRRM'', OpSTD), (''HRRS'', OpSTD),
     (''HLR'', OpSTD), (''HLRI'', OpSTD), (''HLRM'', OpSTD), (''HLRS'', OpSTD),
     (''HRRZ'', OpSTD), (''HRRZI'', OpSTD), (''HRRZM'', OpSTD), (''HRRZS'', OpSTD),
     (''HLRZ'', OpSTD), (''HLRZI'', OpSTD), (''HLRZM'', OpSTD), (''HLRZS'', OpSTD),
     (''HRRO'', OpSTD), (''HRROI'', OpSTD), (''HRROM'', OpSTD), (''HRROS'', OpSTD),
     (''HLRO'', OpSTD), (''HLROI'', OpSTD), (''HLROM'', OpSTD), (''HLROS'', OpSTD),
     (''HRRE'', OpSTD), (''HRREI'', OpSTD), (''HRREM'', OpSTD), (''HRRES'', OpSTD),
     (''HLRE'', OpSTD), (''HLREI'', OpSTD), (''HLREM'', OpSTD), (''HLRES'', OpSTD)]"

definition op_table6 :: "(string \<times> op_fun) list" where
  "op_table6 =
    [(''TRN'', OpSTD), (''TLN'', OpSTD), (''TRNE'', OpSTD), (''TLNE'', OpSTD),
     (''TRNA'', OpSTD), (''TLNA'', OpSTD), (''TRNN'', OpSTD), (''TLNN'', OpSTD),
     (''TDN'', OpSTD), (''TSN'', OpSTD), (''TDNE'', OpSTD), (''TSNE'', OpSTD),
     (''TDNA'', OpSTD), (''TSNA'', OpSTD), (''TDNN'', OpSTD), (''TSNN'', OpSTD),
     (''TRZ'', OpSTD), (''TLZ'', OpSTD), (''TRZE'', OpSTD), (''TLZE'', OpSTD),
     (''TRZA'', OpSTD), (''TLZA'', OpSTD), (''TRZN'', OpSTD), (''TLZN'', OpSTD),
     (''TDZ'', OpSTD), (''TSZ'', OpSTD), (''TDZE'', OpSTD), (''TSZE'', OpSTD),
     (''TDZA'', OpSTD), (''TSZA'', OpSTD), (''TDZN'', OpSTD), (''TSZN'', OpSTD),
     (''TRC'', OpSTD), (''TLC'', OpSTD), (''TRCE'', OpSTD), (''TLCE'', OpSTD),
     (''TRCA'', OpSTD), (''TLCA'', OpSTD), (''TRCN'', OpSTD), (''TLCN'', OpSTD),
     (''TDC'', OpSTD), (''TSC'', OpSTD), (''TDCE'', OpSTD), (''TSCE'', OpSTD),
     (''TDCA'', OpSTD), (''TSCA'', OpSTD), (''TDCN'', OpSTD), (''TSCN'', OpSTD),
     (''TRO'', OpSTD), (''TLO'', OpSTD), (''TROE'', OpSTD), (''TLOE'', OpSTD),
     (''TROA'', OpSTD), (''TLOA'', OpSTD), (''TRON'', OpSTD), (''TLON'', OpSTD),
     (''TDO'', OpSTD), (''TSO'', OpSTD), (''TDOE'', OpSTD), (''TSOE'', OpSTD),
     (''TDOA'', OpSTD), (''TSOA'', OpSTD), (''TDON'', OpSTD), (''TSON'', OpSTD)]"

definition op_table7 :: "(string \<times> op_fun) list" where
  "op_table7 =
    [(''700'', OpIOT), (''701'', OpIOT), (''702'', OpIOT), (''IOT703'', OpSTD),
     (''UMOVE'', OpSTD), (''UMOVEM'', OpSTD), (''IOT706'', OpSTD), (''IOT707'', OpSTD),
     (''TIOE'', OpSTD), (''TION'', OpSTD), (''RDIO'', OpSTD), (''WRIO'', OpSTD),
     (''BSIO'', OpSTD), (''BCIO'', OpSTD), (''IOT716'', OpSTD), (''IOT717'', OpSTD),
     (''TIOEB'', OpSTD), (''TIONB'', OpSTD), (''RDIOB'', OpSTD), (''WRIOB'', OpSTD),
     (''BSIOB'', OpSTD), (''BCIOB'', OpSTD), (''IOT726'', OpSTD), (''IOT727'', OpSTD),
     (''IOT730'', OpSTD), (''IOT731'', OpSTD), (''IOT732'', OpSTD), (''IOT733'', OpSTD),
     (''OT7434'', OpSTD), (''IOT735'', OpSTD), (''IOT736'', OpSTD), (''IOT737'', OpSTD),
     (''IOT740'', OpSTD), (''IOT741'', OpSTD), (''IOT742'', OpSTD), (''IOT743'', OpSTD),
     (''IOT744'', OpSTD), (''IOT745'', OpSTD), (''IOT746'', OpSTD), (''IOT747'', OpSTD),
     (''IOT750'', OpSTD), (''IOT751'', OpSTD), (''IOT752'', OpSTD), (''IOT753'', OpSTD),
     (''IOT754'', OpSTD), (''IOT755'', OpSTD), (''IOT756'', OpSTD), (''IOT757'', OpSTD),
     (''IOT760'', OpSTD), (''IOT761'', OpSTD), (''IOT762'', OpSTD), (''IOT763'', OpSTD),
     (''IOT764'', OpSTD), (''IOT765'', OpSTD), (''IOT766'', OpSTD), (''IOT767'', OpSTD),
     (''UUO770'', OpSTD), (''UUO771'', OpSTD), (''UUO772'', OpSTD), (''UUO773'', OpSTD),
     (''UUO774'', OpSTD), (''UUO775'', OpSTD), (''UUO776'', OpSTD), (''UUO777'', OpSTD)]"

definition op_table :: "(string \<times> op_fun) list" where
  "op_table = concat [op_table0, op_table1, op_table2, op_table3, op_table4, op_table5, op_table6, op_table7]"

text \<open>The buffer is static: what it held is a parameter, and the result is the buffer.\<close>

definition dasm :: "char list \<Rightarrow> u64 \<Rightarrow> string \<Rightarrow> (char list \<times> string) option" where
  "dasm buffer insn out =
     (let (name, f) = op_table ! unat (drop_bit 27 insn AND 0x1FF)
      in case f of OpSTD \<Rightarrow> opSTD name buffer insn out
         | OpIOT \<Rightarrow> opIOT buffer insn out
         | OpJRST \<Rightarrow> opJRST buffer insn out)"

end
