(* ===== verification/DasmOps.thy ===== *)
theory DasmOps
  imports Dasm
begin

text \<open>
  What the disassembler prints, as a text built from octal numerals, and what follows from it: the
  instruction can be read back from the line, and which instructions overrun the static buffer.
\<close>

section \<open>Texts of the formats\<close>

lemma text_of_plain: "c \<noteq> NUL \<Longrightarrow> c \<noteq> CHR ''%'' \<Longrightarrow> text_of f (c # s) ap = do { (full, t, m) \<leftarrow> text_of f s ap; Some (full, c # t, m) }"
  by (subst text_of.simps) simp

lemma text_of_spec:
  "parse_spec s = Some (ch, sp, r) \<Longrightarrow> ch \<noteq> NUL \<Longrightarrow> text_of f (CHR ''%'' # s) ap =
    do { (s, m, ap) \<leftarrow> conv_text f ch sp ap; (full, t, m') \<leftarrow> text_of f r ap; Some (full, s @ t, m @ m') }"
  by (subst text_of.simps) simp

definition oct :: "u32 \<Rightarrow> string" where
  "oct v = digit_text lower_digits 8 (unat v)"

lemma oct_nonempty [simp]: "oct v \<noteq> []"
  by (simp add: oct_def digit_text_def)

lemma tabs_oct [simp]: "tabs (oct v) = []"
proof -
  have "\<forall>c \<in> set lower_digits. c \<noteq> CHR 0x09" by (simp add: lower_digits_def)
  moreover have "set (oct v) \<subseteq> set lower_digits"
    using radix_digits_less [of 8] length_digit_tables(1) by (fastforce simp: oct_def digit_text_def)
  ultimately have "\<forall>c \<in> set (oct v). c \<noteq> CHR 0x09" by blast
  then show ?thesis by (simp add: tabs_def)
qed

lemma conv_text_oct:
  "sp_type sp = 0 \<Longrightarrow> conv_text f (CHR ''o'') sp (A32 v # ap) = Some (field (sint (sp_width sp)) (sp_padchar sp) (oct v), [], ap)"
  by (simp add: conv_text_def Let_def radix_of_def unsigned_text_def arg32_def oct_def [symmetric])

lemma parse_o: "parse_spec (CHR ''o'' # s) = Some (CHR ''o'', \<lparr>sp_padchar = CHR '' '', sp_width = 0, sp_prec = 0, sp_type = 0, sp_leftFlag = False\<rparr>, s)"
  by (cases s) (simp_all add: parse_spec_def is_digit_def)

lemma parse_0_o:
  assumes "is_digit d"
  shows "parse_spec (CHR ''0'' # d # CHR ''o'' # s) =
    Some (CHR ''o'', \<lparr>sp_padchar = CHR ''0'', sp_width = of_char d - 48, sp_prec = 0, sp_type = 0, sp_leftFlag = False\<rparr>, s)"
  using assms by (cases s) (simp_all add: parse_spec_def is_digit_def)

lemma parse_s: "parse_spec (CHR ''s'' # s) = Some (CHR ''s'', \<lparr>sp_padchar = CHR '' '', sp_width = 0, sp_prec = 0, sp_type = 0, sp_leftFlag = False\<rparr>, s)"
  by (cases s) (simp_all add: parse_spec_def is_digit_def)

definition fields_text :: "u64 \<Rightarrow> string" where
  "fields_text insn = field 3 (CHR ''0'') (oct (insn_op insn)) @ '' '' @ field 2 (CHR ''0'') (oct (insn_ac insn)) @ '' '' @
     field 1 (CHR ''0'') (oct (insn_in insn)) @ '' '' @ field 2 (CHR ''0'') (oct (insn_xr insn)) @ '' '' @
     field 6 (CHR ''0'') (oct (insn_ea insn)) @ [CHR 0x09]"

lemma text_of_fields:
  "text_of f (''%03o %02o %01o %02o %06o'' @ [CHR 0x09] @ [NUL])
     [A32 (insn_op insn), A32 (insn_ac insn), A32 (insn_in insn), A32 (insn_xr insn), A32 (insn_ea insn)] =
   Some (True, fields_text insn, [])"
  by (simp add: text_of_plain text_of_spec parse_0_o is_digit_def conv_text_oct fields_text_def)

lemma text_of_name:
  "NUL \<notin> set name \<Longrightarrow> CHR 0x09 \<notin> set name \<Longrightarrow>
    text_of f (''%s'' @ [CHR 0x09] @ [NUL]) [AStr (name @ [NUL])] = Some (True, name @ [CHR 0x09], [])"
proof -
  assume n: "NUL \<notin> set name" "CHR 0x09 \<notin> set name"
  have c: "cstring (name @ [NUL]) = Some name" using n(1) by (auto simp: cstring_def takeWhile_append)
  have "tabs name = []" using n(2) by (auto simp: tabs_def)
  then show ?thesis by (simp add: text_of_plain text_of_spec parse_s conv_text_def Let_def arg_str_def c field_def)
qed

lemma text_of_operands:
  "text_of f (''%o,'' @ [NUL]) [A32 v] = Some (True, oct v @ '','', [])"
  "text_of f (''@'' @ [NUL]) [] = Some (True, ''@'', [])"
  "text_of f (''-%o'' @ [NUL]) [A32 v] = Some (True, ''-'' @ oct v, [])"
  "text_of f (''%o'' @ [NUL]) [A32 v] = Some (True, oct v, [])"
  "text_of f (''(%o)'' @ [NUL]) [A32 v] = Some (True, ''('' @ oct v @ '')'', [])"
  by (simp_all add: text_of_plain text_of_spec parse_o conv_text_oct field_def)

section \<open>Printing piece by piece\<close>

lemma sprintf_text:
  assumes "text_of vsn_signed_text fmt ap = Some (True, t, m)" "p \<le> length b"
  shows "sprintf p b fmt ap out = (if p + length t < length b then Some (int (length t), stored p (t @ [NUL]) b, out @ m) else None)"
  using vsn_loop_text [where temp = "replicate 80 NUL" and st = "(p, b, 0, out)" and fmt = fmt and ap = ap] assms
  by (auto simp: sprintf_def vsnprintf_def vsn_result_def)

text \<open>The state after the text \<open>s\<close>, when it fits the buffer.\<close>

definition dst :: "char list \<Rightarrow> string \<Rightarrow> string \<Rightarrow> nat \<times> char list \<times> string" where
  "dst b s out = (length s, if s = [] then b else text_at 0 b s, out)"

definition printed :: "char list \<Rightarrow> string \<Rightarrow> string \<Rightarrow> (nat \<times> char list \<times> string) option" where
  "printed b s out = (if length s < length b then Some (dst b s out) else None)"

lemma emit_dst:
  assumes "text_of vsn_signed_text (fmt @ [NUL]) ap = Some (True, t, [])" "t \<noteq> []" "length s < length b"
  shows "emit fmt ap (dst b s out) = printed b (s @ t) out"
proof -
  have "stored (length s) (t @ [NUL]) (if s = [] then b else text_at 0 b s) = text_at 0 b (s @ t)"
    if "length s + length t < length b"
    using that by (simp add: stored_def text_at_def add.commute)
  then show ?thesis
    using sprintf_text [OF assms(1), of "length s" "if s = [] then b else text_at 0 b s" out] assms(2,3)
    by (simp add: emit_def dst_def printed_def)
qed

lemma printed_emit:
  assumes "text_of vsn_signed_text (fmt @ [NUL]) ap = Some (True, t, [])" "t \<noteq> []"
  shows "do { st \<leftarrow> printed b s out; st \<leftarrow> emit fmt ap st; k st } = do { st \<leftarrow> printed b (s @ t) out; k st }"
  using emit_dst [OF assms, of s b out] by (simp add: printed_def)

lemma printed_emit_if:
  assumes "text_of vsn_signed_text (fmt @ [NUL]) ap = Some (True, t, [])" "t \<noteq> []"
  shows "do { st \<leftarrow> printed b s out; st \<leftarrow> emit_if c fmt ap st; k st } =
    do { st \<leftarrow> printed b (s @ (if c then t else [])) out; k st }"
  using printed_emit [OF assms, of b s out k] by (cases c) (simp_all add: emit_if_def)

lemma emit_fields_first:
  "0 < length b \<Longrightarrow> do { st \<leftarrow> emit_fields insn (0, b, out); k st } = do { st \<leftarrow> printed b (fields_text insn) out; k st }"
proof -
  assume "0 < length b"
  moreover have "fields_text insn \<noteq> []" by (simp add: fields_text_def)
  ultimately have "emit_fields insn (dst b [] out) = printed b ([] @ fields_text insn) out"
    unfolding emit_fields_def using text_of_fields [of vsn_signed_text insn] by (intro emit_dst) simp_all
  then show ?thesis by (simp add: dst_def)
qed

lemma printed_name:
  assumes "NUL \<notin> set name" "CHR 0x09 \<notin> set name"
  shows "do { st \<leftarrow> printed b s out; st \<leftarrow> emit_name name st; k st } = do { st \<leftarrow> printed b (s @ name @ [CHR 0x09]) out; k st }"
  unfolding emit_name_def using text_of_name [OF assms] by (intro printed_emit) simp_all

section \<open>The text of an instruction\<close>

definition address_text :: "u32 \<Rightarrow> string" where
  "address_text ea = (if ea AND 0x20000 \<noteq> 0 then ''-'' @ oct ((NOT ea + 1) AND 0x1FFFF) else oct ea)"

definition std_text :: "string \<Rightarrow> u64 \<Rightarrow> string" where
  "std_text name insn =
     (let ac = insn_ac insn; ind = insn_in insn; xr = insn_xr insn; ea = insn_ea insn
      in fields_text insn @ (name @ [CHR 0x09]) @ (if ac \<noteq> 0 then oct ac @ '','' else []) @
         (if ind \<noteq> 0 then ''@'' else []) @ (if ac \<noteq> 0 \<or> ind \<noteq> 0 \<or> xr \<noteq> 0 \<or> ea \<noteq> 0 then address_text ea else []) @
         (if xr \<noteq> 0 then ''('' @ oct xr @ '')'' else []))"

definition plain_text :: "string \<Rightarrow> u64 \<Rightarrow> string" where
  "plain_text name insn =
     (let ind = insn_in insn; xr = insn_xr insn; ea = insn_ea insn
      in fields_text insn @ (name @ [CHR 0x09]) @ (if ind \<noteq> 0 then ''@'' else []) @
         (if ind \<noteq> 0 \<or> xr \<noteq> 0 \<or> ea \<noteq> 0 then oct ea else []) @ (if xr \<noteq> 0 then ''('' @ oct xr @ '')'' else []))"

definition insn_text :: "u64 \<Rightarrow> string" where
  "insn_text insn =
     (let (name, f) = op_table ! unat (insn_op insn)
      in case f of OpSTD \<Rightarrow> std_text name insn
         | OpIOT \<Rightarrow> plain_text (iot_table ! (16 * (unat (insn_op insn) mod 4) + unat (insn_ac insn))) insn
         | OpJRST \<Rightarrow> plain_text (jrst_table ! unat (insn_ac insn)) insn)"

lemma printed_address:
  "do { st \<leftarrow> printed b s out; st \<leftarrow> (if c then emit_address ea st else Some st); k st } =
    do { st \<leftarrow> printed b (s @ (if c then address_text ea else [])) out; k st }"
proof -
  let ?v = "(NOT ea + 1) AND 0x1FFFF"
  have "do { st \<leftarrow> printed b s out; st \<leftarrow> emit_address ea st; k st } = do { st \<leftarrow> printed b (s @ address_text ea) out; k st }"
    using printed_emit [OF text_of_operands(3) [of vsn_signed_text ?v], of b s out k]
      printed_emit [OF text_of_operands(4) [of vsn_signed_text ea], of b s out k]
    by (cases "ea AND 0x20000 = 0") (simp_all add: emit_address_def address_text_def)
  then show ?thesis by (cases c) simp_all
qed

lemmas printed_if = printed_emit_if [OF text_of_operands(1)] printed_emit_if [OF text_of_operands(2)]
  printed_emit_if [OF text_of_operands(4)] printed_emit_if [OF text_of_operands(5)]

lemma printed_result:
  "s \<noteq> [] \<Longrightarrow> do { st \<leftarrow> printed b s out; Some (snd st) } = (if length s < length b then Some (text_at 0 b s, out) else None)"
  by (simp add: printed_def dst_def)

lemma fields_text_nonempty [simp]: "fields_text insn \<noteq> []"
  by (simp add: fields_text_def)

lemma opSTD_prints:
  assumes "0 < length b" "NUL \<notin> set name" "CHR 0x09 \<notin> set name"
  shows "opSTD name b insn out =
    (if length (std_text name insn) < length b then Some (text_at 0 b (std_text name insn), out) else None)"
  unfolding opSTD_def Let_def emit_fields_first [OF assms(1)] printed_name [OF assms(2,3)]
  by (simp only: printed_if printed_address append_assoc not_Cons_self2 list.distinct append_is_Nil_conv oct_nonempty simp_thms)
     (subst printed_result, simp_all add: std_text_def Let_def)

lemma emit_operands_prints:
  "do { st \<leftarrow> printed b s out; st \<leftarrow> emit_operands insn st; k st } =
    (let ind = insn_in insn; xr = insn_xr insn; ea = insn_ea insn
     in do { st \<leftarrow> printed b (s @ (if ind \<noteq> 0 then ''@'' else []) @ (if ind \<noteq> 0 \<or> xr \<noteq> 0 \<or> ea \<noteq> 0 then oct ea else []) @
       (if xr \<noteq> 0 then ''('' @ oct xr @ '')'' else [])) out; k st })"
  unfolding emit_operands_def Let_def bind_assoc
  by (simp only: printed_if append_assoc list.distinct append_is_Nil_conv oct_nonempty simp_thms)

section \<open>Fields as numbers\<close>

lemma unat_field:
  "n < 32 \<Longrightarrow> unat (ucast (drop_bit k (insn :: u64) AND mask n) :: u32) = unat insn div 2 ^ k mod 2 ^ n"
proof -
  assume n: "n < 32"
  have "unat insn div 2 ^ k mod 2 ^ n < 2 ^ 32"
    using n by (intro less_le_trans [OF mod_less_divisor power_increasing]) simp_all
  then show ?thesis
    by (simp add: unsigned_ucast_eq take_bit_nat_eq_self unat_and_mask unat_drop_u64)
qed

lemma unat_op: "unat (insn_op insn) = unat insn div 2 ^ 27 mod 512"
proof -
  have "(0x1FF :: u64) = mask 9" by (simp add: mask_numeral)
  then show ?thesis using unat_field [of 9 27 insn] by (simp add: insn_op_def)
qed

lemma unat_ac: "unat (insn_ac insn) = unat insn div 2 ^ 23 mod 16"
proof -
  have "(0xF :: u64) = mask 4" by (simp add: mask_numeral)
  then show ?thesis using unat_field [of 4 23 insn] by (simp add: insn_ac_def)
qed

lemma unat_in: "unat (insn_in insn) = unat insn div 2 ^ 22 mod 2"
proof -
  have "(1 :: u64) = mask 1" by (simp add: mask_Suc_0)
  then show ?thesis using unat_field [of 1 22 insn] by (simp add: insn_in_def)
qed

lemma unat_xr: "unat (insn_xr insn) = unat insn div 2 ^ 18 mod 16"
proof -
  have "(0xF :: u64) = mask 4" by (simp add: mask_numeral)
  then show ?thesis using unat_field [of 4 18 insn] by (simp add: insn_xr_def)
qed

lemma unat_ea: "unat (insn_ea insn) = unat insn mod 2 ^ 18"
proof -
  have "(0x3FFFF :: u64) = mask 18" by (simp add: mask_numeral)
  then show ?thesis using unat_field [of 18 0 insn] by (simp add: insn_ea_def)
qed

lemmas unat_fields = unat_op unat_ac unat_in unat_xr unat_ea

lemma table_index: "unat (drop_bit 27 insn AND (0x1FF :: u64)) = unat (insn_op insn)"
  using unat_and_mask [of "drop_bit 27 insn" 9] by (simp add: mask_numeral unat_drop_u64 unat_fields)

lemma iot_index: "unat (drop_bit 23 insn AND (0x3F :: u64)) = 16 * (unat (insn_op insn) mod 4) + unat (insn_ac insn)"
proof -
  let ?y = "unat insn div 2 ^ 23"
  have "unat (drop_bit 23 insn AND (0x3F :: u64)) = ?y mod 64"
    using unat_and_mask [of "drop_bit 23 insn" 6] by (simp add: mask_numeral unat_drop_u64)
  also have "\<dots> = 16 * (?y div 16 mod 4) + ?y mod 16" using mod_mult2_eq [of ?y 16 4] by simp
  also have "?y div 16 mod 4 = unat (insn_op insn) mod 4"
    by (simp add: unat_fields div_mult2_eq [symmetric] mod_mod_cancel)
  finally show ?thesis by (simp add: unat_fields)
qed

section \<open>The tables\<close>

lemmas op_tables = op_table_def op_table0_def op_table1_def op_table2_def op_table3_def op_table4_def op_table5_def
  op_table6_def op_table7_def

text \<open>A mnemonic: two to six characters, none of them a zero or a tab.\<close>

definition mnemonic :: "string \<Rightarrow> bool" where
  "mnemonic s \<longleftrightarrow> 2 \<le> length s \<and> length s \<le> 6 \<and> list_all (\<lambda>c. c \<noteq> NUL \<and> c \<noteq> CHR 0x09) s"

lemma length_op_table: "length op_table = 512"
  by (simp add: op_tables)

lemma op_table_funs:
  "map snd op_table = replicate 172 OpSTD @ [OpJRST] @ replicate 275 OpSTD @ replicate 3 OpIOT @ replicate 61 OpSTD"
  by (simp add: op_tables numeral_eq_Suc)

lemma op_table_names: "list_all (\<lambda>e. mnemonic (fst e)) op_table"
  by (simp add: op_tables mnemonic_def)

lemma iot_names: "list_all mnemonic iot_table" "length iot_table = 48"
  by (simp_all add: iot_table_def mnemonic_def)

lemma jrst_names: "list_all mnemonic jrst_table" "length jrst_table = 16"
  by (simp_all add: jrst_table_def mnemonic_def)

lemma op_fun_at:
  assumes "k < 512"
  shows "snd (op_table ! k) = (if k = 172 then OpJRST else if 448 \<le> k \<and> k < 451 then OpIOT else OpSTD)"
proof -
  have "snd (op_table ! k) = map snd op_table ! k" using assms length_op_table by simp
  also have "\<dots> = (if k = 172 then OpJRST else if 448 \<le> k \<and> k < 451 then OpIOT else OpSTD)"
    using assms unfolding op_table_funs by (auto simp: nth_append)
  finally show ?thesis .
qed

lemma mnemonicD: "mnemonic s \<Longrightarrow> NUL \<notin> set s \<and> CHR 0x09 \<notin> set s \<and> 2 \<le> length s \<and> length s \<le> 6"
  by (auto simp: mnemonic_def list_all_iff)

lemma op_name: "k < 512 \<Longrightarrow> op_table ! k = (name, f) \<Longrightarrow> mnemonic name"
  using op_table_names length_op_table by (metis fst_conv list_all_length)

lemma plain_prints:
  assumes "0 < length b" "lookup table k = Some name" "mnemonic name"
  shows "do { st \<leftarrow> emit_fields insn (0, b, out); name \<leftarrow> lookup table k; st \<leftarrow> emit_name name st; st \<leftarrow> emit_operands insn st; Some (snd st) } =
    (if length (plain_text name insn) < length b then Some (text_at 0 b (plain_text name insn), out) else None)"
proof -
  have n: "NUL \<notin> set name" "CHR 0x09 \<notin> set name" using mnemonicD [OF assms(3)] by simp_all
  show ?thesis
    unfolding assms(2) bind.bind_lunit emit_fields_first [OF assms(1)] printed_name [OF n] emit_operands_prints Let_def append_assoc
    by (subst printed_result) (simp_all add: plain_text_def Let_def)
qed

lemma insn_op_less: "unat (insn_op insn) < 512"
  by (simp add: unat_fields)

lemma insn_ac_less: "unat (insn_ac insn) < 16"
  by (simp add: unat_fields)

lemma dasm_text:
  assumes "0 < length b"
  shows "dasm b insn out = (if length (insn_text insn) < length b then Some (text_at 0 b (insn_text insn), out) else None)"
proof -
  obtain name f where e: "op_table ! unat (insn_op insn) = (name, f)" by fastforce
  have f: "f = (if unat (insn_op insn) = 172 then OpJRST
      else if 448 \<le> unat (insn_op insn) \<and> unat (insn_op insn) < 451 then OpIOT else OpSTD)"
    using op_fun_at [OF insn_op_less [of insn]] e by simp
  show ?thesis
  proof (cases f)
    case OpSTD
    have "NUL \<notin> set name" "CHR 0x09 \<notin> set name" using mnemonicD [OF op_name [OF insn_op_less e]] by simp_all
    then show ?thesis using opSTD_prints [OF assms] OpSTD by (simp add: dasm_def table_index e insn_text_def)
  next
    case OpJRST
    let ?k = "unat (insn_ac insn)"
    have k: "?k < length jrst_table" using insn_ac_less jrst_names by simp
    then have "mnemonic (jrst_table ! ?k)" using jrst_names by (simp add: list_all_length)
    then show ?thesis using plain_prints [OF assms, of jrst_table ?k "jrst_table ! ?k" insn out] OpJRST k
      by (simp add: dasm_def table_index e insn_text_def opJRST_def lookup_def)
  next
    case OpIOT
    let ?k = "16 * (unat (insn_op insn) mod 4) + unat (insn_ac insn)"
    have "448 \<le> unat (insn_op insn)" "unat (insn_op insn) < 451" using f OpIOT by (auto split: if_splits)
    then have "unat (insn_op insn) mod 4 < 3" by presburger
    then have k: "?k < length iot_table" using insn_ac_less [of insn] iot_names by simp
    then have "mnemonic (iot_table ! ?k)" using iot_names by (simp add: list_all_length)
    then show ?thesis using plain_prints [OF assms, of iot_table ?k "iot_table ! ?k" insn out] OpIOT k
      by (simp add: dasm_def table_index iot_index e insn_text_def opIOT_def lookup_def Let_def)
  qed
qed

lemma radix_digits_long: "2 \<le> r \<Longrightarrow> r ^ k \<le> n \<Longrightarrow> k < length (radix_digits r n)"
proof (induction k arbitrary: n)
  case (Suc k)
  have "r * r ^ k \<le> n" using Suc.prems by simp
  then have "r ^ k \<le> n div r" using Suc.prems(1) by (simp add: less_eq_div_iff_mult_less_eq mult.commute)
  moreover have "\<not> n < r"
  proof
    assume "n < r"
    then show False using Suc.prems less_le_trans [of n r "r ^ Suc k"] by simp
  qed
  ultimately show ?case using Suc by (subst radix_digits.simps) simp
qed simp

lemma length_oct_le: "unat v < 8 ^ Suc k \<Longrightarrow> length (oct v) \<le> Suc k"
  unfolding oct_def by (rule digit_text_length) simp_all

lemma length_oct_ge: "8 ^ k \<le> unat v \<Longrightarrow> k < length (oct v)"
  using radix_digits_long [of 8 k "unat v"] by (simp add: oct_def digit_text_def)

lemma length_field_oct: "unat v < 8 ^ Suc k \<Longrightarrow> length (field (int (Suc k)) c (oct v)) = Suc k"
  using length_oct_le [of v k] by (simp add: field_def)

lemma value_zeros: "value_of r (replicate n 0 @ ds) = value_of r ds"
  by (induction n) (simp_all add: value_of_def)

lemma value_field_oct: "value_of 8 (map digit_value (field w (CHR ''0'') (oct v))) = unat v"
proof -
  have "digit_value (CHR ''0'') = 0" by (simp add: digit_value_def lower_digits_def)
  then show ?thesis using digit_text_value [of 8 "unat v"] by (simp add: field_def value_zeros oct_def)
qed

lemma fields_length:
  "length (field 3 c (oct (insn_op insn))) = 3" "length (field 2 c (oct (insn_ac insn))) = 2"
  "length (field 1 c (oct (insn_in insn))) = 1" "length (field 2 c (oct (insn_xr insn))) = 2"
  "length (field 6 c (oct (insn_ea insn))) = 6"
  using length_field_oct [of "insn_op insn" 2 c] length_field_oct [of "insn_ac insn" 1 c] length_field_oct [of "insn_in insn" 0 c]
    length_field_oct [of "insn_xr insn" 1 c] length_field_oct [of "insn_ea insn" 5 c]
  by (simp_all add: unat_fields less_le_trans [OF mod_less_divisor])

lemma length_fields_text: "length (fields_text insn) = 19"
  by (simp add: fields_text_def fields_length)

lemma insn_text_prefix: "\<exists>t. insn_text insn = fields_text insn @ t"
  by (auto simp: insn_text_def std_text_def plain_text_def Let_def split: prod.split op_fun.split)

lemma fields_combine:
  "unat (insn_op insn) * 2 ^ 27 + unat (insn_ac insn) * 2 ^ 23 + unat (insn_in insn) * 2 ^ 22 + unat (insn_xr insn) * 2 ^ 18 +
    unat (insn_ea insn) = unat insn mod 2 ^ 36"
proof -
  have m: "x mod (2 ^ k * 2 ^ n) = 2 ^ k * (x div 2 ^ k mod 2 ^ n) + x mod 2 ^ k" for x k n :: nat
    by (rule mod_mult2_eq)
  show ?thesis
    using m [of "unat insn" 18 4] m [of "unat insn" 22 1] m [of "unat insn" 23 4] m [of "unat insn" 27 9]
    by (simp add: unat_fields)
qed

lemma oct_lengths: "length (oct (insn_ac insn)) \<le> 2" "length (oct (insn_xr insn)) \<le> 2" "length (oct (insn_ea insn)) \<le> 6"
  using length_oct_le [of "insn_ac insn" 1] length_oct_le [of "insn_xr insn" 1] length_oct_le [of "insn_ea insn" 5]
  by (simp_all add: unat_fields less_le_trans [OF mod_less_divisor])

lemma address_length: "length (address_text (insn_ea insn)) \<le> 7"
proof -
  have le: "unat ((NOT v + 1) AND 0x1FFFF :: u32) \<le> 0x1FFFF" for v
    using word_and_le1 [of "NOT v + 1" "0x1FFFF"] by (simp add: word_le_nat_alt)
  then have "length (oct ((NOT v + 1) AND 0x1FFFF)) \<le> 6" for v
    using length_oct_le [of "(NOT v + 1) AND 0x1FFFF" 5] le_less_trans [OF le [of v], of "8 ^ Suc 5"] by simp
  with oct_lengths(3) [of insn] show ?thesis by (simp add: address_text_def)
qed

lemma std_text_short: "length name \<le> 6 \<Longrightarrow> length (std_text name insn) \<le> 41"
  using oct_lengths [of insn] address_length [of insn] length_fields_text [of insn] by (simp add: std_text_def Let_def)

lemma plain_text_short: "length name \<le> 6 \<Longrightarrow> length (plain_text name insn) \<le> 41"
  using oct_lengths [of insn] length_fields_text [of insn] by (simp add: plain_text_def Let_def)

lemma insn_text_short: "length (insn_text insn) \<le> 41"
proof -
  obtain name f where e: "op_table ! unat (insn_op insn) = (name, f)" by fastforce
  have n: "length name \<le> 6" using mnemonicD [OF op_name [OF insn_op_less e]] by simp
  have j: "length (jrst_table ! unat (insn_ac insn)) \<le> 6"
    using jrst_names insn_ac_less [of insn] mnemonicD by (simp add: list_all_length)
  have i: "length (iot_table ! (16 * (unat (insn_op insn) mod 4) + unat (insn_ac insn))) \<le> 6" if "f = OpIOT"
  proof -
    have "448 \<le> unat (insn_op insn)" "unat (insn_op insn) < 451"
      using op_fun_at [OF insn_op_less [of insn]] e that by (auto split: if_splits)
    then have "unat (insn_op insn) mod 4 < 3" by presburger
    then have "16 * (unat (insn_op insn) mod 4) + unat (insn_ac insn) < length iot_table"
      using insn_ac_less [of insn] iot_names by simp
    then show ?thesis using iot_names mnemonicD by (simp add: list_all_length)
  qed
  show ?thesis
    using std_text_short [OF n] plain_text_short [OF j] plain_text_short [OF i]
    by (cases f) (simp_all add: insn_text_def e)
qed

text \<open>C39: every instruction has one line of text, built from the octal fields, the mnemonic of the tables and
  the operands; no table is indexed outside its bounds, whatever the 64 bits are; and the call stays
  within the buffer exactly when the line and its terminating zero fit. 42 characters are always enough.\<close>

theorem dasm_prints:
  assumes "0 < length b"
  shows "dasm b insn out = (if length (insn_text insn) < length b
    then Some (insn_text insn @ NUL # drop (length (insn_text insn) + 1) b, out) else None) \<and>
    length (insn_text insn) \<le> 41"
  using dasm_text [OF assms] insn_text_short by (simp add: text_at_def)

theorem dasm_prints_witness: "\<exists>b'. dasm (replicate 64 NUL) 0x400848000 [] = Some (b', [])"
proof -
  let ?i = "0x400848000 :: u64"
  have "length (insn_text ?i) < 64" using insn_text_short [of ?i] by simp
  then show ?thesis using dasm_prints [of "replicate 64 NUL" ?i "[]"] by simp
qed

text \<open>C38: the instruction can be read back from the line: the five octal fields in the first 18 characters
  are the 36 bits of the instruction.\<close>

theorem dasm_reads_back:
  assumes "dasm b insn out = Some (b', out')" "v = (\<lambda>i n. value_of 8 (map digit_value (take n (drop i b'))))"
  shows "v 0 3 * 2 ^ 27 + v 4 2 * 2 ^ 23 + v 7 1 * 2 ^ 22 + v 9 2 * 2 ^ 18 + v 12 6 = unat insn mod 2 ^ 36"
proof -
  have b: "0 < length b"
  proof (rule ccontr)
    assume "\<not> 0 < length b"
    then have "b = []" by simp
    have "emit_fields insn (0, [], out) = None"
      unfolding emit_fields_def emit_def using sprintf_text [where p = 0 and b = "[]"] text_of_fields [of vsn_signed_text insn] by simp
    then show False using assms(1) \<open>b = []\<close> by (auto simp: dasm_def opSTD_def opIOT_def opJRST_def Let_def split: prod.splits op_fun.splits)
  qed
  obtain t where t: "insn_text insn = fields_text insn @ t" using insn_text_prefix by blast
  have b': "b' = insn_text insn @ NUL # drop (length (insn_text insn) + 1) b"
    using assms(1) unfolding dasm_text [OF b] text_at_def by (auto split: if_splits)
  have "v 0 3 = unat (insn_op insn)" "v 4 2 = unat (insn_ac insn)" "v 7 1 = unat (insn_in insn)"
    "v 9 2 = unat (insn_xr insn)" "v 12 6 = unat (insn_ea insn)"
    unfolding assms(2) b' t fields_text_def by (simp_all add: fields_length value_field_oct)
  then show ?thesis using fields_combine [of insn] by simp
qed

theorem dasm_reads_back_witness:
  "\<exists>b'. dasm (replicate 64 NUL) 0x400848000 [] = Some (b', []) \<and>
     value_of 8 (map digit_value (take 3 b')) * 2 ^ 27 + value_of 8 (map digit_value (take 2 (drop 4 b'))) * 2 ^ 23 +
     value_of 8 (map digit_value (take 1 (drop 7 b'))) * 2 ^ 22 + value_of 8 (map digit_value (take 2 (drop 9 b'))) * 2 ^ 18 +
     value_of 8 (map digit_value (take 6 (drop 12 b'))) = 0x400848000"
proof -
  let ?i = "0x400848000 :: u64"
  have "length (insn_text ?i) < 64" using insn_text_short [of ?i] by simp
  then obtain b' where d: "dasm (replicate 64 NUL) ?i [] = Some (b', [])" using dasm_text [of "replicate 64 NUL" ?i "[]"] by simp
  from dasm_reads_back [OF d refl] d show ?thesis by simp
qed

text \<open>C40: the static buffer of 32 characters is too small. Every standard instruction with an accumulator, an
  index register and a positive address of six octal digits overruns it.\<close>

theorem dasm_overruns:
  assumes "length b = 32" "unat (insn_op insn) \<noteq> 172" "unat (insn_op insn) < 448 \<or> 450 < unat (insn_op insn)"
    and "insn_ac insn \<noteq> 0" "insn_xr insn \<noteq> 0" "0x8000 \<le> unat (insn_ea insn)" "insn_ea insn AND 0x20000 = 0"
  shows "dasm b insn out = None"
proof -
  obtain name f where e: "op_table ! unat (insn_op insn) = (name, f)" by fastforce
  have "f = OpSTD" using op_fun_at [OF insn_op_less [of insn]] e assms(2,3) by auto
  moreover have "2 \<le> length name" using mnemonicD [OF op_name [OF insn_op_less e]] by simp
  moreover have "5 < length (oct (insn_ea insn))" using length_oct_ge [of 5 "insn_ea insn"] assms(6) by simp
  ultimately have "length (insn_text insn) = 19 + (length name + 1) + (length (oct (insn_ac insn)) + 1) +
      (if insn_in insn \<noteq> 0 then 1 else 0) + length (oct (insn_ea insn)) + (length (oct (insn_xr insn)) + 2)"
    "2 \<le> length name" "5 < length (oct (insn_ea insn))"
    using assms(4,5,7) length_fields_text [of insn]
    by (simp_all add: insn_text_def e std_text_def Let_def address_text_def)
  moreover have "1 \<le> length (oct v)" for v by (simp add: Suc_leI)
  note this [of "insn_ac insn"] this [of "insn_xr insn"]
  ultimately have "32 \<le> length (insn_text insn)" by linarith
  then show ?thesis using dasm_text [of b insn out] assms(1) by simp
qed

theorem dasm_overruns_witness: "dasm (replicate 32 NUL) 0x400848000 [] = None"
proof -
  have "length (replicate 32 NUL) = 32" by simp
  from dasm_overruns [OF this, of "0x400848000" "[]"] show ?thesis
    by (simp add: insn_op_def insn_ac_def insn_xr_def insn_ea_def)
qed

end
