(* ===== verification/Ks10.thy ===== *)
theory Ks10
  imports Prelude "HOL-Library.State_Monad"
begin

text \<open>
  The KS10 interface object of \<^verbatim>\<open>ks10.cpp\<close> and \<^verbatim>\<open>ks10.hpp\<close>: the console registers in the FPGA, bus
  cycles to the memory and the devices of the KS10, control of the processor, the register test, the
  console terminal words in memory and the execution of single instructions.

  The FPGA, its pins and the scheduler are a parameter: how the external bus (EPI) answers loads and
  stores of each width, the halt pin, and the passing of time in \<^verbatim>\<open>taskYIELD\<close> and \<^verbatim>\<open>SysCtlDelay\<close>.
  Printed messages are a log. An operation that may not return gives an option: \<^verbatim>\<open>fatal()\<close> loops forever.
\<close>

section \<open>Constants\<close>

definition opJRST :: u64 where "opJRST = 0x15800"
definition opMOVEM :: u64 where "opMOVEM = 0x10400"
definition opAPRID :: u64 where "opAPRID = 0x38000"
definition opRDAPR :: u64 where "opRDAPR = 0x380A0"
definition opRDPI :: u64 where "opRDPI = 0x381A0"
definition opRDUBR :: u64 where "opRDUBR = 0x38220"
definition opRDEBR :: u64 where "opRDEBR = 0x382A0"
definition opRDHSB :: u64 where "opRDHSB = 0x384C0"

definition dataMask :: u64 where "dataMask = 0xFFFFFFFFF"
definition switch_addr :: u64 where "switch_addr = 0x18"
definition kasw_addr :: u64 where "kasw_addr = 0x19"
definition ctyin_addr :: u64 where "ctyin_addr = 0x1A"
definition ctyout_addr :: u64 where "ctyout_addr = 0x1B"
definition klnin_addr :: u64 where "klnin_addr = 0x1C"
definition klnout_addr :: u64 where "klnout_addr = 0x1D"
definition rhbase_addr :: u64 where "rhbase_addr = 0x1E"
definition rhunit_addr :: u64 where "rhunit_addr = 0x1F"
definition mtparm_addr :: u64 where "mtparm_addr = 0x20"
definition cty_valid :: u64 where "cty_valid = 0x100"

definition flagRead :: u64 where "flagRead = 0x100000000"
definition flagWrite :: u64 where "flagWrite = 0x40000000"
definition flagPhys :: u64 where "flagPhys = 0x8000000"
definition flagIO :: u64 where "flagIO = 0x2000000"
definition flagByte :: u64 where "flagByte = 0x400000"
definition memAddrMask :: u64 where "memAddrMask = 0xFFFFF"
definition ioAddrMask :: u64 where "ioAddrMask = 0x3FFFFF"

definition statGO :: u64 where "statGO = 0x10000"
definition statNXMNXD :: u64 where "statNXMNXD = 0x200"
definition statRUN :: u64 where "statRUN = 0x80"
definition statCONT :: u64 where "statCONT = 0x40"
definition statEXEC :: u64 where "statEXEC = 0x20"
definition statTIMEREN :: u64 where "statTIMEREN = 0x10"
definition statTRAPEN :: u64 where "statTRAPEN = 0x8"
definition statCACHEEN :: u64 where "statCACHEEN = 0x4"
definition statINTR :: u64 where "statINTR = 0x2"
definition statRESET :: u64 where "statRESET = 0x1"

definition regAddr :: u32 where "regAddr = 0x60000000"
definition regData :: u32 where "regData = 0x60000008"
definition regStat :: u32 where "regStat = 0x60000010"
definition regCIR :: u32 where "regCIR = 0x60000018"
definition regDZCCR :: u32 where "regDZCCR = 0x60000020"
definition regLPCCR :: u32 where "regLPCCR = 0x60000024"
definition regRPCCR :: u32 where "regRPCCR = 0x60000028"
definition regDUPCCR :: u32 where "regDUPCCR = 0x6000002C"
definition regRH11Debug :: u32 where "regRH11Debug = 0x60000030"
definition regDCSR :: u32 where "regDCSR = 0x60000038"
definition regDBAR :: u32 where "regDBAR = 0x60000040"
definition regDBMR :: u32 where "regDBMR = 0x60000048"
definition regDITR :: u32 where "regDITR = 0x60000050"
definition regDPCIR :: u32 where "regDPCIR = 0x60000060"
definition regVers :: u32 where "regVers = 0x60000078"

lemmas reg_defs = regAddr_def regData_def regStat_def regCIR_def regDZCCR_def regLPCCR_def regRPCCR_def
  regDUPCCR_def regRH11Debug_def regDCSR_def regDBAR_def regDBMR_def regDITR_def regDPCIR_def regVers_def

lemmas stat_defs = statGO_def statNXMNXD_def statRUN_def statCONT_def statEXEC_def statTIMEREN_def statTRAPEN_def
  statCACHEEN_def statINTR_def statRESET_def

lemmas bus_defs = dataMask_def flagRead_def flagWrite_def flagPhys_def flagIO_def flagByte_def memAddrMask_def ioAddrMask_def

section \<open>The hardware and the state of the object\<close>

text \<open>Accesses to the bus by width, the halt pin, the scheduler, a delay, and clearing a pin interrupt.\<close>

record 'w epi =
  e_rd64 :: "u32 \<Rightarrow> 'w \<Rightarrow> u64 \<times> 'w"
  e_wr64 :: "u32 \<Rightarrow> u64 \<Rightarrow> 'w \<Rightarrow> 'w"
  e_rd32 :: "u32 \<Rightarrow> 'w \<Rightarrow> u32 \<times> 'w"
  e_wr32 :: "u32 \<Rightarrow> u32 \<Rightarrow> 'w \<Rightarrow> 'w"
  e_rd16 :: "u32 \<Rightarrow> 'w \<Rightarrow> u16 \<times> 'w"
  e_rd8 :: "u32 \<Rightarrow> 'w \<Rightarrow> byte \<times> 'w"
  e_halt_pin :: "'w \<Rightarrow> bool \<times> 'w"
  e_yield :: "'w \<Rightarrow> 'w"
  e_delay :: "u32 \<Rightarrow> 'w \<Rightarrow> 'w"
  e_int_clear :: "'w \<Rightarrow> 'w"

text \<open>What is printed: plain messages, those with values, and for the commands a format with numbers, the usage
  text of a command, and a format with numbers and strings.\<close>

datatype message =
    Text string
  | Checking string nat
  | RegFailure string u64 u64
  | Firmware "byte list"
  | Printf string "u64 list"
  | Usage string
  | Shown string "u64 list" "string list"

record haltStatusWord =
  hsw_status :: u64
  hsw_pc :: u64

record haltStatusBlock =
  hsb_mag :: u64
  hsb_pc :: u64
  hsb_hr :: u64
  hsb_ar :: u64
  hsb_arx :: u64
  hsb_br :: u64
  hsb_brx :: u64
  hsb_one :: u64
  hsb_ebr :: u64
  hsb_ubr :: u64
  hsb_mask :: u64
  hsb_flg :: u64
  hsb_pi :: u64
  hsb_x1 :: u64
  hsb_t0 :: u64
  hsb_t1 :: u64
  hsb_vma :: u64

text \<open>The state: the hardware, the messages so far, and whether halt interrupts are dispatched.\<close>

record 'w ks10 =
  k_epi :: 'w
  k_log :: "message list"
  k_dispatch :: bool

definition on_epi :: "('w \<Rightarrow> 'a \<times> 'w) \<Rightarrow> ('w ks10, 'a) state" where
  "on_epi f = State (\<lambda>s. let (a, w) = f (k_epi s) in (a, s\<lparr>k_epi := w\<rparr>))"

definition do_epi :: "('w \<Rightarrow> 'w) \<Rightarrow> ('w ks10, unit) state" where
  "do_epi f = State (\<lambda>s. ((), s\<lparr>k_epi := f (k_epi s)\<rparr>))"

definition say :: "message \<Rightarrow> ('w ks10, unit) state" where
  "say m = State (\<lambda>s. ((), s\<lparr>k_log := k_log s @ [m]\<rparr>))"

definition set_dispatch :: "bool \<Rightarrow> ('w ks10, unit) state" where
  "set_dispatch b = State (\<lambda>s. ((), s\<lparr>k_dispatch := b\<rparr>))"

text \<open>A sequence of steps that may not return.\<close>

type_synonym ('w, 'a) action = "'w ks10 \<Rightarrow> ('a \<times> 'w ks10) option"

definition act :: "('w ks10, 'a) state \<Rightarrow> ('w, 'a) action" where
  "act m s = Some (run_state m s)"

lemma run_on_epi [simp]: "run_state (on_epi f) s = (let (a, w) = f (k_epi s) in (a, s\<lparr>k_epi := w\<rparr>))"
  by (simp add: on_epi_def)

lemma run_do_epi [simp]: "run_state (do_epi f) s = ((), s\<lparr>k_epi := f (k_epi s)\<rparr>)"
  by (simp add: do_epi_def)

lemma run_say [simp]: "run_state (say m) s = ((), s\<lparr>k_log := k_log s @ [m]\<rparr>)"
  by (simp add: say_def)

lemma run_set_dispatch [simp]: "run_state (set_dispatch b) s = ((), s\<lparr>k_dispatch := b\<rparr>)"
  by (simp add: set_dispatch_def)

section \<open>Register access\<close>

definition readReg64 :: "'w epi \<Rightarrow> u32 \<Rightarrow> ('w ks10, u64) state" where
  "readReg64 ops r = on_epi (e_rd64 ops r)"

definition writeReg64 :: "'w epi \<Rightarrow> u32 \<Rightarrow> u64 \<Rightarrow> ('w ks10, unit) state" where
  "writeReg64 ops r d = do_epi (e_wr64 ops r d)"

definition readReg32 :: "'w epi \<Rightarrow> u32 \<Rightarrow> ('w ks10, u32) state" where
  "readReg32 ops r = on_epi (e_rd32 ops r)"

definition writeReg32 :: "'w epi \<Rightarrow> u32 \<Rightarrow> u32 \<Rightarrow> ('w ks10, unit) state" where
  "writeReg32 ops r d = do_epi (e_wr32 ops r d)"

definition readRegStat :: "'w epi \<Rightarrow> ('w ks10, u64) state" where
  "readRegStat ops = readReg64 ops regStat"

definition writeRegStat :: "'w epi \<Rightarrow> u64 \<Rightarrow> ('w ks10, unit) state" where
  "writeRegStat ops = writeReg64 ops regStat"

definition readRegAddr :: "'w epi \<Rightarrow> ('w ks10, u64) state" where
  "readRegAddr ops = readReg64 ops regAddr"

definition writeRegAddr :: "'w epi \<Rightarrow> u64 \<Rightarrow> ('w ks10, unit) state" where
  "writeRegAddr ops = writeReg64 ops regAddr"

definition readRegData :: "'w epi \<Rightarrow> ('w ks10, u64) state" where
  "readRegData ops = readReg64 ops regData"

definition writeRegData :: "'w epi \<Rightarrow> u64 \<Rightarrow> ('w ks10, unit) state" where
  "writeRegData ops = writeReg64 ops regData"

definition readRegCIR :: "'w epi \<Rightarrow> ('w ks10, u64) state" where
  "readRegCIR ops = readReg64 ops regCIR"

definition writeRegCIR :: "'w epi \<Rightarrow> u64 \<Rightarrow> ('w ks10, unit) state" where
  "writeRegCIR ops = writeReg64 ops regCIR"

section \<open>Bus cycles\<close>

text \<open>Up to 100 looks at the GO bit; then the timeout is reported and the caller goes on.\<close>

fun go_loop :: "'w epi \<Rightarrow> nat \<Rightarrow> ('w ks10, unit) state" where
  "go_loop ops 0 = say (Text ''GO-bit timeout'')"
| "go_loop ops (Suc i) = do {
     st \<leftarrow> readRegStat ops;
     if st AND statGO = 0 then State_Monad.return ()
     else do { do_epi (e_yield ops); go_loop ops i } }"

definition go :: "'w epi \<Rightarrow> ('w ks10, unit) state" where
  "go ops = do {
     st \<leftarrow> readRegStat ops;
     writeRegStat ops (st OR statGO);
     go_loop ops 100 }"

definition readMem :: "'w epi \<Rightarrow> u64 \<Rightarrow> ('w ks10, u64) state" where
  "readMem ops addr = do {
     writeRegAddr ops ((addr AND memAddrMask) OR flagRead OR flagPhys);
     go ops;
     d \<leftarrow> readRegData ops;
     State_Monad.return (dataMask AND d) }"

definition writeMem :: "'w epi \<Rightarrow> u64 \<Rightarrow> u64 \<Rightarrow> ('w ks10, unit) state" where
  "writeMem ops addr data = do {
     writeRegAddr ops ((addr AND memAddrMask) OR flagWrite OR flagPhys);
     writeRegData ops data;
     go ops }"

definition readIO :: "'w epi \<Rightarrow> u64 \<Rightarrow> ('w ks10, u64) state" where
  "readIO ops addr = do {
     writeRegAddr ops ((addr AND ioAddrMask) OR flagRead OR flagPhys OR flagIO);
     go ops;
     d \<leftarrow> readRegData ops;
     State_Monad.return (dataMask AND d) }"

definition writeIO :: "'w epi \<Rightarrow> u64 \<Rightarrow> u64 \<Rightarrow> ('w ks10, unit) state" where
  "writeIO ops addr data = do {
     writeRegAddr ops ((addr AND ioAddrMask) OR flagWrite OR flagPhys OR flagIO);
     writeRegData ops data;
     go ops }"

definition readIObyte :: "'w epi \<Rightarrow> u64 \<Rightarrow> ('w ks10, u16) state" where
  "readIObyte ops addr = do {
     writeRegAddr ops ((addr AND ioAddrMask) OR flagRead OR flagPhys OR flagIO OR flagByte);
     go ops;
     d \<leftarrow> readRegData ops;
     State_Monad.return (ucast (0xFFFF AND d)) }"

definition writeIObyte :: "'w epi \<Rightarrow> u64 \<Rightarrow> u16 \<Rightarrow> ('w ks10, unit) state" where
  "writeIObyte ops addr data = do {
     writeRegAddr ops ((addr AND ioAddrMask) OR flagWrite OR flagPhys OR flagIO OR flagByte);
     writeRegData ops (ucast data);
     go ops }"

section \<open>Device and debug registers\<close>

definition readDUPCCR :: "'w epi \<Rightarrow> ('w ks10, u32) state" where
  "readDUPCCR ops = on_epi (e_rd32 ops regDUPCCR)"

definition writeDUPCCR :: "'w epi \<Rightarrow> u32 \<Rightarrow> ('w ks10, unit) state" where
  "writeDUPCCR ops d = do_epi (e_wr32 ops regDUPCCR d)"

definition readDZCCR :: "'w epi \<Rightarrow> ('w ks10, u32) state" where
  "readDZCCR ops = on_epi (e_rd32 ops regDZCCR)"

definition writeDZCCR :: "'w epi \<Rightarrow> u32 \<Rightarrow> ('w ks10, unit) state" where
  "writeDZCCR ops d = do_epi (e_wr32 ops regDZCCR d)"

definition readLPCCR :: "'w epi \<Rightarrow> ('w ks10, u32) state" where
  "readLPCCR ops = on_epi (e_rd32 ops regLPCCR)"

definition writeLPCCR :: "'w epi \<Rightarrow> u32 \<Rightarrow> ('w ks10, unit) state" where
  "writeLPCCR ops d = do_epi (e_wr32 ops regLPCCR d)"

definition readRPCCR :: "'w epi \<Rightarrow> ('w ks10, u32) state" where
  "readRPCCR ops = on_epi (e_rd32 ops regRPCCR)"

definition writeRPCCR :: "'w epi \<Rightarrow> u32 \<Rightarrow> ('w ks10, unit) state" where
  "writeRPCCR ops d = do_epi (e_wr32 ops regRPCCR d)"

definition readDCSR :: "'w epi \<Rightarrow> ('w ks10, u64) state" where
  "readDCSR ops = readReg64 ops regDCSR"

definition writeDCSR :: "'w epi \<Rightarrow> u64 \<Rightarrow> ('w ks10, unit) state" where
  "writeDCSR ops = writeReg64 ops regDCSR"

definition readDBAR :: "'w epi \<Rightarrow> ('w ks10, u64) state" where
  "readDBAR ops = readReg64 ops regDBAR"

definition writeDBAR :: "'w epi \<Rightarrow> u64 \<Rightarrow> ('w ks10, unit) state" where
  "writeDBAR ops = writeReg64 ops regDBAR"

definition readDBMR :: "'w epi \<Rightarrow> ('w ks10, u64) state" where
  "readDBMR ops = readReg64 ops regDBMR"

definition writeDBMR :: "'w epi \<Rightarrow> u64 \<Rightarrow> ('w ks10, unit) state" where
  "writeDBMR ops = writeReg64 ops regDBMR"

text \<open>The trace register is read in four 16-bit loads.\<close>

definition readDITR :: "'w epi \<Rightarrow> ('w ks10, u64) state" where
  "readDITR ops = do {
     a \<leftarrow> on_epi (e_rd16 ops regDITR);
     b \<leftarrow> on_epi (e_rd16 ops (regDITR + 2));
     c \<leftarrow> on_epi (e_rd16 ops (regDITR + 4));
     d \<leftarrow> on_epi (e_rd16 ops (regDITR + 6));
     State_Monad.return (ucast a OR push_bit 16 (ucast b) OR push_bit 32 (ucast c) OR push_bit 48 (ucast d)) }"

definition readDPCIR :: "'w epi \<Rightarrow> ('w ks10, u64) state" where
  "readDPCIR ops = on_epi (e_rd64 ops regDPCIR)"

definition getRH11debug :: "'w epi \<Rightarrow> ('w ks10, u64) state" where
  "getRH11debug ops = on_epi (e_rd64 ops regRH11Debug)"

section \<open>Control of the processor\<close>

text \<open>Set or clear one bit of the status register, and look at one.\<close>

definition set_stat :: "'w epi \<Rightarrow> u64 \<Rightarrow> bool \<Rightarrow> ('w ks10, unit) state" where
  "set_stat ops b enable = do {
     status \<leftarrow> readRegStat ops;
     if enable then writeRegStat ops (status OR b) else writeRegStat ops (status AND NOT b) }"

definition get_stat :: "'w epi \<Rightarrow> u64 \<Rightarrow> ('w ks10, bool) state" where
  "get_stat ops b = do {
     status \<leftarrow> readRegStat ops;
     State_Monad.return (status AND b \<noteq> 0) }"

definition or_stat :: "'w epi \<Rightarrow> u64 \<Rightarrow> ('w ks10, unit) state" where
  "or_stat ops b = do {
     status \<leftarrow> readRegStat ops;
     writeRegStat ops (b OR status) }"

definition set_run :: "'w epi \<Rightarrow> bool \<Rightarrow> ('w ks10, unit) state" where
  "set_run ops = set_stat ops statRUN"

definition get_run :: "'w epi \<Rightarrow> ('w ks10, bool) state" where
  "get_run ops = get_stat ops statRUN"

definition cont :: "'w epi \<Rightarrow> ('w ks10, bool) state" where
  "cont ops = get_stat ops statCONT"

definition exec :: "'w epi \<Rightarrow> ('w ks10, bool) state" where
  "exec ops = get_stat ops statEXEC"

definition execute :: "'w epi \<Rightarrow> ('w ks10, unit) state" where
  "execute ops = or_stat ops (statCONT OR statEXEC)"

definition step :: "'w epi \<Rightarrow> ('w ks10, unit) state" where
  "step ops = or_stat ops statCONT"

definition contin :: "'w epi \<Rightarrow> ('w ks10, unit) state" where
  "contin ops = or_stat ops (statRUN OR statCONT)"

definition begin_cir :: "'w epi \<Rightarrow> ('w ks10, unit) state" where
  "begin_cir ops = or_stat ops (statRUN OR statCONT OR statEXEC)"

definition halt :: "'w epi \<Rightarrow> ('w ks10, bool) state" where
  "halt ops = on_epi (e_halt_pin ops)"

definition get_timerEnable :: "'w epi \<Rightarrow> ('w ks10, bool) state" where
  "get_timerEnable ops = get_stat ops statTIMEREN"

definition set_timerEnable :: "'w epi \<Rightarrow> bool \<Rightarrow> ('w ks10, unit) state" where
  "set_timerEnable ops = set_stat ops statTIMEREN"

definition get_trapEnable :: "'w epi \<Rightarrow> ('w ks10, bool) state" where
  "get_trapEnable ops = get_stat ops statTRAPEN"

definition set_trapEnable :: "'w epi \<Rightarrow> bool \<Rightarrow> ('w ks10, unit) state" where
  "set_trapEnable ops = set_stat ops statTRAPEN"

definition get_cacheEnable :: "'w epi \<Rightarrow> ('w ks10, bool) state" where
  "get_cacheEnable ops = get_stat ops statCACHEEN"

definition set_cacheEnable :: "'w epi \<Rightarrow> bool \<Rightarrow> ('w ks10, unit) state" where
  "set_cacheEnable ops = set_stat ops statCACHEEN"

definition get_cpuReset :: "'w epi \<Rightarrow> ('w ks10, bool) state" where
  "get_cpuReset ops = get_stat ops statRESET"

definition set_cpuReset :: "'w epi \<Rightarrow> bool \<Rightarrow> ('w ks10, unit) state" where
  "set_cpuReset ops = set_stat ops statRESET"

definition cpuIntr :: "'w epi \<Rightarrow> ('w ks10, unit) state" where
  "cpuIntr ops = do {
     status \<leftarrow> readRegStat ops;
     writeRegStat ops (status OR statINTR);
     do_epi (e_delay ops 10);
     writeRegStat ops status }"

definition nxmnxd :: "'w epi \<Rightarrow> ('w ks10, bool) state" where
  "nxmnxd ops = do {
     reg \<leftarrow> readRegStat ops;
     writeRegStat ops (reg AND NOT statNXMNXD);
     State_Monad.return (reg AND statNXMNXD \<noteq> 0) }"

text \<open>The halt interrupt; its handler is a parameter.\<close>

definition gpiodIntHandler :: "'w epi \<Rightarrow> ('w ks10, unit) state \<Rightarrow> ('w ks10, unit) state" where
  "gpiodIntHandler ops haltIntrHandler = do {
     s \<leftarrow> State_Monad.get;
     (if k_dispatch s then haltIntrHandler else State_Monad.return ());
     do_epi (e_int_clear ops) }"

section \<open>Boot\<close>

text \<open>A failed check is fatal unless debugging.\<close>

definition check :: "bool \<Rightarrow> ('w ks10, bool) state \<Rightarrow> string \<Rightarrow> ('w, unit) action" where
  "check debug bad m s = do {
     (b, s) \<leftarrow> act bad s;
     (if b then do {
        (u, s) \<leftarrow> act (say (Text m)) s;
        if debug then Some ((), s) else None }
      else Some ((), s)) }"

definition negate :: "('w ks10, bool) state \<Rightarrow> ('w ks10, bool) state" where
  "negate m = do { b \<leftarrow> m; State_Monad.return (\<not> b) }"

definition boot :: "'w epi \<Rightarrow> bool \<Rightarrow> ('w, unit) action" where
  "boot ops debug s = do {
     (u, s) \<leftarrow> check debug (negate (get_cpuReset ops)) ''KS10: CPU should be reset.'' s;
     (u, s) \<leftarrow> check debug (halt ops) ''KS10: CPU should not be halted.'' s;
     (u, s) \<leftarrow> check debug (get_run ops) ''KS10: CPU should not be running.'' s;
     (u, s) \<leftarrow> act (set_cpuReset ops False) s;
     (u, s) \<leftarrow> check debug (get_cpuReset ops) ''KS10: CPU should be not be reset.'' s;
     (u, s) \<leftarrow> check debug (halt ops) ''KS10: CPU should not be halted.'' s;
     check debug (get_run ops) ''KS10: CPU should not be running.'' s }"

fun waitHalt_loop :: "'w epi \<Rightarrow> nat \<Rightarrow> ('w ks10, bool) state" where
  "waitHalt_loop ops 0 = State_Monad.return False"
| "waitHalt_loop ops (Suc i) = do {
     h \<leftarrow> halt ops;
     if h then State_Monad.return True
     else do { do_epi (e_yield ops); waitHalt_loop ops i } }"

definition waitHalt :: "'w epi \<Rightarrow> bool \<Rightarrow> ('w, unit) action" where
  "waitHalt ops debug s = do {
     (h, s) \<leftarrow> act (waitHalt_loop ops 1000) s;
     (if h then Some ((), s)
      else do {
        (u, s) \<leftarrow> act (say (Text ''KS10: Timeout waiting for KS10 to initialize.'')) s;
        if debug then Some ((), s) else None }) }"

text \<open>The version register is read byte by byte; it answers \<^verbatim>\<open>REVxx.yy\<close> with the top bit of the dot set.\<close>

fun read_bytes :: "'w epi \<Rightarrow> u32 \<Rightarrow> nat \<Rightarrow> ('w ks10, byte list) state" where
  "read_bytes ops r 0 = State_Monad.return []"
| "read_bytes ops r (Suc n) = do {
     b \<leftarrow> on_epi (e_rd8 ops r);
     bs \<leftarrow> read_bytes ops (r + 1) n;
     State_Monad.return (b # bs) }"

definition checkFirmware :: "'w epi \<Rightarrow> bool \<Rightarrow> ('w, unit) action" where
  "checkFirmware ops debug s = do {
     (buf, s) \<leftarrow> act (read_bytes ops regVers 8) s;
     (if buf ! 0 = 0x52 \<and> buf ! 1 = 0x45 \<and> buf ! 2 = 0x56 \<and> buf ! 5 = 0xAE
      then act (say (Firmware (map (\<lambda>b. b AND 0x7F) buf))) s
      else if debug then act (say (Firmware buf)) s
      else None) }"

section \<open>Register test\<close>

partial_function (option) walk64 :: "'w epi \<Rightarrow> u32 \<Rightarrow> string \<Rightarrow> bool \<Rightarrow> u64 \<Rightarrow> u64 \<Rightarrow> bool \<Rightarrow> ('w, bool) action" where
  "walk64 ops addr name debug msk write64 success s =
     (if write64 = 0 then Some (success, s)
      else do {
        (read64, s) \<leftarrow> act (do { writeReg64 ops addr write64; readReg64 ops addr }) s;
        (if read64 AND msk \<noteq> write64 AND msk then do {
           (u, s) \<leftarrow> act (if debug then say (RegFailure name read64 write64) else State_Monad.return ()) s;
           walk64 ops addr name debug msk (push_bit 1 write64) False s }
         else walk64 ops addr name debug msk (push_bit 1 write64) success s) })"

definition testReg64 :: "'w epi \<Rightarrow> u32 \<Rightarrow> string \<Rightarrow> bool \<Rightarrow> u64 \<Rightarrow> ('w, bool) action" where
  "testReg64 ops addr name debug msk s = do {
     (u, s) \<leftarrow> act (if debug then say (Checking name 64) else State_Monad.return ()) s;
     (saved, s) \<leftarrow> act (readReg64 ops addr) s;
     (success, s) \<leftarrow> walk64 ops addr name debug msk 1 True s;
     (u, s) \<leftarrow> act (writeReg64 ops addr saved) s;
     Some (success, s) }"

partial_function (option) walk32 :: "'w epi \<Rightarrow> u32 \<Rightarrow> string \<Rightarrow> bool \<Rightarrow> u32 \<Rightarrow> u32 \<Rightarrow> bool \<Rightarrow> ('w, bool) action" where
  "walk32 ops addr name debug msk write32 success s =
     (if write32 = 0 then Some (success, s)
      else do {
        (read32, s) \<leftarrow> act (do { writeReg32 ops addr write32; readReg32 ops addr }) s;
        (if read32 AND msk \<noteq> write32 AND msk then do {
           (u, s) \<leftarrow> act (if debug then say (RegFailure name (ucast read32) (ucast write32)) else State_Monad.return ()) s;
           walk32 ops addr name debug msk (push_bit 1 write32) False s }
         else walk32 ops addr name debug msk (push_bit 1 write32) success s) })"

definition testReg32 :: "'w epi \<Rightarrow> u32 \<Rightarrow> string \<Rightarrow> bool \<Rightarrow> u32 \<Rightarrow> ('w, bool) action" where
  "testReg32 ops addr name debug msk s = do {
     (u, s) \<leftarrow> act (if debug then say (Checking name 32) else State_Monad.return ()) s;
     (saved, s) \<leftarrow> act (readReg32 ops addr) s;
     (success, s) \<leftarrow> walk32 ops addr name debug msk 1 True s;
     (u, s) \<leftarrow> act (writeReg32 ops addr saved) s;
     Some (success, s) }"

definition testRegs :: "'w epi \<Rightarrow> bool \<Rightarrow> ('w, unit) action" where
  "testRegs ops debug s = do {
     (u, s) \<leftarrow> act (if debug then say (Text ''KS10: Console Interface Register test.'') else State_Monad.return ()) s;
     (t1, s) \<leftarrow> testReg64 ops regAddr ''regADDR  '' debug 0xFFFFFFFFF s;
     (t2, s) \<leftarrow> testReg64 ops regData ''regDATA  '' debug 0xFFFFFFFFF s;
     (t3, s) \<leftarrow> testReg64 ops regCIR ''regCIR   '' debug 0xFFFFFFFFF s;
     (t4, s) \<leftarrow> testReg32 ops regDZCCR ''regDZCCR '' debug 0xFFFFFFFF s;
     (t5, s) \<leftarrow> testReg32 ops regLPCCR ''regLPCCR '' debug 0xFFFFFFF0 s;
     (t6, s) \<leftarrow> testReg32 ops regRPCCR ''regRPCCR '' debug 0xFFFFFFFF s;
     (t7, s) \<leftarrow> testReg32 ops regDUPCCR ''regDUPCCR'' debug 0x7F001FFF s;
     (t8, s) \<leftarrow> testReg64 ops regDBAR ''regDBAR  '' debug 0xFFFFFFFFF s;
     (t9, s) \<leftarrow> testReg64 ops regDBMR ''regDBMR  '' debug 0xFFFFFFFFF s;
     (if t1 \<and> t2 \<and> t3 \<and> t4 \<and> t5 \<and> t6 \<and> t7 \<and> t8 \<and> t9
      then act (say (Text ''KS10: Console Interface Register test completed successfully.'')) s
      else do {
        (u, s) \<leftarrow> act (say (Text ''KS10: Fatal - Console Interface Register test failed.'')) s;
        if debug then Some ((), s) else None }) }"

section \<open>Halt status\<close>

definition getHaltStatusWord :: "'w epi \<Rightarrow> ('w ks10, haltStatusWord) state" where
  "getHaltStatusWord ops = do {
     st \<leftarrow> readMem ops 0;
     pc \<leftarrow> readMem ops 1;
     State_Monad.return \<lparr>hsw_status = st, hsw_pc = pc\<rparr> }"

definition getHaltStatusBlock :: "'w epi \<Rightarrow> u64 \<Rightarrow> ('w ks10, haltStatusBlock) state" where
  "getHaltStatusBlock ops addr = do {
     mag0 \<leftarrow> readMem ops (addr + 0);
     pc0 \<leftarrow> readMem ops (addr + 1);
     hr0 \<leftarrow> readMem ops (addr + 2);
     ar0 \<leftarrow> readMem ops (addr + 3);
     arx0 \<leftarrow> readMem ops (addr + 4);
     br0 \<leftarrow> readMem ops (addr + 5);
     brx0 \<leftarrow> readMem ops (addr + 6);
     one0 \<leftarrow> readMem ops (addr + 7);
     ebr0 \<leftarrow> readMem ops (addr + 8);
     ubr0 \<leftarrow> readMem ops (addr + 9);
     mask0 \<leftarrow> readMem ops (addr + 10);
     flg0 \<leftarrow> readMem ops (addr + 11);
     pi0 \<leftarrow> readMem ops (addr + 12);
     x10 \<leftarrow> readMem ops (addr + 13);
     t00 \<leftarrow> readMem ops (addr + 14);
     t10 \<leftarrow> readMem ops (addr + 15);
     vma0 \<leftarrow> readMem ops (addr + 16);
     State_Monad.return \<lparr>hsb_mag = mag0, hsb_pc = pc0, hsb_hr = hr0, hsb_ar = ar0, hsb_arx = arx0, hsb_br = br0, hsb_brx = brx0, hsb_one = one0, hsb_ebr = ebr0,
       hsb_ubr = ubr0, hsb_mask = mask0, hsb_flg = flg0, hsb_pi = pi0, hsb_x1 = x10, hsb_t0 = t00, hsb_t1 = t10, hsb_vma = vma0\<rparr> }"

section \<open>The console terminal words\<close>

definition ks_putchar :: "'w epi \<Rightarrow> u32 \<Rightarrow> ('w ks10, unit) state" where
  "ks_putchar ops ch = do {
     cty_in \<leftarrow> readMem ops ctyin_addr;
     if cty_in AND cty_valid = 0 then do {
       writeMem ops ctyin_addr (cty_valid OR ucast (ch AND 0xFF));
       cpuIntr ops }
     else State_Monad.return () }"

definition ks_getchar :: "'w epi \<Rightarrow> ('w ks10, int) state" where
  "ks_getchar ops = do {
     cty_out \<leftarrow> readMem ops ctyout_addr;
     if cty_out AND cty_valid \<noteq> 0 then do {
       writeMem ops ctyout_addr 0;
       State_Monad.return (uint (cty_out AND 0x7F)) }
     else State_Monad.return (-1) }"

section \<open>Executing one instruction\<close>

partial_function (option) halt_loop :: "'w epi \<Rightarrow> ('w, unit) action" where
  "halt_loop ops s = do {
     (h, s) \<leftarrow> act (halt ops) s;
     (if h then Some ((), s) else halt_loop ops s) }"

definition executeInstruction :: "'w epi \<Rightarrow> u64 \<Rightarrow> ('w, unit) action" where
  "executeInstruction ops insn s = do {
     (u, s) \<leftarrow> act (do { set_dispatch False; writeRegCIR ops insn; execute ops }) s;
     (u, s) \<leftarrow> halt_loop ops s;
     act (set_dispatch True) s }"

definition setDataAndExecuteInstruction :: "'w epi \<Rightarrow> u64 \<Rightarrow> u64 \<Rightarrow> u64 \<Rightarrow> ('w, unit) action" where
  "setDataAndExecuteInstruction ops insn data tempAddr s = do {
     (tempData, s) \<leftarrow> act (readMem ops tempAddr) s;
     (u, s) \<leftarrow> act (writeMem ops tempAddr data) s;
     (u, s) \<leftarrow> executeInstruction ops insn s;
     act (writeMem ops tempAddr tempData) s }"

definition executeInstructionAndGetData :: "'w epi \<Rightarrow> u64 \<Rightarrow> u64 \<Rightarrow> ('w, u64) action" where
  "executeInstructionAndGetData ops insn tempAddr s = do {
     (tempData, s) \<leftarrow> act (readMem ops tempAddr) s;
     (u, s) \<leftarrow> executeInstruction ops insn s;
     (data, s) \<leftarrow> act (readMem ops tempAddr) s;
     (u, s) \<leftarrow> act (writeMem ops tempAddr tempData) s;
     Some (data, s) }"

definition lh :: "u64 \<Rightarrow> u32" where
  "lh data = ucast (drop_bit 18 data AND 0x3FFFF)"

definition rh :: "u64 \<Rightarrow> u32" where
  "rh data = ucast (data AND 0x3FFFF)"

text \<open>The loops are executable.\<close>

declare walk64.simps [code]
  walk32.simps [code]
  halt_loop.simps [code]

end
