(* ===== verification/Ks10Bus.thy ===== *)
theory Ks10Bus
  imports Ks10
begin

text \<open>
  What the console relies on in the FPGA, as contracts: the console port of the bus with a halted
  processor, and a processor that executes one instruction and halts again. Bus cycles and single
  instructions are proved against the contracts; a simulated FPGA satisfies them.
\<close>

section \<open>The console port\<close>

definition ports :: "u32 set" where
  "ports = {regAddr, regData, regCIR}"

text \<open>The effect of the bus cycle that the address register asks for.\<close>

definition cycle_mem :: "(u32 \<Rightarrow> u64) \<Rightarrow> (u64 \<Rightarrow> u64) \<Rightarrow> u64 \<Rightarrow> u64" where
  "cycle_mem r m =
     (if r regAddr AND flagRead = 0 \<and> r regAddr AND flagWrite \<noteq> 0
      then m(r regAddr AND memAddrMask := r regData) else m)"

definition cycle_regs :: "(u32 \<Rightarrow> u64) \<Rightarrow> (u64 \<Rightarrow> u64) \<Rightarrow> u32 \<Rightarrow> u64" where
  "cycle_regs r m =
     (if r regAddr AND flagRead \<noteq> 0 then r(regData := m (r regAddr AND memAddrMask)) else r)"

text \<open>
  The port: \<open>reg\<close> holds the 36-bit console registers, \<open>mem\<close> the memory, \<open>ctl\<close> the status bits other than
  GO, and \<open>busy\<close> the number of looks at the status register that still show GO. A cycle shows it less
  than 100 times; nothing else changes the memory.
\<close>

locale console_port =
  fixes ops :: "'w epi" and sound :: "'w \<Rightarrow> bool" and busy :: "'w \<Rightarrow> nat"
    and reg :: "'w \<Rightarrow> u32 \<Rightarrow> u64" and mem :: "'w \<Rightarrow> u64 \<Rightarrow> u64" and ctl :: "'w \<Rightarrow> u64"
  assumes ctl_go: "sound w \<Longrightarrow> ctl w AND statGO = 0"
    and mem_width: "sound w \<Longrightarrow> dataMask AND mem w a = mem w a"
    and rd_stat: "sound w \<Longrightarrow> e_rd64 ops regStat w = (d, w') \<Longrightarrow>
      sound w' \<and> mem w' = mem w \<and> reg w' = reg w \<and> ctl w' = ctl w \<and> busy w' = busy w - 1 \<and>
      d = (if busy w = 0 then ctl w else ctl w OR statGO)"
    and yield: "sound w \<Longrightarrow> w' = e_yield ops w \<Longrightarrow>
      sound w' \<and> mem w' = mem w \<and> reg w' = reg w \<and> ctl w' = ctl w \<and> busy w' \<le> busy w"
    and rd_port: "sound w \<Longrightarrow> busy w = 0 \<Longrightarrow> r \<in> ports \<Longrightarrow> e_rd64 ops r w = (d, w') \<Longrightarrow>
      sound w' \<and> mem w' = mem w \<and> reg w' = reg w \<and> ctl w' = ctl w \<and> busy w' = 0 \<and> d = reg w r"
    and wr_port: "sound w \<Longrightarrow> busy w = 0 \<Longrightarrow> r \<in> ports \<Longrightarrow> w' = e_wr64 ops r d w \<Longrightarrow>
      sound w' \<and> mem w' = mem w \<and> reg w' = (reg w)(r := d AND dataMask) \<and> ctl w' = ctl w \<and> busy w' = 0"
    and start: "sound w \<Longrightarrow> busy w = 0 \<Longrightarrow> reg w regAddr AND flagIO = 0 \<Longrightarrow> w' = e_wr64 ops regStat (ctl w OR statGO) w \<Longrightarrow>
      sound w' \<and> mem w' = cycle_mem (reg w) (mem w) \<and> reg w' = cycle_regs (reg w) (mem w) \<and> ctl w' = ctl w \<and> busy w' < 100"
begin

definition idle :: "'w \<Rightarrow> bool" where
  "idle w \<longleftrightarrow> sound w \<and> busy w = 0"

lemma idleD: "idle w \<Longrightarrow> sound w" "idle w \<Longrightarrow> busy w = 0"
  by (simp_all add: idle_def)

text \<open>Waiting for the end of a cycle.\<close>

lemma go_loop_ends:
  "sound (k_epi s) \<Longrightarrow> busy (k_epi s) < n \<Longrightarrow>
    \<exists>w'. run_state (go_loop ops n) s = ((), s\<lparr>k_epi := w'\<rparr>) \<and> idle w' \<and>
      mem w' = mem (k_epi s) \<and> reg w' = reg (k_epi s) \<and> ctl w' = ctl (k_epi s)"
proof (induction n arbitrary: s)
  case (Suc n)
  obtain d w1 where r: "e_rd64 ops regStat (k_epi s) = (d, w1)" by fastforce
  note st = rd_stat [OF Suc.prems(1) r]
  show ?case
  proof (cases "busy (k_epi s) = 0")
    case True
    then have "d AND statGO = 0" using st ctl_go [OF Suc.prems(1)] by simp
    then show ?thesis using r st True
      by (intro exI [of _ w1]) (simp add: readRegStat_def readReg64_def idle_def)
  next
    case False
    have go: "statGO \<noteq> 0" by (simp add: statGO_def)
    have "(ctl (k_epi s) OR statGO) AND statGO = statGO" by (rule bit_word_eqI) (auto simp: bit_simps)
    with False go have "d AND statGO \<noteq> 0" using st by simp
    then have e: "run_state (go_loop ops (Suc n)) s = run_state (go_loop ops n) (s\<lparr>k_epi := e_yield ops w1\<rparr>)"
      using r by (simp add: readRegStat_def readReg64_def)
    have y: "sound (e_yield ops w1) \<and> mem (e_yield ops w1) = mem w1 \<and> reg (e_yield ops w1) = reg w1 \<and>
        ctl (e_yield ops w1) = ctl w1 \<and> busy (e_yield ops w1) \<le> busy w1"
      by (rule yield) (use st in auto)
    have "busy (e_yield ops w1) < n" using y st Suc.prems(2) False by linarith
    then show ?thesis using Suc.IH [of "s\<lparr>k_epi := e_yield ops w1\<rparr>"] y st e by simp
  qed
qed simp

lemma go_cycle:
  assumes "idle (k_epi s)" "reg (k_epi s) regAddr AND flagIO = 0"
  shows "\<exists>w'. run_state (go ops) s = ((), s\<lparr>k_epi := w'\<rparr>) \<and> idle w' \<and>
    mem w' = cycle_mem (reg (k_epi s)) (mem (k_epi s)) \<and> reg w' = cycle_regs (reg (k_epi s)) (mem (k_epi s)) \<and>
    ctl w' = ctl (k_epi s)"
proof -
  obtain d w1 where r: "e_rd64 ops regStat (k_epi s) = (d, w1)" by fastforce
  note st = rd_stat [OF idleD(1) [OF assms(1)] r]
  let ?w = "e_wr64 ops regStat (ctl w1 OR statGO) w1"
  have b: "busy w1 = 0" "d = ctl w1" using st idleD(2) [OF assms(1)] by simp_all
  have g: "sound ?w \<and> mem ?w = cycle_mem (reg w1) (mem w1) \<and> reg ?w = cycle_regs (reg w1) (mem w1) \<and> ctl ?w = ctl w1 \<and> busy ?w < 100"
    by (rule start) (use st b assms(2) in auto)
  have "run_state (go ops) s = run_state (go_loop ops 100) (s\<lparr>k_epi := ?w\<rparr>)"
    using r b by (simp add: go_def readRegStat_def writeRegStat_def readReg64_def writeReg64_def)
  then show ?thesis using go_loop_ends [of "s\<lparr>k_epi := ?w\<rparr>" 100] g st by simp
qed

text \<open>The state after an operation that only changes the memory.\<close>

definition after :: "'w \<Rightarrow> (u64 \<Rightarrow> u64) \<Rightarrow> 'w \<Rightarrow> bool" where
  "after w m w' \<longleftrightarrow> idle w' \<and> mem w' = m \<and> reg w' regCIR = reg w regCIR \<and> ctl w' = ctl w"

lemma masked_address:
  "((a AND memAddrMask) OR flagRead OR flagPhys) AND dataMask = (a AND memAddrMask) OR flagRead OR flagPhys"
  "((a AND memAddrMask) OR flagWrite OR flagPhys) AND dataMask = (a AND memAddrMask) OR flagWrite OR flagPhys"
  "((a AND memAddrMask) OR flagRead OR flagPhys) AND memAddrMask = a AND memAddrMask"
  "((a AND memAddrMask) OR flagWrite OR flagPhys) AND memAddrMask = a AND memAddrMask"
  unfolding bus_defs by (simp_all add: bit.conj_disj_distrib2 and.assoc)

lemma address_flags:
  "((a AND memAddrMask) OR flagRead OR flagPhys) AND flagIO = 0"
  "((a AND memAddrMask) OR flagRead OR flagPhys) AND flagRead = flagRead"
  "((a AND memAddrMask) OR flagWrite OR flagPhys) AND flagIO = 0"
  "((a AND memAddrMask) OR flagWrite OR flagPhys) AND flagRead = 0"
  "((a AND memAddrMask) OR flagWrite OR flagPhys) AND flagWrite = flagWrite"
  "flagRead \<noteq> 0" "flagWrite \<noteq> 0"
  unfolding bus_defs by (simp_all add: bit.conj_disj_distrib2 and.assoc)

lemma readMem_reads:
  assumes "idle (k_epi s)"
  shows "\<exists>w'. run_state (readMem ops a) s = (mem (k_epi s) (a AND memAddrMask), s\<lparr>k_epi := w'\<rparr>) \<and>
    after (k_epi s) (mem (k_epi s)) w'"
proof -
  let ?w = "k_epi s" and ?a = "(a AND memAddrMask) OR flagRead OR flagPhys"
  let ?w1 = "e_wr64 ops regAddr ?a ?w"
  have w1: "sound ?w1 \<and> mem ?w1 = mem ?w \<and> reg ?w1 = (reg ?w)(regAddr := ?a AND dataMask) \<and> ctl ?w1 = ctl ?w \<and> busy ?w1 = 0"
    by (rule wr_port [OF idleD(1) [OF assms] idleD(2) [OF assms] _ refl]) (simp add: ports_def)
  have i1: "idle ?w1" and r1: "reg ?w1 regAddr = ?a" using w1 by (simp_all add: idle_def masked_address)
  obtain w2 where g: "run_state (go ops) (s\<lparr>k_epi := ?w1\<rparr>) = ((), s\<lparr>k_epi := w2\<rparr>)" and w2: "idle w2"
      "mem w2 = cycle_mem (reg ?w1) (mem ?w1)" "reg w2 = cycle_regs (reg ?w1) (mem ?w1)" "ctl w2 = ctl ?w1"
    using go_cycle [of "s\<lparr>k_epi := ?w1\<rparr>"] i1 r1 by (auto simp: address_flags)
  obtain d w3 where d: "e_rd64 ops regData w2 = (d, w3)" by fastforce
  have w3: "sound w3 \<and> mem w3 = mem w2 \<and> reg w3 = reg w2 \<and> ctl w3 = ctl w2 \<and> busy w3 = 0 \<and> d = reg w2 regData"
    by (rule rd_port [OF idleD(1) [OF w2(1)] idleD(2) [OF w2(1)] _ d]) (simp add: ports_def)
  have m: "mem w2 = mem ?w" "reg w2 regData = mem ?w (a AND memAddrMask)" "reg w2 regCIR = reg ?w regCIR"
    using w1 by (simp_all add: w2 cycle_mem_def cycle_regs_def r1 address_flags masked_address) (simp_all add: reg_defs)
  have "run_state (readMem ops a) s = (dataMask AND d, s\<lparr>k_epi := w3\<rparr>)"
    using g d by (simp add: readMem_def writeRegAddr_def writeReg64_def readRegData_def readReg64_def)
  then show ?thesis using w3 w2 w1 m mem_width [OF idleD(1) [OF assms]]
    by (intro exI [of _ w3]) (simp add: after_def idle_def)
qed

lemma writeMem_writes:
  assumes "idle (k_epi s)"
  shows "\<exists>w'. run_state (writeMem ops a d) s = ((), s\<lparr>k_epi := w'\<rparr>) \<and>
    after (k_epi s) ((mem (k_epi s))(a AND memAddrMask := d AND dataMask)) w'"
proof -
  let ?w = "k_epi s" and ?a = "(a AND memAddrMask) OR flagWrite OR flagPhys"
  let ?w1 = "e_wr64 ops regAddr ?a ?w"
  let ?w2 = "e_wr64 ops regData d ?w1"
  have w1: "sound ?w1 \<and> mem ?w1 = mem ?w \<and> reg ?w1 = (reg ?w)(regAddr := ?a AND dataMask) \<and> ctl ?w1 = ctl ?w \<and> busy ?w1 = 0"
    by (rule wr_port [OF idleD(1) [OF assms] idleD(2) [OF assms] _ refl]) (simp add: ports_def)
  have w2: "sound ?w2 \<and> mem ?w2 = mem ?w1 \<and> reg ?w2 = (reg ?w1)(regData := d AND dataMask) \<and> ctl ?w2 = ctl ?w1 \<and> busy ?w2 = 0"
    by (rule wr_port [OF _ _ _ refl]) (use w1 in \<open>simp_all add: ports_def\<close>)
  have i2: "idle ?w2" and r2: "reg ?w2 regAddr = ?a" "reg ?w2 regData = d AND dataMask"
    using w1 w2 by (simp_all add: idle_def masked_address) (simp add: reg_defs masked_address)
  obtain w3 where g: "run_state (go ops) (s\<lparr>k_epi := ?w2\<rparr>) = ((), s\<lparr>k_epi := w3\<rparr>)" and w3: "idle w3"
      "mem w3 = cycle_mem (reg ?w2) (mem ?w2)" "reg w3 = cycle_regs (reg ?w2) (mem ?w2)" "ctl w3 = ctl ?w2"
    using go_cycle [of "s\<lparr>k_epi := ?w2\<rparr>"] i2 r2 by (auto simp: address_flags)
  have m: "mem w3 = (mem ?w)(a AND memAddrMask := d AND dataMask)" "reg w3 regCIR = reg ?w regCIR"
    using w1 w2 by (simp_all add: w3 cycle_mem_def cycle_regs_def r2 address_flags masked_address) (simp_all add: reg_defs)
  have "run_state (writeMem ops a d) s = ((), s\<lparr>k_epi := w3\<rparr>)"
    using g by (simp add: writeMem_def writeRegAddr_def writeRegData_def writeReg64_def)
  then show ?thesis using w3 w2 w1 m by (intro exI [of _ w3]) (simp add: after_def)
qed

lemma writeCIR_writes:
  assumes "idle (k_epi s)"
  shows "\<exists>w'. run_state (writeRegCIR ops d) s = ((), s\<lparr>k_epi := w'\<rparr>) \<and> idle w' \<and> mem w' = mem (k_epi s) \<and>
    reg w' regCIR = d AND dataMask \<and> ctl w' = ctl (k_epi s)"
proof -
  let ?w = "k_epi s"
  have "sound (e_wr64 ops regCIR d ?w) \<and> mem (e_wr64 ops regCIR d ?w) = mem ?w \<and>
      reg (e_wr64 ops regCIR d ?w) = (reg ?w)(regCIR := d AND dataMask) \<and> ctl (e_wr64 ops regCIR d ?w) = ctl ?w \<and>
      busy (e_wr64 ops regCIR d ?w) = 0"
    by (rule wr_port [OF idleD(1) [OF assms] idleD(2) [OF assms] _ refl]) (simp add: ports_def)
  then show ?thesis
    by (intro exI [of _ "e_wr64 ops regCIR d ?w"]) (simp add: writeRegCIR_def writeReg64_def idle_def)
qed

end

section \<open>A processor that executes one instruction\<close>

lemma dispatch_epi [simp]: "s\<lparr>k_dispatch := b, k_epi := w\<rparr> = s\<lparr>k_epi := w, k_dispatch := b\<rparr>"
  by (cases s) simp

text \<open>
  \<open>exec\<close> is the effect of the instruction in the CIR on memory. After EXEC and CONT are set the machine is
  \<open>active\<close>: it will show the halt pin after some more looks, with the memory that the instruction leaves.
\<close>

locale console_cpu = console_port +
  fixes exec :: "u64 \<Rightarrow> (u64 \<Rightarrow> u64) \<Rightarrow> u64 \<Rightarrow> u64"
    and active :: "'a \<Rightarrow> nat \<Rightarrow> (u64 \<Rightarrow> u64) \<Rightarrow> u64 \<Rightarrow> bool"
  assumes exec_start: "idle w \<Longrightarrow> (\<exists>n. active (e_wr64 ops regStat (statCONT OR statEXEC OR ctl w) w) n (exec (reg w regCIR) (mem w)) (ctl w))"
    and exec_poll: "active w n m c \<Longrightarrow> e_halt_pin ops w = (h, w') \<Longrightarrow>
      (case n of 0 \<Rightarrow> h \<and> idle w' \<and> mem w' = m \<and> ctl w' = c | Suc k \<Rightarrow> \<not> h \<and> active w' k m c)"
begin

lemma halt_loop_ends:
  "active (k_epi s) n m c \<Longrightarrow>
    \<exists>w'. halt_loop ops s = Some ((), s\<lparr>k_epi := w'\<rparr>) \<and> idle w' \<and> mem w' = m \<and> ctl w' = c"
proof (induction n arbitrary: s)
  case 0
  obtain h w1 where p: "e_halt_pin ops (k_epi s) = (h, w1)" by fastforce
  then show ?case using exec_poll [OF 0 p]
    by (intro exI [of _ w1], subst halt_loop.simps) (simp add: act_def halt_def)
next
  case (Suc n)
  obtain h w1 where p: "e_halt_pin ops (k_epi s) = (h, w1)" by fastforce
  then have "halt_loop ops s = halt_loop ops (s\<lparr>k_epi := w1\<rparr>)" using exec_poll [OF Suc.prems p]
    by (subst halt_loop.simps) (simp add: act_def halt_def)
  then show ?case using Suc.IH [of "s\<lparr>k_epi := w1\<rparr>"] exec_poll [OF Suc.prems p] by simp
qed

lemma executeInstruction_runs:
  assumes "idle (k_epi s)"
  shows "\<exists>w'. executeInstruction ops insn s = Some ((), s\<lparr>k_epi := w', k_dispatch := True\<rparr>) \<and> idle w' \<and>
    mem w' = exec (insn AND dataMask) (mem (k_epi s)) \<and> ctl w' = ctl (k_epi s)"
proof -
  let ?w = "k_epi s"
  obtain w1 where w: "run_state (writeRegCIR ops insn) (s\<lparr>k_dispatch := False\<rparr>) = ((), s\<lparr>k_epi := w1, k_dispatch := False\<rparr>)"
    and w1: "idle w1" "mem w1 = mem ?w" "reg w1 regCIR = insn AND dataMask" "ctl w1 = ctl ?w"
    using writeCIR_writes [of "s\<lparr>k_dispatch := False\<rparr>" insn] assms by auto
  obtain d w2 where r: "e_rd64 ops regStat w1 = (d, w2)" by fastforce
  note st = rd_stat [OF idleD(1) [OF w1(1)] r]
  have i2: "idle w2" and d: "d = ctl w2" using st idleD(2) [OF w1(1)] by (simp_all add: idle_def)
  let ?w3 = "e_wr64 ops regStat (statCONT OR statEXEC OR ctl w2) w2"
  obtain n where a: "active ?w3 n (exec (reg w2 regCIR) (mem w2)) (ctl w2)" using exec_start [OF i2] by blast
  have e: "run_state (execute ops) (s\<lparr>k_epi := w1, k_dispatch := False\<rparr>) = ((), s\<lparr>k_epi := ?w3, k_dispatch := False\<rparr>)"
    using r d by (simp add: execute_def or_stat_def readRegStat_def readReg64_def writeRegStat_def writeReg64_def or.assoc)
  obtain w4 where "halt_loop ops (s\<lparr>k_epi := ?w3, k_dispatch := False\<rparr>) = Some ((), s\<lparr>k_epi := w4, k_dispatch := False\<rparr>)"
    and w4: "idle w4" "mem w4 = exec (reg w2 regCIR) (mem w2)" "ctl w4 = ctl w2"
    using halt_loop_ends [of "s\<lparr>k_epi := ?w3, k_dispatch := False\<rparr>" n "exec (reg w2 regCIR) (mem w2)" "ctl w2"] a by auto
  then have "executeInstruction ops insn s = Some ((), s\<lparr>k_epi := w4, k_dispatch := True\<rparr>)"
    using w e by (simp add: executeInstruction_def act_def)
  then show ?thesis using w4 w1 st by (intro exI [of _ w4]) simp
qed

lemma getData_restores:
  assumes "idle (k_epi s)" "t AND memAddrMask = a"
  shows "\<exists>w'. executeInstructionAndGetData ops insn t s =
      Some (exec (insn AND dataMask) (mem (k_epi s)) a, s\<lparr>k_epi := w', k_dispatch := True\<rparr>) \<and>
    idle w' \<and> mem w' = (exec (insn AND dataMask) (mem (k_epi s)))(a := mem (k_epi s) a) \<and> ctl w' = ctl (k_epi s)"
proof -
  let ?m = "mem (k_epi s)" and ?m' = "exec (insn AND dataMask) (mem (k_epi s))"
  obtain w1 where r1: "run_state (readMem ops t) s = (?m a, s\<lparr>k_epi := w1\<rparr>)" and w1: "after (k_epi s) ?m w1"
    using readMem_reads [OF assms(1), of t] assms(2) by blast
  have i1: "idle w1" "mem w1 = ?m" "ctl w1 = ctl (k_epi s)" using w1 by (simp_all add: after_def)
  obtain w2 where r2: "executeInstruction ops insn (s\<lparr>k_epi := w1\<rparr>) = Some ((), s\<lparr>k_epi := w2, k_dispatch := True\<rparr>)"
    and w2: "idle w2" "mem w2 = ?m'" "ctl w2 = ctl w1"
    using executeInstruction_runs [of "s\<lparr>k_epi := w1\<rparr>" insn] i1 by auto
  obtain w3 where r3: "run_state (readMem ops t) (s\<lparr>k_epi := w2, k_dispatch := True\<rparr>) = (?m' a, s\<lparr>k_epi := w3, k_dispatch := True\<rparr>)"
    and w3: "after w2 ?m' w3"
    using readMem_reads [of "s\<lparr>k_epi := w2, k_dispatch := True\<rparr>" t] w2 assms(2) by auto
  have i3: "idle w3" "mem w3 = ?m'" "ctl w3 = ctl w2" using w3 by (simp_all add: after_def)
  obtain w4 where r4: "run_state (writeMem ops t (?m a)) (s\<lparr>k_epi := w3, k_dispatch := True\<rparr>) = ((), s\<lparr>k_epi := w4, k_dispatch := True\<rparr>)"
    and w4: "after w3 (?m'(a := ?m a AND dataMask)) w4"
    using writeMem_writes [of "s\<lparr>k_epi := w3, k_dispatch := True\<rparr>" t "?m a"] i3 assms(2) by auto
  have mw: "?m a AND dataMask = ?m a" using mem_width [OF idleD(1) [OF assms(1)], of a] by (simp add: ac_simps)
  have "executeInstructionAndGetData ops insn t s = Some (?m' a, s\<lparr>k_epi := w4, k_dispatch := True\<rparr>)"
    using r1 r2 r3 r4 by (simp add: executeInstructionAndGetData_def act_def)
  then show ?thesis using w4 i3 w2 i1 mw by (intro exI [of _ w4]) (simp add: after_def)
qed

end

section \<open>A simulated FPGA\<close>

text \<open>
  The console port of \<^verbatim>\<open>src/fpga/ks10/csl/csl.v\<close> with a halted processor: the registers have 36 bits; a
  store with GO to the status register starts a bus cycle on the address register, which shows GO for as many
  looks as its latency; a store with EXEC and CONT starts the processor, which halts after some looks at
  the pin. Latencies are taken from a list. The only instruction simulated is MOVEM of an accumulator.
\<close>

record csl =
  c_reg :: "u32 \<Rightarrow> u64"
  c_mem :: "u64 \<Rightarrow> u64"
  c_ctl :: u64
  c_busy :: nat
  c_work :: "nat option"
  c_lat :: "nat list"
  c_acs :: "u64 \<Rightarrow> u64"

definition next_lat :: "csl \<Rightarrow> nat" where
  "next_lat w = (case c_lat w of [] \<Rightarrow> 0 | n # _ \<Rightarrow> n mod 100)"

definition sim_insn :: "(u64 \<Rightarrow> u64) \<Rightarrow> u64 \<Rightarrow> (u64 \<Rightarrow> u64) \<Rightarrow> u64 \<Rightarrow> u64" where
  "sim_insn acs insn m =
     (if drop_bit 27 insn = drop_bit 9 opMOVEM
      then m(insn AND 0x3FFFF := acs (drop_bit 23 insn AND 0xF) AND dataMask) else m)"

definition csl_rd64 :: "u32 \<Rightarrow> csl \<Rightarrow> u64 \<times> csl" where
  "csl_rd64 r w =
     (if r = regStat then (if c_busy w = 0 then c_ctl w else c_ctl w OR statGO, w\<lparr>c_busy := c_busy w - 1\<rparr>)
      else (c_reg w r, w))"

definition csl_wr64 :: "u32 \<Rightarrow> u64 \<Rightarrow> csl \<Rightarrow> csl" where
  "csl_wr64 r d w =
     (if r = regStat then
        (if d AND statGO \<noteq> 0 then
           w\<lparr>c_reg := cycle_regs (c_reg w) (c_mem w), c_mem := cycle_mem (c_reg w) (c_mem w),
             c_busy := next_lat w, c_lat := tl (c_lat w)\<rparr>
         else if d AND statEXEC \<noteq> 0 \<and> d AND statCONT \<noteq> 0 then w\<lparr>c_work := Some (next_lat w), c_lat := tl (c_lat w)\<rparr>
         else w\<lparr>c_ctl := d\<rparr>)
      else w\<lparr>c_reg := (c_reg w)(r := d AND dataMask)\<rparr>)"

definition csl_pin :: "csl \<Rightarrow> bool \<times> csl" where
  "csl_pin w =
     (case c_work w of
        None \<Rightarrow> (True, w)
      | Some 0 \<Rightarrow> (True, w\<lparr>c_work := None, c_mem := sim_insn (c_acs w) (c_reg w regCIR) (c_mem w)\<rparr>)
      | Some (Suc n) \<Rightarrow> (False, w\<lparr>c_work := Some n\<rparr>))"

definition csl_epi :: "csl epi" where
  "csl_epi = \<lparr>e_rd64 = csl_rd64, e_wr64 = csl_wr64,
     e_rd32 = (\<lambda>r w. (ucast (c_reg w r), w)), e_wr32 = (\<lambda>r d w. w\<lparr>c_reg := (c_reg w)(r := ucast d)\<rparr>),
     e_rd16 = (\<lambda>r w. (0, w)), e_rd8 = (\<lambda>r w. (0, w)), e_halt_pin = csl_pin,
     e_yield = (\<lambda>w. w), e_delay = (\<lambda>_ w. w), e_int_clear = (\<lambda>w. w)\<rparr>"

definition csl_sound :: "(u64 \<Rightarrow> u64) \<Rightarrow> csl \<Rightarrow> bool" where
  "csl_sound acs w \<longleftrightarrow> c_ctl w AND statGO = 0 \<and> c_work w = None \<and> c_acs w = acs \<and>
     (\<forall>a. dataMask AND c_mem w a = c_mem w a) \<and> (\<forall>r \<in> ports. dataMask AND c_reg w r = c_reg w r)"

definition csl_active :: "(u64 \<Rightarrow> u64) \<Rightarrow> csl \<Rightarrow> nat \<Rightarrow> (u64 \<Rightarrow> u64) \<Rightarrow> u64 \<Rightarrow> bool" where
  "csl_active acs w n m c \<longleftrightarrow> c_work w = Some n \<and> c_busy w = 0 \<and> csl_sound acs (w\<lparr>c_work := None\<rparr>) \<and>
     m = sim_insn acs (c_reg w regCIR) (c_mem w) \<and> c = c_ctl w"

lemma mem_address: "(a AND memAddrMask) AND memAddrMask = a AND memAddrMask"
  by (simp add: and.assoc)

lemma data_masked [simp]: "dataMask AND (d AND dataMask) = d AND dataMask"
  by (simp add: ac_simps)

lemma port_not_stat: "r \<in> ports \<Longrightarrow> r \<noteq> regStat"
  by (auto simp: ports_def reg_defs)

lemma csl_sound_write:
  "csl_sound acs w \<Longrightarrow> csl_sound acs (w\<lparr>c_reg := (c_reg w)(r := d AND dataMask)\<rparr>)"
  by (auto simp: csl_sound_def)

lemma csl_sound_cycle:
  "csl_sound acs w \<Longrightarrow>
    csl_sound acs (w\<lparr>c_reg := cycle_regs (c_reg w) (c_mem w), c_mem := cycle_mem (c_reg w) (c_mem w), c_busy := n, c_lat := l\<rparr>)"
  by (auto simp: csl_sound_def cycle_regs_def cycle_mem_def ports_def)

lemma csl_sound_busy: "csl_sound acs (w\<lparr>c_busy := n\<rparr>) = csl_sound acs w" "csl_sound acs (w\<lparr>c_lat := l\<rparr>) = csl_sound acs w"
  by (simp_all add: csl_sound_def)

lemma sim_insn_width:
  "(\<And>a. dataMask AND m a = m a) \<Longrightarrow> dataMask AND sim_insn acs insn m a = sim_insn acs insn m a"
  by (simp add: sim_insn_def)

interpretation csp: console_port csl_epi "csl_sound acs" c_busy c_reg c_mem c_ctl
proof unfold_locales
  fix w w' :: csl and d :: u64 and r :: u32
  show "csl_sound acs w \<Longrightarrow> c_ctl w AND statGO = 0" by (simp add: csl_sound_def)
  show "csl_sound acs w \<Longrightarrow> dataMask AND c_mem w a = c_mem w a" for a by (simp add: csl_sound_def)
  show "csl_sound acs w \<Longrightarrow> e_rd64 csl_epi regStat w = (d, w') \<Longrightarrow>
      csl_sound acs w' \<and> c_mem w' = c_mem w \<and> c_reg w' = c_reg w \<and> c_ctl w' = c_ctl w \<and> c_busy w' = c_busy w - 1 \<and>
      d = (if c_busy w = 0 then c_ctl w else c_ctl w OR statGO)"
    by (auto simp: csl_epi_def csl_rd64_def csl_sound_busy)
  show "csl_sound acs w \<Longrightarrow> w' = e_yield csl_epi w \<Longrightarrow>
      csl_sound acs w' \<and> c_mem w' = c_mem w \<and> c_reg w' = c_reg w \<and> c_ctl w' = c_ctl w \<and> c_busy w' \<le> c_busy w"
    by (simp add: csl_epi_def)
  show "csl_sound acs w \<Longrightarrow> c_busy w = 0 \<Longrightarrow> r \<in> ports \<Longrightarrow> e_rd64 csl_epi r w = (d, w') \<Longrightarrow>
      csl_sound acs w' \<and> c_mem w' = c_mem w \<and> c_reg w' = c_reg w \<and> c_ctl w' = c_ctl w \<and> c_busy w' = 0 \<and> d = c_reg w r"
    using port_not_stat by (auto simp: csl_epi_def csl_rd64_def)
  show "csl_sound acs w \<Longrightarrow> c_busy w = 0 \<Longrightarrow> r \<in> ports \<Longrightarrow> w' = e_wr64 csl_epi r d w \<Longrightarrow>
      csl_sound acs w' \<and> c_mem w' = c_mem w \<and> c_reg w' = (c_reg w)(r := d AND dataMask) \<and> c_ctl w' = c_ctl w \<and> c_busy w' = 0"
    using port_not_stat csl_sound_write by (auto simp: csl_epi_def csl_wr64_def)
  have go: "(c AND statGO \<noteq> 0)" if "c = x OR statGO" for c x :: u64
    unfolding that by (simp add: statGO_def bit.conj_disj_distrib2)
  show "csl_sound acs w \<Longrightarrow> c_busy w = 0 \<Longrightarrow> c_reg w regAddr AND flagIO = 0 \<Longrightarrow> w' = e_wr64 csl_epi regStat (c_ctl w OR statGO) w \<Longrightarrow>
      csl_sound acs w' \<and> c_mem w' = cycle_mem (c_reg w) (c_mem w) \<and> c_reg w' = cycle_regs (c_reg w) (c_mem w) \<and>
      c_ctl w' = c_ctl w \<and> c_busy w' < 100"
    using csl_sound_cycle go [OF refl] by (simp add: csl_epi_def csl_wr64_def next_lat_def split: list.split)
qed

interpretation cs: console_cpu csl_epi "csl_sound acs" c_busy c_reg c_mem c_ctl "sim_insn acs" "csl_active acs"
proof
  fix w :: csl
  assume i: "console_port.idle (csl_sound acs) c_busy w"
  then have s: "csl_sound acs w" "c_busy w = 0" by (simp_all add: csp.idle_def)
  let ?d = "statCONT OR statEXEC OR c_ctl w"
  have "c_ctl w AND statGO = 0" using s by (simp add: csl_sound_def)
  then have d: "?d AND statGO = 0" by (simp add: bit.conj_disj_distrib2) (simp add: stat_defs)
  have e: "?d AND statEXEC = statEXEC" "?d AND statCONT = statCONT" "statEXEC \<noteq> 0" "statCONT \<noteq> 0"
  proof -
    show "?d AND statEXEC = statEXEC" "?d AND statCONT = statCONT" by (rule bit_word_eqI, auto simp: bit_simps)+
  qed (simp_all add: stat_defs)
  have w: "c_work w = None" using s by (simp add: csl_sound_def)
  have "e_wr64 csl_epi regStat ?d w = w\<lparr>c_work := Some (next_lat w), c_lat := tl (c_lat w)\<rparr>"
    by (simp add: csl_epi_def csl_wr64_def d e)
  moreover have "csl_active acs (w\<lparr>c_work := Some (next_lat w), c_lat := tl (c_lat w)\<rparr>) (next_lat w)
      (sim_insn acs (c_reg w regCIR) (c_mem w)) (c_ctl w)"
    using s w by (simp add: csl_active_def csl_sound_def)
  ultimately show "\<exists>n. csl_active acs (e_wr64 csl_epi regStat ?d w) n (sim_insn acs (c_reg w regCIR) (c_mem w)) (c_ctl w)"
    by auto
next
  fix w w' :: csl and n m c h
  assume a: "csl_active acs w n m c" and p: "e_halt_pin csl_epi w = (h, w')"
  show "case n of 0 \<Rightarrow> h \<and> console_port.idle (csl_sound acs) c_busy w' \<and> c_mem w' = m \<and> c_ctl w' = c
      | Suc k \<Rightarrow> \<not> h \<and> csl_active acs w' k m c"
    using a p sim_insn_width [of "c_mem w" acs "c_reg w regCIR"]
    by (cases n) (auto simp: csl_epi_def csl_pin_def csl_active_def csl_sound_def csp.idle_def)
qed

end
