(* ===== verification/Ks10Ops.thy ===== *)
theory Ks10Ops
  imports Ks10Bus
begin

text \<open>
  What the KS10 interface object promises: bus cycles implement a memory, executing an instruction
  returns when the processor halts, and the register test detects faulty data lines.
\<close>

section \<open>Memory\<close>

datatype mem_op = Rd u64 | Wr u64 u64

fun run_ops :: "'w epi \<Rightarrow> mem_op list \<Rightarrow> ('w ks10, u64 list) state" where
  "run_ops ops [] = State_Monad.return []"
| "run_ops ops (Rd a # ps) = do { d \<leftarrow> readMem ops a; ds \<leftarrow> run_ops ops ps; State_Monad.return (d # ds) }"
| "run_ops ops (Wr a d # ps) = do { writeMem ops a d; run_ops ops ps }"

fun spec_ops :: "mem_op list \<Rightarrow> (u64 \<Rightarrow> u64) \<Rightarrow> u64 list \<times> (u64 \<Rightarrow> u64)" where
  "spec_ops [] m = ([], m)"
| "spec_ops (Rd a # ps) m = (let (ds, m') = spec_ops ps m in (m (a AND memAddrMask) # ds, m'))"
| "spec_ops (Wr a d # ps) m = spec_ops ps (m(a AND memAddrMask := d AND dataMask))"

context console_port
begin

lemma run_ops_refines:
  "idle (k_epi s) \<Longrightarrow> \<exists>w'. run_state (run_ops ops ps) s = (fst (spec_ops ps (mem (k_epi s))), s\<lparr>k_epi := w'\<rparr>) \<and>
    after (k_epi s) (snd (spec_ops ps (mem (k_epi s)))) w'"
proof (induction ps arbitrary: s)
  case Nil
  then show ?case by (intro exI [of _ "k_epi s"]) (simp add: after_def)
next
  case (Cons p ps)
  show ?case
  proof (cases p)
    case (Rd a)
    obtain w1 where r: "run_state (readMem ops a) s = (mem (k_epi s) (a AND memAddrMask), s\<lparr>k_epi := w1\<rparr>)"
      and w1: "after (k_epi s) (mem (k_epi s)) w1" using readMem_reads [OF Cons.prems] by blast
    show ?thesis using Cons.IH [of "s\<lparr>k_epi := w1\<rparr>"] w1 r
      by (auto simp: Rd after_def split_beta)
  next
    case (Wr a d)
    obtain w1 where r: "run_state (writeMem ops a d) s = ((), s\<lparr>k_epi := w1\<rparr>)"
      and w1: "after (k_epi s) ((mem (k_epi s))(a AND memAddrMask := d AND dataMask)) w1"
      using writeMem_writes [OF Cons.prems] by blast
    show ?thesis using Cons.IH [of "s\<lparr>k_epi := w1\<rparr>"] w1 r
      by (auto simp: Wr after_def simp del: fun_upd_apply)
  qed
qed

end

text \<open>C4: on a console port, any sequence of \<open>readMem\<close> and \<open>writeMem\<close> calls behaves like a
  memory of words of 36 bits with 20-bit addresses: the reads return what the abstract memory holds, the
  memory of the machine ends as the abstract one, no message is printed, the console instruction register
  and the control bits keep their values, and the port is ready again.\<close>

lemma memory_refines:
  assumes "console_port ops sound busy reg mem ctl" "sound (k_epi s)" "busy (k_epi s) = 0"
  shows "\<exists>w'. run_state (run_ops ops ps) s = (fst (spec_ops ps (mem (k_epi s))), s\<lparr>k_epi := w'\<rparr>) \<and>
    mem w' = snd (spec_ops ps (mem (k_epi s))) \<and> reg w' regCIR = reg (k_epi s) regCIR \<and> ctl w' = ctl (k_epi s) \<and>
    sound w' \<and> busy w' = 0"
  using console_port.run_ops_refines [OF assms(1), of s ps] assms(2,3)
  unfolding console_port.idle_def [OF assms(1)] console_port.after_def [OF assms(1)] by blast

text \<open>A port with memory contents 1000 plus address, a slow first cycle and accumulators 1 to 16.\<close>

definition demo_acs :: "u64 \<Rightarrow> u64" where
  "demo_acs n = n + 1"

definition demo_csl :: csl where
  "demo_csl = \<lparr>c_reg = (\<lambda>_. 0), c_mem = (\<lambda>a. (1000 + a) AND dataMask), c_ctl = 0, c_busy = 0, c_work = None,
     c_lat = [40, 3, 99], c_acs = demo_acs\<rparr>"

definition demo_ks :: "csl ks10" where
  "demo_ks = \<lparr>k_epi = demo_csl, k_log = [], k_dispatch = True\<rparr>"

lemma demo_csl_sound: "csl_sound demo_acs demo_csl" "c_busy demo_csl = 0"
  by (simp_all add: csl_sound_def demo_csl_def)

lemma memory_refines_witness:
  "\<exists>w'. run_state (run_ops csl_epi [Rd 5, Wr 5 7, Wr 0x100006 9, Rd 5, Rd 6, Rd 7]) demo_ks = ([1005, 7, 9, 1007], demo_ks\<lparr>k_epi := w'\<rparr>) \<and>
    c_mem w' 5 = 7"
proof -
  have "fst (spec_ops [Rd 5, Wr 5 7, Wr 0x100006 9, Rd 5, Rd 6, Rd 7] (c_mem (k_epi demo_ks))) = [1005, 7, 9, 1007]"
    "snd (spec_ops [Rd 5, Wr 5 7, Wr 0x100006 9, Rd 5, Rd 6, Rd 7] (c_mem (k_epi demo_ks))) 5 = 7"
    by (simp_all add: demo_ks_def demo_csl_def bus_defs)
  moreover have "csl_sound demo_acs (k_epi demo_ks)" "c_busy (k_epi demo_ks) = 0"
    using demo_csl_sound by (simp_all add: demo_ks_def)
  ultimately show ?thesis
    using memory_refines [OF csp.console_port_axioms, of demo_acs demo_ks "[Rd 5, Wr 5 7, Wr 0x100006 9, Rd 5, Rd 6, Rd 7]"] by auto
qed

section \<open>Executing one instruction\<close>

fun looks :: "'w epi \<Rightarrow> nat \<Rightarrow> 'w \<Rightarrow> 'w" where
  "looks ops 0 w = w"
| "looks ops (Suc n) w = looks ops n (snd (e_halt_pin ops w))"

text \<open>The machine after the instruction register and EXEC and CONT have been written.\<close>

definition started :: "'w epi \<Rightarrow> u64 \<Rightarrow> 'w \<Rightarrow> 'w" where
  "started ops insn w =
     (let (d, w) = e_rd64 ops regStat (e_wr64 ops regCIR insn w)
      in e_wr64 ops regStat (statCONT OR statEXEC OR d) w)"

definition halts_at :: "'w epi \<Rightarrow> 'w \<Rightarrow> nat \<Rightarrow> bool" where
  "halts_at ops w n \<longleftrightarrow> fst (e_halt_pin ops (looks ops n w))"

lemma halts_at_Suc: "halts_at ops w (Suc n) = halts_at ops (snd (e_halt_pin ops w)) n"
  by (simp add: halts_at_def)

lemma halt_loop_step:
  "halt_loop ops s = (if halts_at ops (k_epi s) 0 then Some ((), s\<lparr>k_epi := looks ops 1 (k_epi s)\<rparr>)
     else halt_loop ops (s\<lparr>k_epi := looks ops 1 (k_epi s)\<rparr>))"
  by (subst halt_loop.simps) (simp add: act_def halt_def halts_at_def split_beta)

lemma halt_loop_returns:
  "halts_at ops (k_epi s) n \<Longrightarrow> (\<And>k. k < n \<Longrightarrow> \<not> halts_at ops (k_epi s) k) \<Longrightarrow>
    halt_loop ops s = Some ((), s\<lparr>k_epi := looks ops (Suc n) (k_epi s)\<rparr>)"
proof (induction n arbitrary: s)
  case (Suc n)
  then have "\<not> halts_at ops (k_epi s) 0" by blast
  moreover have "halt_loop ops (s\<lparr>k_epi := looks ops 1 (k_epi s)\<rparr>) =
      Some ((), s\<lparr>k_epi := looks ops (Suc n) (looks ops 1 (k_epi s))\<rparr>)"
    using Suc.IH [of "s\<lparr>k_epi := looks ops 1 (k_epi s)\<rparr>"] Suc.prems by (simp add: halts_at_Suc [symmetric])
  ultimately show ?case by (subst halt_loop_step) simp
qed (subst halt_loop_step, simp)

text \<open>A run that returns has seen the pin.\<close>

lemma halt_loop_seen:
  assumes "halt_loop ops s = Some r"
  shows "\<exists>n. halts_at ops (k_epi s) n"
proof (rule halt_loop.raw_induct [OF _ assms, where P = "\<lambda>ops s r. \<exists>n. halts_at ops (k_epi s) n"])
  fix f :: "'a epi \<Rightarrow> ('a, unit) action" and ops s r
  assume ih: "\<And>ops s r. f ops s = Some r \<Longrightarrow> \<exists>n. halts_at ops (k_epi s) n"
    and r: "do { (h, s) \<leftarrow> act (halt ops) s; (if h then Some ((), s) else f ops s) } = Some r"
  show "\<exists>n. halts_at ops (k_epi s) n"
  proof (cases "halts_at ops (k_epi s) 0")
    case False
    then have "f ops (s\<lparr>k_epi := looks ops 1 (k_epi s)\<rparr>) = Some r"
      using r by (simp add: act_def halt_def halts_at_def split_beta)
    then obtain n where "halts_at ops (looks ops 1 (k_epi s)) n" using ih by fastforce
    then have "halts_at ops (k_epi s) (Suc n)" by (simp add: halts_at_Suc)
    then show ?thesis by blast
  qed blast
qed

lemma execute_starts:
  "run_state (do { set_dispatch False; writeRegCIR ops insn; execute ops }) s =
    ((), s\<lparr>k_epi := started ops insn (k_epi s), k_dispatch := False\<rparr>)"
proof -
  obtain d w where "e_rd64 ops regStat (e_wr64 ops regCIR insn (k_epi s)) = (d, w)" by fastforce
  then show ?thesis
    by (simp add: writeRegCIR_def writeReg64_def execute_def or_stat_def readRegStat_def readReg64_def writeRegStat_def
        started_def or.assoc)
qed

lemma executeInstruction_runs_loop:
  "executeInstruction ops insn s =
    map_option (\<lambda>(u, s). ((), s\<lparr>k_dispatch := True\<rparr>)) (halt_loop ops (s\<lparr>k_epi := started ops insn (k_epi s), k_dispatch := False\<rparr>))"
  by (cases "halt_loop ops (s\<lparr>k_epi := started ops insn (k_epi s), k_dispatch := False\<rparr>)")
    (auto simp: executeInstruction_def act_def execute_starts simp del: run_state_bind)

text \<open>C6: \<open>executeInstruction\<close> returns exactly when the halt pin is seen set at some look after the
  instruction has been started; then it returns at the first such look, with the halt interrupts dispatched
  again. If the processor never halts, the call never returns.\<close>

lemma executeInstruction_returns_when_halted:
  "executeInstruction ops insn s =
     (if \<exists>n. halts_at ops (started ops insn (k_epi s)) n
      then Some ((), s\<lparr>k_epi := looks ops (Suc (LEAST n. halts_at ops (started ops insn (k_epi s)) n)) (started ops insn (k_epi s)),
        k_dispatch := True\<rparr>)
      else None)"
proof (cases "\<exists>n. halts_at ops (started ops insn (k_epi s)) n")
  case True
  define n where "n = (LEAST n. halts_at ops (started ops insn (k_epi s)) n)"
  let ?s = "s\<lparr>k_epi := started ops insn (k_epi s), k_dispatch := False\<rparr>"
  have "halts_at ops (k_epi ?s) n" using LeastI_ex [OF True] by (simp add: n_def)
  moreover have "\<not> halts_at ops (k_epi ?s) k" if "k < n" for k using not_less_Least [OF that [unfolded n_def]] by simp
  ultimately have "halt_loop ops ?s = Some ((), ?s\<lparr>k_epi := looks ops (Suc n) (k_epi ?s)\<rparr>)" by (rule halt_loop_returns)
  then show ?thesis using True unfolding executeInstruction_runs_loop n_def [symmetric] by simp
next
  case False
  let ?s = "s\<lparr>k_epi := started ops insn (k_epi s), k_dispatch := False\<rparr>"
  have "halt_loop ops ?s = None" using False halt_loop_seen [of ops ?s] by (cases "halt_loop ops ?s") auto
  then show ?thesis using False unfolding executeInstruction_runs_loop by simp
qed

section \<open>The register test\<close>

lemma push_bit_64: "push_bit 64 (1 :: u64) = 0"
proof (rule bit_word_eqI)
  fix n assume "n < LENGTH(64)"
  then have "n < 64" by simp
  then show "bit (push_bit 64 (1 :: u64)) n = bit (0 :: u64) n" by (simp only: bit_push_bit_iff bit_0_eq) simp
qed

lemma push_bit_one_nonzero: "k < 64 \<Longrightarrow> push_bit k (1 :: u64) \<noteq> 0"
proof
  assume k: "k < 64" and "push_bit k (1 :: u64) = 0"
  then have "bit (push_bit k (1 :: u64)) k = bit (0 :: u64) k" by simp
  then show False using k by (simp add: bit_simps)
qed

text \<open>The register stores \<open>f d\<close> when \<open>d\<close> is written.\<close>

definition stores :: "'w epi \<Rightarrow> u32 \<Rightarrow> (u64 \<Rightarrow> u64) \<Rightarrow> bool" where
  "stores ops r f \<longleftrightarrow> (\<forall>w d. fst (e_rd64 ops r (e_wr64 ops r d w)) = f d)"

lemma walk64_step:
  assumes "x \<noteq> 0" "e_rd64 ops r (e_wr64 ops r x (k_epi s)) = (d, w)"
  shows "\<exists>s1. walk64 ops r name debug m x ok s = walk64 ops r name debug m (push_bit 1 x) (ok \<and> d AND m = x AND m) s1"
proof -
  have run: "run_state (do { writeReg64 ops r x; readReg64 ops r }) s = (d, s\<lparr>k_epi := w\<rparr>)"
    using assms(2) by (simp add: writeReg64_def readReg64_def)
  obtain u s2 where s2: "run_state (if debug then say (RegFailure name d x) else State_Monad.return ()) (s\<lparr>k_epi := w\<rparr>) = (u, s2)"
    by fastforce
  show ?thesis
  proof (cases "d AND m = x AND m")
    case True
    then show ?thesis using assms(1)
      by (intro exI [of _ "s\<lparr>k_epi := w\<rparr>"], subst walk64.simps) (simp add: act_def run del: run_state_bind)
  next
    case False
    then show ?thesis using assms(1) s2
      by (intro exI [of _ s2], subst walk64.simps) (simp add: act_def run del: run_state_bind)
  qed
qed

lemma walk64_from:
  assumes "stores ops r f"
  shows "k \<le> 64 \<Longrightarrow> \<exists>s'. walk64 ops r name debug m (push_bit k 1) ok s =
    Some (ok \<and> (\<forall>j \<in> {k ..< 64}. f (push_bit j 1) AND m = push_bit j 1 AND m), s')"
proof (induction "64 - k" arbitrary: k ok s)
  case 0
  then have "k = 64" by simp
  then show ?case by (subst walk64.simps) (simp add: push_bit_64)
next
  case (Suc n)
  then have k: "k < 64" "n = 64 - Suc k" "Suc k \<le> 64" by simp_all
  let ?x = "push_bit k (1 :: u64)"
  obtain d w where r: "e_rd64 ops r (e_wr64 ops r ?x (k_epi s)) = (d, w)" by fastforce
  then have d: "d = f ?x" using assms unfolding stores_def by (metis fst_conv)
  have sh: "push_bit 1 ?x = push_bit (Suc k) 1" by (simp add: push_bit_push_bit)
  have all: "(\<forall>j \<in> {k ..< 64}. P j) \<longleftrightarrow> P k \<and> (\<forall>j \<in> {Suc k ..< 64}. P j)" for P
    using k(1) by (metis Ball_set atLeastLessThan_iff Suc_leI le_less_Suc_eq not_less_eq_eq nat_less_le le_SucI order_refl)
  obtain s1 where w: "walk64 ops r name debug m ?x ok s =
      walk64 ops r name debug m (push_bit (Suc k) 1) (ok \<and> f ?x AND m = ?x AND m) s1"
    using walk64_step [OF push_bit_one_nonzero [OF k(1)] r] unfolding sh d by blast
  show ?case using Suc.hyps(1) [OF k(2,3), of "ok \<and> f ?x AND m = ?x AND m" s1] unfolding w all by (simp only: conj_assoc)
qed

text \<open>
  Faults of the data lines: what a bit reads is a gate over the lines written, the disjunction, the conjunction or the negated
  conjunction of a set of them. A sound line is the gate over itself, an open or stuck one a gate over no line, lines
  shorted together read the disjunction or the conjunction of the short (after the sort of the drivers), a crossed line
  is the gate over another line, and an inverted one the negated gate over one.
\<close>

datatype line = Any_of "nat set" | All_of "nat set" | Not_all_of "nat set"

primrec line_value :: "line \<Rightarrow> u64 \<Rightarrow> bool" where
  "line_value (Any_of l) x \<longleftrightarrow> (\<exists>j \<in> l. bit x j)"
| "line_value (All_of l) x \<longleftrightarrow> (\<forall>j \<in> l. bit x j)"
| "line_value (Not_all_of l) x \<longleftrightarrow> (\<exists>j \<in> l. \<not> bit x j)"

definition faulty_lines :: "(u64 \<Rightarrow> u64) \<Rightarrow> bool" where
  "faulty_lines f \<longleftrightarrow> (\<exists>w. \<forall>x. \<forall>i < 64. bit (f x) i = line_value (w i) x)"

lemma bit_one_hot: "bit (push_bit k (1 :: u64)) j \<longleftrightarrow> j = k \<and> k < 64"
  by (auto simp: bit_simps)

lemma one_hot_line:
  assumes i: "i < 64" and hot: "\<And>k. k < 64 \<Longrightarrow> line_value g (push_bit k 1) = (k = i)"
  shows "line_value g x = bit x i"
proof (cases g)
  case (Any_of l)
  have "j \<notin> l" if "j < 64" "j \<noteq> i" for j
    using hot [OF that(1)] that(2) unfolding Any_of by (auto simp: bit_one_hot that(1) simp del: push_bit_of_1)
  moreover have "i \<in> l"
    using hot [OF i] unfolding Any_of by (auto simp: bit_one_hot i simp del: push_bit_of_1)
  moreover have "j < 64" if "bit x j" for j
    using bit_imp_le_length [OF that] by simp
  ultimately show ?thesis
    unfolding Any_of line_value.simps by blast
next
  case (All_of l)
  have "l \<subseteq> {i}"
    using hot [OF i] unfolding All_of by (auto simp: bit_one_hot i simp del: push_bit_of_1)
  moreover obtain k where "k < 64" "k \<noteq> i"
    by (rule that [of "if i = 0 then 1 else 0"]) simp_all
  then have "l \<noteq> {}"
    using hot [of k] unfolding All_of by auto
  ultimately show ?thesis
    unfolding All_of by (metis line_value.simps(2) singletonD subset_singletonD singletonI)
next
  case (Not_all_of l)
  have e: "l \<subseteq> {k}" if "k < 64" "k \<noteq> i" for k
    using hot [OF that(1)] that(2) unfolding Not_all_of by (auto simp: bit_one_hot that(1) simp del: push_bit_of_1)
  have "l \<noteq> {}"
    using hot [OF i] unfolding Not_all_of by auto
  moreover obtain k k' where "k < 64" "k \<noteq> i" "k' < 64" "k' \<noteq> i" "k \<noteq> k'"
    by (rule that [of "if i = 0 then 2 else 0" "if i = 1 then 2 else 1"]) simp_all
  then have "l \<subseteq> {k}" "l \<subseteq> {k'}" "k \<noteq> k'"
    using e by simp_all
  ultimately show ?thesis by blast
qed

lemma lines_bits:
  assumes "faulty_lines f"
  shows "(\<forall>k < 64. f (push_bit k 1) AND m = push_bit k 1 AND m) \<longleftrightarrow> (\<forall>x. f x AND m = x AND m)"
proof
  assume hot: "\<forall>k < 64. f (push_bit k 1) AND m = push_bit k 1 AND m"
  obtain w where w: "\<And>x i. i < 64 \<Longrightarrow> bit (f x) i = line_value (w i) x"
    using assms unfolding faulty_lines_def by blast
  have "bit (f x) i = bit x i" if "i < 64" "bit m i" for x i
  proof -
    have "line_value (w i) (push_bit k 1) = (k = i)" if k: "k < 64" for k
    proof -
      have "bit (f (push_bit k 1) AND m) i = bit (push_bit k 1 AND m) i" using hot k by simp
      then show ?thesis using \<open>i < 64\<close> \<open>bit m i\<close> k by (auto simp: bit_and_iff bit_one_hot w simp del: push_bit_of_1)
    qed
    then show ?thesis using one_hot_line [OF \<open>i < 64\<close>] w [OF \<open>i < 64\<close>] by simp
  qed
  then show "\<forall>x. f x AND m = x AND m"
    by (intro allI bit_word_eqI) (auto simp: bit_and_iff)
qed blast

text \<open>C8: for a register that stores a function \<open>f\<close> of the word written, the walking ones test \<open>testReg64\<close> ends, reports success exactly
  when \<open>f\<close> is faithful, in the bits of the mask, on the words of a single one, and leaves the register with its saved contents written
  back. When the data lines are faulty in the sense of \<open>faulty_lines\<close> (sound, open, stuck, shorted, crossed or inverted), success means
  that every word is stored faithfully in the bits of the mask. Nothing of the sort is claimed of faults outside that class.\<close>

lemma testReg64_detects_wiring:
  assumes "stores ops r f"
  shows "\<exists>ok s'. testReg64 ops r name debug m s = Some (ok, s') \<and>
    (ok \<longleftrightarrow> (\<forall>k < 64. f (push_bit k 1) AND m = push_bit k 1 AND m)) \<and>
    (faulty_lines f \<longrightarrow> (ok \<longleftrightarrow> (\<forall>x. f x AND m = x AND m))) \<and>
    fst (e_rd64 ops r (k_epi s')) = f (fst (e_rd64 ops r (k_epi s)))"
proof -
  let ?ok = "\<forall>k < 64. f (push_bit k 1) AND m = push_bit k 1 AND m"
  obtain u s1 where s1: "run_state (if debug then say (Checking name 64) else State_Monad.return ()) s = (u, s1)" by fastforce
  have e1: "k_epi s1 = k_epi s" using s1 by (cases debug) auto
  obtain d w where r: "e_rd64 ops r (k_epi s) = (d, w)" by fastforce
  obtain s2 where s2: "walk64 ops r name debug m 1 True (s1\<lparr>k_epi := w\<rparr>) = Some (?ok, s2)"
    using walk64_from [OF assms(1), of 0 name debug m True "s1\<lparr>k_epi := w\<rparr>"] by (auto simp: Ball_def simp del: push_bit_of_1)
  have "testReg64 ops r name debug m s = Some (?ok, s2\<lparr>k_epi := e_wr64 ops r d (k_epi s2)\<rparr>)"
    using s1 s2 r e1 by (simp add: testReg64_def act_def readReg64_def writeReg64_def)
  then show ?thesis using assms(1) r lines_bits [of f m]
    by (intro exI [of _ ?ok] exI [of _ "s2\<lparr>k_epi := e_wr64 ops r d (k_epi s2)\<rparr>"]) (simp add: stores_def)
qed

lemma testReg64_detects_wiring_witness:
  "(\<exists>s'. testReg64 csl_epi regCIR ''regCIR'' True 0xFFFFFFFFF demo_ks = Some (True, s')) \<and>
   (\<exists>s'. testReg64 csl_epi regCIR ''regCIR'' True (-1) demo_ks = Some (False, s'))"
proof -
  have st: "stores csl_epi regCIR (\<lambda>d. d AND dataMask)"
    by (simp add: stores_def csl_epi_def csl_rd64_def csl_wr64_def) (simp add: reg_defs)
  have fl: "faulty_lines (\<lambda>d. d AND dataMask)"
    unfolding faulty_lines_def
    by (rule exI [of _ "\<lambda>i. if bit dataMask i then Any_of {i} else Any_of {}"]) (simp add: bit_and_iff)
  have "(\<forall>x. x AND dataMask AND 0xFFFFFFFFF = x AND 0xFFFFFFFFF) = True"
    by (simp add: dataMask_def)
  moreover have "(\<forall>x :: u64. x AND dataMask AND - 1 = x AND - 1) = False"
    by (simp add: dataMask_def) (rule exI [of _ "0x1000000000"], simp)
  ultimately show ?thesis
    using testReg64_detects_wiring [OF st, of "''regCIR''" True "0xFFFFFFFFF" demo_ks]
      testReg64_detects_wiring [OF st, of "''regCIR''" True "-1" demo_ks] fl
    by (auto simp: and.assoc)
qed

end
