(* ===== verification/Loader.thy ===== *)
theory Loader
  imports FatFile Ks10
begin

text \<open>
  The state of the command interpreter \<^verbatim>\<open>commands.cpp\<close>, and the parts that join the file system and the
  KS10: octal numbers, the loader of \<^verbatim>\<open>.SAV\<close> files, the accumulators, and the configuration files
  (\<^verbatim>\<open>config.cpp\<close>) with the initialization of the console area of memory.

  Strings are byte lists that end with a zero byte, as in the FAT theories. A local buffer that is read
  before it has been filled has no defined contents, so such a read gives \<^term>\<open>None\<close>.
\<close>

section \<open>State\<close>

datatype access_t = accessMEM | accessIO

record rhcfg_t =
  rhbase :: u64
  rhunit :: u64
  mtparam :: u64

text \<open>
  The file system, the KS10, the static variables of the interpreter, the static buffer of the disassembler, and
  what \<^verbatim>\<open>getchar\<close> finds at the terminal at its next calls (a character, or -1 for none, as after the last).
\<close>

record ('w, 'k) console =
  con_fat :: "'w sys"
  con_ks10 :: "'k ks10"
  con_address :: u64
  con_access :: access_t
  con_dupccr :: u32
  con_dzccr :: u32
  con_lpccr :: u32
  con_rhcfg :: rhcfg_t
  con_rpccr :: u64
  con_running :: bool
  con_dasm :: string
  con_input :: "int list"

type_synonym ('w, 'k, 'a) command = "('w, 'k) console \<Rightarrow> ('a \<times> ('w, 'k) console) option"

text \<open>Operations of the parts as steps of the interpreter.\<close>

definition ks :: "('k ks10, 'a) state \<Rightarrow> ('w, 'k, 'a) command" where
  "ks m c = (let (a, k) = run_state m (con_ks10 c) in Some (a, c\<lparr>con_ks10 := k\<rparr>))"

definition ksa :: "('k, 'a) action \<Rightarrow> ('w, 'k, 'a) command" where
  "ksa f c = map_option (\<lambda>(a, k). (a, c\<lparr>con_ks10 := k\<rparr>)) (f (con_ks10 c))"

definition fat :: "('w sys \<Rightarrow> ('a \<times> 'w sys) option) \<Rightarrow> ('w, 'k, 'a) command" where
  "fat f c = map_option (\<lambda>(a, s). (a, c\<lparr>con_fat := s\<rparr>)) (f (con_fat c))"

definition print :: "message \<Rightarrow> ('w, 'k, unit) command" where
  "print m = ks (say m)"

text \<open>The number printed for a result code.\<close>

definition result_code :: "FRESULT \<Rightarrow> u64" where
  "result_code r = (case r of FR_OK \<Rightarrow> 0 | FR_DISK_ERR \<Rightarrow> 1 | FR_INT_ERR \<Rightarrow> 2 | FR_NOT_READY \<Rightarrow> 3 | FR_NO_FILE \<Rightarrow> 4
     | FR_NO_PATH \<Rightarrow> 5 | FR_INVALID_NAME \<Rightarrow> 6 | FR_DENIED \<Rightarrow> 7 | FR_EXIST \<Rightarrow> 8 | FR_INVALID_OBJECT \<Rightarrow> 9
     | FR_WRITE_PROTECTED \<Rightarrow> 10 | FR_INVALID_DRIVE \<Rightarrow> 11 | FR_NOT_ENABLED \<Rightarrow> 12 | FR_NO_FILESYSTEM \<Rightarrow> 13
     | FR_MKFS_ABORTED \<Rightarrow> 14 | FR_TIMEOUT \<Rightarrow> 15 | FR_LOCKED \<Rightarrow> 16 | FR_NOT_ENOUGH_CORE \<Rightarrow> 17
     | FR_TOO_MANY_OPEN_FILES \<Rightarrow> 18 | FR_INVALID_PARAMETER \<Rightarrow> 19)"

definition report :: "string \<Rightarrow> FRESULT \<Rightarrow> ('w, 'k, unit) command" where
  "report m r c = (if r \<noteq> FR_OK then print (Printf m [result_code r]) c else Some ((), c))"

text \<open>A file object in a local variable; \<open>f_open\<close> sets its fields before they are used.\<close>

definition new_fil :: fil where
  "new_fil = \<lparr>fl_fs = None, fl_id = 0, fl_flag = 0, fl_fptr = 0, fl_fsize = 0, fl_sclust = 0, fl_clust = 0, fl_dsect = 0,
     fl_dir_sect = 0, fl_dir_ptr = None\<rparr>"

definition bytes_of :: "string \<Rightarrow> byte list" where
  "bytes_of s = map of_char s @ [0]"

section \<open>Numbers and words\<close>

text \<open>
  The loop of \<open>parseOctal\<close> runs 22 times (i = 0, 3, ..., 63); the second result tells whether a character was
  reported. After the last digit the number is one octal place too far to the left.
\<close>

fun parse_loop :: "nat \<Rightarrow> byte list \<Rightarrow> u64 \<Rightarrow> (u64 \<times> bool) option" where
  "parse_loop 0 buf num = Some (num, False)"
| "parse_loop (Suc i) [] num = None"
| "parse_loop (Suc i) (ch # buf) num =
     (if 0x30 \<le> ch \<and> ch \<le> 0x37 then parse_loop i buf (push_bit 3 (num + ucast (ch - 0x30)))
      else Some (num, ch \<noteq> 0))"

definition parseOctal :: "byte list \<Rightarrow> ('w, 'k, u64) command" where
  "parseOctal buf c = do {
     (num, bad) \<leftarrow> parse_loop 22 buf 0;
     (u, c) \<leftarrow> (if bad then print (Text ''Parsed invalid character.'') c else Some ((), c));
     Some (drop_bit 3 num, c) }"

definition rdword :: "byte list \<Rightarrow> u64" where
  "rdword b =
     (push_bit 29 (ucast (b ! 0 AND 0x7F)) OR
      push_bit 22 (ucast (b ! 1 AND 0x7F)) OR
      push_bit 15 (ucast (b ! 2 AND 0x7F)) OR
      push_bit 8 (ucast (b ! 3 AND 0x7F)) OR
      push_bit 1 (ucast (b ! 4 AND 0x7F)) OR
      drop_bit 7 (ucast (b ! 4 AND 0x80)))"

section \<open>The loader\<close>

text \<open>A word needs all five bytes: fewer leave part of the buffer without contents.\<close>

definition getdata :: "'w disk_ops \<Rightarrow> fil \<Rightarrow> ('w, 'k, u64 \<times> fil) command" where
  "getdata ops fp c = do {
     ((status, numbytes, fp, buffer), c) \<leftarrow> fat (f_read ops fp (replicate 5 0) 5) c;
     (u, c) \<leftarrow> report ''KS10: f_read() returned %d'' status c;
     (if numbytes < 5 then None else Some ((rdword buffer, fp), c)) }"

partial_function (option) record_loop :: "'w disk_ops \<Rightarrow> 'k epi \<Rightarrow> u32 \<Rightarrow> u32 \<Rightarrow> fil \<Rightarrow> ('w, 'k, fil) command" where
  "record_loop ops ep words addr fp c =
     (if words AND 0x20000 = 0 then Some (fp, c)
      else do {
        ((data36, fp), c) \<leftarrow> getdata ops fp c;
        (u, c) \<leftarrow> ks (writeMem ep (ucast ((addr + 1) AND 0x3FFFF)) data36) c;
        record_loop ops ep ((words + 1) AND 0x3FFFF) ((addr + 1) AND 0x3FFFF) fp c })"

partial_function (option) load_loop :: "'w disk_ops \<Rightarrow> 'k epi \<Rightarrow> fil \<Rightarrow> ('w, 'k, bool) command" where
  "load_loop ops ep fp c = do {
     ((data36, fp), c) \<leftarrow> getdata ops fp c;
     (if lh data36 AND 0x20000 = 0 then do {
        (u, c) \<leftarrow> (if ucast (lh data36) = opJRST
          then ks (do {
            say (Printf ''KS10: Starting Address: %06lo,,%06lo'' [ucast (lh data36), ucast (rh data36)]);
            writeRegCIR ep data36 }) c
          else Some ((), c));
        ((status, fp), c) \<leftarrow> fat (f_close ops fp) c;
        (u, c) \<leftarrow> report ''KS10: f_close() returned %d'' status c;
        Some (True, c) }
      else do {
        (fp, c) \<leftarrow> record_loop ops ep (lh data36) (rh data36) fp c;
        load_loop ops ep fp c }) }"

definition loadCode :: "'w disk_ops \<Rightarrow> 'k epi \<Rightarrow> byte list \<Rightarrow> ('w, 'k, bool) command" where
  "loadCode ops ep filename c = do {
     ((status, fp), c) \<leftarrow> fat (f_open ops (Some new_fil) filename FA_READ) c;
     (if status \<noteq> FR_OK then do {
        (u, c) \<leftarrow> report ''KS10: f_open() returned %d'' status c;
        Some (False, c) }
      else do {
        fp \<leftarrow> fp;
        load_loop ops ep fp c }) }"

section \<open>Accumulators and patches\<close>

definition readAC :: "'k epi \<Rightarrow> u64 \<Rightarrow> ('w, 'k, u64) command" where
  "readAC ep regAC =
     (let regAC = regAC AND 0xF;
          tempAddr = 0x40;
          insnMOVEM = push_bit 18 opMOVEM OR push_bit 23 regAC OR tempAddr
      in ksa (executeInstructionAndGetData ep insnMOVEM tempAddr))"

definition patchCode :: "'k epi \<Rightarrow> u64 \<Rightarrow> u64 \<Rightarrow> ('w, 'k, unit) command" where
  "patchCode ep addr data = ks (do {
     writeMem ep addr data;
     say (Printf ''KS10: Patched executable with a %012llo instruction at address %06llo.'' [data, addr]) })"

section \<open>Configuration\<close>

text \<open>
  \<open>config_read\<close> gives the bytes read on success, \<open>config_write\<close> stores the bytes of a buffer. The number of bytes
  transferred is compared even after a failed transfer, where the file module has set it to what was done.
\<close>

definition config_read :: "'w disk_ops \<Rightarrow> bool \<Rightarrow> byte list \<Rightarrow> byte list \<Rightarrow> ('w, 'k, bool \<times> byte list) command" where
  "config_read ops debug filename buf c = do {
     ((status, fp), c) \<leftarrow> fat (f_open ops (Some new_fil) filename FA_READ) c;
     (if status \<noteq> FR_OK then do {
        (u, c) \<leftarrow> (if debug then report ''KS10: f_open() returned %d'' status c else Some ((), c));
        Some ((False, buf), c) }
      else do {
        fp \<leftarrow> fp;
        ((status, bytes, fp, buf'), c) \<leftarrow> fat (f_read ops fp buf (of_nat (length buf))) c;
        (u, c) \<leftarrow> (if debug then report ''KS10: f_read() returned %d.'' status c else Some ((), c));
        (u, c) \<leftarrow> (if debug \<and> bytes \<noteq> of_nat (length buf) then print (Text ''KS10: f_read() read partial buffer.'') c else Some ((), c));
        ((closed, fp), c) \<leftarrow> fat (f_close ops fp) c;
        (u, c) \<leftarrow> (if debug then report ''KS10: f_close() returned %d'' closed c else Some ((), c));
        Some ((status = FR_OK \<and> bytes = of_nat (length buf) \<and> closed = FR_OK, buf'), c) }) }"

definition config_write :: "'w disk_ops \<Rightarrow> bool \<Rightarrow> byte list \<Rightarrow> byte list \<Rightarrow> ('w, 'k, bool) command" where
  "config_write ops debug filename buf c = do {
     ((status, fp), c) \<leftarrow> fat (f_open ops (Some new_fil) filename (FA_CREATE_ALWAYS OR FA_WRITE)) c;
     (if status \<noteq> FR_OK then do {
        (u, c) \<leftarrow> (if debug then report ''KS10: f_open() returned %d'' status c else Some ((), c));
        Some (False, c) }
      else do {
        fp \<leftarrow> fp;
        ((status, bytes, fp), c) \<leftarrow> fat (f_write ops fp buf (of_nat (length buf))) c;
        (u, c) \<leftarrow> (if debug then report ''KS10: f_write() returned %d.'' status c else Some ((), c));
        (u, c) \<leftarrow> (if debug \<and> bytes \<noteq> of_nat (length buf) then print (Text ''KS10: f_write() wrote partial buffer.'') c else Some ((), c));
        ((closed, fp), c) \<leftarrow> fat (f_close ops fp) c;
        (u, c) \<leftarrow> (if debug then report ''KS10: f_close() returned %d'' closed c else Some ((), c));
        Some (status = FR_OK \<and> bytes = of_nat (length buf) \<and> closed = FR_OK, c) }) }"

text \<open>Structures of 32-bit and 64-bit words in memory, least significant byte first.\<close>

definition bytes32 :: "u32 \<Rightarrow> byte list" where
  "bytes32 x = map (\<lambda>k. ucast (drop_bit (8 * k) x)) [0 ..< 4]"

definition bytes64 :: "u64 \<Rightarrow> byte list" where
  "bytes64 x = map (\<lambda>k. ucast (drop_bit (8 * k) x)) [0 ..< 8]"

definition word32 :: "byte list \<Rightarrow> u32" where
  "word32 b = ld_dword b 0"

definition word64 :: "byte list \<Rightarrow> u64" where
  "word64 b = push_bit 32 (ucast (ld_dword b 4)) OR ucast (ld_dword b 0)"

definition initDUPCCR :: "'k epi \<Rightarrow> ('k ks10, unit) state" where
  "initDUPCCR ep = do {
     dupccr \<leftarrow> readDUPCCR ep;
     writeDUPCCR ep (dupccr OR 0x800 OR 0x400 OR 0x100) }"

text \<open>The printer is set on line or off line by command bits, its vertical format unit by a level.\<close>

definition initLPCCR :: "'k epi \<Rightarrow> u32 \<Rightarrow> ('k ks10, unit) state" where
  "initLPCCR ep cfg = do {
     lpccr \<leftarrow> readLPCCR ep;
     (let lpccr = 0x02590000 OR (lpccr AND 0x0000FFFF);
          lpccr = (if cfg AND 0x4 \<noteq> 0 then lpccr OR 0x2 else lpccr OR 0x1);
          lpccr = (if cfg AND 0x10 \<noteq> 0 then lpccr OR 0x10 else lpccr AND NOT 0x10)
      in writeLPCCR ep lpccr) }"

text \<open>
  The configuration files, with their defaults. A structure that could be read only in part is
  overwritten by the defaults as well.
\<close>

definition read_cfg :: "'w disk_ops \<Rightarrow> bool \<Rightarrow> string \<Rightarrow> byte list \<Rightarrow> byte list \<Rightarrow> ('w, 'k, byte list) command" where
  "read_cfg ops debug name old dflt c = do {
     ((ok, buf), c) \<leftarrow> config_read ops debug (bytes_of name) old c;
     (if ok then Some (buf, c)
      else do {
        (u, c) \<leftarrow> print (Text (''KS10: Unable to read '' @ name @ ''.  Using defaults.'')) c;
        Some (dflt, c) }) }"

definition rh_bytes :: "rhcfg_t \<Rightarrow> byte list" where
  "rh_bytes r = bytes64 (rhbase r) @ bytes64 (rhunit r) @ bytes64 (mtparam r)"

definition rh_word :: "byte list \<Rightarrow> rhcfg_t" where
  "rh_word b = \<lparr>rhbase = word64 (take 8 b), rhunit = word64 (take 8 (drop 8 b)), mtparam = word64 (drop 16 b)\<rparr>"

definition read_configs :: "'w disk_ops \<Rightarrow> bool \<Rightarrow> ('w, 'k, unit) command" where
  "read_configs ops debug c = do {
     (b, c) \<leftarrow> read_cfg ops debug ''DUP11CFG.DAT'' (bytes32 (con_dupccr c)) (bytes32 0x00000D00) c;
     (let c = c\<lparr>con_dupccr := word32 b\<rparr> in do {
     (b, c) \<leftarrow> read_cfg ops debug ''DZ11CFG.DAT'' (bytes32 (con_dzccr c)) (bytes32 0x0000FF00) c;
     (let c = c\<lparr>con_dzccr := word32 b\<rparr> in do {
     (b, c) \<leftarrow> read_cfg ops debug ''LP20CFG.DAT'' (bytes32 (con_lpccr c)) (bytes32 0x00000001) c;
     (let c = c\<lparr>con_lpccr := word32 b\<rparr> in do {
     (b, c) \<leftarrow> read_cfg ops debug ''RH11CFG.DAT'' (rh_bytes (con_rhcfg c))
       (rh_bytes \<lparr>rhbase = 0x7FDC0, rhunit = 0, mtparam = 0\<rparr>) c;
     (let c = c\<lparr>con_rhcfg := rh_word b\<rparr> in do {
     (b, c) \<leftarrow> read_cfg ops debug ''RPXXCFG.DAT'' (bytes64 (con_rpccr c)) (bytes64 0x070707F8) c;
     Some ((), c\<lparr>con_rpccr := word64 b\<rparr>) }) }) }) }) }"

text \<open>The console communication area of memory and the control registers of the devices.\<close>

definition init_comm :: "'k epi \<Rightarrow> rhcfg_t \<Rightarrow> ('k ks10, unit) state" where
  "init_comm ep r = do {
     writeMem ep switch_addr 0x800020000;
     writeMem ep kasw_addr 0x1F800000;
     writeMem ep ctyin_addr 0;
     writeMem ep ctyout_addr 0;
     writeMem ep klnin_addr 0;
     writeMem ep klnout_addr 0;
     writeMem ep rhbase_addr (rhbase r);
     writeMem ep rhunit_addr (rhunit r);
     writeMem ep mtparm_addr (mtparam r) }"

definition recallConfig :: "'w disk_ops \<Rightarrow> 'k epi \<Rightarrow> bool \<Rightarrow> ('w, 'k, unit) command" where
  "recallConfig ops ep debug c = do {
     (u, c) \<leftarrow> read_configs ops debug c;
     ks (do {
       init_comm ep (con_rhcfg c);
       writeDZCCR ep (con_dzccr c);
       writeRPCCR ep (ucast (con_rpccr c));
       writeDBAR ep 0;
       writeDBAR ep 0;
       writeDBMR ep 0;
       initDUPCCR ep;
       initLPCCR ep (con_lpccr c) }) c }"

text \<open>The loops are executable.\<close>

declare record_loop.simps [code]
  load_loop.simps [code]

end
