(* ===== verification/LoaderOps.thy ===== *)
theory LoaderOps
  imports FatFileOps Ks10Ops Loader
begin

text \<open>
  The loader of \<^verbatim>\<open>.SAV\<close> files brings the blocks of words of a file on the SD card into the memory of the
  KS10, and the accumulators are read through a word of memory: the file system and the KS10 interface together.
\<close>

section \<open>Words in a .SAV file\<close>

definition sav_bytes :: "u64 \<Rightarrow> byte list" where
  "sav_bytes w = [ucast (drop_bit 29 w) AND 0x7F, ucast (drop_bit 22 w) AND 0x7F, ucast (drop_bit 15 w) AND 0x7F,
     ucast (drop_bit 8 w) AND 0x7F, (ucast (drop_bit 1 w) AND 0x7F) OR push_bit 7 (ucast w AND 1)]"

lemma length_sav_bytes [simp]: "length (sav_bytes w) = 5"
  by (simp add: sav_bytes_def)

lemma and_7F: "(x :: byte) AND 0x7F = take_bit 7 x"
  unfolding take_bit_eq_mask by (simp add: mask_eq_exp_minus_1)

lemma and_data: "w AND dataMask = take_bit 36 w"
  unfolding take_bit_eq_mask dataMask_def by (simp add: mask_eq_exp_minus_1)

lemma and_80: "(x :: byte) AND 0x80 = push_bit 7 (take_bit 1 (drop_bit 7 x))"
proof (rule bit_word_eqI)
  fix n assume n: "n < LENGTH(8)"
  have "(0x80 :: byte) = 2 ^ 7" by simp
  then have "bit (x AND 0x80) n \<longleftrightarrow> bit x n \<and> n = 7"
    using n by (simp only: bit_and_iff bit_exp_iff) auto
  then show "bit (x AND 0x80) n = bit (push_bit 7 (take_bit 1 (drop_bit 7 x))) n"
    using n by (simp only: bit_push_bit_iff bit_take_bit_iff bit_drop_bit_eq comp_apply) (cases "n = 7"; auto)
qed

lemma and_one: "(x :: byte) AND 1 = take_bit 1 x"
  by (simp add: take_bit_eq_mask)

lemma fields_of_word:
  "bit (push_bit k (ucast (take_bit 7 (ucast (drop_bit k w) :: byte)) :: u64)) n \<longleftrightarrow> k \<le> n \<and> n < k + 7 \<and> n < 64 \<and> bit w n"
  by (auto simp: bit_push_bit_iff bit_ucast_iff bit_take_bit_iff bit_drop_bit_eq)

lemma last_byte:
  fixes w :: u64
  defines "b \<equiv> take_bit 7 (ucast (drop_bit 1 w)) OR push_bit 7 (take_bit 1 (ucast w)) :: byte"
  shows "take_bit 7 b = take_bit 7 (ucast (drop_bit 1 w))"
    "bit (drop_bit 7 (ucast (push_bit 7 (take_bit 1 (drop_bit 7 b))) :: u64)) n \<longleftrightarrow> n = 0 \<and> bit w 0"
proof -
  show "take_bit 7 b = take_bit 7 (ucast (drop_bit 1 w))"
    unfolding b_def by (rule bit_word_eqI) (auto simp: bit_or_iff bit_push_bit_iff bit_take_bit_iff)
  show "bit (drop_bit 7 (ucast (push_bit 7 (take_bit 1 (drop_bit 7 b))) :: u64)) n \<longleftrightarrow> n = 0 \<and> bit w 0"
    unfolding b_def
    by (simp only: bit_or_iff bit_push_bit_iff bit_ucast_iff bit_take_bit_iff bit_drop_bit_eq comp_apply) auto
qed

lemma rdword_five:
  "rdword (a # b # c # d # e # r) =
     (push_bit 29 (ucast (a AND 0x7F)) OR push_bit 22 (ucast (b AND 0x7F)) OR push_bit 15 (ucast (c AND 0x7F)) OR
      push_bit 8 (ucast (d AND 0x7F)) OR push_bit 1 (ucast (e AND 0x7F)) OR drop_bit 7 (ucast (e AND 0x80)))"
  unfolding rdword_def by (simp only: nth_Cons_0 nth_Cons_Suc nth_Cons_numeral numeral_eq_Suc pred_numeral_simps One_nat_def BitM.simps
    eval_nat_numeral diff_Suc_Suc diff_zero)

lemma rdword_sav_bytes:
  assumes "w AND dataMask = w"
  shows "rdword (sav_bytes w @ r) = w"
proof (rule bit_word_eqI)
  fix n assume "n < LENGTH(64)"
  have w: "bit w n \<Longrightarrow> n < 36" using arg_cong [OF assms, of "\<lambda>x. bit x n"] by (simp add: and_data bit_take_bit_iff)
  have e: "rdword (sav_bytes w @ r) = push_bit 29 (ucast (take_bit 7 (ucast (drop_bit 29 w) :: byte))) OR
     push_bit 22 (ucast (take_bit 7 (ucast (drop_bit 22 w) :: byte))) OR push_bit 15 (ucast (take_bit 7 (ucast (drop_bit 15 w) :: byte))) OR
     push_bit 8 (ucast (take_bit 7 (ucast (drop_bit 8 w) :: byte))) OR push_bit 1 (ucast (take_bit 7 (ucast (drop_bit 1 w) :: byte))) OR
     drop_bit 7 (ucast (push_bit 7 (take_bit 1 (drop_bit 7 (take_bit 7 (ucast (drop_bit 1 w)) OR push_bit 7 (take_bit 1 (ucast w)) :: byte)))))"
    unfolding sav_bytes_def append.simps rdword_five and_7F and_80 and_one last_byte(1) take_bit_take_bit by simp
  have "bit (rdword (sav_bytes w @ r)) n \<longleftrightarrow> bit w n \<and> n < 36"
    unfolding e bit_or_iff fields_of_word last_byte(2) using \<open>n < LENGTH(64)\<close>
    by (cases "n = 0") auto
  then show "bit (rdword (sav_bytes w @ r)) n = bit w n" using w by blast
qed

section \<open>Reading words from an open file\<close>

text \<open>A device that is never reported as not initialized.\<close>

locale online_device = data_device +
  assumes online: "sound w \<Longrightarrow> d_status ops 0 w AND STA_NOINIT = 0"
begin

text \<open>An open file of the volume \<open>q\<close>, its cluster chain, and what is still to be read.\<close>

definition reading :: "nat \<Rightarrow> u32 list \<Rightarrow> byte list \<Rightarrow> fil \<Rightarrow> 'a sys \<Rightarrow> bool" where
  "reading q xs rest fp s \<longleftrightarrow> fat_ok sec (vol_of s q) \<and> sound (s_dsk s) \<and>
     fs_csize (s_obj s q) \<noteq> 0 \<and> fs_csize (s_obj s q) AND (fs_csize (s_obj s q) - 1) = 0 \<and>
     file_ok sec (vol_of s q) fp xs \<and> file_pos (s_obj s q) fp xs \<and>
     fl_fs fp = Some q \<and> fl_id fp = fs_id (s_obj s q) \<and> fl_flag fp = FA_READ \<and>
     rest = take (unat (fl_fsize fp) - unat (fl_fptr fp)) (drop (unat (fl_fptr fp)) (file_bytes sec (vol_of s q) xs))"

lemma reading_valid: "reading q xs rest fp s \<Longrightarrow> validate_fil ops fp s = FR_OK"
  using online by (auto simp: reading_def validate_fil_def validate_def fat_ok_def vol_ok_def geom_def fs_types)

lemma reading_step:
  assumes "reading q xs rest fp s" "unat btr < 1024" "unat btr \<le> length buf" "n = min (unat btr) (length rest)"
  shows "\<exists>fp' v'. f_read ops fp buf btr s = Some ((FR_OK, of_nat n, fp', take n rest @ drop n buf), put_vol q v' s) \<and>
    keeps_view sec (vol_of s q) v' \<and> reading q xs (drop n rest) fp' (put_vol q v' s)"
proof -
  let ?n = "unat (fl_fptr fp)" and ?B = "file_bytes sec (vol_of s q) xs" and ?z = "unat (fl_fsize fp)"
  have r: "fat_ok sec (vol_of s q)" "sound (s_dsk s)" "fs_csize (s_obj s q) \<noteq> 0"
    "fs_csize (s_obj s q) AND (fs_csize (s_obj s q) - 1) = 0" "file_ok sec (vol_of s q) fp xs" "file_pos (s_obj s q) fp xs"
    "fl_fs fp = Some q" "fl_id fp = fs_id (s_obj s q)" "fl_flag fp = FA_READ"
    and rest: "rest = take (?z - ?n) (drop ?n ?B)"
    using assms(1) by (simp_all add: reading_def)
  have len: "length rest = ?z - ?n"
    unfolding rest using r(5) length_file_bytes [OF fat_ok_vol [OF r(1)], of xs] by (auto simp: file_ok_def)
  have fl: "fl_flag fp AND FA__ERROR = 0" "fl_flag fp AND FA_READ \<noteq> 0" using r(9) by (simp_all add: fa_bits)
  obtain fp' v' where f: "f_read ops fp buf btr s = Some ((FR_OK, of_nat n, fp', take n (drop ?n ?B) @ drop n buf), put_vol q v' s)"
    and p: "unat (fl_fptr fp') = ?n + n" and k: "file_ok sec v' fp' xs" "file_pos (v_fs v') fp' xs"
    and v': "keeps_view sec (vol_of s q) v'" "same_file fp fp'" "sound (v_dsk v')"
    using f_read_reads [OF data_device_axioms r(1-6) reading_valid [OF assms(1)] r(7) fl assms(2,3) assms(4) [unfolded len]] by blast
  have n: "take n (drop ?n ?B) = take n rest" unfolding rest using assms(4) len by (simp add: min_def)
  have lay: "same_layout (s_obj s q) (v_fs v')" using v'(1) by (simp add: keeps_view_def)
  have same: "fl_fs fp' = fl_fs fp" "fl_id fp' = fl_id fp" "fl_flag fp' = fl_flag fp" "fl_fsize fp' = fl_fsize fp"
    using v'(2) by (auto simp: same_file_def)
  have o: "s_obj (put_vol q v' s) q = v_fs v'" "s_dsk (put_vol q v' s) = v_dsk v'" by (simp_all add: put_vol_def)
  have B: "file_bytes sec v' xs = ?B" by (rule file_bytes_keeps [OF v'(1) r(5)])
  have "drop n rest = take (?z - (?n + n)) (drop (?n + n) ?B)"
    unfolding rest by (simp add: drop_take add.commute)
  then have "reading q xs (drop n rest) fp' (put_vol q v' s)"
    using r k v' p keeps_view_fat_ok [OF v'(1) r(1)] by (simp add: reading_def o same B same_layout_fields [OF lay])
  then show ?thesis using f v'(1) unfolding n by blast
qed

lemma reading_end:
  assumes "reading q xs rest fp s"
  shows "fl_fptr fp = fl_fsize fp \<longleftrightarrow> rest = []"
proof -
  have r: "fat_ok sec (vol_of s q)" "file_ok sec (vol_of s q) fp xs" "file_pos (s_obj s q) fp xs"
    and rest: "rest = take (unat (fl_fsize fp) - unat (fl_fptr fp)) (drop (unat (fl_fptr fp)) (file_bytes sec (vol_of s q) xs))"
    using assms by (simp_all add: reading_def)
  have "length rest = unat (fl_fsize fp) - unat (fl_fptr fp)"
    unfolding rest using r(2) length_file_bytes [OF fat_ok_vol [OF r(1)], of xs] by (auto simp: file_ok_def)
  moreover have "unat (fl_fptr fp) \<le> unat (fl_fsize fp)" using r(3) by (simp add: file_pos_def Let_def)
  ultimately have "unat (fl_fptr fp) = unat (fl_fsize fp) \<longleftrightarrow> length rest = 0" by linarith
  then show ?thesis by (simp add: word_unat_eq_iff)
qed

lemma reading_closes:
  assumes "reading q xs rest fp s"
  shows "f_close ops fp s = Some ((FR_OK, fp\<lparr>fl_fs := None\<rparr>), s)"
  using assms reading_valid [OF assms] by (simp add: f_close_def f_sync_def reading_def fa_bits)

lemma getdata_reads:
  assumes "reading q xs (b @ rest) fp (con_fat c)" "length b = 5"
  shows "\<exists>fp' v'. getdata ops fp c = Some ((rdword b, fp'), c\<lparr>con_fat := put_vol q v' (con_fat c)\<rparr>) \<and>
    keeps_view sec (vol_of (con_fat c) q) v' \<and> reading q xs rest fp' (put_vol q v' (con_fat c))"
proof -
  have n: "5 = min (unat (5 :: u32)) (length (b @ rest))" using assms(2) by simp
  have l: "unat (5 :: u32) < 1024" "unat (5 :: u32) \<le> length (replicate 5 (0 :: byte))" by simp_all
  obtain fp' v' where f: "f_read ops fp (replicate 5 0) 5 (con_fat c) =
      Some ((FR_OK, of_nat 5, fp', take 5 (b @ rest) @ drop 5 (replicate 5 0)), put_vol q v' (con_fat c))"
    and v': "keeps_view sec (vol_of (con_fat c) q) v'" "reading q xs (drop 5 (b @ rest)) fp' (put_vol q v' (con_fat c))"
    using reading_step [OF assms(1) l n] by blast
  have "take 5 (b @ rest) @ drop 5 (replicate 5 0) = b" "drop 5 (b @ rest) = rest" using assms(2) by simp_all
  then show ?thesis using f v'
    by (intro exI [of _ fp'] exI [of _ v']) (simp add: getdata_def fat_def report_def)
qed

end

interpretation sdo: online_device "sd_disk sim_io" sd_sec healthy
  by unfold_locales (simp add: healthy_def sd_disk_def disk_status_def sdStatus_def)

text \<open>A file object as the entry describes it.\<close>

definition entry_file :: "fatfs \<Rightarrow> byte list \<Rightarrow> fil" where
  "entry_file fs e = new_fil\<lparr>fl_sclust := entry_clust fs e, fl_fsize := ld_dword e DIR_FileSize\<rparr>"

lemma file_ok_entry:
  "fl_sclust fp = entry_clust fs e \<Longrightarrow> fl_fsize fp = ld_dword e DIR_FileSize \<Longrightarrow> file_ok sc v fp xs = file_ok sc v (entry_file fs e) xs"
  by (simp add: file_ok_def entry_file_def)

context online_device
begin

lemma open_reads:
  assumes v_def: "v = vol_of s q"
    and "mounted ops sec q s" "sound (s_dsk s)"
    "fs_csize (v_fs v) AND (fs_csize (v_fs v) - 1) = 0" "fs_n_rootdir (v_fs v) mod 16 = 0"
    "dir_clusters sec v 0 rs" "table_ok (v_fs v) rs" "valid_name base ext"
    "dir_lookup (sfn_of base ext) (dir_entries sec v (dir_sectors (v_fs v) rs)) = Some k"
    "e = entry_at sec v (dir_sectors (v_fs v) rs) k" "e ! DIR_Attr AND AM_DIR = 0"
    "file_ok sec v (entry_file (v_fs v) e) xs"
    "take (unat (ld_dword e DIR_FileSize)) (file_bytes sec v xs) = contents"
  shows "\<exists>fp v'. f_open ops (Some new_fil) (path_of base ext @ [0]) FA_READ s = Some ((FR_OK, Some fp), put_vol q v' s) \<and>
    keeps_view sec v v' \<and> reading q xs contents fp (put_vol q v' s)"
proof -
  have v: "v_fs v = s_obj s q" by (simp add: v_def)
  obtain fp v1 where o: "f_open ops (Some new_fil) (path_of base ext @ [0]) FA_READ s = Some ((FR_OK, Some fp), put_vol q v1 s)"
    and v1: "keeps_view sec v v1" "sound (v_dsk v1)"
    and fp: "fl_fs fp = Some q" "fl_id fp = fs_id (v_fs v1)" "fl_flag fp = FA_READ" "fl_fptr fp = 0"
      "fl_fsize fp = ld_dword e DIR_FileSize" "fl_sclust fp = entry_clust (v_fs v) e"
    using f_open_finds [OF reliable_device_axioms assms(2,3) assms(4-7) [unfolded v_def fs_vol_of], of base ext new_fil] assms(8-11)
    unfolding v_def fs_vol_of by (auto simp: Let_def)
  have ok: "fat_ok sec v" "fs_csize (v_fs v) \<noteq> 0" using assms(2) by (simp_all add: mounted_def v_def)
  have lay: "same_layout (v_fs v) (v_fs v1)" using v1(1) by (simp add: keeps_view_def)
  have f: "file_ok sec v fp xs" using assms(12) by (simp only: file_ok_entry [OF fp(6,5)])
  have B: "file_bytes sec v1 xs = file_bytes sec v xs" by (rule file_bytes_keeps [OF v1(1) f])
  have so: "s_obj (put_vol q v1 s) q = v_fs v1" "s_dsk (put_vol q v1 s) = v_dsk v1" by (simp_all add: put_vol_def)
  have "reading q xs contents fp (put_vol q v1 s)"
    using keeps_view_fat_ok [OF v1(1) ok(1)] v1(2) ok(2) assms(4) file_ok_keeps [OF v1(1) ok(1) f] fp assms(13)
    by (simp add: reading_def so B same_layout_fields [OF lay] file_pos_def)
  then show ?thesis using o v1(1) by blast
qed

end

section \<open>Counting words\<close>

lemma and_18: "(x :: u32) AND 0x3FFFF = take_bit 18 x"
  unfolding take_bit_eq_mask by (simp add: mask_eq_exp_minus_1)

lemma step_18: "(of_nat m + 1 :: u32) AND 0x3FFFF = of_nat ((m + 1) mod 262144)"
proof -
  have "(of_nat m + 1 :: u32) = of_nat (m + 1)" by simp
  then show ?thesis unfolding and_18 by (simp only: take_bit_of_nat) (simp add: take_bit_eq_mod)
qed

lemma sign_18: "(x :: u32) AND 0x20000 = 0 \<longleftrightarrow> \<not> bit x 17"
proof -
  have "(0x20000 :: u32) = 2 ^ 17" by simp
  then show ?thesis using and_exp_eq_0_iff_not_bit [of x 17] by simp
qed

text \<open>The counter for \<open>n\<close> words that are still to come.\<close>

definition count :: "nat \<Rightarrow> u32" where
  "count n = of_nat ((262144 - n) mod 262144)"

lemma bit_17_of_nat: "m < 262144 \<Longrightarrow> bit (of_nat m :: u32) 17 \<longleftrightarrow> 131072 \<le> m"
proof -
  assume m: "m < 262144"
  have "bit (of_nat m :: u32) 17 \<longleftrightarrow> bit m 17" by (simp add: bit_of_nat_iff)
  also have "\<dots> \<longleftrightarrow> odd (m div 131072)" by (simp add: bit_iff_odd)
  also have "\<dots> \<longleftrightarrow> 131072 \<le> m"
  proof (cases "131072 \<le> m")
    case True
    then have "m div 131072 = 1" using m by (intro div_nat_eqI) simp_all
    then show ?thesis using True by simp
  qed simp
  finally show ?thesis .
qed

lemma count_sign: "n \<le> 131072 \<Longrightarrow> count n AND 0x20000 = 0 \<longleftrightarrow> n = 0"
  unfolding sign_18 count_def by (subst bit_17_of_nat) (cases n; simp)+

lemma count_step: "Suc n \<le> 131072 \<Longrightarrow> (count (Suc n) + 1) AND 0x3FFFF = count n"
  unfolding count_def step_18 by (simp add: Suc_diff_le [symmetric])

section \<open>Loading blocks\<close>

text \<open>Words stored from an 18-bit address on.\<close>

fun put_words :: "nat \<Rightarrow> u64 list \<Rightarrow> (u64 \<Rightarrow> u64) \<Rightarrow> u64 \<Rightarrow> u64" where
  "put_words a [] m = m"
| "put_words a (d # ds) m = put_words (a + 1) ds (m(of_nat (a mod 262144) := d))"

text \<open>A word of the file for a block of \<open>n\<close> words from address \<open>a\<close>, the start word, and the words of a file.\<close>

definition sav_header :: "nat \<Rightarrow> nat \<Rightarrow> u64" where
  "sav_header a n = push_bit 18 (of_nat (262144 - n)) OR of_nat ((a + 262143) mod 262144)"

definition sav_start :: "nat \<Rightarrow> u64" where
  "sav_start a = push_bit 18 opJRST OR of_nat a"

definition sav_words :: "(nat \<times> u64 list) list \<Rightarrow> nat \<Rightarrow> u64 list" where
  "sav_words blocks start = concat (map (\<lambda>(a, ds). sav_header a (length ds) # ds) blocks) @ [sav_start start]"

definition block_ok :: "nat \<times> u64 list \<Rightarrow> bool" where
  "block_ok b \<longleftrightarrow> snd b \<noteq> [] \<and> length (snd b) \<le> 131072 \<and> (\<forall>d \<in> set (snd b). d AND dataMask = d)"

lemma halves:
  assumes "l < 262144" "r < 262144"
  shows "lh (push_bit 18 (of_nat l) OR of_nat r) = of_nat l" "rh (push_bit 18 (of_nat l) OR of_nat r) = of_nat r"
    "(push_bit 18 (of_nat l) OR of_nat r) AND dataMask = (push_bit 18 (of_nat l) OR of_nat r :: u64)"
proof -
  have m: "(x :: u64) AND 0x3FFFF = take_bit 18 x" for x
    unfolding take_bit_eq_mask by (simp add: mask_eq_exp_minus_1)
  have b: "bit (of_nat l :: u64) n \<Longrightarrow> n < 18" "bit (of_nat r :: u64) n \<Longrightarrow> n < 18" for n
  proof -
    have "take_bit 18 l = l" "take_bit 18 r = r" using assms by (simp_all add: take_bit_eq_mod)
    then show "bit (of_nat l :: u64) n \<Longrightarrow> n < 18" "bit (of_nat r :: u64) n \<Longrightarrow> n < 18"
      by (metis bit_of_nat_iff bit_take_bit_iff)+
  qed
  have u: "bit (of_nat k :: u32) n \<longleftrightarrow> n < 32 \<and> bit (of_nat k :: u64) n" for k n
    by (auto simp: bit_of_nat_iff)
  show "lh (push_bit 18 (of_nat l) OR of_nat r) = of_nat l" unfolding lh_def m
    by (rule bit_word_eqI) (use b u in \<open>auto simp: bit_ucast_iff bit_take_bit_iff bit_drop_bit_eq bit_or_iff bit_push_bit_iff\<close>)
  show "rh (push_bit 18 (of_nat l) OR of_nat r) = of_nat r" unfolding rh_def m
    by (rule bit_word_eqI) (use b u in \<open>auto simp: bit_ucast_iff bit_take_bit_iff bit_or_iff bit_push_bit_iff\<close>)
  show "(push_bit 18 (of_nat l) OR of_nat r) AND dataMask = (push_bit 18 (of_nat l) OR of_nat r :: u64)"
    unfolding and_data
    by (rule bit_word_eqI) (auto simp: bit_take_bit_iff bit_or_iff bit_push_bit_iff dest: b)
qed

lemma address_word: "n < 262144 \<Longrightarrow> ucast (of_nat n :: u32) AND memAddrMask = (of_nat n :: u64)"
proof -
  assume n: "n < 262144"
  have m: "memAddrMask = mask 20" by (simp add: mask_eq_exp_minus_1 memAddrMask_def)
  have "take_bit 18 n = n" using n by (simp add: take_bit_eq_mod)
  then have b: "bit n k \<Longrightarrow> k < 18" for k by (metis bit_take_bit_iff)
  show ?thesis unfolding m
    by (rule bit_word_eqI) (auto simp: bit_and_iff bit_mask_iff bit_ucast_iff bit_of_nat_iff dest: b)
qed

lemma record_loop_step:
  assumes "words AND 0x20000 \<noteq> 0" "getdata ops fp c = Some ((d, fp1), c1)"
    "run_state (writeMem ep (ucast ((addr + 1) AND 0x3FFFF)) d) (con_ks10 c1) = ((), k)"
  shows "record_loop ops ep words addr fp c =
    record_loop ops ep ((words + 1) AND 0x3FFFF) ((addr + 1) AND 0x3FFFF) fp1 (c1\<lparr>con_ks10 := k\<rparr>)"
  using assms by (subst record_loop.simps) (simp add: ks_def)

locale sav_loader = online_device ops sec sound + port: console_port ep psound busy reg mem ctl
  for ops :: "'a disk_ops" and sec sound and ep :: "'k epi" and psound busy reg mem ctl
begin

lemma record_loop_loads:
  assumes "reading q xs (concat (map sav_bytes ds) @ rest) fp (con_fat c)" "port.idle (k_epi (con_ks10 c))"
    "\<forall>d \<in> set ds. d AND dataMask = d" "length ds \<le> 131072"
  shows "\<exists>fp' s' w'. record_loop ops ep (count (length ds)) (of_nat ((a + 262143) mod 262144)) fp c =
      Some (fp', c\<lparr>con_fat := s', con_ks10 := (con_ks10 c)\<lparr>k_epi := w'\<rparr>\<rparr>) \<and>
    reading q xs rest fp' s' \<and> keeps_view sec (vol_of (con_fat c) q) (vol_of s' q) \<and>
    port.after (k_epi (con_ks10 c)) (put_words a ds (mem (k_epi (con_ks10 c)))) w'"
  using assms
proof (induction ds arbitrary: fp c a)
  case Nil
  have "keeps_view sec (vol_of (con_fat c) q) (vol_of (con_fat c) q)"
    using Nil.prems(1) fat_ok_vol by (auto simp: reading_def intro: keeps_view_refl)
  then show ?case using Nil.prems count_sign [of 0]
    by (intro exI [of _ fp] exI [of _ "con_fat c"] exI [of _ "k_epi (con_ks10 c)"], subst record_loop.simps)
       (simp add: port.after_def)
next
  case (Cons d ds)
  let ?w = "k_epi (con_ks10 c)"
  obtain fp1 v1 where g: "getdata ops fp c = Some ((rdword (sav_bytes d), fp1), c\<lparr>con_fat := put_vol q v1 (con_fat c)\<rparr>)"
    and v1: "keeps_view sec (vol_of (con_fat c) q) v1"
    and r1: "reading q xs (concat (map sav_bytes ds) @ rest) fp1 (put_vol q v1 (con_fat c))"
    using getdata_reads [of q xs "sav_bytes d" "concat (map sav_bytes ds) @ rest" fp c] Cons.prems(1) by auto
  have d: "rdword (sav_bytes d) = d" "d AND dataMask = d" using rdword_sav_bytes [of d "[]"] Cons.prems(3) by simp_all
  have am: "((a + 262143) mod 262144 + 1) mod 262144 = a mod 262144" by (simp add: mod_simps)
  then have ad: "(of_nat ((a + 262143) mod 262144) + 1 :: u32) AND 0x3FFFF = of_nat (a mod 262144)" by (simp only: step_18)
  have ua: "ucast (of_nat (a mod 262144) :: u32) AND memAddrMask = (of_nat (a mod 262144) :: u64)"
    by (rule address_word) simp
  obtain w1 where w: "run_state (writeMem ep (ucast (of_nat (a mod 262144) :: u32)) d) (con_ks10 c) = ((), (con_ks10 c)\<lparr>k_epi := w1\<rparr>)"
    and w1: "port.after ?w ((mem ?w)(of_nat (a mod 262144) := d)) w1"
    using port.writeMem_writes [OF Cons.prems(2), of "ucast (of_nat (a mod 262144) :: u32)" d] d(2) ua by auto
  let ?c = "c\<lparr>con_fat := put_vol q v1 (con_fat c), con_ks10 := (con_ks10 c)\<lparr>k_epi := w1\<rparr>\<rparr>"
  have nx: "a mod 262144 = (a + 1 + 262143) mod 262144" by simp
  have sg: "count (length (d # ds)) AND 0x20000 \<noteq> 0" using count_sign [of "length (d # ds)"] Cons.prems(4) by simp
  have g': "getdata ops fp c = Some ((d, fp1), c\<lparr>con_fat := put_vol q v1 (con_fat c)\<rparr>)" using g d(1) by simp
  have w': "run_state (writeMem ep (ucast ((of_nat ((a + 262143) mod 262144) + 1 :: u32) AND 0x3FFFF)) d)
      (con_ks10 (c\<lparr>con_fat := put_vol q v1 (con_fat c)\<rparr>)) = ((), (con_ks10 c)\<lparr>k_epi := w1\<rparr>)"
    unfolding ad using w by simp
  have st: "(count (length (d # ds)) + 1) AND 0x3FFFF = count (length ds)"
    using count_step [of "length ds"] Cons.prems(4) by simp
  have step: "record_loop ops ep (count (length (d # ds))) (of_nat ((a + 262143) mod 262144)) fp c =
      record_loop ops ep (count (length ds)) (of_nat ((a + 1 + 262143) mod 262144)) fp1 ?c"
    unfolding record_loop_step [OF sg g' w'] ad st nx by simp
  have i1: "port.idle w1" "mem w1 = (mem ?w)(of_nat (a mod 262144) := d)" using w1 by (simp_all add: port.after_def)
  have r1': "reading q xs (concat (map sav_bytes ds) @ rest) fp1 (con_fat ?c)" using r1 by simp
  have p1: "port.idle (k_epi (con_ks10 ?c))" using i1 by simp
  obtain fp2 s2 w2 where
      e: "record_loop ops ep (count (length ds)) (of_nat ((a + 1 + 262143) mod 262144)) fp1 ?c =
        Some (fp2, ?c\<lparr>con_fat := s2, con_ks10 := (con_ks10 ?c)\<lparr>k_epi := w2\<rparr>\<rparr>)"
    and r2: "reading q xs rest fp2 s2" "keeps_view sec (vol_of (con_fat ?c) q) (vol_of s2 q)"
    and w2: "port.after (k_epi (con_ks10 ?c)) (put_words (a + 1) ds (mem (k_epi (con_ks10 ?c)))) w2"
    using Cons.IH [OF r1' p1, of "a + 1"] Cons.prems(3,4) by auto
  have "record_loop ops ep (count (length (d # ds))) (of_nat ((a + 262143) mod 262144)) fp c =
      Some (fp2, c\<lparr>con_fat := s2, con_ks10 := (con_ks10 c)\<lparr>k_epi := w2\<rparr>\<rparr>)"
    unfolding step e by simp
  moreover have "port.after ?w (put_words a (d # ds) (mem ?w)) w2"
    using w1 w2 i1(2) by (simp add: port.after_def)
  moreover have "keeps_view sec (vol_of (con_fat c) q) (vol_of s2 q)"
    using keeps_view_trans [OF v1] r2(2) by simp
  ultimately show ?case using r2(1) by blast
qed

end

lemma put_words_le: "fold (\<lambda>(a, ds). put_words a ds) (b # bs) m = fold (\<lambda>(a, ds). put_words a ds) bs (put_words (fst b) (snd b) m)"
  by (simp add: split_beta)

lemma header_parts:
  assumes "n \<noteq> 0" "n \<le> 131072"
  shows "lh (sav_header a n) = count n" "rh (sav_header a n) = of_nat ((a + 262143) mod 262144)"
    "sav_header a n AND dataMask = sav_header a n"
  using halves [of "262144 - n" "(a + 262143) mod 262144"] assms by (simp_all add: sav_header_def count_def)

lemma start_parts:
  assumes "start < 262144"
  shows "lh (sav_start start) AND 0x20000 = 0" "ucast (lh (sav_start start)) = opJRST"
    "sav_start start AND dataMask = sav_start start"
proof -
  have j: "opJRST = of_nat 88064" by (simp add: opJRST_def)
  have l: "lh (sav_start start) = 88064"
    using halves(1) [of 88064 start] assms by (simp add: sav_start_def j)
  show "lh (sav_start start) AND 0x20000 = 0" "ucast (lh (sav_start start)) = opJRST" by (simp_all add: l opJRST_def)
  show "sav_start start AND dataMask = sav_start start"
    using halves(3) [of 88064 start] assms by (simp add: sav_start_def j)
qed

context sav_loader
begin

lemma load_loop_loads:
  assumes "reading q xs (concat (map sav_bytes (sav_words blocks start)) @ rest) fp (con_fat c)"
    "port.idle (k_epi (con_ks10 c))" "\<forall>b \<in> set blocks. block_ok b" "start < 262144"
  shows "\<exists>s' w' msg. load_loop ops ep fp c = Some (True, c\<lparr>con_fat := s',
      con_ks10 := (con_ks10 c)\<lparr>k_epi := w', k_log := k_log (con_ks10 c) @ [msg]\<rparr>\<rparr>) \<and>
    keeps_view sec (vol_of (con_fat c) q) (vol_of s' q) \<and> sound (s_dsk s') \<and> port.idle w' \<and>
    mem w' = fold (\<lambda>(a, ds). put_words a ds) blocks (mem (k_epi (con_ks10 c))) \<and> reg w' regCIR = sav_start start"
  using assms
proof (induction blocks arbitrary: fp c)
  case Nil
  let ?k = "con_ks10 c" and ?d = "sav_start start"
  obtain fp1 v1 where g: "getdata ops fp c = Some ((rdword (sav_bytes ?d), fp1), c\<lparr>con_fat := put_vol q v1 (con_fat c)\<rparr>)"
    and v1: "keeps_view sec (vol_of (con_fat c) q) v1" and r1: "reading q xs rest fp1 (put_vol q v1 (con_fat c))"
    using getdata_reads [of q xs "sav_bytes ?d" rest fp c] Nil.prems(1) by (auto simp: sav_words_def)
  have d: "rdword (sav_bytes ?d) = ?d" using rdword_sav_bytes [of ?d "[]"] start_parts(3) [OF Nil.prems(4)] by simp
  define msg where "msg = Printf ''KS10: Starting Address: %06lo,,%06lo'' [opJRST, ucast (rh ?d)]"
  obtain w1 where w: "run_state (writeRegCIR ep ?d) (?k\<lparr>k_log := k_log ?k @ [msg]\<rparr>) = ((), ?k\<lparr>k_log := k_log ?k @ [msg], k_epi := w1\<rparr>)"
    and w1: "port.idle w1" "mem w1 = mem (k_epi ?k)" "reg w1 regCIR = ?d AND dataMask"
    using port.writeCIR_writes [of "?k\<lparr>k_log := k_log ?k @ [msg]\<rparr>" ?d] Nil.prems(2) by auto
  have log: "?k\<lparr>k_log := k_log ?k @ [msg], k_epi := w1\<rparr> = ?k\<lparr>k_epi := w1, k_log := k_log ?k @ [msg]\<rparr>" by simp
  have "load_loop ops ep fp c = Some (True, c\<lparr>con_fat := put_vol q v1 (con_fat c),
      con_ks10 := ?k\<lparr>k_epi := w1, k_log := k_log ?k @ [msg]\<rparr>\<rparr>)"
    using g d w reading_closes [OF r1] start_parts(1,2) [OF Nil.prems(4)]
    by (subst load_loop.simps) (simp add: ks_def fat_def report_def msg_def [symmetric] log)
  moreover have "sound (s_dsk (put_vol q v1 (con_fat c)))" using r1 by (simp add: reading_def)
  ultimately show ?case using v1 w1 start_parts(3) [OF Nil.prems(4)]
    by (intro exI [of _ "put_vol q v1 (con_fat c)"] exI [of _ w1] exI [of _ msg]) simp
next
  case (Cons b bs)
  obtain a ds where b: "b = (a, ds)" by fastforce
  let ?h = "sav_header a (length ds)" and ?r = "concat (map sav_bytes (sav_words bs start)) @ rest"
  have ok: "ds \<noteq> []" "length ds \<le> 131072" "\<forall>d \<in> set ds. d AND dataMask = d" using Cons.prems(3) b by (auto simp: block_ok_def)
  have n: "length ds \<noteq> 0" using ok by simp
  obtain fp1 v1 where g: "getdata ops fp c = Some ((rdword (sav_bytes ?h), fp1), c\<lparr>con_fat := put_vol q v1 (con_fat c)\<rparr>)"
    and v1: "keeps_view sec (vol_of (con_fat c) q) v1"
    and r1: "reading q xs (concat (map sav_bytes ds) @ ?r) fp1 (put_vol q v1 (con_fat c))"
    using getdata_reads [of q xs "sav_bytes ?h" "concat (map sav_bytes ds) @ ?r" fp c] Cons.prems(1) b by (auto simp: sav_words_def)
  have d: "rdword (sav_bytes ?h) = ?h" using rdword_sav_bytes [of ?h "[]"] header_parts(3) [OF n ok(2)] by simp
  let ?c = "c\<lparr>con_fat := put_vol q v1 (con_fat c)\<rparr>"
  obtain fp2 s2 w2 where e: "record_loop ops ep (count (length ds)) (of_nat ((a + 262143) mod 262144)) fp1 ?c =
      Some (fp2, ?c\<lparr>con_fat := s2, con_ks10 := (con_ks10 ?c)\<lparr>k_epi := w2\<rparr>\<rparr>)"
    and r2: "reading q xs ?r fp2 s2" "keeps_view sec (vol_of (con_fat ?c) q) (vol_of s2 q)"
    and w2: "port.after (k_epi (con_ks10 ?c)) (put_words a ds (mem (k_epi (con_ks10 ?c)))) w2"
    using record_loop_loads [of q xs ds ?r fp1 ?c a] r1 Cons.prems(2) ok by auto
  let ?c2 = "?c\<lparr>con_fat := s2, con_ks10 := (con_ks10 ?c)\<lparr>k_epi := w2\<rparr>\<rparr>"
  have step: "load_loop ops ep fp c = load_loop ops ep fp2 ?c2"
    using g d e header_parts(1,2) [OF n ok(2)] count_sign [OF ok(2)] n by (subst load_loop.simps) simp
  have i2: "port.idle w2" "mem w2 = put_words a ds (mem (k_epi (con_ks10 c)))" using w2 by (simp_all add: port.after_def)
  obtain s3 w3 msg where l: "load_loop ops ep fp2 ?c2 = Some (True, ?c2\<lparr>con_fat := s3,
      con_ks10 := (con_ks10 ?c2)\<lparr>k_epi := w3, k_log := k_log (con_ks10 ?c2) @ [msg]\<rparr>\<rparr>)"
    and k3: "keeps_view sec (vol_of (con_fat ?c2) q) (vol_of s3 q)" "sound (s_dsk s3)" "port.idle w3"
      "mem w3 = fold (\<lambda>(a, ds). put_words a ds) bs (mem (k_epi (con_ks10 ?c2)))" "reg w3 regCIR = sav_start start"
    using Cons.IH [of fp2 ?c2] r2(1) i2(1) Cons.prems(3,4) by auto
  have "keeps_view sec (vol_of (con_fat c) q) (vol_of s3 q)"
    using keeps_view_trans [OF v1] keeps_view_trans [of sec v1 "vol_of s2 q"] r2(2) k3(1) by simp
  then show ?case using step l k3 i2(2) b
    by (intro exI [of _ s3] exI [of _ w3] exI [of _ msg]) simp
qed

end

context sav_loader
begin

lemma loadCode_loads:
  fixes c :: "('a, 'k) console"
  assumes v_def: "v = vol_of (con_fat c) q"
    and "mounted ops sec q (con_fat c)" "sound (s_dsk (con_fat c))"
    "fs_csize (v_fs v) AND (fs_csize (v_fs v) - 1) = 0" "fs_n_rootdir (v_fs v) mod 16 = 0"
    "dir_clusters sec v 0 rs" "table_ok (v_fs v) rs" "valid_name base ext"
    "dir_lookup (sfn_of base ext) (dir_entries sec v (dir_sectors (v_fs v) rs)) = Some k"
    "e = entry_at sec v (dir_sectors (v_fs v) rs) k" "e ! DIR_Attr AND AM_DIR = 0"
    "file_ok sec v (entry_file (v_fs v) e) xs"
    "take (unat (ld_dword e DIR_FileSize)) (file_bytes sec v xs) = concat (map sav_bytes (sav_words blocks start)) @ rest"
    "\<forall>b \<in> set blocks. block_ok b" "start < 262144" "port.idle (k_epi (con_ks10 c))"
  shows "\<exists>s' w' msg. loadCode ops ep (path_of base ext @ [0]) c = Some (True, c\<lparr>con_fat := s',
      con_ks10 := (con_ks10 c)\<lparr>k_epi := w', k_log := k_log (con_ks10 c) @ [msg]\<rparr>\<rparr>) \<and>
    keeps_view sec v (vol_of s' q) \<and> sound (s_dsk s') \<and> port.idle w' \<and>
    mem w' = fold (\<lambda>(a, ds). put_words a ds) blocks (mem (k_epi (con_ks10 c))) \<and> reg w' regCIR = sav_start start"
proof -
  let ?s = "con_fat c"
  obtain fp v1 where o: "f_open ops (Some new_fil) (path_of base ext @ [0]) FA_READ ?s = Some ((FR_OK, Some fp), put_vol q v1 ?s)"
    and v1: "keeps_view sec v v1"
    and rd: "reading q xs (concat (map sav_bytes (sav_words blocks start)) @ rest) fp (put_vol q v1 ?s)"
    using open_reads [OF v_def assms(2-12) assms(13)] by blast
  let ?c = "c\<lparr>con_fat := put_vol q v1 ?s\<rparr>"
  have r: "reading q xs (concat (map sav_bytes (sav_words blocks start)) @ rest) fp (con_fat ?c)" using rd by simp
  have l: "loadCode ops ep (path_of base ext @ [0]) c = load_loop ops ep fp ?c"
    using o by (simp add: loadCode_def fat_def)
  have p: "port.idle (k_epi (con_ks10 ?c))" using assms(16) by simp
  obtain s' w' msg where "load_loop ops ep fp ?c = Some (True, ?c\<lparr>con_fat := s',
      con_ks10 := (con_ks10 ?c)\<lparr>k_epi := w', k_log := k_log (con_ks10 ?c) @ [msg]\<rparr>\<rparr>)"
    "keeps_view sec (vol_of (con_fat ?c) q) (vol_of s' q)" "sound (s_dsk s')" "port.idle w'"
    "mem w' = fold (\<lambda>(a, ds). put_words a ds) blocks (mem (k_epi (con_ks10 ?c)))" "reg w' regCIR = sav_start start"
    using load_loop_loads [OF r p assms(14,15)] by blast
  then show ?thesis using l keeps_view_trans [OF v1] by (intro exI [of _ s'] exI [of _ w'] exI [of _ msg]) simp
qed

end

interpretation sl: sav_loader "sd_disk sim_io" sd_sec healthy csl_epi "csl_sound acs" c_busy c_reg c_mem c_ctl
  by unfold_locales

text \<open>C2: loading a \<^verbatim>\<open>.SAV\<close> file end to end. On a sound, mounted volume whose root directory has the file,
  and with a halted KS10 behind the console port, \<open>loadCode\<close> returns true; every block of the file is in the memory of the
  KS10 at its addresses, the console instruction register holds the JRST to the starting address of the file, and
  the volume keeps its contents. Addresses wrap at 18 bits; blocks have 1 to 131072 words of 36 bits.\<close>

lemma loadCode_loads_sav_file:
  fixes c :: "('w, 'k) console"
  assumes "online_device ops sec sound" "console_port ep psound busy reg mem ctl"
    and "mounted ops sec q (con_fat c)" "sound (s_dsk (con_fat c))"
    "fs_csize (s_obj (con_fat c) q) AND (fs_csize (s_obj (con_fat c) q) - 1) = 0" "fs_n_rootdir (s_obj (con_fat c) q) mod 16 = 0"
    "dir_clusters sec (vol_of (con_fat c) q) 0 rs" "table_ok (s_obj (con_fat c) q) rs" "valid_name base ext"
    "dir_lookup (sfn_of base ext) (dir_entries sec (vol_of (con_fat c) q) (dir_sectors (s_obj (con_fat c) q) rs)) = Some k"
    "e = entry_at sec (vol_of (con_fat c) q) (dir_sectors (s_obj (con_fat c) q) rs) k" "e ! DIR_Attr AND AM_DIR = 0"
    "file_ok sec (vol_of (con_fat c) q) (entry_file (s_obj (con_fat c) q) e) xs"
    "take (unat (ld_dword e DIR_FileSize)) (file_bytes sec (vol_of (con_fat c) q) xs) =
       concat (map sav_bytes (sav_words blocks start)) @ rest"
    "\<forall>b \<in> set blocks. block_ok b" "start < 262144" "psound (k_epi (con_ks10 c))" "busy (k_epi (con_ks10 c)) = 0"
  shows "\<exists>c'. loadCode ops ep (path_of base ext @ [0]) c = Some (True, c') \<and>
    mem (k_epi (con_ks10 c')) = fold (\<lambda>(a, ds). put_words a ds) blocks (mem (k_epi (con_ks10 c))) \<and>
    reg (k_epi (con_ks10 c')) regCIR = sav_start start \<and>
    keeps_view sec (vol_of (con_fat c) q) (vol_of (con_fat c') q)"
proof -
  have loc: "sav_loader ops sec sound ep psound busy reg mem ctl" using assms(1,2) by (rule sav_loader.intro)
  have i: "console_port.idle psound busy (k_epi (con_ks10 c))" using assms(17,18) by (simp add: console_port.idle_def [OF assms(2)])
  from sav_loader.loadCode_loads [OF loc refl assms(3,4) assms(5-16) [folded fs_vol_of(1)] i]
  show ?thesis by (auto simp del: fold_simps)
qed

section \<open>An example\<close>

text \<open>The example volume with a \<^verbatim>\<open>.SAV\<close> file of 120 words in the place of the text.\<close>

definition demo_blocks :: "(nat \<times> u64 list) list" where
  "demo_blocks = [(512, replicate 58 1), (262143, replicate 59 2)]"

definition sav_demo :: "byte list" where
  "sav_demo = concat (map sav_bytes (sav_words demo_blocks 512))"

definition sav_image :: "u32 \<Rightarrow> byte list" where
  "sav_image a = (if a = 3 then take 512 sav_demo else if a = 4 then drop 512 sav_demo @ replicate 424 0 else demo_image a)"

definition sav_card :: "sim sd" where
  "sav_card = file_card\<lparr>sd_card := \<lparr>sim_mem = sav_image, sim_mode = SIdle, sim_faults = []\<rparr>\<rparr>"

definition sav_console :: "(sim sd, csl) console" where
  "sav_console = \<lparr>con_fat = (file_sys file_fs)\<lparr>s_dsk := sav_card\<rparr>, con_ks10 = demo_ks, con_address = 0, con_access = accessMEM,
     con_dupccr = 0, con_dzccr = 0, con_lpccr = 0, con_rhcfg = \<lparr>rhbase = 0, rhunit = 0, mtparam = 0\<rparr>, con_rpccr = 0, con_running = False,
     con_dasm = replicate 32 (CHR 0x00), con_input = []\<rparr>"

definition sav_vol :: "sim sd vol" where
  "sav_vol = \<lparr>v_fs = file_fs, v_dsk = sav_card\<rparr>"

lemma length_concat_same: "(\<And>x. length (f x) = n) \<Longrightarrow> length (concat (map f xs)) = n * length xs"
  by (induction xs) simp_all

lemma length_sav_demo: "length sav_demo = 600"
  unfolding sav_demo_def by (subst length_concat_same [of sav_bytes 5]) (simp_all add: sav_words_def demo_blocks_def)

lemma sav_sec: "sd_sec sav_card = sav_image"
  by (simp add: sd_sec_def sav_card_def file_card_def)

lemma length_sav_image: "length (sav_image a) = 512"
  by (simp add: sav_image_def length_sav_demo length_image)

lemma sav_healthy: "healthy sav_card"
  by (simp add: healthy_def ready_def sav_sec length_sav_image) (simp add: sav_card_def file_card_def)

lemma sav_other: "a \<noteq> 3 \<Longrightarrow> a \<noteq> 4 \<Longrightarrow> view sd_sec sav_vol a = view sd_sec file_vol a"
  by (simp add: view_def sav_vol_def file_vol_def sav_sec file_sec sav_image_def)

lemma sav_state: "vol_of (con_fat sav_console) 0 = sav_vol" "s_obj (con_fat sav_console) 0 = file_fs" "s_dsk (con_fat sav_console) = sav_card"
  "con_ks10 sav_console = demo_ks" "v_fs sav_vol = file_fs" "v_fs file_vol = file_fs"
  by (simp_all add: sav_console_def vol_of_def file_sys_def sav_vol_def file_vol_def)

lemma sav_vol_ok: "fat_ok sd_sec sav_vol"
  using file_vol_ok sav_healthy
  by (simp add: fat_ok_def vol_ok_def clean_def sav_state healthy_def) (simp add: sav_vol_def file_vol_def file_fs_def sav_sec sav_image_def file_sec)

lemma sav_mounted: "mounted (sd_disk sim_io) sd_sec 0 (con_fat sav_console)"
  using file_mounted sav_vol_ok
  by (simp add: mounted_def sav_state) (simp add: sav_console_def file_sys_def sd_disk_def disk_status_def sdStatus_def sav_card_def file_card_def)

lemma sav_entries: "fat_entry sd_sec sav_vol 2 = 3" "fat_entry sd_sec sav_vol 3 = 0xFFF"
proof -
  have "view sd_sec sav_vol 1 = demo_fat12" using sav_other [of 1] demo_fat_view by simp
  then have b: "fat_byte sd_sec sav_vol k = demo_fat12 ! k" if "k < 512" for k
    using that by (simp add: fat_byte_def fat_sector_def) (simp add: sav_vol_def file_fs_def)
  have t: "fs_type (v_fs sav_vol) = FS_FAT12" by (simp add: sav_vol_def file_fs_def)
  show "fat_entry sd_sec sav_vol 2 = 3" "fat_entry sd_sec sav_vol 3 = 0xFFF"
    by (simp_all add: fat_entry_def t entry_of_def fs_types ent12_def b demo_fat12_def)
qed

lemma sav_directory:
  "dir_clusters sd_sec sav_vol 0 []" "table_ok file_fs []" "dir_sectors file_fs [] = [2]"
  "entry_at sd_sec sav_vol [2] 0 = take 32 demo_root" "dir_lookup demo_name (dir_entries sd_sec sav_vol [2]) = Some 0"
proof -
  have e: "entry_at sd_sec sav_vol [2] i = entry_at sd_sec file_vol [2] i" if "i < 16" for i
    using that sav_other [of 2] by (simp add: entry_at_def)
  have "dir_entries sd_sec sav_vol [2] = dir_entries sd_sec file_vol [2]"
    unfolding dir_entries_def by (rule map_cong) (use e in auto)
  then show "dir_lookup demo_name (dir_entries sd_sec sav_vol [2]) = Some 0" using file_lookup by simp
  show "entry_at sd_sec sav_vol [2] 0 = take 32 demo_root" using e [of 0] demo_file_entry by simp
  show "table_ok file_fs []" "dir_sectors file_fs [] = [2]" using file_root_table(2,3) by (simp_all add: sav_state)
  show "dir_clusters sd_sec sav_vol 0 []" by (simp add: dir_clusters_def table_start_def sav_state) (simp add: file_fs_def fs_types)
qed

lemma demo_entry_fields:
  "take 32 demo_root ! DIR_Attr AND AM_DIR = 0" "ld_dword (take 32 demo_root) DIR_FileSize = 600"
  "entry_clust file_fs (take 32 demo_root) = 2"
  by (simp_all add: demo_root_def demo_name_def entry_clust_def DIR_Attr_def DIR_FileSize_def DIR_FstClusLO_def AM_DIR_def
      ld_dword_def ld_word_def file_fs_def fs_types)

lemma sav_contents: "file_bytes sd_sec sav_vol [2, 3] = sav_demo @ replicate 424 0"
  using file_contents(1)
  by (simp add: file_bytes_def sav_state view_def) (simp add: sav_vol_def file_fs_def sav_sec sav_image_def)

lemma sav_file_ok: "file_ok sd_sec sav_vol (entry_file file_fs (take 32 demo_root)) [2, 3]"
proof -
  have n: "fs_n_fatent file_fs = 10" by (simp add: file_fs_def)
  show ?thesis
    using sav_entries by (simp add: file_ok_def sav_state n file_contents entry_file_def demo_entry_fields)
      (simp add: mirror_def file_fs_def fs_types)
qed

lemma demo_blocks_ok: "\<forall>b \<in> set demo_blocks. block_ok b"
  by (simp add: demo_blocks_def block_ok_def dataMask_def)

lemma demo_path_valid: "valid_name [0x68, 0x65, 0x6C, 0x6C, 0x6F] [0x74, 0x78, 0x74]"
  by (simp add: valid_name_def name_char_def is_sep_def illegal_sfn_def)

lemma demo_path_name: "sfn_of [0x68, 0x65, 0x6C, 0x6C, 0x6F] [0x74, 0x78, 0x74] = demo_name"
  by (simp add: sfn_of_def pad_def upc_def IsLower_def demo_name_def word_le_nat_alt replicate_numeral3)

lemma loadCode_loads_sav_file_witness:
  "\<exists>c'. loadCode (sd_disk sim_io) csl_epi [0x68, 0x65, 0x6C, 0x6C, 0x6F, 0x2E, 0x74, 0x78, 0x74, 0] sav_console = Some (True, c') \<and>
    c_mem (k_epi (con_ks10 c')) = fold (\<lambda>(a, ds). put_words a ds) [(512, replicate 58 1), (262143, replicate 59 2)] (c_mem demo_csl) \<and>
    c_reg (k_epi (con_ks10 c')) regCIR = 0x560000200"
proof -
  let ?b = "[0x68, 0x65, 0x6C, 0x6C, 0x6F] :: byte list" and ?e = "[0x74, 0x78, 0x74] :: byte list"
  note n = demo_path_valid and f = demo_path_name
  have p: "path_of ?b ?e @ [0] = [0x68, 0x65, 0x6C, 0x6C, 0x6F, 0x2E, 0x74, 0x78, 0x74, 0]" by (simp add: path_of_def)
  have g: "fs_csize file_fs AND (fs_csize file_fs - 1) = 0" "fs_n_rootdir file_fs mod 16 = 0" by (simp_all add: file_fs_def)
  have k: "k_epi demo_ks = demo_csl" by (simp add: demo_ks_def)
  have t: "take (unat (600 :: u32)) (sav_demo @ replicate 424 0) = concat (map sav_bytes (sav_words demo_blocks 512)) @ []"
    using length_sav_demo by (simp add: sav_demo_def)
  have s: "sav_start 512 = 0x560000200" by (simp add: sav_start_def opJRST_def)
  have sav_healthy_dsk: "healthy (s_dsk (con_fat sav_console))" using sav_healthy by (simp add: sav_state)
  have d: "dir_lookup (sfn_of ?b ?e) (dir_entries sd_sec sav_vol (dir_sectors file_fs [])) = Some 0"
    "take 32 demo_root = entry_at sd_sec sav_vol (dir_sectors file_fs []) 0" using sav_directory(3-5) f by simp_all
  have m: "take (unat (ld_dword (take 32 demo_root) DIR_FileSize)) (file_bytes sd_sec sav_vol [2, 3]) =
      concat (map sav_bytes (sav_words demo_blocks 512)) @ []" unfolding demo_entry_fields(2) sav_contents by (rule t)
  have w: "csl_sound demo_acs (k_epi (con_ks10 sav_console))" "c_busy (k_epi (con_ks10 sav_console)) = 0"
    using demo_csl_sound by (simp_all add: sav_state k)
  have "(512 :: nat) < 262144" by simp
  from loadCode_loads_sav_file [OF sdo.online_device_axioms csp.console_port_axioms sav_mounted sav_healthy_dsk
      g(1) [folded sav_state(2)] g(2) [folded sav_state(2)] _ _ n, unfolded sav_state,
      OF sav_directory(1,2) d demo_entry_fields(1) sav_file_ok m demo_blocks_ok this] w
  show ?thesis unfolding p s sav_state k demo_blocks_def by blast
qed

end
