(* ===== verification/Terminal.thy ===== *)
theory Terminal
  imports Loader Dasm
begin

text \<open>
  The terminal while the processor runs (\<^verbatim>\<open>consoleOutput\<close> in \<^verbatim>\<open>commands.cpp\<close>): characters typed go to the
  processor, and some keys act on the console itself.
\<close>

definition text_of :: "byte list \<Rightarrow> string" where
  "text_of b = map (\<lambda>x. char_of (unat x)) (takeWhile (\<lambda>x. x \<noteq> 0) b)"

definition say_if :: "bool \<Rightarrow> message \<Rightarrow> ('k ks10, unit) state" where
  "say_if b m = (if b then say m else State_Monad.return ())"

section \<open>Disassembly and the terminal of the processor\<close>

text \<open>\<^verbatim>\<open>dasm()\<close> gives its static buffer; nothing is printed for the mnemonics of its tables.\<close>

definition disassemble :: "u64 \<Rightarrow> ('w, 'k, string) command" where
  "disassemble insn c = do {
     (b, out) \<leftarrow> dasm (con_dasm c) insn [];
     Some (takeWhile (\<lambda>x. x \<noteq> CHR 0x00) b, c\<lparr>con_dasm := b\<rparr>) }"

definition printPCIR :: "u64 \<Rightarrow> ('w, 'k, unit) command" where
  "printPCIR data c =
     (let pc = drop_bit 36 data AND 0x3FFFF;
          ir = data AND 0xFFFFFFFFF
      in do {
        (line, c) \<leftarrow> disassemble ir c;
        print (Shown ''%06o %s'' [pc] [line]) c })"

definition getchar :: "('w, 'k, int) command" where
  "getchar c = (case con_input c of [] \<Rightarrow> Some (-1, c) | ch # r \<Rightarrow> Some (ch, c\<lparr>con_input := r\<rparr>))"

text \<open>While the processor runs, characters go to it; \<^verbatim>\<open>^E\<close> leaves, \<^verbatim>\<open>^T\<close> shows the instruction, \<^verbatim>\<open>^L\<close> sets the printer on line.\<close>

partial_function (option) output_loop :: "'k epi \<Rightarrow> ('w, 'k, unit) command" where
  "output_loop ep c = do {
     (h, c) \<leftarrow> ks (halt ep) c;
     (if h then Some ((), c)
      else do {
        (ch, c) \<leftarrow> getchar c;
        (if ch = 0x05 then print (Text ''^E'') c
         else if ch = 0x14 then do {
           (d, c) \<leftarrow> ks (readDPCIR ep) c;
           (u, c) \<leftarrow> printPCIR d c;
           output_loop ep c }
         else if ch = 0x0C then do {
           (u, c) \<leftarrow> ks (do { lpccr \<leftarrow> readLPCCR ep; writeLPCCR ep (0x2 OR lpccr) }) c;
           output_loop ep c }
         else if ch \<noteq> -1 then do {
           (u, c) \<leftarrow> ks (ks_putchar ep (word_of_int ch)) c;
           output_loop ep c }
         else output_loop ep c) }) }"

definition consoleOutput :: "'k epi \<Rightarrow> ('w, 'k, unit) command" where
  "consoleOutput ep c = do {
     (u, c) \<leftarrow> output_loop ep (c\<lparr>con_running := True\<rparr>);
     Some ((), c\<lparr>con_running := False\<rparr>) }"

text \<open>The loop is executable.\<close>

declare output_loop.simps [code]

end
