(* ===== verification/Rh11.thy ===== *)
theory Rh11
  imports Terminal
begin

text \<open>
  The disk controller of \<^verbatim>\<open>rh11.cpp\<close> (with \<^verbatim>\<open>uba.hpp\<close>): registers on the Unibus, booting from a disk, and the
  tests of the controller. The object is its base address. A turn of the scheduler stands for \<^verbatim>\<open>xTaskDelay(1)\<close>.
\<close>

section \<open>Registers\<close>

definition uba_page :: "u64 \<Rightarrow> u64" where
  "uba_page addr = drop_bit 9 addr AND 0x7FF"

definition pag_write :: "'k epi \<Rightarrow> u64 \<Rightarrow> u64 \<Rightarrow> u64 \<Rightarrow> ('k ks10, unit) state" where
  "pag_write ep base ofs data = writeIO ep ((base AND 0x1C0000) + 0x3E600 + ofs) data"

text \<open>Offsets of the registers.\<close>

definition rh_cs1 :: u64 where "rh_cs1 = 0x00"
definition rh_wc :: u64 where "rh_wc = 0x02"
definition rh_ba :: u64 where "rh_ba = 0x04"
definition rh_da :: u64 where "rh_da = 0x06"
definition rh_cs2 :: u64 where "rh_cs2 = 0x08"
definition rh_ds :: u64 where "rh_ds = 0x0A"
definition rh_as :: u64 where "rh_as = 0x0E"
definition rh_la :: u64 where "rh_la = 0x10"
definition rh_db :: u64 where "rh_db = 0x12"
definition rh_mr :: u64 where "rh_mr = 0x14"
definition rh_of :: u64 where "rh_of = 0x1A"
definition rh_dc :: u64 where "rh_dc = 0x1C"

definition cs1_sc :: u64 where "cs1_sc = 0x8000"
definition cs1_rdy :: u64 where "cs1_rdy = 0x80"
definition cs1_cmdrd :: u64 where "cs1_cmdrd = 0x38"
definition cs1_cmdwr :: u64 where "cs1_cmdwr = 0x30"
definition cs1_cmdwch :: u64 where "cs1_cmdwch = 0x28"
definition cs1_cmdpre :: u64 where "cs1_cmdpre = 0x10"
definition cs1_go :: u64 where "cs1_go = 1"
definition cs2_wce :: u64 where "cs2_wce = 0x4000"
definition cs2_or :: u64 where "cs2_or = 0x80"
definition cs2_ir :: u64 where "cs2_ir = 0x40"
definition cs2_clr :: u64 where "cs2_clr = 0x20"
definition ds_mol :: u64 where "ds_mol = 0x1000"
definition ds_vv :: u64 where "ds_vv = 0x40"

definition rh_read :: "'k epi \<Rightarrow> u64 \<Rightarrow> u64 \<Rightarrow> ('k ks10, u64) state" where
  "rh_read ep base reg = readIO ep ((base AND 0x1FFFC0) + reg)"

definition rh_write :: "'k epi \<Rightarrow> u64 \<Rightarrow> u64 \<Rightarrow> u64 \<Rightarrow> ('k ks10, unit) state" where
  "rh_write ep base reg data = writeIO ep ((base AND 0x1FFFC0) + reg) data"

text \<open>The operator \<open>!\<close> of C binds stronger than \<open>&\<close>, so \<^verbatim>\<open>!x & mask\<close> takes the mask of 0 or 1.\<close>

definition c_not :: "u64 \<Rightarrow> u64" where
  "c_not x = (if x = 0 then 1 else 0)"

section \<open>Waiting and reading\<close>

definition rh_clear :: "'k epi \<Rightarrow> u64 \<Rightarrow> ('k ks10, unit) state" where
  "rh_clear ep base = rh_write ep base rh_cs2 cs2_clr"

fun ready_loop :: "'k epi \<Rightarrow> u64 \<Rightarrow> nat \<Rightarrow> ('k ks10, unit) state" where
  "ready_loop ep base 0 = State_Monad.return ()"
| "ready_loop ep base (Suc i) = do {
     cs1 \<leftarrow> rh_read ep base rh_cs1;
     if cs1 AND cs1_rdy \<noteq> 0 then State_Monad.return ()
     else do { do_epi (e_yield ep); ready_loop ep base i } }"

definition rh_wait :: "'k epi \<Rightarrow> u64 \<Rightarrow> bool \<Rightarrow> ('k ks10, bool) state" where
  "rh_wait ep base verbose = do {
     cs1 \<leftarrow> rh_read ep base rh_cs1;
     (let idle = (c_not cs1 AND cs1_rdy \<noteq> 0) in do {
     say_if (idle \<and> verbose) (Text ''KS10: Error: Disk should be busy.'');
     ready_loop ep base 1000;
     cs1 \<leftarrow> rh_read ep base rh_cs1;
     (let timeout = (c_not cs1 AND cs1_rdy \<noteq> 0) in do {
     say_if (timeout \<and> verbose) (Text ''KS10: Error: Disk Timeout.'');
     State_Monad.return (\<not> idle \<and> \<not> timeout) }) }) }"

definition isHomBlock :: "'k epi \<Rightarrow> u64 \<Rightarrow> ('k ks10, bool) state" where
  "isHomBlock ep addr = do {
     d \<leftarrow> readMem ep addr;
     State_Monad.return (d = 0xA2FB40000) }"

definition readBlock :: "'k epi \<Rightarrow> u64 \<Rightarrow> u64 \<Rightarrow> u64 \<Rightarrow> ('k ks10, bool) state" where
  "readBlock ep base vaddr daddr = do {
     rh_write ep base rh_wc (- 1024);
     rh_write ep base rh_ba vaddr;
     rh_write ep base rh_da daddr;
     rh_write ep base rh_dc (drop_bit 24 daddr);
     rh_write ep base rh_cs1 (cs1_cmdrd OR cs1_go);
     ok \<leftarrow> rh_wait ep base False;
     cs1 \<leftarrow> rh_read ep base rh_cs1;
     if cs1 AND cs1_sc \<noteq> 0 then do {
       say (Text ''KS10: Disk error reading boot sector'');
       State_Monad.return False }
     else State_Monad.return True }"

section \<open>Boot\<close>

definition boot_fails :: "string \<Rightarrow> ('w, 'k, bool) command" where
  "boot_fails m c = do { (u, c) \<leftarrow> print (Text m) c; Some (False, c) }"

text \<open>The home block leads to the page of pointers, and this to the boot program, which is started.\<close>

definition bootBlock :: "'k epi \<Rightarrow> u64 \<Rightarrow> u64 \<Rightarrow> u64 \<Rightarrow> u64 \<Rightarrow> u64 \<Rightarrow> ('w, 'k, bool) command" where
  "bootBlock ep base paddr vaddr daddr ofs c = do {
     (success, c) \<leftarrow> ks (readBlock ep base vaddr daddr) c;
     (if \<not> success then boot_fails ''KS10: Home Block is unreadable.'' c else do {
     (hom, c) \<leftarrow> ks (isHomBlock ep paddr) c;
     (if \<not> hom then boot_fails ''KS10: Home Block not found.'' c else do {
     (daddr, c) \<leftarrow> ks (readMem ep (paddr + 0x43)) c;
     (if daddr = 0 then boot_fails ''KS10: Home Block has invalid address of FE File Page.'' c else do {
     (success, c) \<leftarrow> ks (readBlock ep base vaddr daddr) c;
     (if \<not> success then boot_fails ''KS10: Unreadable FE File Page.'' c else do {
     (daddr, c) \<leftarrow> ks (readMem ep (paddr + ofs)) c;
     (if daddr = 0 then boot_fails ''KS10: Invalid Monitor Pre-Boot disk address.'' c else do {
     (success, c) \<leftarrow> ks (readBlock ep base vaddr daddr) c;
     (if \<not> success then boot_fails ''KS10: Unable to read Monitor Pre-Boot'' c else do {
     (d, c) \<leftarrow> ks (readMem ep paddr) c;
     (if d = 0 then boot_fails ''KS10: Monitor Pre-Boot is invalid.'' c else do {
     (u, c) \<leftarrow> ks (do { writeRegCIR ep (push_bit 18 Ks10.opJRST OR paddr); begin_cir ep }) c;
     (u, c) \<leftarrow> consoleOutput ep c;
     Some (True, c) }) }) }) }) }) }) }) }"

definition select_unit :: "'k epi \<Rightarrow> u64 \<Rightarrow> u64 \<Rightarrow> ('k ks10, unit) state" where
  "select_unit ep base unit = do {
     cs2 \<leftarrow> rh_read ep base rh_cs2;
     rh_write ep base rh_cs2 ((cs2 AND NOT 7) OR (unit AND 7)) }"

definition disk_online :: "'k epi \<Rightarrow> u64 \<Rightarrow> ('k ks10, bool) state" where
  "disk_online ep base = do {
     ds \<leftarrow> rh_read ep base rh_ds;
     State_Monad.return (ds AND ds_mol \<noteq> 0) }"

definition rh_boot :: "'k epi \<Rightarrow> u64 \<Rightarrow> u64 \<Rightarrow> bool \<Rightarrow> ('w, 'k, unit) command" where
  "rh_boot ep base unit diagmode c =
     (let paddr = 0x200; vaddr = 0x800; ofs = (if diagmode then 6 else 4)
      in do {
        (on, c) \<leftarrow> ks (do {
          rh_write ep base rh_cs2 cs2_clr;
          select_unit ep base unit;
          disk_online ep base }) c;
        (if \<not> on then print (Text ''KS10: Disk is off-line.'') c
         else do {
           (u, c) \<leftarrow> ks (do {
             pag_write ep base 1 (0x8000 OR 0x4000 OR uba_page paddr);
             rh_write ep base rh_as 0xFF;
             rh_write ep base rh_cs1 (cs1_cmdpre OR cs1_go) }) c;
           (success, c) \<leftarrow> bootBlock ep base paddr vaddr 1 ofs c;
           (if success then Some ((), c)
            else do {
              (u, c) \<leftarrow> print (Text ''KS10: Trying Secondary Home Block.'') c;
              (success, c) \<leftarrow> bootBlock ep base paddr vaddr 10 ofs c;
              (if success then Some ((), c) else print (Text ''KS10: Unable to boot from this disk.'') c) }) }) })"

section \<open>Tests\<close>

text \<open>The FIFO takes 66 words.\<close>

fun fifo_fill :: "'k epi \<Rightarrow> u64 \<Rightarrow> nat \<Rightarrow> nat \<Rightarrow> bool \<Rightarrow> ('k ks10, bool) state" where
  "fifo_fill ep base 0 i fail = State_Monad.return fail"
| "fifo_fill ep base (Suc n) i fail = do {
     cs2 \<leftarrow> rh_read ep base rh_cs2;
     (let ir_clear = (i \<le> 65 \<and> c_not cs2 AND cs2_ir \<noteq> 0);
          ir_set = (65 < i \<and> cs2 AND cs2_ir \<noteq> 0);
          or_bad = (if i = 0 then cs2 AND cs2_or \<noteq> 0 else c_not cs2 AND cs2_or \<noteq> 0)
      in do {
        say_if ir_clear (if i = 0 then Text ''KS10: CS2[IR] should be set after reset''
          else Printf ''KS10: CS2[IR] should be set after %d entries.'' [of_nat i]);
        say_if ir_set (Printf ''KS10: CS2[IR] should be clear after %d entries.'' [of_nat i]);
        say_if or_bad (if i = 0 then Text ''KS10: CS2[OR] Should be clear after reset''
          else Printf ''KS10: CS2[OR] Should be set after %d entries.'' [of_nat i]);
        rh_write ep base rh_db (of_nat (0xFF00 + i));
        fifo_fill ep base n (i + 1) (fail \<or> ir_clear \<or> ir_set \<or> or_bad) }) }"

fun fifo_drain :: "'k epi \<Rightarrow> u64 \<Rightarrow> nat \<Rightarrow> nat \<Rightarrow> bool \<Rightarrow> ('k ks10, bool) state" where
  "fifo_drain ep base 0 i fail = State_Monad.return fail"
| "fifo_drain ep base (Suc n) i fail = do {
     rhdb \<leftarrow> rh_read ep base rh_db;
     (let expected = (if i \<le> 65 then of_nat (0xFF00 + i) else 0); bad = (rhdb \<noteq> expected)
      in do {
        say_if bad (Printf ''KS10: Data from FIFO is incorrect on word %d.'' [of_nat i, expected, rhdb]);
        fifo_drain ep base n (i + 1) (fail \<or> bad) }) }"

definition verdict :: "string \<Rightarrow> bool \<Rightarrow> ('k ks10, unit) state" where
  "verdict m fail = say (Shown m [] [if fail then ''failed'' else ''passed''])"

definition testFIFO :: "'k epi \<Rightarrow> u64 \<Rightarrow> ('k ks10, unit) state" where
  "testFIFO ep base = do {
     fail \<leftarrow> fifo_fill ep base 70 0 False;
     fail \<leftarrow> fifo_drain ep base 70 0 fail;
     verdict ''KS10: RHDB FIFO test %s.'' fail }"

text \<open>The look-ahead register after a number of clocks: first and last clock, contents, sector and extension.\<close>

definition rpla20_table :: "(nat \<times> nat \<times> u32 \<times> u64 \<times> u64) list" where
  "rpla20_table = [(0, 127, 0x0000, 0, 0), (128, 255, 0x0010, 0, 20), (256, 511, 0x0020, 0, 40), (512, 671, 0x0030, 0, 60),
     (672, 799, 0x0040, 1, 0), (800, 927, 0x0050, 1, 20), (928, 1183, 0x0060, 1, 40), (12608, 12767, 0x04B0, 18, 60),
     (12768, 12895, 0x04C0, 19, 0), (12896, 13023, 0x04D0, 19, 20), (13024, 13279, 0x04E0, 19, 40),
     (13280, 13439, 0x04F0, 19, 60), (13440, 13567, 0x04C0, 19, 0)]"

definition rpla22_table :: "(nat \<times> nat \<times> u32 \<times> u64 \<times> u64) list" where
  "rpla22_table = [(0, 127, 0x0000, 0, 0), (128, 255, 0x0010, 0, 20), (256, 511, 0x0020, 0, 40), (512, 608, 0x0030, 0, 60),
     (609, 736, 0x0040, 1, 0), (737, 864, 0x0050, 1, 20), (865, 1120, 0x0060, 1, 40), (1121, 1217, 0x0070, 1, 40),
     (12692, 12788, 0x0530, 20, 60), (12789, 12916, 0x0540, 21, 0), (12917, 13044, 0x0550, 21, 20),
     (13045, 13300, 0x0560, 21, 40), (13301, 13397, 0x0570, 21, 60), (13398, 13525, 0x0540, 21, 0)]"

fun rpla_loop :: "'k epi \<Rightarrow> u64 \<Rightarrow> (nat \<times> nat \<times> u32 \<times> u64 \<times> u64) list \<Rightarrow> nat \<Rightarrow> nat \<Rightarrow> bool \<Rightarrow> ('k ks10, bool) state" where
  "rpla_loop ep base tab 0 i fail = State_Monad.return fail"
| "rpla_loop ep base tab (Suc n) i fail = do {
     rpla \<leftarrow> rh_read ep base rh_la;
     bad \<leftarrow> (case find (\<lambda>(lo, hi, r). lo \<le> i \<and> i \<le> hi) tab of
        None \<Rightarrow> State_Monad.return False
      | Some (lo, hi, expected, sec, ext) \<Rightarrow>
          if ucast rpla \<noteq> expected then do {
            say (Printf ''KS10: RPLA SEC should be %d, EXT should be %d after %3d clocks'' [sec, ext, of_nat i]);
            State_Monad.return True }
          else State_Monad.return False);
     rh_write ep base rh_mr 9;
     rh_write ep base rh_mr 1;
     rpla_loop ep base tab n (i + 1) (fail \<or> bad) }"

definition testRPLA_mode :: "'k epi \<Rightarrow> u64 \<Rightarrow> u64 \<Rightarrow> u64 \<Rightarrow> (nat \<times> nat \<times> u32 \<times> u64 \<times> u64) list \<Rightarrow> string \<Rightarrow> ('k ks10, unit) state" where
  "testRPLA_mode ep base unit fmt tab m = do {
     select_unit ep base unit;
     rh_write ep base rh_of fmt;
     rh_write ep base rh_mr 1;
     rh_write ep base rh_mr 13;
     rh_write ep base rh_mr 1;
     fail \<leftarrow> rpla_loop ep base tab 12769 0 False;
     verdict m fail }"

definition testRPLA20 :: "'k epi \<Rightarrow> u64 \<Rightarrow> u64 \<Rightarrow> ('k ks10, unit) state" where
  "testRPLA20 ep base unit =
     testRPLA_mode ep base unit 0 rpla20_table ''KS10: RPLA/RPMR sector counter test (20 sector mode) %s.''"

definition testRPLA22 :: "'k epi \<Rightarrow> u64 \<Rightarrow> u64 \<Rightarrow> ('k ks10, unit) state" where
  "testRPLA22 ep base unit =
     testRPLA_mode ep base unit 0x1000 rpla22_table ''KS10: RPLA/RPMR sector counter test (22 sector mode) %s.''"

definition testRPLA :: "'k epi \<Rightarrow> u64 \<Rightarrow> u64 \<Rightarrow> ('k ks10, unit) state" where
  "testRPLA ep base unit = do { testRPLA20 ep base unit; testRPLA22 ep base unit }"

definition offline :: "('k ks10, unit) state" where
  "offline = say (Text ''KS10: Disk is off-line.'')"

fun mol_loop :: "'k epi \<Rightarrow> u64 \<Rightarrow> nat \<Rightarrow> ('k ks10, unit) state" where
  "mol_loop ep base 0 = State_Monad.return ()"
| "mol_loop ep base (Suc i) = do {
     on \<leftarrow> disk_online ep base;
     if on then State_Monad.return () else do { do_epi (e_yield ep); mol_loop ep base i } }"

definition testInit :: "'k epi \<Rightarrow> u64 \<Rightarrow> u64 \<Rightarrow> ('k ks10, unit) state" where
  "testInit ep base unit = do {
     select_unit ep base unit;
     on \<leftarrow> disk_online ep base;
     if \<not> on then offline
     else do {
       mol_loop ep base 1000;
       on \<leftarrow> disk_online ep base;
       say_if (\<not> on) (Text ''KS10: Disk initialization timeout.'');
       ds \<leftarrow> rh_read ep base rh_ds;
       (let early = (ds AND ds_vv \<noteq> 0) in do {
       say_if early (Text ''KS10: Volume Valid should not be set after initialization.'');
       rh_write ep base rh_cs1 (cs1_cmdpre OR cs1_go);
       ds \<leftarrow> rh_read ep base rh_ds;
       (let late = (ds AND ds_vv = 0) in do {
       say_if late (Text ''KS10: Volume Valid should be set after preset command.'');
       verdict ''KS10: Disk initialization test %s.'' (\<not> on \<or> early \<or> late) }) }) } }"

text \<open>Data transfer: 128 words at 070000 octal, cylinder 809, track 0, sector 1.\<close>

fun fill_loop :: "'k epi \<Rightarrow> nat \<Rightarrow> u64 \<Rightarrow> u64 \<Rightarrow> ('k ks10, unit) state" where
  "fill_loop ep 0 addr d = State_Monad.return ()"
| "fill_loop ep (Suc n) addr d = do { writeMem ep addr d; fill_loop ep n (addr + 1) d }"

definition map_page :: "'k epi \<Rightarrow> u64 \<Rightarrow> ('k ks10, unit) state" where
  "map_page ep base = pag_write ep base 1 (0x8000 OR 0x4000 OR uba_page 0x7000)"

definition set_disk_address :: "'k epi \<Rightarrow> u64 \<Rightarrow> ('k ks10, unit) state" where
  "set_disk_address ep base = do {
     rh_write ep base rh_da 1;
     rh_write ep base rh_dc 809 }"

text \<open>What the command register, the word count and the bus address should be after a transfer.\<close>

definition check_done :: "'k epi \<Rightarrow> u64 \<Rightarrow> u64 \<Rightarrow> string \<Rightarrow> bool \<Rightarrow> ('k ks10, bool) state" where
  "check_done ep base cmd m pass = do {
     cs1 \<leftarrow> rh_read ep base rh_cs1;
     (let go_bad = (cs1 AND cs1_go \<noteq> 0) in do {
     say_if go_bad (Text ''KS10: CS1[GO] should be negated.'');
     cs1 \<leftarrow> rh_read ep base rh_cs1;
     (let fun_bad = (cs1 AND 0x3E \<noteq> cmd) in do {
     say_if fun_bad (Text m);
     wc \<leftarrow> rh_read ep base rh_wc;
     (let wc_bad = (wc \<noteq> 0) in do {
     (if wc_bad then do {
        wc \<leftarrow> rh_read ep base rh_wc;
        say (Printf ''KS10: RH11 Word Count Register (RHWC) should be 0.'' [wc]) }
      else State_Monad.return ());
     ba \<leftarrow> rh_read ep base rh_ba;
     (let ba_bad = (ba \<noteq> 0x800 + 512) in do {
     (if ba_bad then do {
        ba \<leftarrow> rh_read ep base rh_ba;
        say (Printf ''KS10: RH11 Bus Address Register (RHBA) should be %06llo.'' [0x800 + 512, ba]) }
      else State_Monad.return ());
     State_Monad.return (pass \<and> \<not> go_bad \<and> \<not> fun_bad \<and> \<not> wc_bad \<and> \<not> ba_bad) }) }) }) }) }"

fun check_loop :: "'k epi \<Rightarrow> nat \<Rightarrow> nat \<Rightarrow> bool \<Rightarrow> ('k ks10, bool) state" where
  "check_loop ep 0 i pass = State_Monad.return pass"
| "check_loop ep (Suc n) i pass = do {
     d \<leftarrow> readMem ep (0x7000 + of_nat i);
     say (Printf ''KS10: RH11 read %d = %012llo'' [of_nat i, d]);
     d \<leftarrow> readMem ep (0x7000 + of_nat i);
     say_if (d = 0xAAAAAAAAA) (Text ''KS10: RH11 Memory buffer was not modified by disk read.'');
     check_loop ep n (i + 1) (pass \<and> d \<noteq> 0xAAAAAAAAA) }"

definition testRead :: "'k epi \<Rightarrow> u64 \<Rightarrow> u64 \<Rightarrow> ('k ks10, unit) state" where
  "testRead ep base unit = do {
     select_unit ep base unit;
     on \<leftarrow> disk_online ep base;
     if \<not> on then offline
     else do {
       rh_write ep base rh_wc 0xFFFFFF00;
       map_page ep base;
       rh_write ep base rh_ba 0x800;
       fill_loop ep 130 (0x7000 - 1) 0xAAAAAAAAA;
       set_disk_address ep base;
       rh_write ep base rh_cs1 (cs1_cmdrd OR cs1_go);
       pass \<leftarrow> rh_wait ep base False;
       pass \<leftarrow> check_done ep base cs1_cmdrd ''KS10: CS1[FUN] should be a read command.'' pass;
       d \<leftarrow> readMem ep (0x7000 - 1);
       say_if (d \<noteq> 0xAAAAAAAAA) (Text ''KS10: RH11 Memory immediately before buffer was modified.'');
       pass \<leftarrow> check_loop ep 128 0 (pass \<and> d = 0xAAAAAAAAA);
       d \<leftarrow> readMem ep (0x7000 + 128);
       say_if (d \<noteq> 0xAAAAAAAAA) (Text ''KS10: RH11 Memory immediately after buffer was modified.'');
       verdict ''KS10: RH11 disk read test %s.'' (\<not> (pass \<and> d = 0xAAAAAAAAA)) } }"

definition testWrite :: "'k epi \<Rightarrow> u64 \<Rightarrow> u64 \<Rightarrow> ('k ks10, unit) state" where
  "testWrite ep base unit = do {
     select_unit ep base unit;
     on \<leftarrow> disk_online ep base;
     if \<not> on then offline
     else do {
       fill_loop ep 128 0x7000 0x29CBB58D1;
       rh_write ep base rh_wc 0xFFFFFF00;
       map_page ep base;
       rh_write ep base rh_ba 0x800;
       set_disk_address ep base;
       rh_write ep base rh_cs1 (cs1_cmdwr OR cs1_go);
       pass \<leftarrow> rh_wait ep base True;
       pass \<leftarrow> check_done ep base cs1_cmdwr ''KS10: CS1[FUN] should be a write command.'' pass;
       verdict ''KS10: RH11 disk write test %s.'' (\<not> pass) } }"

definition show_cs2 :: "'k epi \<Rightarrow> u64 \<Rightarrow> u64 \<Rightarrow> ('k ks10, unit) state" where
  "show_cs2 ep base n = do {
     cs2 \<leftarrow> rh_read ep base rh_cs2;
     say (Printf ''KS10: CS2 Register is 0x%04llx (%d)'' [cs2, n]) }"

definition testWrchk :: "'k epi \<Rightarrow> u64 \<Rightarrow> u64 \<Rightarrow> ('k ks10, unit) state" where
  "testWrchk ep base unit = do {
     select_unit ep base unit;
     on \<leftarrow> disk_online ep base;
     if \<not> on then offline
     else do {
       rh_write ep base rh_wc (- 2);
       rh_write ep base rh_cs1 (cs1_cmdrd OR cs1_go);
       ready_loop ep base 1000;
       fill_loop ep 128 0x7000 0x29CBB58D1;
       rh_write ep base rh_wc 0xFFFFFF00;
       map_page ep base;
       rh_write ep base rh_ba 0x800;
       set_disk_address ep base;
       select_unit ep base unit;
       rh_write ep base rh_wc 0xFFFFFF00;
       rh_write ep base rh_cs1 (cs1_cmdwch OR cs1_go);
       pass1 \<leftarrow> rh_wait ep base True;
       cs2 \<leftarrow> rh_read ep base rh_cs2;
       (let wce = (cs2 AND cs2_wce \<noteq> 0) in do {
       say_if wce (Text ''KS10: Write check error on matching data.'');
       show_cs2 ep base 1;
       writeMem ep 0x7000 (NOT 0x29CBB58D1);
       rh_write ep base rh_wc 0xFFFFFF00;
       rh_write ep base rh_cs1 (cs1_cmdwch OR cs1_go);
       pass2 \<leftarrow> rh_wait ep base True;
       cs2 \<leftarrow> rh_read ep base rh_cs2;
       (let no_wce = (c_not cs2 AND cs2_wce \<noteq> 0) in do {
       say_if no_wce (Text ''KS10: No write check error on mismatching data.'');
       show_cs2 ep base 2;
       verdict ''KS10: RH11 disk wrchk test %s.'' (\<not> (pass1 \<and> \<not> wce \<and> pass2 \<and> \<not> no_wce)) }) }) } }"

section \<open>The wait never fails\<close>

lemma c_not_mask: "c_not x AND cs1_rdy = 0"
  by (simp add: c_not_def cs1_rdy_def)

text \<open>Because of the precedence of the operators the result is always success, whatever the disk does.\<close>

lemma rh_wait_succeeds: "fst (run_state (rh_wait ep base verbose) s) = True"
  by (simp add: rh_wait_def c_not_mask say_if_def split_beta)

end
