(* ===== verification/Dz11.thy ===== *)
theory Dz11
  imports Terminal
begin

text \<open>
  The tests of the terminal multiplexer in \<^verbatim>\<open>dz11.cpp\<close>. Waiting for the device has no limit.
\<close>

definition dz_csr :: u64 where "dz_csr = 0xFE008"
definition dz_rbuf :: u64 where "dz_rbuf = 0xFE00A"
definition dz_lpr :: u64 where "dz_lpr = 0xFE00A"
definition dz_tcr :: u64 where "dz_tcr = 0xFE00C"
definition dz_tdr :: u64 where "dz_tdr = 0xFE00E"
definition dz_trdy :: u64 where "dz_trdy = 0x8000"
definition dz_rdone :: u64 where "dz_rdone = 0x80"
definition dz_mse :: u64 where "dz_mse = 0x20"
definition dz_clr :: u64 where "dz_clr = 0x10"

text \<open>Reading an address until the condition holds.\<close>

partial_function (option) io_wait :: "'k epi \<Rightarrow> u64 \<Rightarrow> (u64 \<Rightarrow> bool) \<Rightarrow> ('w, 'k, unit) command" where
  "io_wait ep addr ok c = do {
     (d, c) \<leftarrow> ks (readIO ep addr) c;
     (if ok d then Some ((), c) else io_wait ep addr ok c) }"

definition dz_setup :: "'k epi \<Rightarrow> u32 \<Rightarrow> ('w, 'k, unit) command" where
  "dz_setup ep line c = do {
     (u, c) \<leftarrow> ks (writeIO ep dz_csr dz_clr) c;
     (u, c) \<leftarrow> io_wait ep dz_csr (\<lambda>d. d AND dz_clr = 0) c;
     ks (do {
       writeIO ep dz_lpr (0x1E18 OR ucast line);
       writeIO ep dz_tcr (push_bit (unat line) 1);
       writeIO ep dz_csr dz_mse }) c }"

text \<open>The line is an ASCII digit.\<close>

definition dz_line :: "byte \<Rightarrow> u32" where
  "dz_line line = ucast line - 0x30 AND 7"

fun tx_loop :: "'k epi \<Rightarrow> byte list \<Rightarrow> ('w, 'k, unit) command" where
  "tx_loop ep [] c = Some ((), c)"
| "tx_loop ep (ch # s) c = do {
     (u, c) \<leftarrow> io_wait ep dz_csr (\<lambda>d. d AND dz_trdy \<noteq> 0) c;
     (u, c) \<leftarrow> ks (writeIO ep dz_tdr (ucast ch)) c;
     tx_loop ep s c }"

definition testTX :: "'k epi \<Rightarrow> byte \<Rightarrow> ('w, 'k, unit) command" where
  "testTX ep line c = do {
     (u, c) \<leftarrow> dz_setup ep (dz_line line) c;
     tx_loop ep ((map of_char ''This is a test on DZ11 line ?.'' @ [0x0D, 0x0A])[28 := line]) c }"

text \<open>Both loops end with \<^verbatim>\<open>^C\<close> from the line. The echo does not wait for the transmitter: \<^verbatim>\<open>!x & mask\<close> is zero.\<close>

partial_function (option) rx_loop :: "'k epi \<Rightarrow> ('w, 'k, unit) command" where
  "rx_loop ep c = do {
     (csr, c) \<leftarrow> ks (readIO ep dz_csr) c;
     (if csr AND dz_rdone \<noteq> 0 then do {
        (u, c) \<leftarrow> io_wait ep dz_csr (\<lambda>d. d AND dz_trdy \<noteq> 0) c;
        (d, c) \<leftarrow> ks (readIO ep dz_rbuf) c;
        (let ch = d AND 0xFF
         in if ch = 3 then Some ((), c)
            else do {
              (u, c) \<leftarrow> print (Printf ''%c'' [ch]) c;
              rx_loop ep c }) }
      else rx_loop ep c) }"

partial_function (option) echo_loop :: "'k epi \<Rightarrow> ('w, 'k, unit) command" where
  "echo_loop ep c = do {
     (csr, c) \<leftarrow> ks (readIO ep dz_csr) c;
     (if csr AND dz_rdone \<noteq> 0 then do {
        (u, c) \<leftarrow> io_wait ep dz_csr (\<lambda>d. (if d = 0 then 1 else 0) AND dz_trdy = 0) c;
        (d, c) \<leftarrow> ks (readIO ep dz_rbuf) c;
        (let ch = d AND 0xFF
         in if ch = 3 then Some ((), c)
            else do {
              (u, c) \<leftarrow> ks (writeIO ep dz_tdr ch) c;
              echo_loop ep c }) }
      else echo_loop ep c) }"

definition testRX :: "'k epi \<Rightarrow> byte \<Rightarrow> ('w, 'k, unit) command" where
  "testRX ep line c = do {
     (u, c) \<leftarrow> print (Printf ''Characters typed on TTY%c should echo on the console. ^C to exit.'' [ucast line]) c;
     (u, c) \<leftarrow> dz_setup ep (dz_line line) c;
     rx_loop ep c }"

definition testECHO :: "'k epi \<Rightarrow> byte \<Rightarrow> ('w, 'k, unit) command" where
  "testECHO ep line c = do {
     (u, c) \<leftarrow> print (Printf ''Characters typed on TTY%c should echo. ^C to exit.'' [ucast line]) c;
     (u, c) \<leftarrow> dz_setup ep (dz_line line) c;
     echo_loop ep c }"

text \<open>The echo looks at the transmitter once and goes on.\<close>

lemma echo_never_waits:
  "io_wait ep dz_csr (\<lambda>d. (if d = 0 then 1 else 0) AND dz_trdy = 0) c =
    Some ((), c\<lparr>con_ks10 := snd (run_state (readIO ep dz_csr) (con_ks10 c))\<rparr>)"
  by (subst io_wait.simps) (simp add: ks_def split_beta dz_trdy_def)

text \<open>The loops are executable.\<close>

declare io_wait.simps [code]
  rx_loop.simps [code]
  echo_loop.simps [code]

end
