(* ===== verification/Lp20.thy ===== *)
theory Lp20
  imports Dz11
begin

text \<open>
  The tests of the line printer in \<^verbatim>\<open>lp20.cpp\<close>: a message or a file is packed into memory and sent by
  direct memory access. The translation memory is cleared first.
\<close>

definition lp_csra :: u64 where "lp_csra = 0xFFB00"
definition lp_csrb :: u64 where "lp_csrb = 0xFFB02"
definition lp_bar :: u64 where "lp_bar = 0xFFB04"
definition lp_bctr :: u64 where "lp_bctr = 0xFFB06"
definition lp_pctr :: u64 where "lp_pctr = 0xFFB08"
definition lp_ramd :: u64 where "lp_ramd = 0xFFB0A"
definition lp_cbuf :: u64 where "lp_cbuf = 0xFFB0C"
definition lp_pdat :: u64 where "lp_pdat = 0xFFB0E"

text \<open>Four bytes to a word; the last word may take up to three bytes after the end, which must exist.\<close>

fun packBytes :: "'k epi \<Rightarrow> u64 \<Rightarrow> byte list \<Rightarrow> nat \<Rightarrow> ('w, 'k, unit) command" where
  "packBytes ep addr s n c =
     (if n = 0 then Some ((), c)
      else if length s < 4 then None
      else do {
        (u, c) \<leftarrow> ks (writeMem ep addr (push_bit 18 (ucast (s ! 0)) OR push_bit 26 (ucast (s ! 1)) OR
          ucast (s ! 2) OR push_bit 8 (ucast (s ! 3)))) c;
        packBytes ep (addr + 1) (drop 4 s) (n - 4) c })"

declare packBytes.simps [simp del]

fun clear_ram :: "'k epi \<Rightarrow> nat \<Rightarrow> u64 \<Rightarrow> ('k ks10, unit) state" where
  "clear_ram ep 0 i = State_Monad.return ()"
| "clear_ram ep (Suc n) i = do { writeIO ep lp_cbuf i; writeIO ep lp_ramd 0; clear_ram ep n (i + 1) }"

definition lp_online :: "'k epi \<Rightarrow> ('k ks10, bool) state" where
  "lp_online ep = do {
     csra \<leftarrow> readIO ep lp_csra;
     State_Monad.return (csra AND 0x800 \<noteq> 0) }"

definition lp_initialize :: "'k epi \<Rightarrow> ('k ks10, unit) state" where
  "lp_initialize ep = do {
     temp \<leftarrow> readIO ep lp_csra;
     writeIO ep lp_csra (temp OR 0x100);
     writeIO ep lp_csra temp }"

text \<open>Four pages from 070000 octal, through the adapter 3.\<close>

definition lp_map :: "'k epi \<Rightarrow> ('k ks10, unit) state" where
  "lp_map ep = do {
     writeIO ep (0xC0000 + 0x3E600 + 1) (0x4000 OR (0 + 0x38));
     writeIO ep (0xC0000 + 0x3E600 + 2) (0x4000 OR (1 + 0x38));
     writeIO ep (0xC0000 + 0x3E600 + 3) (0x4000 OR (2 + 0x38));
     writeIO ep (0xC0000 + 0x3E600 + 4) (0x4000 OR (3 + 0x38)) }"

definition lp_dma :: "'k epi \<Rightarrow> u64 \<Rightarrow> ('w, 'k, unit) command" where
  "lp_dma ep addr c = do {
     (u, c) \<leftarrow> ks (do { writeIO ep lp_bar addr; writeIO ep lp_csra 1 }) c;
     io_wait ep lp_csra (\<lambda>d. d AND 1 = 0) c }"

partial_function (option) lp_send :: "'k epi \<Rightarrow> u32 \<Rightarrow> u32 \<Rightarrow> ('w, 'k, unit) command" where
  "lp_send ep sent msg_size c =
     (if msg_size = 0 then Some ((), c)
      else let n = (if 4092 < msg_size then 4092 else msg_size) in do {
        (u, c) \<leftarrow> ks (do { writeIO ep lp_bctr (ucast (- n)); say (Printf ''DMA %d bytes'' [ucast n]) }) c;
        (u, c) \<leftarrow> lp_dma ep (0x800 + ucast sent) c;
        (u, c) \<leftarrow> print (Text ''DMA Completed'') c;
        lp_send ep (sent + n) (msg_size - n) c })"

definition test_msg :: "byte list" where
  "test_msg = map of_char ''Hello! Test.'' @ [0x0D, 0x0A] @ map of_char ''One.  Two.  Three.  Four.  Five.'' @ [0x0D, 0x0A, 0]"

definition lp_testRegs :: "'k epi \<Rightarrow> ('w, 'k, unit) command" where
  "lp_testRegs ep c = do {
     (on, c) \<leftarrow> ks (lp_online ep) c;
     (if \<not> on then print (Text ''KS10: Printer is offline.'') c
      else do {
        (u, c) \<leftarrow> ks (clear_ram ep 256 0) c;
        (u, c) \<leftarrow> packBytes ep 0x7000 test_msg (length test_msg) c;
        (u, c) \<leftarrow> ks (do { lp_map ep; writeIO ep lp_csra 0x100 }) c;
        lp_send ep 0 (of_nat (length test_msg)) c }) }"

definition dumpRegs :: "'k epi \<Rightarrow> ('k ks10, unit) state" where
  "dumpRegs ep = do {
     ubas \<leftarrow> readIO ep (0xC0000 + 0x3E600 + 0x40);
     csra \<leftarrow> readIO ep lp_csra;
     csrb \<leftarrow> readIO ep lp_csrb;
     bar \<leftarrow> readIO ep lp_bar;
     bctr \<leftarrow> readIO ep lp_bctr;
     pctr \<leftarrow> readIO ep lp_pctr;
     ramd \<leftarrow> readIO ep lp_ramd;
     cctr \<leftarrow> readIO ep lp_cbuf;
     cbuf \<leftarrow> readIO ep lp_cbuf;
     cksm \<leftarrow> readIO ep lp_pdat;
     pdat \<leftarrow> readIO ep lp_pdat;
     say (Printf ''KS10: Register Dump''
       [ubas, 0xFFFF AND csra, 0xFFFF AND csrb, 0xFFFF AND bar, 0xFFFF AND bctr, 0xFFFF AND pctr, 0xFFFF AND ramd,
        0xFF AND drop_bit 8 cctr, 0xFF AND cbuf, 0xFF AND drop_bit 8 cksm, 0xFF AND pdat]) }"

text \<open>The file is read in pieces of 128 bytes; \<open>known\<close> is the part of the buffer that has been filled so far.\<close>

partial_function (option) lp_file_loop :: "'w disk_ops \<Rightarrow> 'k epi \<Rightarrow> fil \<Rightarrow> byte list \<Rightarrow> ('w, 'k, unit) command" where
  "lp_file_loop ops ep fp known c =
     (if fl_fptr fp = fl_fsize fp then Some ((), c)
      else do {
        ((status, numbytes, fp, buffer), c) \<leftarrow> fat (f_read ops fp (replicate 128 0) 128) c;
        (u, c) \<leftarrow> report ''KS10: f_read() returned %d'' status c;
        (let known = take (unat numbytes) buffer @ drop (unat numbytes) known
         in do {
           (u, c) \<leftarrow> packBytes ep 0x7000 known (unat numbytes) c;
           (u, c) \<leftarrow> ks (do { lp_map ep; writeIO ep lp_csra 0x100; writeIO ep lp_bctr (ucast (- numbytes)) }) c;
           (u, c) \<leftarrow> lp_dma ep 0x800 c;
           lp_file_loop ops ep fp known c }) })"

definition printFile :: "'w disk_ops \<Rightarrow> 'k epi \<Rightarrow> byte list \<Rightarrow> ('w, 'k, unit) command" where
  "printFile ops ep filename c = do {
     ((status, fp), c) \<leftarrow> fat (f_open ops (Some new_fil) filename FA_READ) c;
     (if status \<noteq> FR_OK then report ''KS10: f_open() returned %d'' status c
      else do {
        fp \<leftarrow> fp;
        (on, c) \<leftarrow> ks (lp_online ep) c;
        (if \<not> on then print (Text ''KS10: Printer is offline.'') c
         else do {
           (u, c) \<leftarrow> ks (clear_ram ep 256 0) c;
           lp_file_loop ops ep fp [] c }) }) }"

section \<open>The test message\<close>

lemma packBytes_overrun: "length s < 4 \<Longrightarrow> 0 < n \<Longrightarrow> packBytes ep a s n c = None"
  by (subst packBytes.simps) simp

lemma packBytes_short:
  fixes c :: "('w, 'k) console"
  shows "length s < n \<or> (length s = n \<and> n mod 4 \<noteq> 0) \<Longrightarrow> packBytes ep a s n c = None"
proof (induction n arbitrary: a s c rule: less_induct)
  case (less n)
  have n: "0 < n" using less.prems by (cases n) simp_all
  show ?case
  proof (cases "length s < 4")
    case False
    then have l: "4 \<le> length s" "4 \<le> n" using less.prems by linarith+
    have "(n - 4) mod 4 = n mod 4" using le_mod_geq [OF l(2)] by simp
    then have "length (drop 4 s) < n - 4 \<or> (length (drop 4 s) = n - 4 \<and> (n - 4) mod 4 \<noteq> 0)"
      using less.prems l by auto
    then have "packBytes ep (a + 1) (drop 4 s) (n - 4) c = None" for c :: "('w, 'k) console"
      using less.IH [of "n - 4" "drop 4 s" "a + 1" c] l by simp
    then show ?thesis using n False
      by (subst packBytes.simps) (simp add: ks_def split_beta)
  qed (simp add: packBytes_overrun n)
qed

text \<open>The message has 49 bytes, so the last word is made from three bytes behind it.\<close>

lemma testRegs_overruns:
  "fst (run_state (lp_online ep) (con_ks10 c)) \<Longrightarrow> lp_testRegs ep c = None"
  by (simp add: lp_testRegs_def ks_def split_beta packBytes_short test_msg_def)

text \<open>The loops are executable.\<close>

declare lp_send.simps [code]
  lp_file_loop.simps [code]

end
