(* ===== verification/Commands.thy ===== *)
theory Commands
  imports FatPath Rh11 Dz11 Lp20
begin

text \<open>
  The commands of \<^verbatim>\<open>commands.cpp\<close>, the directory listing of \<^verbatim>\<open>dir.c\<close>, and the command line interpreter.

  The arguments of a command are its words as byte lists that end with a zero byte. A message of several lines
  is represented by its first line with the values and strings printed. The addresses of
  the network interface are a parameter.
\<close>

section \<open>Basics\<close>

text \<open>Comparison of at most n characters without regard to case, as \<^verbatim>\<open>strnicmp(...) == 0\<close>.\<close>

definition to_upper :: "byte \<Rightarrow> byte" where
  "to_upper ch = (if 0x61 \<le> ch \<and> ch \<le> 0x7A then ch - 0x20 else ch)"

fun strnieq :: "nat \<Rightarrow> byte list \<Rightarrow> byte list \<Rightarrow> bool" where
  "strnieq 0 a b = True"
| "strnieq (Suc n) (x # a) (y # b) = (to_upper x = to_upper y \<and> (x = 0 \<or> strnieq n a b))"
| "strnieq (Suc n) _ _ = False"

definition is_word :: "byte list \<Rightarrow> string \<Rightarrow> nat \<Rightarrow> bool" where
  "is_word arg w n = strnieq n arg (bytes_of w)"

definition usage :: "string \<Rightarrow> ('w, 'k, unit) command" where
  "usage n = print (Usage n)"

definition maxVirtAddr :: u64 where "maxVirtAddr = 0x3FFFF"
definition maxMemAddr :: u64 where "maxMemAddr = 0xFFFFF"
definition maxIOAddr :: u64 where "maxIOAddr = 0x3FFFFF"
definition flagFetch :: u64 where "flagFetch = 0x200000000"

text \<open>The network interface of lwIP and the address in the Ethernet controller.\<close>

record netif =
  net_ip :: u32
  net_mask :: u32
  net_gw :: u32
  net_mac :: "byte list"

section \<open>Deposit and examine\<close>

definition deposit_mem :: "'k epi \<Rightarrow> u64 \<Rightarrow> u64 \<Rightarrow> string \<Rightarrow> ('k ks10, unit) state" where
  "deposit_mem ep addr data m = do {
     writeMem ep addr data;
     bad \<leftarrow> nxmnxd ep;
     say_if bad (Text m) }"

definition deposit_io :: "'k epi \<Rightarrow> u64 \<Rightarrow> u64 \<Rightarrow> ('k ks10, unit) state" where
  "deposit_io ep addr data = do {
     writeIO ep addr data;
     bad \<leftarrow> nxmnxd ep;
     say_if bad (Text ''Write failed. (NXD)'') }"

definition cmdDI :: "'k epi \<Rightarrow> byte list list \<Rightarrow> ('w, 'k, unit) command" where
  "cmdDI ep argv c =
     (let c = c\<lparr>con_access := accessIO\<rparr>
      in if length argv = 2 then do {
           (data, c) \<leftarrow> parseOctal (argv ! 1) c;
           ks (deposit_io ep (con_address c) data) c }
         else usage ''DI'' c)"

definition cmdDM :: "'k epi \<Rightarrow> byte list list \<Rightarrow> ('w, 'k, unit) command" where
  "cmdDM ep argv c =
     (let c = c\<lparr>con_access := accessMEM\<rparr>
      in if length argv = 2 then do {
           (data, c) \<leftarrow> parseOctal (argv ! 1) c;
           ks (deposit_mem ep (con_address c) data ''Write failed. (NXM)'') c }
         else usage ''DM'' c)"

definition cmdDN :: "'k epi \<Rightarrow> byte list list \<Rightarrow> ('w, 'k, unit) command" where
  "cmdDN ep argv c =
     (let c = c\<lparr>con_address := con_address c + 1\<rparr>
      in if length argv = 2 then do {
           (data, c) \<leftarrow> parseOctal (argv ! 1) c;
           (if con_access c = accessMEM
            then ks (deposit_mem ep (con_address c) data ''Write failed. (NXM)'') c
            else ks (deposit_io ep (con_address c) data) c) }
         else usage ''DN'' c)"

text \<open>\<open>EI\<close> and \<open>EN\<close> look at the error flag before they read, so they report the cycle before.\<close>

definition examine_io :: "'k epi \<Rightarrow> u64 \<Rightarrow> ('k ks10, unit) state" where
  "examine_io ep addr = do {
     bad \<leftarrow> nxmnxd ep;
     if bad then say (Text ''IO read failed. (NXD)'')
     else do {
       data \<leftarrow> readIO ep addr;
       say (Printf ''%012llo'' [data]) } }"

definition cmdEI :: "'k epi \<Rightarrow> byte list list \<Rightarrow> ('w, 'k, unit) command" where
  "cmdEI ep argv c =
     (let c = c\<lparr>con_access := accessIO\<rparr>
      in if length argv = 1 then ks (examine_io ep (con_address c)) c else usage ''EI'' c)"

definition cmdEM :: "'k epi \<Rightarrow> byte list list \<Rightarrow> ('w, 'k, unit) command" where
  "cmdEM ep argv c =
     (let c = c\<lparr>con_access := accessMEM\<rparr>
      in if length argv = 1 then ks (do {
           data \<leftarrow> readMem ep (con_address c);
           bad \<leftarrow> nxmnxd ep;
           say (if bad then Text ''Memory read failed. (NXM)'' else Printf ''%012llo'' [data]) }) c
         else usage ''EM'' c)"

definition cmdEN :: "'k epi \<Rightarrow> byte list list \<Rightarrow> ('w, 'k, unit) command" where
  "cmdEN ep argv c =
     (if length argv = 1 then
        let c = c\<lparr>con_address := con_address c + 1\<rparr>
        in ks (do {
          say (Printf ''incremented address to %06llo'' [con_address c]);
          if con_access c = accessMEM then do {
            bad \<leftarrow> nxmnxd ep;
            if bad then say (Text ''Memory read failed. (NXM)'')
            else do {
              data \<leftarrow> readMem ep (con_address c);
              say (Printf ''%012llo'' [data]) } }
          else examine_io ep (con_address c) }) c
      else usage ''EN'' c)"

definition cmdLA :: "'k epi \<Rightarrow> byte list list \<Rightarrow> ('w, 'k, unit) command" where
  "cmdLA ep argv c =
     (let c = c\<lparr>con_access := accessMEM\<rparr>
      in if length argv = 2 then do {
           (addr, c) \<leftarrow> parseOctal (argv ! 1) c;
           (if addr \<le> maxMemAddr then
              let c = c\<lparr>con_address := addr\<rparr>
              in ks (do { say (Printf ''Memory address set to %08llo'' [con_address c]); writeRegAddr ep addr }) c
            else ks (do { say (Text ''Invalid memory address.''); say (Usage ''LA'') }) c) }
         else ks (do {
           say (Usage ''LA'');
           addr \<leftarrow> readRegAddr ep;
           say (Printf ''Address is %08llo'' [addr]) }) c)"

definition cmdLI :: "'k epi \<Rightarrow> byte list list \<Rightarrow> ('w, 'k, unit) command" where
  "cmdLI ep argv c =
     (let c = c\<lparr>con_access := accessIO\<rparr>
      in if length argv = 2 then do {
           (addr, c) \<leftarrow> parseOctal (argv ! 1) c;
           (if addr \<le> maxIOAddr then
              let c = c\<lparr>con_address := addr\<rparr>
              in print (Printf ''IO address set to %08llo'' [con_address c]) c
            else ks (do { say (Text ''Invalid IO address.''); say (Usage ''LI'') }) c) }
         else ks (do {
           say (Usage ''LI'');
           addr \<leftarrow> readRegAddr ep;
           say (Printf ''Address is %08llo'' [addr]) }) c)"

definition cmdWR :: "'k epi \<Rightarrow> byte list list \<Rightarrow> ('w, 'k, unit) command" where
  "cmdWR ep argv c =
     (if length argv = 3 then do {
        (addr, c) \<leftarrow> parseOctal (argv ! 1) c;
        (data, c) \<leftarrow> parseOctal (argv ! 2) c;
        ks (deposit_mem ep addr data ''Memory write failed. (NXM)'') c }
      else usage ''WR'' c)"

fun zero_loop :: "'k epi \<Rightarrow> nat \<Rightarrow> u64 \<Rightarrow> ('k ks10, unit) state" where
  "zero_loop ep 0 i = State_Monad.return ()"
| "zero_loop ep (Suc n) i = do { writeMem ep i 0; zero_loop ep n (i + 1) }"

definition cmdZM :: "'k epi \<Rightarrow> byte list list \<Rightarrow> ('w, 'k, unit) command" where
  "cmdZM ep argv c =
     (if length argv = 1 then ks (do {
        say (Printf ''Zeroing memory (%d kW).  This takes about 30 seconds.'' [1024]);
        zero_loop ep 1048576 0 }) c
      else usage ''ZM'' c)"

definition cmdSH :: "'k epi \<Rightarrow> byte list list \<Rightarrow> ('w, 'k, unit) command" where
  "cmdSH ep argv c = (if length argv = 1 then ks (writeMem ep switch_addr 1) c else usage ''SH'' c)"

section \<open>Control of the processor\<close>

definition cmdCE :: "'k epi \<Rightarrow> byte list list \<Rightarrow> ('w, 'k, unit) command" where
  "cmdCE ep argv c =
     (if length argv = 1 then ks (do {
        b \<leftarrow> get_cacheEnable ep;
        say (Shown ''The cache is currently %s.'' [] [if b then ''enabled'' else ''disabled'']) }) c
      else if length argv = 2 then
        if argv ! 1 ! 0 = 0x30 then ks (do { say (Text ''The cache is disabled.''); set_cacheEnable ep False }) c
        else if argv ! 1 ! 0 = 0x31 then ks (do { say (Text ''The cache is enabled.''); set_cacheEnable ep True }) c
        else usage ''CE'' c
      else usage ''CE'' c)"

definition cmdTE :: "'k epi \<Rightarrow> byte list list \<Rightarrow> ('w, 'k, unit) command" where
  "cmdTE ep argv c =
     (if length argv = 1 then ks (do {
        b \<leftarrow> get_timerEnable ep;
        say (Shown ''The timer is currently %s.'' [] [if b then ''enabled'' else ''disabled'']) }) c
      else if length argv = 2 then
        if argv ! 1 ! 0 = 0x30 then ks (do { say (Text ''The timer is disabled.''); set_timerEnable ep False }) c
        else if argv ! 1 ! 0 = 0x31 then ks (do { say (Text ''The timer is enabled.''); set_timerEnable ep True }) c
        else usage ''TE'' c
      else usage ''TE'' c)"

definition cmdTP :: "'k epi \<Rightarrow> byte list list \<Rightarrow> ('w, 'k, unit) command" where
  "cmdTP ep argv c =
     (if length argv = 1 then ks (do {
        b \<leftarrow> get_trapEnable ep;
        say (Shown ''The traps are currently %s.'' [] [if b then ''enabled'' else ''disabled'']) }) c
      else if length argv = 2 then
        if argv ! 1 ! 0 = 0x30 then ks (do { say (Text ''The traps are disabled.''); set_trapEnable ep False }) c
        else if argv ! 1 ! 0 = 0x31 then ks (do { say (Text ''The traps are enabled.''); set_trapEnable ep True }) c
        else usage ''TP'' c
      else usage ''TP'' c)"

definition cmdEX :: "'k epi \<Rightarrow> byte list list \<Rightarrow> ('w, 'k, unit) command" where
  "cmdEX ep argv c =
     (if length argv = 2 then do {
        (data, c) \<leftarrow> parseOctal (argv ! 1) c;
        ks (do { writeRegCIR ep data; execute ep }) c }
      else usage ''EX'' c)"

definition cmdSI :: "'k epi \<Rightarrow> byte list list \<Rightarrow> ('w, 'k, unit) command" where
  "cmdSI ep argv c = (if length argv = 1 then ks (step ep) c else usage ''SI'' c)"

text \<open>Waiting for the halt pin has no limit.\<close>

definition cmdHA :: "'k epi \<Rightarrow> byte list list \<Rightarrow> ('w, 'k, unit) command" where
  "cmdHA ep argv c =
     (if length argv = 1 then do {
        (u, c) \<leftarrow> ks (set_run ep False) c;
        (u, c) \<leftarrow> ksa (halt_loop ep) c;
        print (Text ''Halted'') c }
      else usage ''HA'' c)"

definition cmdMR :: "'k epi \<Rightarrow> byte list list \<Rightarrow> ('w, 'k, unit) command" where
  "cmdMR ep argv c =
     (if length argv = 1 then do {
        (u, c) \<leftarrow> ks (do { set_cpuReset ep True; do_epi (e_delay ep 10); set_cpuReset ep False }) c;
        ksa (halt_loop ep) c }
      else if length argv = 2 then
        if is_word (argv ! 1) ''on'' 2 then ks (do { set_cpuReset ep True; say (Text ''KS10 is reset'') }) c
        else if is_word (argv ! 1) ''off'' 2 then ks (do { set_cpuReset ep False; say (Text ''KS10 is unreset'') }) c
        else Some ((), c)
      else usage ''MR'' c)"

section \<open>Starting the processor\<close>

definition cmdST :: "'k epi \<Rightarrow> byte list list \<Rightarrow> ('w, 'k, unit) command" where
  "cmdST ep argv c =
     (if length argv = 2 then do {
        (addr, c) \<leftarrow> parseOctal (argv ! 1) c;
        (if addr \<le> maxVirtAddr then do {
           (u, c) \<leftarrow> ks (do { writeRegCIR ep (push_bit 18 Ks10.opJRST OR (addr AND 0x3FFFF)); begin_cir ep }) c;
           consoleOutput ep c }
         else ks (do {
           say (Usage ''ST'');
           say (Printf ''Invalid Address Valid addresses are %08llo-%08llo'' [0, maxVirtAddr]) }) c) }
      else usage ''ST'' c)"

definition dcsrBRCMD :: u64 where "dcsrBRCMD = 0xE00000"
definition dcsrBRCMD_MATCH :: u64 where "dcsrBRCMD_MATCH = 0x200000"
definition dcsrBRSTATE :: u64 where "dcsrBRSTATE = 0x1C0000"
definition dcsrTRCMD :: u64 where "dcsrTRCMD = 0xE0"
definition dcsrTRSTATE :: u64 where "dcsrTRSTATE = 0x1C"

text \<open>A break point on an address match that is not armed is armed again.\<close>

definition cmdCO :: "'k epi \<Rightarrow> byte list list \<Rightarrow> ('w, 'k, unit) command" where
  "cmdCO ep argv c =
     (if length argv = 1 then do {
        (u, c) \<leftarrow> ks (do {
          dcsr \<leftarrow> readDCSR ep;
          (if dcsr AND dcsrBRCMD = dcsrBRCMD_MATCH \<and> dcsr AND dcsrBRSTATE = 0
           then do {
             say (Text ''KS10: Re-arming breakpoint.'');
             writeDCSR ep (dcsrBRCMD_MATCH OR dcsr) }
           else State_Monad.return ());
          contin ep }) c;
        consoleOutput ep c }
      else usage ''CO'' c)"

section \<open>Registers of the processor\<close>

definition opRDSPB :: u64 where "opRDSPB = 0x38400"
definition opRDCSB :: u64 where "opRDCSB = 0x38420"
definition opRDPUR :: u64 where "opRDPUR = 0x38440"
definition opRDCSTM :: u64 where "opRDCSTM = 0x38460"
definition opRDINT :: u64 where "opRDINT = 0x384A0"
definition opWREBR :: u64 where "opWREBR = 0x38280"

text \<open>A register is stored by an instruction at location 100 octal, when the processor is halted.\<close>

definition show_register :: "'k epi \<Rightarrow> u64 \<Rightarrow> (u64 \<Rightarrow> message) \<Rightarrow> ('w, 'k, unit) command" where
  "show_register ep op m c = do {
     (h, c) \<leftarrow> ks (halt ep) c;
     (if h then do {
        (data, c) \<leftarrow> ksa (executeInstructionAndGetData ep (push_bit 18 op OR 0x40) 0x40) c;
        print (m data) c }
      else print (Text ''KS10: CPU is running. Halt it first.'') c) }"

definition printAPRID :: "'k epi \<Rightarrow> ('w, 'k, unit) command" where
  "printAPRID ep = show_register ep opAPRID (\<lambda>data. Printf ''KS10: APRID is %012llo''
     [data, drop_bit 35 data AND 1, drop_bit 34 data AND 1, drop_bit 33 data AND 1, drop_bit 32 data AND 1,
      drop_bit 31 data AND 1, drop_bit 30 data AND 1, drop_bit 18 data AND 0x1FF, drop_bit 15 data AND 7, data AND 0x7FFF])"

definition printRDAPR :: "'k epi \<Rightarrow> ('w, 'k, unit) command" where
  "printRDAPR ep = show_register ep opRDAPR (\<lambda>data. Printf ''KS10: APR is %012llo'' [data])"

definition printRDPI :: "'k epi \<Rightarrow> ('w, 'k, unit) command" where
  "printRDPI ep = show_register ep opRDPI (\<lambda>data. Printf ''KS10: PI is %012llo'' [data])"

definition printRDUBR :: "'k epi \<Rightarrow> ('w, 'k, unit) command" where
  "printRDUBR ep = show_register ep opRDUBR (\<lambda>data. Printf ''KS10: UBR is %012llo'' [data])"

definition printRDEBR :: "'k epi \<Rightarrow> ('w, 'k, unit) command" where
  "printRDEBR ep = show_register ep opRDEBR (\<lambda>data. Printf ''KS10: EBR is %012llo''
     [data, drop_bit 14 data AND 1, drop_bit 13 data AND 1, data AND 0x7FF])"

definition printRDSPB :: "'k epi \<Rightarrow> ('w, 'k, unit) command" where
  "printRDSPB ep = show_register ep opRDSPB (\<lambda>data. Printf ''KS10: SPB is %012llo'' [data])"

definition printRDCSB :: "'k epi \<Rightarrow> ('w, 'k, unit) command" where
  "printRDCSB ep = show_register ep opRDCSB (\<lambda>data. Printf ''KS10: CSB is %012llo'' [data])"

definition printRDCSTM :: "'k epi \<Rightarrow> ('w, 'k, unit) command" where
  "printRDCSTM ep = show_register ep opRDCSTM (\<lambda>data. Printf ''KS10: CSTM is %012llo'' [data])"

definition printRDPUR :: "'k epi \<Rightarrow> ('w, 'k, unit) command" where
  "printRDPUR ep = show_register ep opRDPUR (\<lambda>data. Printf ''KS10: PUR is %012llo'' [data])"

definition printRDTIM :: "('w, 'k, unit) command" where
  "printRDTIM = print (Text ''KS10: Not implemented.'')"

definition printRDINT :: "'k epi \<Rightarrow> ('w, 'k, unit) command" where
  "printRDINT ep = show_register ep opRDINT (\<lambda>data. Printf ''KS10: INT is %012llo'' [data])"

definition printRDHSB :: "'k epi \<Rightarrow> ('w, 'k, unit) command" where
  "printRDHSB ep = show_register ep opRDHSB (\<lambda>data. Printf ''KS10: HSB is %012llo'' [data])"

fun ac_loop :: "'k epi \<Rightarrow> nat \<Rightarrow> u64 \<Rightarrow> ('w, 'k, unit) command" where
  "ac_loop ep 0 i c = Some ((), c)"
| "ac_loop ep (Suc n) i c = do {
     (data, c) \<leftarrow> readAC ep i c;
     (u, c) \<leftarrow> print (Printf ''  %02o: %012llo'' [i, data]) c;
     ac_loop ep n (i + 1) c }"

definition printRDACs :: "'k epi \<Rightarrow> ('w, 'k, unit) command" where
  "printRDACs ep c = do {
     (h, c) \<leftarrow> ks (halt ep) c;
     (if h then do {
        (u, c) \<leftarrow> print (Text ''KS10: Dump of AC contents:'') c;
        ac_loop ep 16 0 c }
      else print (Text ''KS10: CPU is running. Halt it first.'') c) }"

definition printRDAC :: "'k epi \<Rightarrow> u64 \<Rightarrow> ('w, 'k, unit) command" where
  "printRDAC ep regAC c = do {
     (h, c) \<leftarrow> ks (halt ep) c;
     (if h then
        if regAC < 16 then do {
          (data, c) \<leftarrow> readAC ep regAC c;
          print (Printf ''KS10: %012llo'' [data]) c }
        else print (Text ''KS10: Invalid AC number.'') c
      else print (Text ''KS10: CPU is running. Halt it first.'') c) }"

fun rdmem_loop :: "'k epi \<Rightarrow> nat \<Rightarrow> u64 \<Rightarrow> ('k ks10, unit) state" where
  "rdmem_loop ep 0 addr = State_Monad.return ()"
| "rdmem_loop ep (Suc n) addr = do {
     data \<leftarrow> readMem ep addr;
     bad \<leftarrow> nxmnxd ep;
     say (if bad then Text ''  Failed. (NXM)'' else Printf ''  %06llo: %012llo'' [addr, data]);
     rdmem_loop ep n (addr + 1) }"

definition printRDMEM :: "'k epi \<Rightarrow> u64 \<Rightarrow> u32 \<Rightarrow> ('w, 'k, unit) command" where
  "printRDMEM ep addr len = ks (do { say (Text ''KS10: Memory read:''); rdmem_loop ep (unat len) addr })"

fun dasm_loop :: "'k epi \<Rightarrow> nat \<Rightarrow> u64 \<Rightarrow> ('w, 'k, unit) command" where
  "dasm_loop ep 0 addr c = Some ((), c)"
| "dasm_loop ep (Suc n) addr c = do {
     ((data, bad), c) \<leftarrow> ks (do { data \<leftarrow> readMem ep addr; bad \<leftarrow> nxmnxd ep; State_Monad.return (data, bad) }) c;
     (u, c) \<leftarrow> (if bad then print (Text ''  Failed. (NXM)'') c
       else do {
         (line, c) \<leftarrow> disassemble data c;
         print (Shown ''      %07llo: %s'' [addr AND maxMemAddr] [line]) c });
     dasm_loop ep n (addr + 1) c }"

definition dasmMEM :: "'k epi \<Rightarrow> u64 \<Rightarrow> u32 \<Rightarrow> ('w, 'k, unit) command" where
  "dasmMEM ep addr len c = do {
     (u, c) \<leftarrow> print (Text ''KS10: Memory disassembly:'') c;
     dasm_loop ep (unat len) addr c }"

definition cmdDA :: "'k epi \<Rightarrow> byte list list \<Rightarrow> ('w, 'k, unit) command" where
  "cmdDA ep argv c =
     (if length argv = 2 then do {
        (addr, c) \<leftarrow> parseOctal (argv ! 1) c;
        dasmMEM ep addr 1 c }
      else if length argv = 3 then do {
        (addr, c) \<leftarrow> parseOctal (argv ! 1) c;
        (len, c) \<leftarrow> parseOctal (argv ! 2) c;
        dasmMEM ep addr (ucast len) c }
      else usage ''DA'' c)"

definition cmdRD :: "'k epi \<Rightarrow> byte list list \<Rightarrow> ('w, 'k, unit) command" where
  "cmdRD ep argv c =
     (if length argv = 2 then
        let a = argv ! 1
        in if is_word a ''aprid'' 5 then printAPRID ep c
           else if is_word a ''apr'' 3 then printRDAPR ep c
           else if is_word a ''pi'' 2 then printRDPI ep c
           else if is_word a ''ubr'' 3 then printRDUBR ep c
           else if is_word a ''ebr'' 3 then printRDEBR ep c
           else if is_word a ''spb'' 3 then printRDSPB ep c
           else if is_word a ''csb'' 3 then printRDCSB ep c
           else if is_word a ''cstm'' 4 then printRDCSTM ep c
           else if is_word a ''pur'' 3 then printRDPUR ep c
           else if is_word a ''tim'' 3 then printRDTIM c
           else if is_word a ''int'' 3 then printRDINT ep c
           else if is_word a ''hsb'' 3 then printRDHSB ep c
           else if is_word a ''ac'' 2 then printRDACs ep c
           else if is_word a ''pc'' 2 then do {
             (d, c) \<leftarrow> ks (readDITR ep) c;
             printPCIR d c }
           else do {
             (addr, c) \<leftarrow> parseOctal a c;
             printRDMEM ep addr 1 c }
      else if length argv = 3 then
        if is_word (argv ! 1) ''ac'' 2 then do {
          (n, c) \<leftarrow> parseOctal (argv ! 2) c;
          printRDAC ep n c }
        else do {
          (addr, c) \<leftarrow> parseOctal (argv ! 1) c;
          (len, c) \<leftarrow> parseOctal (argv ! 2) c;
          printRDMEM ep addr (ucast len) c }
      else usage ''RD'' c)"

text \<open>The halt status word and block.\<close>

definition halt_cause :: "u64 \<Rightarrow> string" where
  "halt_cause st =
     (if st = 0 then ''Microcode Startup.'' else if st = 1 then ''Halt Instruction.'' else if st = 2 then ''Console Halt.''
      else if st = 0x40 then ''IO Page Failure.'' else if st = 0x41 then ''Illegal Interrupt Instruction.''
      else if st = 0x42 then ''Pointer to Unibus Vector is zero.'' else if st = 0x200 then ''Illegal Microcode Dispatch.''
      else if st = 0x205 then ''Microcode Startup Check Failed.'' else ''Unknown.'')"

definition printHaltStatus :: "'k epi \<Rightarrow> ('w, 'k, unit) command" where
  "printHaltStatus ep c = do {
     (w, c) \<leftarrow> ks (getHaltStatusWord ep) c;
     (u, c) \<leftarrow> print (Shown ''KS10: Halt Cause: %s (PC=%06llo)'' [hsw_pc w] [halt_cause (hsw_status w)]) c;
     (h, c) \<leftarrow> ks (halt ep) c;
     (if \<not> h then print (Text ''KS10: CPU is running. Halt it first.'') c
      else do {
        (addr, c) \<leftarrow> ksa (executeInstructionAndGetData ep (push_bit 18 opRDHSB OR 0x40) 0x40) c;
        (b, c) \<leftarrow> ks (getHaltStatusBlock ep addr) c;
        print (Printf ''  Halt Status Block Address is %06llo''
          [addr, hsb_pc b, hsb_hr b, hsb_mag b, hsb_one b, hsb_ar b, hsb_arx b, hsb_br b, hsb_brx b, hsb_ebr b, hsb_ubr b,
           hsb_mask b, hsb_flg b, hsb_pi b, hsb_x1 b, hsb_t0 b, hsb_t1 b, hsb_vma b]) c }) }"

definition cmdHS :: "'k epi \<Rightarrow> byte list list \<Rightarrow> ('w, 'k, unit) command" where
  "cmdHS ep argv = printHaltStatus ep"

section \<open>Break points and the trace buffer\<close>

definition set_dcsr :: "'k epi \<Rightarrow> u64 \<Rightarrow> u64 \<Rightarrow> ('k ks10, unit) state" where
  "set_dcsr ep cmd bits = do {
     dcsr \<leftarrow> readDCSR ep;
     writeDCSR ep (cmd OR (dcsr AND NOT bits)) }"

definition flag_names :: "u64 \<Rightarrow> string list" where
  "flag_names d = [if d AND flagFetch \<noteq> 0 then ''Fetch '' else [], if d AND flagRead \<noteq> 0 then ''Read '' else [],
     if d AND flagWrite \<noteq> 0 then ''Write '' else [], if d AND flagPhys \<noteq> 0 then ''Physical '' else [],
     if d AND flagIO \<noteq> 0 then ''IO '' else [], if d AND flagByte \<noteq> 0 then ''Byte '' else []]"

definition dcsr_names :: "u64 \<Rightarrow> string list" where
  "dcsr_names dcsr =
     (let ts = dcsr AND dcsrTRSTATE; tc = dcsr AND dcsrTRCMD; bs = dcsr AND dcsrBRSTATE; bc = dcsr AND dcsrBRCMD
      in [if dcsr AND 1 \<noteq> 0 then ''True'' else ''False'',
          if dcsr AND 2 \<noteq> 0 then ''True'' else ''False'',
          if ts = 0 then ''Idle'' else if ts = 0x4 then ''Armed'' else if ts = 0x8 then ''Active''
            else if ts = 0xC then ''Done'' else ''Unknown'',
          if tc = 0 then ''Reset'' else if tc = 0x20 then ''Trigger'' else if tc = 0x40 then ''Address Match''
            else if tc = 0x60 then ''Stop'' else ''Unknown'',
          if bs = 0 then ''Idle'' else if bs = 0x40000 then ''Armed'' else ''Unknown'',
          if bc = 0 then ''Disable'' else if bc = 0x200000 then ''Address Match'' else if bc = 0x400000 then ''Trace Full''
            else if bc = 0x600000 then ''Address Match or Trace Full'' else ''Unknown''])"

definition printDEBUG :: "'k epi \<Rightarrow> ('k ks10, unit) state" where
  "printDEBUG ep = do {
     dcsr \<leftarrow> readDCSR ep;
     dbar \<leftarrow> readDBAR ep;
     dbmr \<leftarrow> readDBMR ep;
     say (Shown ''Breakpoint and Trace System Status: '' [dcsr, dbar, dbar AND maxIOAddr, dbmr, dbmr AND maxIOAddr]
       (dcsr_names dcsr @ flag_names dbar @ flag_names dbmr)) }"

definition set_break :: "'k epi \<Rightarrow> u64 \<Rightarrow> u64 \<Rightarrow> ('k ks10, unit) state" where
  "set_break ep bar bmr = do { writeDBAR ep bar; writeDBMR ep bmr }"

definition cmdBR :: "'k epi \<Rightarrow> byte list list \<Rightarrow> ('w, 'k, unit) command" where
  "cmdBR ep argv c =
     (if length argv = 2 then
        let a = argv ! 1
        in if is_word a ''off'' 2 then ks (set_dcsr ep 0 dcsrBRCMD) c
           else if is_word a ''match'' 2 then ks (set_dcsr ep dcsrBRCMD_MATCH dcsrBRCMD) c
           else if is_word a ''full'' 2 then ks (set_dcsr ep 0x400000 dcsrBRCMD) c
           else if is_word a ''both'' 2 then ks (set_dcsr ep 0x600000 dcsrBRCMD) c
           else if is_word a ''stat'' 2 then ks (printDEBUG ep) c
           else usage ''BR'' c
      else if length argv = 3 then do {
        (addr, c) \<leftarrow> parseOctal (argv ! 2) c;
        (let a = argv ! 1
         in if is_word a ''fetch'' 5 then
              ks (set_break ep ((flagFetch OR flagRead) OR addr) ((flagFetch OR flagRead) OR maxMemAddr)) c
            else if is_word a ''memrd'' 5 then ks (set_break ep (flagRead OR addr) ((flagRead OR flagIO) OR maxMemAddr)) c
            else if is_word a ''memwr'' 5 then ks (set_break ep (flagWrite OR addr) ((flagWrite OR flagIO) OR maxMemAddr)) c
            else if is_word a ''iord'' 4 then
              ks (set_break ep ((flagRead OR flagIO) OR addr) ((flagRead OR flagIO) OR maxIOAddr)) c
            else if is_word a ''iowr'' 4 then
              ks (set_break ep ((flagWrite OR flagIO) OR addr) ((flagWrite OR flagIO) OR maxIOAddr)) c
            else usage ''BR'' c) }
      else usage ''BR'' c)"

text \<open>The dump reads the trace register until the buffer is empty.\<close>

partial_function (option) dump_loop :: "'k epi \<Rightarrow> u64 \<Rightarrow> ('w, 'k, unit) command" where
  "dump_loop ep i c = do {
     (dcsr, c) \<leftarrow> ks (readDCSR ep) c;
     (if dcsr AND 1 = 1 then Some ((), c)
      else do {
        (d, c) \<leftarrow> ks (do { say (Printf ''%5d'' [i]); readDITR ep }) c;
        (u, c) \<leftarrow> printPCIR d c;
        dump_loop ep (i + 1) c }) }"

definition cmdTR :: "'k epi \<Rightarrow> byte list list \<Rightarrow> ('w, 'k, unit) command" where
  "cmdTR ep argv c =
     (if length argv = 1 then ks (do {
        dcsr \<leftarrow> readDCSR ep;
        say (Printf ''Debug Control/Status Register     : %012llo'' [dcsr]);
        ditr \<leftarrow> readDITR ep;
        say (Printf ''Debug Instruction Trace Register  : %018llo'' [ditr]);
        say (Usage ''TR'') }) c
      else if length argv = 2 then
        let a = argv ! 1
        in if is_word a ''reset'' 2 then ks (set_dcsr ep 0 dcsrTRCMD) c
           else if is_word a ''trig'' 2 then ks (set_dcsr ep 0x20 dcsrTRCMD) c
           else if is_word a ''match'' 2 then ks (set_dcsr ep 0x40 dcsrTRCMD) c
           else if is_word a ''stop'' 4 then ks (set_dcsr ep 0x60 dcsrTRCMD) c
           else if is_word a ''stat'' 4 then ks (printDEBUG ep) c
           else if is_word a ''dump'' 4 then do {
             (u, c) \<leftarrow> ks (do { set_dcsr ep 0x60 dcsrTRCMD; say (Text ''Dump of Trace Buffer:'') }) c;
             (u, c) \<leftarrow> dump_loop ep 0 c;
             print (Text ''Trace Finished'') c }
           else usage ''TR'' c
      else usage ''TR'' c)"

section \<open>Device configuration\<close>

definition save_config :: "'w disk_ops \<Rightarrow> string \<Rightarrow> byte list \<Rightarrow> ('w, 'k, unit) command" where
  "save_config ops name buf c = do {
     (ok, c) \<leftarrow> config_write ops False (bytes_of name) buf c;
     (if ok then print (Text ''KS10: Sucessfully wrote configuration file.'') c else Some ((), c)) }"

fun ds_loop :: "byte list list \<Rightarrow> ('w, 'k, unit) command" where
  "ds_loop [] c = Some ((), c)"
| "ds_loop (a # argv) c =
     (if is_word a ''uba='' 4 then do {
        (n, c) \<leftarrow> parseOctal (drop 4 a) c;
        (let temp = ucast n :: u32
         in if 4 < temp then do {
              (u, c) \<leftarrow> ks (do { say (Shown ''KS10: Parameter out of range: %s.'' [] [text_of a]); say (Usage ''DS'') }) c;
              ds_loop argv c }
            else let temp = (if temp = 0 then 1 else temp);
                     r = con_rhcfg c
                 in ds_loop argv (c\<lparr>con_rhcfg := r\<lparr>rhbase := (rhbase r AND 0x3FFFF) OR ucast (push_bit 18 temp)\<rparr>\<rparr>)) }
      else if is_word a ''base='' 5 then do {
        (n, c) \<leftarrow> parseOctal (drop 5 a) c;
        (let temp = ucast n :: u32
         in if temp \<noteq> 0x3FDC0 then do {
              (u, c) \<leftarrow> ks (do { say (Shown ''KS10: Parameter must be 776700: %s.'' [] [text_of a]); say (Usage ''DS'') }) c;
              ds_loop argv c }
            else let r = con_rhcfg c
                 in ds_loop argv (c\<lparr>con_rhcfg := r\<lparr>rhbase := (rhbase r AND 0x1C0000) OR ucast (temp AND 0x3FFFF)\<rparr>\<rparr>)) }
      else if is_word a ''unit='' 5 then do {
        (n, c) \<leftarrow> parseOctal (drop 5 a) c;
        (let temp = ucast n :: u32
         in if 7 < temp then do {
              (u, c) \<leftarrow> ks (do { say (Shown ''KS10: Parameter out of range: %s.'' [] [text_of a]); say (Usage ''DS'') }) c;
              ds_loop argv c }
            else let r = con_rhcfg c in ds_loop argv (c\<lparr>con_rhcfg := r\<lparr>rhunit := ucast temp\<rparr>\<rparr>)) }
      else ks (do { say (Shown ''KS10: Unrecognized parameter: %s.'' [] [text_of a]); say (Usage ''DS'') }) c)"

definition cmdDS :: "'w disk_ops \<Rightarrow> byte list list \<Rightarrow> ('w, 'k, unit) command" where
  "cmdDS ops argv c =
     (let r = con_rhcfg c
      in if length argv = 1 \<or> 4 < length argv then
           ks (do {
             say (Printf ''KS10: Boot Parameters are:''
               [drop_bit 18 (rhbase r) AND 7, rhbase r AND 0x3FFFF, rhunit r AND 7]);
             say (Usage ''DS'') }) c
         else if length argv = 2 \<and> is_word (argv ! 1) ''save'' 4 then save_config ops ''RH11CFG.DAT'' (rh_bytes r) c
         else ds_loop (tl argv) c)"

text \<open>The printer: its configuration bits are lpOVFU (16) and lpONLINE (4).\<close>

fun lp_loop :: "'k epi \<Rightarrow> byte list list \<Rightarrow> ('w, 'k, unit) command" where
  "lp_loop ep [] c = Some ((), c)"
| "lp_loop ep (a # argv) c = do {
     (u, c) \<leftarrow>
       (if is_word a ''online'' 4 then
          let c = c\<lparr>con_lpccr := con_lpccr c OR 0x4\<rparr> in ks (initLPCCR ep (con_lpccr c)) c
        else if is_word a ''offline'' 4 then
          let c = c\<lparr>con_lpccr := con_lpccr c AND NOT 0x4\<rparr> in ks (initLPCCR ep (con_lpccr c)) c
        else if is_word a ''ovfu'' 4 then
          let c = c\<lparr>con_lpccr := con_lpccr c OR 0x10\<rparr> in ks (initLPCCR ep (con_lpccr c)) c
        else if is_word a ''davfu'' 4 then
          let c = c\<lparr>con_lpccr := con_lpccr c AND NOT 0x10\<rparr> in ks (initLPCCR ep (con_lpccr c)) c
        else usage ''LP'' c);
     lp_loop ep argv c }"

definition cmdLP :: "'w disk_ops \<Rightarrow> 'k epi \<Rightarrow> byte list list \<Rightarrow> ('w, 'k, unit) command" where
  "cmdLP ops ep argv c =
     (if length argv = 1 then ks (do {
        lpccr \<leftarrow> readLPCCR ep;
        say (Shown ''KS10: LP26 #1 Printer Configuration:'' [if lpccr AND 0x8 \<noteq> 0 then 6 else 8]
          [if lpccr AND 0x10 \<noteq> 0 then ''Optical'' else ''Digital'', if lpccr AND 0x4 \<noteq> 0 then ''Online'' else ''Offline'']);
        say (Usage ''LP'') }) c
      else let a = argv ! 1
        in if length argv = 2 \<and> is_word a ''save'' 4 then save_config ops ''LP20CFG.DAT'' (bytes32 (con_lpccr c)) c
           else if length argv = 2 \<and> is_word a ''break'' 4 then ks (do {
             writeDBAR ep (flagPhys OR flagIO OR 0xFFB00);
             writeDBMR ep (flagPhys OR flagIO OR 0x3FFFC0);
             set_dcsr ep dcsrBRCMD_MATCH dcsrBRCMD }) c
           else if length argv = 2 \<and> is_word a ''stat'' 4 then ks (dumpRegs ep) c
           else if length argv = 2 \<and> is_word a ''test'' 4 then lp_testRegs ep c
           else if length argv = 3 \<and> is_word a ''print'' 4 then printFile ops ep (argv ! 2) c
           else lp_loop ep (tl argv) c)"

text \<open>The disk drives: write protection in bits 0 to 7, on line 8 to 15, present 16 to 23 and 24 to 31.\<close>

definition rp_bit :: "bool \<Rightarrow> int \<Rightarrow> u64 \<Rightarrow> u64" where
  "rp_bit on n x = (if on then x OR push_bit (nat n) 1 else x AND NOT (push_bit (nat n) 1))"

definition rp_switch :: "'k epi \<Rightarrow> byte list \<Rightarrow> nat \<Rightarrow> int \<Rightarrow> (bool \<Rightarrow> u64 \<Rightarrow> u64) \<Rightarrow> ('w, 'k, bool) command" where
  "rp_switch ep a k unit upd c =
     (if unit < 0 then do {
        (u, c) \<leftarrow> ks (do { say (Text ''KS10: Unit parameter not specified.''); say (Usage ''RP'') }) c;
        Some (False, c) }
      else if a ! k = 0x30 \<or> a ! k = 0x31 then
        let c = c\<lparr>con_rpccr := upd (a ! k = 0x31) (con_rpccr c)\<rparr>
        in do {
          (u, c) \<leftarrow> ks (writeRPCCR ep (ucast (con_rpccr c))) c;
          Some (True, c) }
      else do {
        (u, c) \<leftarrow> ks (do { say (Shown ''KS10: Unrecognized parameter %s.'' [] [text_of a]); say (Usage ''RP'') }) c;
        Some (False, c) })"

fun rp_loop :: "'k epi \<Rightarrow> int \<Rightarrow> byte list list \<Rightarrow> ('w, 'k, unit) command" where
  "rp_loop ep unit [] c = Some ((), c)"
| "rp_loop ep unit (a # argv) c =
     (if is_word a ''unit='' 5 then do {
        (n, c) \<leftarrow> parseOctal (drop 5 a) c;
        (let unit = sint (ucast n :: u32)
         in if 7 < unit then
              ks (do { say (Shown ''KS10: Unit parameter out of range: %s.'' [] [text_of a]); say (Usage ''RP'') }) c
            else rp_loop ep unit argv c) }
      else if is_word a ''present='' 8 then do {
        (ok, c) \<leftarrow> rp_switch ep a 8 unit (\<lambda>b x. rp_bit b (24 + unit) (rp_bit b (16 + unit) x)) c;
        (if ok then rp_loop ep unit argv c else Some ((), c)) }
      else if is_word a ''online='' 7 then do {
        (ok, c) \<leftarrow> rp_switch ep a 7 unit (\<lambda>b. rp_bit b (8 + unit)) c;
        (if ok then rp_loop ep unit argv c else Some ((), c)) }
      else if is_word a ''wrprot='' 7 then do {
        (ok, c) \<leftarrow> rp_switch ep a 7 unit (\<lambda>b. rp_bit b unit) c;
        (if ok then rp_loop ep unit argv c else Some ((), c)) }
      else ks (do { say (Shown ''KS10: Unrecognized parameter %s.'' [] [text_of a]); say (Usage ''RP'') }) c)"

definition cmdRP :: "'w disk_ops \<Rightarrow> 'k epi \<Rightarrow> byte list list \<Rightarrow> ('w, 'k, unit) command" where
  "cmdRP ops ep argv c =
     (if length argv = 1 then ks (do {
        say (Printf ''KS10: RPxx Parameters are:'' (concat (map (\<lambda>i.
          [of_nat i, drop_bit (16 + i) (con_rpccr c) AND 1, drop_bit (8 + i) (con_rpccr c) AND 1, drop_bit i (con_rpccr c) AND 1]) [0 ..< 8])));
        say (Usage ''RP'') }) c
      else if length argv = 2 \<and> is_word (argv ! 1) ''save'' 4 then save_config ops ''RPXXCFG.DAT'' (bytes64 (con_rpccr c)) c
      else rp_loop ep (-1) (tl argv) c)"

section \<open>Files\<close>

definition new_filinfo :: filinfo where
  "new_filinfo = \<lparr>fi_fsize = 0, fi_fdate = 0, fi_ftime = 0, fi_fattrib = 0, fi_fname = replicate 13 0\<rparr>"

definition dir_line :: "byte list \<Rightarrow> filinfo \<Rightarrow> message" where
  "dir_line path fi =
     (let d = fi_fdate fi; t = fi_ftime fi; hour = drop_bit 11 t AND 0x1F
      in Shown ''%02d/%02d/%4d  %02d:%02d %cM   %s %8ld %s%s%s''
           [ucast (drop_bit 5 d AND 0xF), ucast (d AND 0x1F), ucast (drop_bit 9 d AND 0x7F) + 1980,
            ucast (hour mod 12), ucast (drop_bit 5 t AND 0x3F), if 12 < hour then 0x50 else 0x41, ucast (fi_fsize fi)]
           [if fi_fattrib fi AND AM_DIR \<noteq> 0 then ''<DIR>'' else ''     '', text_of (drop 1 path),
            if path = [] then [] else ''/'', text_of (fi_fname fi)])"

text \<open>
  \<^verbatim>\<open>directory()\<close> calls itself for a subdirectory from its loop: the argument is \<^term>\<open>None\<close> at the call, and the
  open directory object in the loop. A path has at most 127 characters; a longer one is written past the buffer.
\<close>

partial_function (option) directory :: "'w disk_ops \<Rightarrow> byte list \<Rightarrow> dir option \<Rightarrow> ('w, 'k, FRESULT) command" where
  "directory ops path dj c = (case dj of
     None \<Rightarrow>
       if 127 < length path then None
       else do {
         ((res, dj), c) \<leftarrow> fat (f_opendir ops (Some (new_dir 0)) (path @ [0])) c;
         (if res = FR_OK then do {
            dj \<leftarrow> dj;
            directory ops path (Some dj) c }
          else Some (res, c)) }
   | Some dj \<Rightarrow> do {
       ((res, dj, fi), c) \<leftarrow> fat (f_readdir ops dj (Some new_filinfo)) c;
       fi \<leftarrow> fi;
       (if res \<noteq> FR_OK \<or> fi_fname fi ! 0 = 0 then Some (res, c)
        else do {
          (u, c) \<leftarrow> print (dir_line path fi) c;
          (if fi_fattrib fi AND AM_DIR \<noteq> 0 then do {
             (res, c) \<leftarrow> directory ops (path @ [0x2F] @ take 12 (takeWhile (\<lambda>x. x \<noteq> 0) (fi_fname fi))) None c;
             (if res \<noteq> FR_OK then Some (res, c) else directory ops path (Some dj) c) }
           else directory ops path (Some dj) c) }) })"

definition cmdSD :: "'w disk_ops \<Rightarrow> byte list list \<Rightarrow> ('w, 'k, unit) command" where
  "cmdSD ops argv c =
     (if length argv = 2 then
        if is_word (argv ! 1) ''dir'' 3 then do {
          (status, c) \<leftarrow> directory ops [] None c;
          report ''Directory command failed. Status was %d.'' status c }
        else if is_word (argv ! 1) ''write'' 5 then do {
          ((status, fp), c) \<leftarrow> fat (f_open ops (Some new_fil) (bytes_of ''test.dat'') (FA_CREATE_ALWAYS OR FA_WRITE)) c;
          (if status \<noteq> FR_OK then report ''KS10: f_open() returned %d'' status c
           else do {
             fp \<leftarrow> fp;
             ((status, numbytes, fp), c) \<leftarrow> fat (f_write ops fp (replicate 32 0) 32) c;
             (u, c) \<leftarrow> report ''KS10: f_write() returned %d.'' status c;
             (u, c) \<leftarrow> print (Printf ''KS10: f_write() write %d bytes.'' [ucast numbytes]) c;
             ((status, fp), c) \<leftarrow> fat (f_close ops fp) c;
             report ''KS10: f_close() returned %d'' status c }) }
        else if is_word (argv ! 1) ''del'' 3 then do {
          ((status, u), c) \<leftarrow> fat (f_unlink ops (bytes_of ''config.dat'')) c;
          report ''KS10: f_unlink() returned %d.'' status c }
        else Some ((), c)
      else usage ''SD'' c)"

section \<open>Boot and diagnostics\<close>

definition set_boot :: "'k epi \<Rightarrow> ('w, 'k, unit) command" where
  "set_boot ep c = ks (do {
     writeMem ep rhbase_addr (rhbase (con_rhcfg c));
     writeMem ep rhunit_addr (rhunit (con_rhcfg c)) }) c"

definition configure_cpu :: "'k epi \<Rightarrow> ('k ks10, unit) state" where
  "configure_cpu ep = do {
     set_cacheEnable ep True;
     set_trapEnable ep True;
     set_timerEnable ep True }"

definition boot_args :: "'k epi \<Rightarrow> string \<Rightarrow> byte list list \<Rightarrow> ('w, 'k, unit) command" where
  "boot_args ep n argv c =
     (let r = con_rhcfg c
      in if length argv = 1 then rh_boot ep (rhbase r) (rhunit r) False c
         else if length argv = 2 \<and> argv ! 1 ! 0 = 0x31 then rh_boot ep (rhbase r) (rhunit r) True c
         else usage n c)"

definition cmdBT :: "'k epi \<Rightarrow> byte list list \<Rightarrow> ('w, 'k, unit) command" where
  "cmdBT ep argv c = do {
     (u, c) \<leftarrow> ks (configure_cpu ep) c;
     (u, c) \<leftarrow> set_boot ep c;
     boot_args ep ''BT'' argv c }"

definition cmdLB :: "'k epi \<Rightarrow> byte list list \<Rightarrow> ('w, 'k, unit) command" where
  "cmdLB ep argv c = do {
     (u, c) \<leftarrow> set_boot ep c;
     boot_args ep ''LB'' argv c }"

definition load_or_say :: "'w disk_ops \<Rightarrow> 'k epi \<Rightarrow> byte list \<Rightarrow> message \<Rightarrow> ('w, 'k, bool) command" where
  "load_or_say ops ep name m c = do {
     (ok, c) \<leftarrow> loadCode ops ep name c;
     (u, c) \<leftarrow> (if ok then Some ((), c) else print m c);
     Some (ok, c) }"

text \<open>The diagnostic subroutines, the debugger and the monitor; only the monitor is necessary.\<close>

definition load_monitor :: "'w disk_ops \<Rightarrow> 'k epi \<Rightarrow> string \<Rightarrow> ('w, 'k, bool) command" where
  "load_monitor ops ep failed c = do {
     (u, c) \<leftarrow> set_boot ep c;
     (u, c) \<leftarrow> print (Text ''KS10: Loading SUBSM.'') c;
     (ok, c) \<leftarrow> load_or_say ops ep (bytes_of ''diag/subsm.sav'') (Text ''Failed to load DIAG/SUBSM.SAV'') c;
     (u, c) \<leftarrow> print (Text ''KS10: Loading SMDDT.'') c;
     (ok, c) \<leftarrow> load_or_say ops ep (bytes_of ''diag/smddt.sav'') (Text ''Failed to load DIAG/SMDDT.SAV'') c;
     (u, c) \<leftarrow> print (Text ''KS10: Loading SMMON.'') c;
     load_or_say ops ep (bytes_of ''diag/smmon.sav'') (Text failed) c }"

fun write_words :: "'k epi \<Rightarrow> (u64 \<times> u64) list \<Rightarrow> ('k ks10, unit) state" where
  "write_words ep [] = State_Monad.return ()"
| "write_words ep ((a, d) # r) = do { writeMem ep a d; write_words ep r }"

definition patch_diagnostic :: "'k epi \<Rightarrow> byte list \<Rightarrow> ('k ks10, unit) state" where
  "patch_diagnostic ep name =
     (if is_word name ''diag/dsdza.sav'' 10 then do {
        write_words ep (map (\<lambda>i. (0x3BA8 + of_nat i, 60000)) [0 ..< 16]);
        say (Text ''Patched DSDZA diagnostic.'') }
      else if is_word name ''diag/dskac.sav'' 10 then do {
        write_words ep [(0x180, 0xB0002C001), (0x188, 0xB0042C011), (0x18C, 0xB0062C019), (0x18D, 0xB006AC01B),
          (0x2000, push_bit 18 opWREBR OR 0x2000), (0x2001, push_bit 18 Ks10.opJRST OR 0x3000)];
        say (Text ''Patched DSKAC diagnostic.'') }
      else State_Monad.return ())"

definition run_diagnostic :: "'k epi \<Rightarrow> ('w, 'k, unit) command" where
  "run_diagnostic ep c = do {
     (u, c) \<leftarrow> ks (do { configure_cpu ep; begin_cir ep }) c;
     consoleOutput ep c }"

definition cmdGO :: "'w disk_ops \<Rightarrow> 'k epi \<Rightarrow> byte list list \<Rightarrow> ('w, 'k, unit) command" where
  "cmdGO ops ep argv c =
     (if length argv = 1 then do {
        (ok, c) \<leftarrow> load_monitor ops ep ''Failed to load DIAG/SMMON.SAV'' c;
        (if ok then run_diagnostic ep c else Some ((), c)) }
      else if length argv = 3 then do {
        (ok, c) \<leftarrow> load_monitor ops ep ''Failed to load diag/smmon.sav'' c;
        (if \<not> ok then Some ((), c)
         else do {
           (ok, c) \<leftarrow> load_or_say ops ep (argv ! 1) (Shown ''Failed to load %s'' [] [text_of (argv ! 1)]) c;
           (if \<not> ok then Some ((), c)
            else do {
              (start, c) \<leftarrow> parseOctal (argv ! 2) c;
              (u, c) \<leftarrow> ks (do {
                writeRegCIR ep (push_bit 18 Ks10.opJRST OR start);
                say (Printf ''KS10: Starting Address set to %06llo'' [start]);
                patch_diagnostic ep (argv ! 1) }) c;
              run_diagnostic ep c }) }) }
      else usage ''GO'' c)"

section \<open>Tests of the devices\<close>

definition printRH11Debug :: "'k epi \<Rightarrow> ('k ks10, unit) state" where
  "printRH11Debug ep = do {
     rh11stat \<leftarrow> getRH11debug ep;
     say (Printf ''KS10: RH11 status is 0x%016llx''
       (rh11stat # map (\<lambda>k. drop_bit (8 * k) rh11stat AND 0xFF) [7, 6, 5, 4, 3, 2, 1, 0])) }"

definition cmdRH :: "'k epi \<Rightarrow> byte list list \<Rightarrow> ('w, 'k, unit) command" where
  "cmdRH ep argv c = do {
     (u, c) \<leftarrow> set_boot ep c;
     (let base = rhbase (con_rhcfg c); unit = rhunit (con_rhcfg c)
      in if length argv = 2 then
           let a = argv ! 1
           in if is_word a ''boot'' 4 then rh_boot ep base unit False c
              else if is_word a ''clr'' 3 then ks (rh_clear ep base) c
              else if is_word a ''fifo'' 4 then ks (testFIFO ep base) c
              else if is_word a ''init'' 4 then ks (testInit ep base unit) c
              else if is_word a ''read'' 4 then ks (testRead ep base unit) c
              else if is_word a ''rpla'' 4 then ks (testRPLA ep base unit) c
              else if is_word a ''stat'' 4 then ks (printRH11Debug ep) c
              else if is_word a ''wrchk'' 5 then ks (testWrchk ep base unit) c
              else if is_word a ''write'' 5 then ks (testWrite ep base unit) c
              else usage ''RH'' c
         else usage ''RH'' c) }"

definition cmdDZ :: "'k epi \<Rightarrow> byte list list \<Rightarrow> ('w, 'k, unit) command" where
  "cmdDZ ep argv c =
     (if length argv = 3 then
        let a = argv ! 1; port = argv ! 2 ! 0; ok = (0x30 \<le> port \<and> port \<le> 0x37)
        in if is_word a ''tx'' 2 then (if ok then testTX ep port c else usage ''DZ'' c)
           else if is_word a ''rx'' 2 then (if ok then testRX ep port c else usage ''DZ'' c)
           else if is_word a ''ec'' 2 then (if ok then testECHO ep port c else usage ''DZ'' c)
           else usage ''DZ'' c
      else usage ''DZ'' c)"

definition quad :: "u32 \<Rightarrow> u64 list" where
  "quad a = map (\<lambda>k. ucast (drop_bit (8 * k) a AND 0xFF)) [0 ..< 4]"

definition cmdNE :: "netif \<Rightarrow> byte list list \<Rightarrow> ('w, 'k, unit) command" where
  "cmdNE net argv c =
     (if length argv = 2 \<and> is_word (argv ! 1) ''stat'' 4 then
        if net_ip net = 0 then print (Text ''  Unable to obtain IP Address.'') c
        else ks (do {
          say (Printf ''  IP Address      : %ld.%ld.%ld.%ld'' (quad (net_ip net)));
          say (Printf ''  Net Mask        : %ld.%ld.%ld.%ld'' (quad (net_mask net)));
          say (Printf ''  Gateway Address : %ld.%ld.%ld.%ld'' (quad (net_gw net)));
          say (Printf ''  MAC Address     : %02x:%02x:%02x:%02x:%02x:%02x'' (map ucast (net_mac net))) }) c
      else usage ''NE'' c)"

definition cmdDP :: "byte list list \<Rightarrow> ('w, 'k, unit) command" where
  "cmdDP argv c = Some ((), c)"

definition cmdXX :: "byte list list \<Rightarrow> ('w, 'k, unit) command" where
  "cmdXX argv = print (Shown ''Command \"%s\" is not implemented.'' [] [text_of (argv ! 0)])"

text \<open>The words that the ZZ command disassembles, in groups with an empty line between them.\<close>

definition zz_words :: "u64 list list" where
  "zz_words =
     [[0x458000000, 0x45A000000, 0x45A200410, 0x458400000, 0x458680000, 0x45A680000], [0x45803FFFF, 0x45A03FFFF,
      0x45A3FFFFF, 0x45843FFFF, 0x4586BFFFF, 0x45A6BFFFF], [0x45800072E, 0x45A00072E, 0x45840072E, 0x45868072E,
      0x45A68072E], [0x560000000, 0x560800000, 0x561000000, 0x561800000, 0x562000000, 0x562800000, 0x563000000,
      0x563800000, 0x564000000, 0x564800000, 0x565000000, 0x565800000, 0x566000000, 0x566800000, 0x567000000,
      0x567800000], [0x562000000, 0x562018000, 0x562400001, 0x562400002, 0x562540003, 0x562540004], [0xE00000000,
      0xE00800000, 0xE01000000, 0xE01800000, 0xE02000000, 0xE02800000, 0xE03000000, 0xE03800000, 0xE04000000,
      0xE04800000, 0xE05000000, 0xE05800000, 0xE06000000, 0xE06800000, 0xE07000000, 0xE07800000, 0xE08000000,
      0xE08800000, 0xE09000000, 0xE09800000, 0xE0A000000, 0xE0A800000, 0xE0B000000, 0xE0B800000, 0xE0C000000,
      0xE0C800000, 0xE0D000000, 0xE0D800000, 0xE0E000000, 0xE0E800000, 0xE0F000000, 0xE0F800000, 0xE10000000,
      0xE10800000, 0xE11000000, 0xE11800000, 0xE12000000, 0xE12800000, 0xE13000000, 0xE13800000, 0xE14000000,
      0xE14800000, 0xE15000000, 0xE15800000, 0xE16000000, 0xE16800000, 0xE17000000, 0xE17800000], [0xE00000000,
      0xE00000001, 0xE00180002, 0xE00400003, 0xE007C0004]]"

fun zz_lines :: "u64 list \<Rightarrow> ('w, 'k, unit) command" where
  "zz_lines [] c = Some ((), c)"
| "zz_lines (w # ws) c = do {
     (line, c) \<leftarrow> disassemble w c;
     (u, c) \<leftarrow> print (Shown ''%s'' [] [line]) c;
     zz_lines ws c }"

fun zz_groups :: "u64 list list \<Rightarrow> ('w, 'k, unit) command" where
  "zz_groups [] c = Some ((), c)"
| "zz_groups [g] c = zz_lines g c"
| "zz_groups (g # gs) c = do {
     (u, c) \<leftarrow> zz_lines g c;
     (u, c) \<leftarrow> print (Text []) c;
     zz_groups gs c }"

definition zz_formats :: "(string \<times> u64) list" where
  "zz_formats =
     [(''This is a test (int decimal) %d'', 23456), (''This is a test (int hex    ) %x'', 0x123456),
      (''This is a test (int octal  ) %o'', 0x53977), (''This is a test (long decimal) %ld'', 345699234),
      (''This is a test (long hex    ) %lx'', 0x1234567A), (''This is a test (long octal  ) %lo'', 0x53977D63),
      (''This is a test (long long decimal) %lld'', 345699234), (''This is a test (long long hex    ) %llx '', 0x95232633),
      (''This is a test (long long octal  ) %012llo'', 0xA72E), (''This is a test (long long hex    ) 0x%llx'', 0x0123456789ABCDEF),
      (''This is a test (long long hex    ) 0x%llx'', 0x95232633579BFE34)]"

fun say_all :: "message list \<Rightarrow> ('k ks10, unit) state" where
  "say_all [] = State_Monad.return ()"
| "say_all (m # ms) = do { say m; say_all ms }"

definition show_value :: "('k ks10, u64) state \<Rightarrow> string \<Rightarrow> ('k ks10, unit) state" where
  "show_value r m = do { d \<leftarrow> r; say (Printf m [d]) }"

definition cmdZZ :: "'k epi \<Rightarrow> byte list list \<Rightarrow> ('w, 'k, unit) command" where
  "cmdZZ ep argv c = do {
     (u, c) \<leftarrow> zz_groups zz_words c;
     (if length argv = 1 then ks (say_all (map (\<lambda>(m, x). Printf m [x]) zz_formats)) c
      else if length argv = 2 then
        if is_word (argv ! 1) ''on'' 2 then ks (do { set_cpuReset ep True; say (Text ''KS10 held in reset'') }) c
        else if is_word (argv ! 1) ''off'' 2 then ks (do { set_cpuReset ep False; say (Text ''KS10 unreset'') }) c
        else Some ((), c)
      else if length argv = 3 then
        let a = argv ! 2
        in if argv ! 1 ! 0 = 0x52 then
             if is_word a ''regaddr'' 4 then ks (show_value (readRegAddr ep) ''  Address Register: %012llo.'') c
             else if is_word a ''regdata'' 4 then ks (show_value (readRegData ep) ''  Data Register: %012llo.'') c
             else if is_word a ''regcir'' 4 then ks (show_value (readRegCIR ep) ''  CIR Register: %012llo.'') c
             else if is_word a ''regstat'' 4 then ks (show_value (readRegStat ep) ''  Status Register: %012llo.'') c
             else if is_word a ''rh11debug'' 4 then ks (printRH11Debug ep) c
             else Some ((), c)
           else if argv ! 1 ! 0 = 0x57 then
             if is_word a ''regcir'' 4 then ks (do { writeRegCIR ep 0x560002000; say (Text '' CIR Register written.'') }) c
             else if is_word a ''regdir'' 4 then ks (do { writeRegCIR ep 0; say (Text '' CIR Register written.'') }) c
             else Some ((), c)
           else Some ((), c)
      else Some ((), c)) }"

section \<open>The command line\<close>

text \<open>The table; its first two letters select a command.\<close>

definition cmdList :: "'w disk_ops \<Rightarrow> 'k epi \<Rightarrow> netif \<Rightarrow> (string \<times> (byte list list \<Rightarrow> ('w, 'k, unit) command)) list" where
  "cmdList ops ep net =
     [(''BR'', cmdBR ep), (''BT'', cmdBT ep), (''CE'', cmdCE ep), (''CH'', cmdXX), (''CO'', cmdCO ep), (''CP'', cmdXX),
      (''CS'', cmdXX), (''DA'', cmdDA ep), (''DB'', cmdXX), (''DC'', cmdXX), (''DF'', cmdXX), (''DK'', cmdXX),
      (''DI'', cmdDI ep), (''DM'', cmdDM ep), (''DN'', cmdDN ep), (''DP'', cmdDP), (''DR'', cmdXX), (''DS'', cmdDS ops),
      (''DZ'', cmdDZ ep), (''EB'', cmdXX), (''EC'', cmdXX), (''EK'', cmdXX), (''EI'', cmdEI ep), (''EJ'', cmdXX),
      (''EK'', cmdXX), (''EM'', cmdEM ep), (''EN'', cmdEN ep), (''ER'', cmdXX), (''EX'', cmdEX ep), (''FI'', cmdXX),
      (''GO'', cmdGO ops ep), (''HA'', cmdHA ep), (''HS'', cmdHS ep), (''KL'', cmdXX), (''LA'', cmdLA ep),
      (''LB'', cmdLB ep), (''LC'', cmdXX), (''LF'', cmdXX), (''LI'', cmdLI ep), (''LK'', cmdXX),
      (''LP'', cmdLP ops ep), (''LR'', cmdXX), (''LT'', cmdXX), (''MB'', cmdXX), (''MK'', cmdXX), (''MM'', cmdXX),
      (''MR'', cmdMR ep), (''MS'', cmdXX), (''MT'', cmdXX), (''NE'', cmdNE net), (''PE'', cmdXX), (''PM'', cmdXX),
      (''PW'', cmdXX), (''RC'', cmdXX), (''RD'', cmdRD ep), (''RH'', cmdRH ep), (''RP'', cmdRP ops ep), (''SC'', cmdXX),
      (''SD'', cmdSD ops), (''SH'', cmdSH ep), (''SI'', cmdSI ep), (''ST'', cmdST ep), (''TE'', cmdTE ep),
      (''TP'', cmdTP ep), (''TR'', cmdTR ep), (''TT'', cmdXX), (''UM'', cmdXX), (''VD'', cmdXX), (''VT'', cmdXX),
      (''VM'', cmdXX), (''WR'', cmdWR ep), (''ZM'', cmdZM ep), (''ZZ'', cmdZZ ep)]"

text \<open>
  The words of a command up to its end: the argument vector holds at most 16 words. A word is the text from the
  character where it starts to the blank after it, which the code replaces by the zero byte at its end. The
  result is the vector, whether another command follows, and the rest of the line.
\<close>

fun arg_loop :: "byte list \<Rightarrow> bool \<Rightarrow> byte list list \<Rightarrow> (byte list list \<times> bool \<times> byte list) option" where
  "arg_loop [] process argv = None"
| "arg_loop (ch # p) process argv =
     (if ch = 0 \<or> ch = 0x3B then Some (argv, ch = 0x3B, p)
      else if ch = 0x20 then arg_loop p True argv
      else if process \<and> length argv < 16 then arg_loop p False (argv @ [[ch]])
      else if \<not> process then arg_loop p False (butlast argv @ [last argv @ [ch]])
      else arg_loop p process argv)"

definition selects :: "byte list \<Rightarrow> string \<Rightarrow> bool" where
  "selects cmd name \<longleftrightarrow> of_char (name ! 0) = to_upper (cmd ! 0) \<and> of_char (name ! 1) = to_upper (cmd ! 1)"

fun find_command :: "(string \<times> 'a) list \<Rightarrow> byte list \<Rightarrow> 'a option" where
  "find_command [] cmd = None"
| "find_command ((name, f) # r) cmd = (if selects cmd name then Some f else find_command r cmd)"

definition run_command :: "'w disk_ops \<Rightarrow> 'k epi \<Rightarrow> netif \<Rightarrow> byte list list \<Rightarrow> ('w, 'k, unit) command" where
  "run_command ops ep net argv c =
     (if argv = [] then Some ((), c)
      else case find_command (cmdList ops ep net) (argv ! 0) of
        Some f \<Rightarrow> f argv c
      | None \<Rightarrow> print (Shown ''%s: Command not found.'' [] [text_of (argv ! 0)]) c)"

partial_function (option) command_loop :: "'w disk_ops \<Rightarrow> 'k epi \<Rightarrow> netif \<Rightarrow> byte list \<Rightarrow> ('w, 'k, unit) command" where
  "command_loop ops ep net p c = do {
     (argv, more, p) \<leftarrow> arg_loop p True [];
     (u, c) \<leftarrow> run_command ops ep net (map (\<lambda>w. w @ [0]) argv) c;
     (if more then command_loop ops ep net p c else Some ((), c)) }"

text \<open>The task ends by deleting itself.\<close>

definition taskCommand :: "'w disk_ops \<Rightarrow> 'k epi \<Rightarrow> netif \<Rightarrow> byte list \<Rightarrow> ('w, 'k, unit) command" where
  "taskCommand ops ep net buf c = do {
     (u, c) \<leftarrow> command_loop ops ep net buf c;
     print (Text ''KS10> '') c }"

text \<open>The loops are executable.\<close>

declare dump_loop.simps [code]
  directory.simps [code]
  command_loop.simps [code]

end
