(* ===== verification/CommandOps.thy ===== *)
theory CommandOps
  imports LoaderOps Commands
begin

text \<open>
  The command line as a whole: numbers, words and dispatch, down to the memory of the KS10. Any line of
  memory commands implements an abstract memory console, and the accumulators are shown as they are.
\<close>

section \<open>The status register\<close>

lemma and_not_cancel: "x AND b = 0 \<Longrightarrow> x AND NOT b = (x :: u64)"
proof (rule bit_word_eqI)
  fix n assume z: "x AND b = 0" and n: "n < LENGTH(64)"
  have "\<not> (bit x n \<and> bit b n)" using arg_cong [OF z, of "\<lambda>y. bit y n"] unfolding bit_and_iff by simp
  then show "bit (x AND NOT b) n = bit x n" using n by (auto simp: bit_and_iff bit_not_iff)
qed

text \<open>Storing back what was read from the status register, without the error flag, changes nothing else.\<close>

locale console_status = console_port +
  assumes clear_error: "sound w \<Longrightarrow> busy w = 0 \<Longrightarrow> ctl w AND statEXEC = 0 \<Longrightarrow>
    w' = e_wr64 ops regStat (ctl w AND NOT statNXMNXD) w \<Longrightarrow>
    sound w' \<and> mem w' = mem w \<and> reg w' = reg w \<and> ctl w' = ctl w AND NOT statNXMNXD \<and> busy w' = 0"
begin

text \<open>A quiet port: no cycle in progress, no error pending, no instruction being started.\<close>

definition quiet :: "'a \<Rightarrow> bool" where
  "quiet w \<longleftrightarrow> idle w \<and> ctl w AND statEXEC = 0 \<and> ctl w AND statNXMNXD = 0"

lemma quiet_after: "quiet w \<Longrightarrow> after w m w' \<Longrightarrow> quiet w'"
  by (simp add: quiet_def after_def)

lemma nxmnxd_clear:
  assumes "quiet (k_epi s)"
  shows "\<exists>w'. run_state (nxmnxd ops) s = (False, s\<lparr>k_epi := w'\<rparr>) \<and> after (k_epi s) (mem (k_epi s)) w'"
proof -
  obtain d w1 where r: "e_rd64 ops regStat (k_epi s) = (d, w1)" by fastforce
  have i: "sound (k_epi s)" "busy (k_epi s) = 0" "ctl (k_epi s) AND statEXEC = 0" "ctl (k_epi s) AND statNXMNXD = 0"
    using assms by (simp_all add: quiet_def idle_def)
  note st = rd_stat [OF i(1) r]
  have d: "d = ctl w1" "busy w1 = 0" "sound w1" "ctl w1 AND statEXEC = 0" "ctl w1 AND statNXMNXD = 0" using st i by simp_all
  have k: "ctl w1 AND NOT statNXMNXD = ctl w1"
    by (rule and_not_cancel [OF d(5)])
  note w = clear_error [OF d(3,2,4) refl]
  show ?thesis using r d w st i k
    by (intro exI [of _ "e_wr64 ops regStat (ctl w1 AND NOT statNXMNXD) w1"])
      (simp add: nxmnxd_def readRegStat_def readReg64_def writeRegStat_def writeReg64_def after_def idle_def)
qed

lemma deposit_mem_stores:
  assumes "quiet (k_epi s)"
  shows "\<exists>w'. run_state (deposit_mem ops a d m) s = ((), s\<lparr>k_epi := w'\<rparr>) \<and>
    after (k_epi s) ((mem (k_epi s))(a AND memAddrMask := d AND dataMask)) w'"
proof -
  have "idle (k_epi s)" using assms by (simp add: quiet_def)
  then obtain w1 where w: "run_state (writeMem ops a d) s = ((), s\<lparr>k_epi := w1\<rparr>)"
    and w1: "after (k_epi s) ((mem (k_epi s))(a AND memAddrMask := d AND dataMask)) w1"
    using writeMem_writes by blast
  obtain w2 where e: "run_state (nxmnxd ops) (s\<lparr>k_epi := w1\<rparr>) = (False, s\<lparr>k_epi := w2\<rparr>)" and w2: "after w1 (mem w1) w2"
    using nxmnxd_clear [of "s\<lparr>k_epi := w1\<rparr>"] quiet_after [OF assms w1] by auto
  have "run_state (deposit_mem ops a d m) s = ((), s\<lparr>k_epi := w2\<rparr>)"
    using w e by (simp add: deposit_mem_def say_if_def)
  then show ?thesis using w1 w2 by (auto simp: after_def simp del: fun_upd_apply)
qed

lemma writeAddr_keeps:
  assumes "quiet (k_epi s)"
  shows "\<exists>w'. run_state (writeRegAddr ops a) s = ((), s\<lparr>k_epi := w'\<rparr>) \<and> after (k_epi s) (mem (k_epi s)) w'"
proof -
  let ?w = "e_wr64 ops regAddr a (k_epi s)"
  have i: "sound (k_epi s)" "busy (k_epi s) = 0" using assms by (simp_all add: quiet_def idle_def)
  have "sound ?w \<and> mem ?w = mem (k_epi s) \<and> reg ?w = (reg (k_epi s))(regAddr := a AND dataMask) \<and> ctl ?w = ctl (k_epi s) \<and> busy ?w = 0"
    by (rule wr_port [OF i _ refl]) (simp add: ports_def)
  then show ?thesis
    by (intro exI [of _ ?w]) (simp add: writeRegAddr_def writeReg64_def after_def idle_def, simp add: reg_defs)
qed

end

text \<open>The simulated FPGA has such a status register.\<close>

interpretation cst: console_status csl_epi "csl_sound acs" c_busy c_reg c_mem c_ctl
proof unfold_locales
  fix w w' :: csl
  assume s: "csl_sound acs w" "c_busy w = 0" "c_ctl w AND statEXEC = 0"
    and w': "w' = e_wr64 csl_epi regStat (c_ctl w AND NOT statNXMNXD) w"
  have g: "c_ctl w AND statGO = 0" using s(1) by (simp add: csl_sound_def)
  have "(c_ctl w AND NOT statNXMNXD) AND b = (c_ctl w AND b) AND NOT statNXMNXD" for b by (simp add: ac_simps)
  then have "(c_ctl w AND NOT statNXMNXD) AND statGO = 0" "(c_ctl w AND NOT statNXMNXD) AND statEXEC = 0"
    using g s(3) by simp_all
  then show "csl_sound acs w' \<and> c_mem w' = c_mem w \<and> c_reg w' = c_reg w \<and> c_ctl w' = c_ctl w AND NOT statNXMNXD \<and> c_busy w' = 0"
    using s unfolding w' by (simp add: csl_epi_def csl_wr64_def csl_sound_def)
qed

section \<open>Octal numbers\<close>

definition digit :: "byte \<Rightarrow> bool" where
  "digit ch \<longleftrightarrow> 0x30 \<le> ch \<and> ch \<le> 0x37"

definition oct_val :: "byte list \<Rightarrow> nat" where
  "oct_val ds = foldl (\<lambda>n ch. 8 * n + (unat ch - 48)) 0 ds"

text \<open>A number of up to 20 digits, which fits in 60 bits.\<close>

definition octal :: "byte list \<Rightarrow> bool" where
  "octal ds \<longleftrightarrow> ds \<noteq> [] \<and> length ds \<le> 20 \<and> (\<forall>ch \<in> set ds. digit ch)"

lemma digit_value:
  assumes "digit ch"
  shows "ucast (ch - 0x30) = (of_nat (unat ch - 48) :: u64)" "unat ch - 48 < 8"
proof -
  have b: "48 \<le> unat ch" "unat ch \<le> 55" using assms by (simp_all add: digit_def word_le_nat_alt)
  have "unat (ch - 0x30) = unat ch - 48" using b(1) by (subst unat_sub) (simp_all add: word_le_nat_alt)
  then show "ucast (ch - 0x30) = (of_nat (unat ch - 48) :: u64)" by (metis of_nat_unat)
  show "unat ch - 48 < 8" using b(2) by simp
qed

lemma oct_val_bound: "(\<forall>ch \<in> set ds. digit ch) \<Longrightarrow> oct_val ds < 8 ^ length ds"
proof (induction ds rule: rev_induct)
  case (snoc ch ds)
  then have "oct_val ds + 1 \<le> 8 ^ length ds" "unat ch - 48 < 8" using digit_value(2) by simp_all
  then show ?case by (simp add: oct_val_def)
qed (simp add: oct_val_def)

lemma parse_loop_digits:
  "(\<forall>ch \<in> set ds. digit ch) \<Longrightarrow> length ds \<le> i \<Longrightarrow>
    parse_loop i (ds @ [0]) (of_nat (8 * n)) = Some (of_nat (8 * foldl (\<lambda>n ch. 8 * n + (unat ch - 48)) n ds), False)"
proof (induction ds arbitrary: i n)
  case Nil
  then show ?case by (cases i) simp_all
next
  case (Cons ch ds)
  then obtain k where k: "i = Suc k" "length ds \<le> k" by (cases i) auto
  have d: "digit ch" using Cons.prems by simp
  have "push_bit 3 (of_nat (8 * n) + ucast (ch - 0x30)) = (of_nat (8 * (8 * n + (unat ch - 48))) :: u64)"
    unfolding digit_value(1) [OF d] by (simp add: push_bit_eq_mult)
  then show ?case using Cons.IH [OF _ k(2), of "8 * n + (unat ch - 48)"] Cons.prems d by (simp add: k(1) digit_def)
qed

lemma parseOctal_octal:
  assumes "octal ds"
  shows "parseOctal (ds @ [0]) c = Some (of_nat (oct_val ds), c)"
proof -
  have ds: "\<forall>ch \<in> set ds. digit ch" "length ds \<le> 20" using assms by (simp_all add: octal_def)
  have "oct_val ds < 8 ^ length ds" by (rule oct_val_bound [OF ds(1)])
  also have "\<dots> \<le> (8 :: nat) ^ 20" by (rule power_increasing) (use ds(2) in simp_all)
  finally have b: "oct_val ds < 8 ^ 20" .
  have "parse_loop 22 (ds @ [0]) 0 = Some (of_nat (8 * oct_val ds), False)"
    using parse_loop_digits [OF ds(1), of 22 0] ds(2) by (simp add: oct_val_def)
  moreover have "drop_bit 3 (of_nat (8 * oct_val ds) :: u64) = of_nat (oct_val ds)"
  proof (rule word_unat_eq_iff [THEN iffD2])
    have "unat (of_nat (8 * oct_val ds) :: u64) = 8 * oct_val ds"
      unfolding unsigned_of_nat of_nat_id by (rule take_bit_nat_eq_self) (use b in simp)
    moreover have "unat (of_nat (oct_val ds) :: u64) = oct_val ds"
      unfolding unsigned_of_nat of_nat_id by (rule take_bit_nat_eq_self) (use b in simp)
    ultimately show "unat (drop_bit 3 (of_nat (8 * oct_val ds) :: u64)) = unat (of_nat (oct_val ds) :: u64)"
      unfolding unat_drop_bit_eq by (simp add: drop_bit_eq_div del: of_nat_mult)
  qed
  ultimately show ?thesis by (simp add: parseOctal_def del: of_nat_mult)
qed

section \<open>Words and dispatch\<close>

definition plain :: "byte \<Rightarrow> bool" where
  "plain ch \<longleftrightarrow> ch \<noteq> 0 \<and> ch \<noteq> 0x20 \<and> ch \<noteq> 0x3B"

lemma digit_plain: "digit ch \<Longrightarrow> plain ch"
  by (auto simp: digit_def plain_def)

lemma octal_plain: "octal ds \<Longrightarrow> \<forall>ch \<in> set ds. plain ch"
  using digit_plain by (auto simp: octal_def)

lemma arg_loop_word:
  "(\<forall>ch \<in> set w. plain ch) \<Longrightarrow> arg_loop (w @ p) False (argv @ [v]) = arg_loop p False (argv @ [v @ w])"
proof (induction w arbitrary: v)
  case (Cons ch w)
  then show ?case using Cons.IH [of "v @ [ch]"] by (simp add: plain_def)
qed simp

lemma arg_loop_start:
  "(\<forall>ch \<in> set w. plain ch) \<Longrightarrow> w \<noteq> [] \<Longrightarrow> length argv < 16 \<Longrightarrow> arg_loop (w @ p) True argv = arg_loop p False (argv @ [w])"
  using arg_loop_word [of "tl w" p argv "[hd w]"] by (cases w) (auto simp: plain_def)

text \<open>A command is its words, separated by one blank each.\<close>

fun words_text :: "byte list list \<Rightarrow> byte list" where
  "words_text [] = []"
| "words_text [w] = w"
| "words_text (w # ws) = w @ 0x20 # words_text ws"

lemma arg_loop_words:
  "ws \<noteq> [] \<Longrightarrow> \<forall>w \<in> set ws. w \<noteq> [] \<and> (\<forall>ch \<in> set w. plain ch) \<Longrightarrow> length argv + length ws \<le> 16 \<Longrightarrow>
    arg_loop (words_text ws @ p) True argv = arg_loop p False (argv @ ws)"
proof (induction ws arbitrary: argv rule: words_text.induct)
  case (2 w)
  then show ?case using arg_loop_start [of w argv p] by simp
next
  case (3 w w' ws)
  have "arg_loop (w @ 0x20 # words_text (w' # ws) @ p) True argv = arg_loop (0x20 # words_text (w' # ws) @ p) False (argv @ [w])"
    using 3 by (intro arg_loop_start) simp_all
  then show ?case using "3.IH" [of "argv @ [w]"] "3.prems" by simp
qed simp

lemma dispatch:
  "find_command (cmdList ops ep net) [0x4C, 0x41, 0] = Some (cmdLA ep)"
  "find_command (cmdList ops ep net) [0x44, 0x4D, 0] = Some (cmdDM ep)"
  "find_command (cmdList ops ep net) [0x44, 0x4E, 0] = Some (cmdDN ep)"
  "find_command (cmdList ops ep net) [0x45, 0x4D, 0] = Some (cmdEM ep)"
  "find_command (cmdList ops ep net) [0x45, 0x4E, 0] = Some (cmdEN ep)"
  "find_command (cmdList ops ep net) [0x57, 0x52, 0] = Some (cmdWR ep)"
  by (simp_all add: cmdList_def selects_def to_upper_def of_char_def)

section \<open>A memory console\<close>

text \<open>The commands on memory, with octal numbers as arguments.\<close>

datatype mem_cmd = LA "byte list" | DM "byte list" | DN "byte list" | EM | EN | WR "byte list" "byte list"

fun cmd_words :: "mem_cmd \<Rightarrow> byte list list" where
  "cmd_words (LA a) = [[0x4C, 0x41], a]"
| "cmd_words (DM d) = [[0x44, 0x4D], d]"
| "cmd_words (DN d) = [[0x44, 0x4E], d]"
| "cmd_words EM = [[0x45, 0x4D]]"
| "cmd_words EN = [[0x45, 0x4E]]"
| "cmd_words (WR a d) = [[0x57, 0x52], a, d]"

fun cmd_ok :: "mem_cmd \<Rightarrow> bool" where
  "cmd_ok (LA a) = octal a"
| "cmd_ok (DM d) = octal d"
| "cmd_ok (DN d) = octal d"
| "cmd_ok (WR a d) = (octal a \<and> octal d)"
| "cmd_ok _ = True"

fun line_text :: "mem_cmd list \<Rightarrow> byte list" where
  "line_text [] = [0]"
| "line_text [x] = words_text (cmd_words x) @ [0]"
| "line_text (x # xs) = words_text (cmd_words x) @ 0x3B # line_text xs"

definition num :: "byte list \<Rightarrow> u64" where
  "num d = of_nat (oct_val d)"

definition store :: "u64 \<Rightarrow> byte list \<Rightarrow> (u64 \<Rightarrow> u64) \<Rightarrow> u64 \<Rightarrow> u64" where
  "store a d m = m(a AND memAddrMask := num d AND dataMask)"

text \<open>What the commands mean: the messages, and the current address with the memory after the command.\<close>

fun spec_cmd :: "mem_cmd \<Rightarrow> u64 \<times> (u64 \<Rightarrow> u64) \<Rightarrow> message list \<times> u64 \<times> (u64 \<Rightarrow> u64)" where
  "spec_cmd (LA a) (x, m) =
     (if num a \<le> maxMemAddr then ([Printf ''Memory address set to %08llo'' [num a]], num a, m)
      else ([Text ''Invalid memory address.'', Usage ''LA''], x, m))"
| "spec_cmd (DM d) (x, m) = ([], x, store x d m)"
| "spec_cmd (DN d) (x, m) = ([], x + 1, store (x + 1) d m)"
| "spec_cmd EM (x, m) = ([Printf ''%012llo'' [m (x AND memAddrMask)]], x, m)"
| "spec_cmd EN (x, m) =
     ([Printf ''incremented address to %06llo'' [x + 1], Printf ''%012llo'' [m ((x + 1) AND memAddrMask)]], x + 1, m)"
| "spec_cmd (WR a d) (x, m) = ([], x, store (num a) d m)"

fun spec_line :: "mem_cmd list \<Rightarrow> u64 \<times> (u64 \<Rightarrow> u64) \<Rightarrow> message list \<times> u64 \<times> (u64 \<Rightarrow> u64)" where
  "spec_line [] s = ([], s)"
| "spec_line (x # xs) s = (let (out, s) = spec_cmd x s; (out', s) = spec_line xs s in (out @ out', s))"

lemma parse_num: "octal ds \<Longrightarrow> parseOctal (ds @ [0]) c = Some (num ds, c)"
  by (simp add: parseOctal_octal num_def)

context console_status
begin

definition shows_as :: "('c, 'a) console \<Rightarrow> message list \<times> u64 \<times> (u64 \<Rightarrow> u64) \<Rightarrow> ('c, 'a) console \<Rightarrow> bool" where
  "shows_as c r c' \<longleftrightarrow> (case r of (out, x, m) \<Rightarrow> con_fat c' = con_fat c \<and> con_access c' = accessMEM \<and> con_address c' = x \<and>
     k_log (con_ks10 c') = k_log (con_ks10 c) @ out \<and> after (k_epi (con_ks10 c)) m (k_epi (con_ks10 c')))"

lemma run_deposit:
  assumes "quiet (k_epi (con_ks10 c))" "con_access c = accessMEM"
  shows "\<exists>c'. ks (deposit_mem ops a (num d) msg) c = Some ((), c') \<and>
    shows_as c ([], con_address c, store a d (mem (k_epi (con_ks10 c)))) c'"
proof -
  obtain w where "run_state (deposit_mem ops a (num d) msg) (con_ks10 c) = ((), (con_ks10 c)\<lparr>k_epi := w\<rparr>)"
    "after (k_epi (con_ks10 c)) ((mem (k_epi (con_ks10 c)))(a AND memAddrMask := num d AND dataMask)) w"
    using deposit_mem_stores [OF assms(1)] by blast
  then show ?thesis using assms(2)
    by (intro exI [of _ "c\<lparr>con_ks10 := (con_ks10 c)\<lparr>k_epi := w\<rparr>\<rparr>"]) (simp add: ks_def shows_as_def store_def)
qed

lemma read_quiet:
  assumes "quiet (k_epi s)"
  shows "\<exists>w. run_state (readMem ops a) s = (mem (k_epi s) (a AND memAddrMask), s\<lparr>k_epi := w\<rparr>) \<and>
    after (k_epi s) (mem (k_epi s)) w \<and> quiet w"
proof -
  have "idle (k_epi s)" using assms by (simp add: quiet_def)
  then show ?thesis using readMem_reads [of s a] quiet_after [OF assms] by blast
qed

lemma run_mem_cmd:
  assumes "quiet (k_epi (con_ks10 c))" "con_access c = accessMEM" "cmd_ok x"
  shows "\<exists>c'. run_command dops ops net (map (\<lambda>w. w @ [0]) (cmd_words x)) c = Some ((), c') \<and>
    shows_as c (spec_cmd x (con_address c, mem (k_epi (con_ks10 c)))) c'"
proof (cases x)
  case (LA a)
  let ?k = "con_ks10 c" and ?msg = "Printf ''Memory address set to %08llo'' [num a]"
  have p: "parseOctal (a @ [0]) c = Some (num a, c)" for c :: "('c, 'a) console" using parse_num assms(3) LA by simp
  have c: "c\<lparr>con_access := accessMEM\<rparr> = c" using assms(2) by simp
  have i: "after (k_epi ?k) (mem (k_epi ?k)) (k_epi ?k)" using assms(1) by (simp add: after_def quiet_def)
  obtain w where "run_state (writeRegAddr ops (num a)) (?k\<lparr>k_log := k_log ?k @ [?msg]\<rparr>) = ((), ?k\<lparr>k_log := k_log ?k @ [?msg], k_epi := w\<rparr>)"
    "after (k_epi ?k) (mem (k_epi ?k)) w"
    using writeAddr_keeps [of "?k\<lparr>k_log := k_log ?k @ [?msg]\<rparr>" "num a"] assms(1) by auto
  then show ?thesis using assms(2) i
    by (simp add: LA run_command_def dispatch cmdLA_def p c ks_def shows_as_def Let_def)
next
  case (DM d)
  have c: "c\<lparr>con_access := accessMEM\<rparr> = c" using assms(2) by simp
  have p: "parseOctal (d @ [0]) c = Some (num d, c)" using parse_num assms(3) DM by simp
  then show ?thesis using run_deposit [OF assms(1,2), of "con_address c" d]
    by (simp add: DM run_command_def dispatch cmdDM_def c p)
next
  case (DN d)
  let ?c = "c\<lparr>con_address := con_address c + 1\<rparr>"
  have p: "parseOctal (d @ [0]) ?c = Some (num d, ?c)" using parse_num assms(3) DN by simp
  then show ?thesis using run_deposit [of ?c "con_address c + 1" d] assms(1,2)
    by (simp add: DN run_command_def dispatch cmdDN_def p shows_as_def)
next
  case EM
  let ?k = "con_ks10 c"
  have c: "c\<lparr>con_access := accessMEM\<rparr> = c" using assms(2) by simp
  obtain w where r: "run_state (readMem ops (con_address c)) ?k = (mem (k_epi ?k) (con_address c AND memAddrMask), ?k\<lparr>k_epi := w\<rparr>)"
    and w: "after (k_epi ?k) (mem (k_epi ?k)) w" "quiet w" using read_quiet [OF assms(1)] by blast
  obtain w' where "run_state (nxmnxd ops) (?k\<lparr>k_epi := w\<rparr>) = (False, ?k\<lparr>k_epi := w'\<rparr>)" "after w (mem w) w'"
    using nxmnxd_clear [of "?k\<lparr>k_epi := w\<rparr>"] w(2) by auto
  then show ?thesis using r w assms(2)
    by (simp add: EM run_command_def dispatch cmdEM_def c ks_def shows_as_def after_def)
next
  case EN
  let ?k = "con_ks10 c" and ?x = "con_address c + 1" and ?msg = "Printf ''incremented address to %06llo'' [con_address c + 1]"
  let ?k1 = "?k\<lparr>k_log := k_log ?k @ [?msg]\<rparr>"
  obtain w where r: "run_state (nxmnxd ops) ?k1 = (False, ?k1\<lparr>k_epi := w\<rparr>)" and w: "after (k_epi ?k) (mem (k_epi ?k)) w"
    using nxmnxd_clear [of ?k1] assms(1) by auto
  obtain w' where "run_state (readMem ops ?x) (?k1\<lparr>k_epi := w\<rparr>) = (mem w (?x AND memAddrMask), ?k1\<lparr>k_epi := w'\<rparr>)"
    "after w (mem w) w'"
    using read_quiet [of "?k1\<lparr>k_epi := w\<rparr>" ?x] quiet_after [OF assms(1) w] by auto
  then show ?thesis using r w assms(2)
    by (simp add: EN run_command_def dispatch cmdEN_def ks_def shows_as_def after_def)
next
  case (WR a d)
  have p: "parseOctal (a @ [0]) c = Some (num a, c)" "parseOctal (d @ [0]) c = Some (num d, c)"
    by (rule parse_num, use assms(3) WR in simp)+
  then show ?thesis using run_deposit [OF assms(1,2), of "num a" d]
    by (simp add: WR run_command_def dispatch cmdWR_def p)
qed

end

lemma cmd_words_plain:
  assumes "cmd_ok x"
  shows "cmd_words x \<noteq> []" "\<forall>w \<in> set (cmd_words x). w \<noteq> [] \<and> (\<forall>ch \<in> set w. plain ch)" "length (cmd_words x) \<le> 16"
proof -
  have o: "octal d \<Longrightarrow> d \<noteq> []" for d by (simp add: octal_def)
  show "cmd_words x \<noteq> []" "length (cmd_words x) \<le> 16" by (cases x; simp)+
  show "\<forall>w \<in> set (cmd_words x). w \<noteq> [] \<and> (\<forall>ch \<in> set w. plain ch)"
    using assms o octal_plain by (cases x) (auto simp: plain_def)
qed

lemma arg_loop_command:
  assumes "cmd_ok x" "e = 0 \<or> e = 0x3B"
  shows "arg_loop (words_text (cmd_words x) @ e # p) True [] = Some (cmd_words x, e = 0x3B, p)"
  using arg_loop_words [OF cmd_words_plain(1,2), of x "[]" "e # p"] cmd_words_plain(3) [OF assms(1)] assms by auto

lemma command_loop_cons:
  assumes "cmd_ok x" "e = 0 \<or> e = 0x3B"
    "run_command dops ep net (map (\<lambda>w. w @ [0]) (cmd_words x)) c = Some ((), c')"
  shows "command_loop dops ep net (words_text (cmd_words x) @ e # p) c =
    (if e = 0x3B then command_loop dops ep net p c' else Some ((), c'))"
  using assms(3) arg_loop_command [OF assms(1,2), of p] by (subst command_loop.simps) simp

context console_status
begin

lemma shows_as_trans:
  assumes "shows_as c (out, x, m) c1" "shows_as c1 (out', x', m') c2"
  shows "shows_as c (out @ out', x', m') c2"
  using assms by (auto simp: shows_as_def after_def)

lemma run_line:
  "quiet (k_epi (con_ks10 c)) \<Longrightarrow> con_access c = accessMEM \<Longrightarrow> xs \<noteq> [] \<Longrightarrow> \<forall>x \<in> set xs. cmd_ok x \<Longrightarrow>
    \<exists>c'. command_loop dops ops net (line_text xs) c = Some ((), c') \<and>
      shows_as c (spec_line xs (con_address c, mem (k_epi (con_ks10 c)))) c'"
proof (induction xs arbitrary: c rule: line_text.induct)
  case (2 x)
  obtain c' where r: "run_command dops ops net (map (\<lambda>w. w @ [0]) (cmd_words x)) c = Some ((), c')"
    and s: "shows_as c (spec_cmd x (con_address c, mem (k_epi (con_ks10 c)))) c'"
    using run_mem_cmd [OF "2.prems"(1,2), where x = x and dops = dops and net = net] "2.prems"(4) by auto
  show ?case using command_loop_cons [of x 0, OF _ _ r, of "[]"] "2.prems"(4) s
    by (auto simp: split_beta)
next
  case (3 x y xs)
  obtain out a m where e: "spec_cmd x (con_address c, mem (k_epi (con_ks10 c))) = (out, a, m)" by (metis prod_cases3)
  obtain c1 where r: "run_command dops ops net (map (\<lambda>w. w @ [0]) (cmd_words x)) c = Some ((), c1)"
    and s: "shows_as c (out, a, m) c1"
    using run_mem_cmd [OF "3.prems"(1,2), where x = x and dops = dops and net = net] "3.prems"(4) e by auto
  have c1: "quiet (k_epi (con_ks10 c1))" "con_access c1 = accessMEM" "con_address c1 = a" "mem (k_epi (con_ks10 c1)) = m"
    using s quiet_after [OF "3.prems"(1)] by (auto simp: shows_as_def after_def)
  obtain out' a' m' where e': "spec_line (y # xs) (a, m) = (out', a', m')" by (metis prod_cases3)
  obtain c2 where r2: "command_loop dops ops net (line_text (y # xs)) c1 = Some ((), c2)" and s2: "shows_as c1 (out', a', m') c2"
    using "3.IH" [OF c1(1,2)] "3.prems"(4) c1(3,4) e' by auto
  have "command_loop dops ops net (line_text (x # y # xs)) c = Some ((), c2)"
    using command_loop_cons [of x "0x3B", OF _ _ r, of "line_text (y # xs)"] "3.prems"(4) r2 by simp
  moreover have "spec_line (x # y # xs) (con_address c, mem (k_epi (con_ks10 c))) = (out @ out', a', m')"
    using e e' by (simp add: Let_def)
  ultimately show ?case using shows_as_trans [OF s s2] by auto
qed simp

end

text \<open>C1: any command line of memory commands (load address, deposit, deposit next, examine, examine next and
  write, with octal numbers of up to 20 digits, separated by semicolons) implements an abstract memory console: on a
  quiet console port \<open>taskCommand\<close> returns, has printed exactly the messages of the specification and the prompt,
  and leaves the current address and the memory of the machine as in the specification; files are not touched.\<close>

lemma command_line_refines_memory:
  fixes c :: "('w, 'k) console"
  assumes "console_status ep sound busy reg mem ctl" "sound (k_epi (con_ks10 c))" "busy (k_epi (con_ks10 c)) = 0"
    "ctl (k_epi (con_ks10 c)) AND statEXEC = 0" "ctl (k_epi (con_ks10 c)) AND statNXMNXD = 0"
    "con_access c = accessMEM" "xs \<noteq> []" "\<forall>x \<in> set xs. cmd_ok x"
    "spec_line xs (con_address c, mem (k_epi (con_ks10 c))) = (out, a, m)"
  shows "\<exists>c'. taskCommand ops ep net (line_text xs) c = Some ((), c') \<and>
    k_log (con_ks10 c') = k_log (con_ks10 c) @ out @ [Text ''KS10> ''] \<and>
    con_address c' = a \<and> mem (k_epi (con_ks10 c')) = m \<and> con_fat c' = con_fat c"
proof -
  have port: "console_port ep sound busy reg mem ctl" by (rule console_status.axioms(1) [OF assms(1)])
  have q: "console_status.quiet sound busy ctl (k_epi (con_ks10 c))"
    using assms(2-5) by (simp add: console_status.quiet_def [OF assms(1)] console_port.idle_def [OF port])
  obtain c' where "command_loop ops ep net (line_text xs) c = Some ((), c')"
    "console_status.shows_as sound busy reg mem ctl c (out, a, m) c'"
    using console_status.run_line [OF assms(1) q assms(6,7,8), of ops net] assms(9) by auto
  then show ?thesis
    by (intro exI [of _ "c'\<lparr>con_ks10 := (con_ks10 c')\<lparr>k_log := k_log (con_ks10 c') @ [Text ''KS10> '']\<rparr>\<rparr>"])
      (simp add: taskCommand_def print_def ks_def console_status.shows_as_def [OF assms(1)] console_port.after_def [OF port])
qed

text \<open>LA 1000;DM 1234;EM;DN 7;EN on the machine of the examples.\<close>

definition demo_net :: netif where
  "demo_net = \<lparr>net_ip = 0, net_mask = 0, net_gw = 0, net_mac = replicate 6 0\<rparr>"

lemma command_line_refines_memory_witness:
  "\<exists>c'. taskCommand (sd_disk sim_io) csl_epi demo_net
      [0x4C, 0x41, 0x20, 0x31, 0x30, 0x30, 0x30, 0x3B, 0x44, 0x4D, 0x20, 0x31, 0x32, 0x33, 0x34, 0x3B, 0x45, 0x4D, 0x3B,
       0x44, 0x4E, 0x20, 0x37, 0x3B, 0x45, 0x4E, 0] sav_console = Some ((), c') \<and>
    k_log (con_ks10 c') = [Printf ''Memory address set to %08llo'' [512], Printf ''%012llo'' [668],
      Printf ''incremented address to %06llo'' [514], Printf ''%012llo'' [1514], Text ''KS10> ''] \<and>
    c_mem (k_epi (con_ks10 c')) 512 = 668 \<and> c_mem (k_epi (con_ks10 c')) 513 = 7"
proof -
  let ?xs = "[LA [0x31, 0x30, 0x30, 0x30], DM [0x31, 0x32, 0x33, 0x34], EM, DN [0x37], EN]"
  have t: "line_text ?xs = [0x4C, 0x41, 0x20, 0x31, 0x30, 0x30, 0x30, 0x3B, 0x44, 0x4D, 0x20, 0x31, 0x32, 0x33, 0x34, 0x3B, 0x45, 0x4D, 0x3B,
       0x44, 0x4E, 0x20, 0x37, 0x3B, 0x45, 0x4E, 0]" by simp
  have n: "num [0x31, 0x30, 0x30, 0x30] = 512" "num [0x31, 0x32, 0x33, 0x34] = 668" "num [0x37] = 7"
    by (simp_all add: num_def oct_val_def)
  have ok: "\<forall>x \<in> set ?xs. cmd_ok x" by (simp add: octal_def digit_def)
  have k: "k_epi demo_ks = demo_csl" "k_log demo_ks = []" by (simp_all add: demo_ks_def)
  have s: "con_access sav_console = accessMEM" "con_address sav_console = 0" by (simp_all add: sav_console_def)
  have w: "csl_sound demo_acs (k_epi (con_ks10 sav_console))" "c_busy (k_epi (con_ks10 sav_console)) = 0"
    "c_ctl (k_epi (con_ks10 sav_console)) AND statEXEC = 0" "c_ctl (k_epi (con_ks10 sav_console)) AND statNXMNXD = 0"
    using demo_csl_sound by (simp_all add: sav_state k) (simp_all add: demo_csl_def)
  let ?m = "(c_mem demo_csl)(512 := 668, 513 := 7)"
  have sp: "spec_line ?xs (con_address sav_console, c_mem (k_epi (con_ks10 sav_console))) =
      ([Printf ''Memory address set to %08llo'' [512], Printf ''%012llo'' [668], Printf ''incremented address to %06llo'' [514],
        Printf ''%012llo'' [1514]], 514, ?m)"
    by (simp add: s sav_state k n store_def maxMemAddr_def memAddrMask_def dataMask_def) (simp add: demo_csl_def dataMask_def)
  show ?thesis
    using command_line_refines_memory [OF cst.console_status_axioms w s(1) _ ok sp, of "sd_disk sim_io" demo_net]
    unfolding t by (auto simp: sav_state k)
qed

section \<open>Showing the accumulators\<close>

lemma strnieq_numeral:
  "strnieq (numeral k) (x # a) (y # b) = (to_upper x = to_upper y \<and> (x = 0 \<or> strnieq (pred_numeral k) a b))"
  by (simp add: numeral_eq_Suc)

text \<open>A halted processor shows the halt pin, and looking at it changes nothing.\<close>

locale console_halted = console_cpu +
  assumes halted: "idle w \<Longrightarrow> e_halt_pin ops w = (h, w') \<Longrightarrow> h \<and> idle w' \<and> mem w' = mem w \<and> ctl w' = ctl w"
begin

lemma halt_seen:
  assumes "idle (k_epi (con_ks10 c))"
  shows "\<exists>w. ks (halt ops) c = Some (True, c\<lparr>con_ks10 := (con_ks10 c)\<lparr>k_epi := w\<rparr>\<rparr>) \<and> idle w \<and> mem w = mem (k_epi (con_ks10 c))"
proof -
  obtain h w where p: "e_halt_pin ops (k_epi (con_ks10 c)) = (h, w)" by fastforce
  show ?thesis using halted [OF assms p] p by (intro exI [of _ w]) (simp add: ks_def halt_def)
qed

text \<open>The instruction that \<open>readAC\<close> makes for accumulator \<open>n\<close>, and that it stores the accumulator.\<close>

definition movem :: "nat \<Rightarrow> u64" where
  "movem n = (push_bit 18 Ks10.opMOVEM OR push_bit 23 (of_nat n) OR 0x40) AND dataMask"

definition stores_acs :: "(nat \<Rightarrow> u64) \<Rightarrow> bool" where
  "stores_acs acs \<longleftrightarrow> (\<forall>n < 16. \<forall>m. exec (movem n) m = m(0x40 := acs n))"

lemma readAC_reads:
  assumes "idle (k_epi (con_ks10 c))" "stores_acs acs" "n < 16"
  shows "\<exists>c'. readAC ops (of_nat n) c = Some (acs n, c') \<and> idle (k_epi (con_ks10 c')) \<and>
    mem (k_epi (con_ks10 c')) = mem (k_epi (con_ks10 c)) \<and> k_log (con_ks10 c') = k_log (con_ks10 c) \<and> con_fat c' = con_fat c"
proof -
  have n: "of_nat n AND 0xF = (of_nat n :: u64)"
  proof -
    have "of_nat n AND 0xF = take_bit 4 (of_nat n :: u64)" by (simp add: take_bit_eq_mask mask_eq_exp_minus_1)
    also have "\<dots> = of_nat (take_bit 4 n)" by (simp add: take_bit_of_nat)
    also have "take_bit 4 n = n" by (rule take_bit_nat_eq_self) (use assms(3) in simp)
    finally show ?thesis .
  qed
  have e: "exec (movem n) m = m(0x40 := acs n)" for m using assms(2,3) by (simp add: stores_acs_def)
  have a: "(0x40 :: u64) AND memAddrMask = 0x40" by (simp add: memAddrMask_def)
  obtain w where "executeInstructionAndGetData ops (push_bit 18 Ks10.opMOVEM OR push_bit 23 (of_nat n) OR 0x40) 0x40 (con_ks10 c) =
      Some (acs n, (con_ks10 c)\<lparr>k_epi := w, k_dispatch := True\<rparr>)" "idle w" "mem w = mem (k_epi (con_ks10 c))"
    using getData_restores [OF assms(1) a, of "push_bit 18 Ks10.opMOVEM OR push_bit 23 (of_nat n) OR 0x40"]
    unfolding movem_def [symmetric] e by auto
  then show ?thesis
    by (intro exI [of _ "c\<lparr>con_ks10 := (con_ks10 c)\<lparr>k_epi := w, k_dispatch := True\<rparr>\<rparr>"]) (simp add: readAC_def n ksa_def)
qed

lemma ac_loop_shows:
  assumes "stores_acs acs"
  shows "idle (k_epi (con_ks10 c)) \<Longrightarrow> i + n \<le> 16 \<Longrightarrow>
    \<exists>c'. ac_loop ops n (of_nat i) c = Some ((), c') \<and> mem (k_epi (con_ks10 c')) = mem (k_epi (con_ks10 c)) \<and>
      k_log (con_ks10 c') = k_log (con_ks10 c) @ map (\<lambda>k. Printf ''  %02o: %012llo'' [of_nat k, acs k]) [i ..< i + n] \<and>
      con_fat c' = con_fat c"
proof (induction n arbitrary: i c)
  case (Suc n)
  obtain c1 where r: "readAC ops (of_nat i) c = Some (acs i, c1)" and c1: "idle (k_epi (con_ks10 c1))"
      "mem (k_epi (con_ks10 c1)) = mem (k_epi (con_ks10 c))" "k_log (con_ks10 c1) = k_log (con_ks10 c)" "con_fat c1 = con_fat c"
    using readAC_reads [OF Suc.prems(1) assms, of i] Suc.prems(2) by auto
  let ?m = "Printf ''  %02o: %012llo'' [of_nat i, acs i]"
  let ?c = "c1\<lparr>con_ks10 := (con_ks10 c1)\<lparr>k_log := k_log (con_ks10 c1) @ [?m]\<rparr>\<rparr>"
  obtain c2 where l: "ac_loop ops n (of_nat (Suc i)) ?c = Some ((), c2)" and c2: "mem (k_epi (con_ks10 c2)) = mem (k_epi (con_ks10 ?c))"
      "k_log (con_ks10 c2) = k_log (con_ks10 ?c) @ map (\<lambda>k. Printf ''  %02o: %012llo'' [of_nat k, acs k]) [Suc i ..< Suc i + n]"
      "con_fat c2 = con_fat ?c"
    using Suc.IH [of ?c "Suc i"] c1(1) Suc.prems(2) by auto
  have "ac_loop ops (Suc n) (of_nat i) c = Some ((), c2)" using r l by (simp add: print_def ks_def add.commute)
  moreover have "[i ..< i + Suc n] = i # [Suc i ..< Suc i + n]" by (simp add: upt_conv_Cons)
  ultimately show ?case using c1 c2 by simp
qed simp

lemma printRDACs_shows:
  assumes "stores_acs acs" "idle (k_epi (con_ks10 c))"
  shows "\<exists>c'. printRDACs ops c = Some ((), c') \<and> mem (k_epi (con_ks10 c')) = mem (k_epi (con_ks10 c)) \<and>
    k_log (con_ks10 c') = k_log (con_ks10 c) @ Text ''KS10: Dump of AC contents:'' #
      map (\<lambda>k. Printf ''  %02o: %012llo'' [of_nat k, acs k]) [0 ..< 16] \<and> con_fat c' = con_fat c"
proof -
  obtain w where h: "ks (halt ops) c = Some (True, c\<lparr>con_ks10 := (con_ks10 c)\<lparr>k_epi := w\<rparr>\<rparr>)"
    and w: "idle w" "mem w = mem (k_epi (con_ks10 c))" using halt_seen [OF assms(2)] by blast
  let ?k = "con_ks10 c"
  let ?c = "c\<lparr>con_ks10 := ?k\<lparr>k_epi := w, k_log := k_log ?k @ [Text ''KS10: Dump of AC contents:'']\<rparr>\<rparr>"
  have "printRDACs ops c = ac_loop ops 16 (of_nat 0) ?c" using h by (simp add: printRDACs_def print_def ks_def)
  then show ?thesis using ac_loop_shows [OF assms(1), of ?c 0 16] w by auto
qed

end

interpretation csh: console_halted csl_epi "csl_sound acs" c_busy c_reg c_mem c_ctl "sim_insn acs" "csl_active acs"
proof unfold_locales
  fix w w' :: csl and h
  assume i: "console_port.idle (csl_sound acs) c_busy w" and p: "e_halt_pin csl_epi w = (h, w')"
  have "c_work w = None" using i by (simp add: csp.idle_def csl_sound_def)
  then have "h \<and> w' = w" using p by (simp add: csl_epi_def csl_pin_def)
  then show "h \<and> console_port.idle (csl_sound acs) c_busy w' \<and> c_mem w' = c_mem w \<and> c_ctl w' = c_ctl w" using i by simp
qed

text \<open>C5: the command RD AC. On a halted processor whose MOVEM stores accumulators, the command line
  prints the contents of the sixteen accumulators in order, and the prompt; the location of memory it
  stores them through has its contents back, and so has the rest of memory.\<close>

lemma command_shows_accumulators:
  fixes c :: "('w, 'k) console"
  assumes "console_halted ep sound busy reg mem ctl effect active" "sound (k_epi (con_ks10 c))" "busy (k_epi (con_ks10 c)) = 0"
    "\<forall>n < 16. \<forall>m. effect ((push_bit 18 Ks10.opMOVEM OR push_bit 23 (of_nat n) OR 0x40) AND dataMask) m = m(0x40 := acs n)"
  shows "\<exists>c'. taskCommand ops ep net [0x52, 0x44, 0x20, 0x41, 0x43, 0] c = Some ((), c') \<and>
    k_log (con_ks10 c') = k_log (con_ks10 c) @ Text ''KS10: Dump of AC contents:'' #
      map (\<lambda>n. Printf ''  %02o: %012llo'' [of_nat n, acs n]) [0 ..< 16] @ [Text ''KS10> ''] \<and>
    mem (k_epi (con_ks10 c')) = mem (k_epi (con_ks10 c)) \<and> con_fat c' = con_fat c"
proof -
  have cpu: "console_cpu ep sound busy reg mem ctl effect active" by (rule console_halted.axioms(1) [OF assms(1)])
  have port: "console_port ep sound busy reg mem ctl" by (rule console_cpu.axioms(1) [OF cpu])
  have i: "console_port.idle sound busy (k_epi (con_ks10 c))" using assms(2,3) by (simp add: console_port.idle_def [OF port])
  have s: "console_halted.stores_acs effect acs"
    using assms(4) by (simp add: console_halted.stores_acs_def [OF assms(1)] console_halted.movem_def [OF assms(1)])
  have d: "find_command (cmdList ops ep net) [0x52, 0x44, 0] = Some (cmdRD ep)"
    by (simp add: cmdList_def selects_def to_upper_def of_char_def)
  have r: "cmdRD ep [[0x52, 0x44, 0], [0x41, 0x43, 0]] c = printRDACs ep c"
    by (simp add: cmdRD_def is_word_def bytes_of_def to_upper_def of_char_def strnieq_numeral)
  obtain c' where c': "printRDACs ep c = Some ((), c')" "mem (k_epi (con_ks10 c')) = mem (k_epi (con_ks10 c))"
    "k_log (con_ks10 c') = k_log (con_ks10 c) @ Text ''KS10: Dump of AC contents:'' #
      map (\<lambda>k. Printf ''  %02o: %012llo'' [of_nat k, acs k]) [0 ..< 16]" "con_fat c' = con_fat c"
    using console_halted.printRDACs_shows [OF assms(1) s i] by blast
  have "command_loop ops ep net [0x52, 0x44, 0x20, 0x41, 0x43, 0] c = Some ((), c')"
    using d r c'(1) by (subst command_loop.simps) (simp add: run_command_def)
  then show ?thesis using c'(2-4)
    by (intro exI [of _ "c'\<lparr>con_ks10 := (con_ks10 c')\<lparr>k_log := k_log (con_ks10 c') @ [Text ''KS10> '']\<rparr>\<rparr>"])
      (simp add: taskCommand_def print_def ks_def)
qed

lemma command_shows_accumulators_witness:
  "\<exists>c'. taskCommand (sd_disk sim_io) csl_epi demo_net [0x52, 0x44, 0x20, 0x41, 0x43, 0] sav_console = Some ((), c') \<and>
    k_log (con_ks10 c') ! 3 = Printf ''  %02o: %012llo'' [2, 3] \<and> c_mem (k_epi (con_ks10 c')) = c_mem demo_csl"
proof -
  have w: "csl_sound demo_acs (k_epi (con_ks10 sav_console))" "c_busy (k_epi (con_ks10 sav_console)) = 0"
    using demo_csl_sound by (simp_all add: sav_state demo_ks_def)
  have x: "sim_insn demo_acs ((push_bit 18 Ks10.opMOVEM OR push_bit 23 (of_nat n) OR 0x40) AND dataMask) m = m(0x40 := of_nat (n + 1))"
    if "n < 16" for n m
  proof -
    have "n \<in> {0, 1, 2, 3, 4, 5, 6, 7, 8, 9, 10, 11, 12, 13, 14, 15}" using that by (simp, presburger)
    then show ?thesis
      by (elim insertE emptyE) (simp_all add: sim_insn_def demo_acs_def opMOVEM_def dataMask_def)
  qed
  then have "\<forall>n < 16. \<forall>m. sim_insn demo_acs ((push_bit 18 Ks10.opMOVEM OR push_bit 23 (of_nat n) OR 0x40) AND dataMask) m =
      m(0x40 := of_nat (n + 1))" by blast
  from command_shows_accumulators [OF csh.console_halted_axioms w this, of "sd_disk sim_io" demo_net]
  show ?thesis by (auto simp: sav_state demo_ks_def nth_append)
qed

end
