(* ===== verification/Fpga.thy ===== *)
theory Fpga
  imports Terminal
begin

text \<open>
  Programming the FPGA (\<^verbatim>\<open>fpga.cpp\<close>) over five pins of the microcontroller, from the serial flash or from a file on
  the SD card, and \<open>programFirmware\<close> of \<^verbatim>\<open>ks10.cpp\<close>, which does it at power-up. The pins and the scheduler are a
  parameter; messages are a log.
\<close>

section \<open>Pins and state\<close>

definition GPIO_PORTB_BASE :: u32 where "GPIO_PORTB_BASE = 0x40005000"
definition GPIO_PORTE_BASE :: u32 where "GPIO_PORTE_BASE = 0x40024000"
definition SYSCTL_PERIPH_GPIOB :: u32 where "SYSCTL_PERIPH_GPIOB = 0x20000002"
definition SYSCTL_PERIPH_GPIOE :: u32 where "SYSCTL_PERIPH_GPIOE = 0x20000010"

definition GPIO_PIN_PROG :: byte where "GPIO_PIN_PROG = 0x01"
definition GPIO_PIN_INIT :: byte where "GPIO_PIN_INIT = 0x02"
definition GPIO_PIN_DONE :: byte where "GPIO_PIN_DONE = 0x08"
definition GPIO_PIN_DIN :: byte where "GPIO_PIN_DIN = 0x10"
definition GPIO_PIN_CCLK :: byte where "GPIO_PIN_CCLK = 0x40"

lemmas pin_defs = GPIO_PIN_PROG_def GPIO_PIN_INIT_def GPIO_PIN_DONE_def GPIO_PIN_DIN_def GPIO_PIN_CCLK_def
lemmas port_defs = GPIO_PORTB_BASE_def GPIO_PORTE_BASE_def

text \<open>
  The calls into the peripheral library in ROM, by port and mask of pins: enabling a port, the direction of pins,
  reading and writing; and \<^verbatim>\<open>xTaskDelay\<close> of the scheduler.
\<close>

record 'g gpio =
  g_enable :: "u32 \<Rightarrow> 'g \<Rightarrow> 'g"
  g_output :: "u32 \<Rightarrow> byte \<Rightarrow> 'g \<Rightarrow> 'g"
  g_input :: "u32 \<Rightarrow> byte \<Rightarrow> 'g \<Rightarrow> 'g"
  g_read :: "u32 \<Rightarrow> byte \<Rightarrow> 'g \<Rightarrow> byte \<times> 'g"
  g_write :: "u32 \<Rightarrow> byte \<Rightarrow> byte \<Rightarrow> 'g \<Rightarrow> 'g"
  g_delay :: "u32 \<Rightarrow> 'g \<Rightarrow> 'g"

text \<open>The pins, the file system, the static counter of the bits sent, and what has been printed.\<close>

record ('w, 'g) prog =
  pg_pins :: 'g
  pg_fat :: "'w sys"
  pg_bitcnt :: u32
  pg_log :: "message list"

definition do_pins :: "('g \<Rightarrow> 'g) \<Rightarrow> (('w, 'g) prog, unit) state" where
  "do_pins f = State (\<lambda>s. ((), s\<lparr>pg_pins := f (pg_pins s)\<rparr>))"

definition tell :: "message \<Rightarrow> (('w, 'g) prog, unit) state" where
  "tell m = State (\<lambda>s. ((), s\<lparr>pg_log := pg_log s @ [m]\<rparr>))"

definition read_pin :: "'g gpio \<Rightarrow> byte \<Rightarrow> (('w, 'g) prog, byte) state" where
  "read_pin g p = State (\<lambda>s. let (b, w) = g_read g GPIO_PORTB_BASE p (pg_pins s) in (b, s\<lparr>pg_pins := w\<rparr>))"

lemma run_do_pins [simp]: "run_state (do_pins f) s = ((), s\<lparr>pg_pins := f (pg_pins s)\<rparr>)"
  by (simp add: do_pins_def)

lemma run_tell [simp]: "run_state (tell m) s = ((), s\<lparr>pg_log := pg_log s @ [m]\<rparr>)"
  by (simp add: tell_def)

lemma run_read_pin [simp]:
  "run_state (read_pin g p) s = (let (b, w) = g_read g GPIO_PORTB_BASE p (pg_pins s) in (b, s\<lparr>pg_pins := w\<rparr>))"
  by (simp add: read_pin_def)

definition fpga_t :: "'g gpio \<Rightarrow> (('w, 'g) prog, unit) state" where
  "fpga_t g = do {
     do_pins (g_enable g SYSCTL_PERIPH_GPIOB);
     do_pins (g_enable g SYSCTL_PERIPH_GPIOE);
     do_pins (g_output g GPIO_PORTB_BASE GPIO_PIN_PROG);
     do_pins (g_input g GPIO_PORTB_BASE GPIO_PIN_INIT);
     do_pins (g_input g GPIO_PORTB_BASE GPIO_PIN_DONE);
     do_pins (g_output g GPIO_PORTE_BASE GPIO_PIN_DIN);
     do_pins (g_output g GPIO_PORTE_BASE GPIO_PIN_CCLK) }"

definition isDONE :: "'g gpio \<Rightarrow> (('w, 'g) prog, bool) state" where
  "isDONE g = do { v \<leftarrow> read_pin g GPIO_PIN_DONE; State_Monad.return (v \<noteq> 0) }"

definition isINIT :: "'g gpio \<Rightarrow> (('w, 'g) prog, bool) state" where
  "isINIT g = do { v \<leftarrow> read_pin g GPIO_PIN_INIT; State_Monad.return (v = 0) }"

definition pulsePROG :: "'g gpio \<Rightarrow> (('w, 'g) prog, unit) state" where
  "pulsePROG g = do {
     do_pins (g_write g GPIO_PORTB_BASE GPIO_PIN_PROG 0);
     do_pins (g_delay g 1);
     do_pins (g_write g GPIO_PORTB_BASE GPIO_PIN_PROG GPIO_PIN_PROG) }"

text \<open>The loop of \<open>waitINIT\<close>, with the turns that are left.\<close>

fun wait_init :: "'g gpio \<Rightarrow> nat \<Rightarrow> (('w, 'g) prog, bool) state" where
  "wait_init g 0 = State_Monad.return False"
| "wait_init g (Suc n) = do {
     i \<leftarrow> isINIT g;
     if \<not> i then State_Monad.return True
     else do { do_pins (g_delay g 1); wait_init g n } }"

definition waitINIT :: "'g gpio \<Rightarrow> (('w, 'g) prog, bool) state" where
  "waitINIT g = wait_init g 100"

text \<open>Eight bits, the highest first; each is set with the clock low and sampled when the clock rises.\<close>

definition count_bit :: "bool \<Rightarrow> (('w, 'g) prog, unit) state" where
  "count_bit b = State (\<lambda>s. ((), s\<lparr>pg_log := pg_log s @ [Printf ''Bit %d was %d'' [ucast (pg_bitcnt s), of_bool b]],
     pg_bitcnt := pg_bitcnt s + 1\<rparr>))"

fun program_bits :: "'g gpio \<Rightarrow> nat \<Rightarrow> byte \<Rightarrow> (('w, 'g) prog, unit) state" where
  "program_bits g 0 data = State_Monad.return ()"
| "program_bits g (Suc n) data = do {
     do_pins (g_write g GPIO_PORTE_BASE (GPIO_PIN_DIN OR GPIO_PIN_CCLK) (if data AND 0x80 \<noteq> 0 then GPIO_PIN_DIN else 0));
     do_pins (g_write g GPIO_PORTE_BASE GPIO_PIN_CCLK GPIO_PIN_CCLK);
     count_bit (data AND 0x80 \<noteq> 0);
     program_bits g n (push_bit 1 data) }"

definition programByte :: "'g gpio \<Rightarrow> byte \<Rightarrow> (('w, 'g) prog, unit) state" where
  "programByte g data = do {
     do_pins (g_delay g 100);
     tell (Printf ''Byte was 0x%02x'' [ucast data]);
     program_bits g 8 data }"

section \<open>Programming\<close>

text \<open>What both ways of programming do first: true when the FPGA is ready for data.\<close>

definition program_start :: "'g gpio \<Rightarrow> (('w, 'g) prog, bool) state" where
  "program_start g = do {
     pulsePROG g;
     i \<leftarrow> isINIT g;
     if \<not> i then do {
       tell (Text ''FPGA: Programming Error.  INIT should be negated while initializing.'');
       State_Monad.return False }
     else do {
       r \<leftarrow> waitINIT g;
       if \<not> r then do {
         tell (Text ''FPGA: Programming Error.  INIT should be asserted before programming.'');
         State_Monad.return False }
       else do {
         d \<leftarrow> isDONE g;
         if d then do {
           tell (Text ''FPGA: Programming Error.  DONE should be negated before programming.'');
           State_Monad.return False }
         else State_Monad.return True } } }"

text \<open>The ten seconds for the serial flash, with the turns that are left.\<close>

fun wait_done :: "'g gpio \<Rightarrow> nat \<Rightarrow> (('w, 'g) prog, bool) state" where
  "wait_done g 0 = do {
     tell (Text ''FPGA: Programming Error.  Timeout waiting for DONE.'');
     State_Monad.return False }"
| "wait_done g (Suc n) = do {
     d \<leftarrow> isDONE g;
     if d then do { tell (Text ''FPGA: Programmed successfully.''); State_Monad.return True }
     else do {
       i \<leftarrow> isINIT g;
       if i then do { tell (Text ''FPGA: Programming Error.  CRC Failure.''); State_Monad.return False }
       else do {
         tell (Text '' .'');
         do_pins (g_delay g 1000);
         wait_done g n } } }"

definition program_flash :: "'g gpio \<Rightarrow> (('w, 'g) prog, bool) state" where
  "program_flash g = do {
     r \<leftarrow> program_start g;
     if \<not> r then State_Monad.return False
     else do {
       tell (Text ''FPGA: Programming with firmware from Serial Flash.'');
       wait_done g 10 } }"

text \<open>The bytes of one buffer: whether none of them was refused, and the number of bytes so far.\<close>

fun program_buffer :: "'g gpio \<Rightarrow> byte list \<Rightarrow> u32 \<Rightarrow> (('w, 'g) prog, bool \<times> u32) state" where
  "program_buffer g [] bytes = State_Monad.return (True, bytes)"
| "program_buffer g (b # bs) bytes = do {
     programByte g b;
     d \<leftarrow> isDONE g;
     (if d then tell (Printf ''FPGA: Programmed successfully.  Byte is %d.'' [ucast bytes]) else State_Monad.return ());
     i \<leftarrow> isINIT g;
     if i then do {
       tell (Printf ''FPGA: Programming Error.  CRC Failure.  Byte is %d.'' [ucast bytes]);
       State_Monad.return (False, bytes) }
     else program_buffer g bs (bytes + 1) }"

text \<open>A step of the state monad, and one of the file system, where a call may not return.\<close>

definition pins :: "(('w, 'g) prog, 'a) state \<Rightarrow> ('w, 'g) prog \<Rightarrow> ('a \<times> ('w, 'g) prog) option" where
  "pins m s = Some (run_state m s)"

definition card :: "('w sys \<Rightarrow> ('a \<times> 'w sys) option) \<Rightarrow> ('w, 'g) prog \<Rightarrow> ('a \<times> ('w, 'g) prog) option" where
  "card f s = map_option (\<lambda>(a, t). (a, s\<lparr>pg_fat := t\<rparr>)) (f (pg_fat s))"

text \<open>
  The file, sector by sector, up to its end: false when the FPGA reports a bad checksum. After a failed read the loop
  goes on with the bytes that were read.
\<close>

partial_function (option) program_sectors :: "'w disk_ops \<Rightarrow> 'g gpio \<Rightarrow> u32 \<Rightarrow> u32 \<Rightarrow> fil \<Rightarrow> ('w, 'g) prog \<Rightarrow>
    ((bool \<times> fil) \<times> ('w, 'g) prog) option" where
  "program_sectors ops g i bytes fp s =
     (if fl_fptr fp = fl_fsize fp
      then do {
        (u, s) \<leftarrow> pins (tell (Printf ''FPGA: Programmed %d bytes.'' [ucast bytes])) s;
        Some ((True, fp), s) }
      else do {
        (u, s) \<leftarrow> pins (if i mod 128 = 127 then tell (Text '' .'') else State_Monad.return ()) s;
        ((status, numbytes, fp, buffer), s) \<leftarrow> card (f_read ops fp (replicate 512 0) 512) s;
        (u, s) \<leftarrow> pins (if status \<noteq> FR_OK
          then tell (Printf ''FPGA: Programming Error.  Can't read firmware.  Status was %d'' [result_code status])
          else State_Monad.return ()) s;
        ((ok, bytes), s) \<leftarrow> pins (program_buffer g (take (unat numbytes) buffer) bytes) s;
        (if ok then program_sectors ops g (i + 1) bytes fp s else Some ((False, fp), s)) })"

text \<open>Clock pulses after the file, until the FPGA reports an error or the end.\<close>

partial_function (option) program_end :: "'g gpio \<Rightarrow> ('w, 'g) prog \<Rightarrow> (bool \<times> ('w, 'g) prog) option" where
  "program_end g s = do {
     (i, s) \<leftarrow> pins (isINIT g) s;
     (if i then do {
        (u, s) \<leftarrow> pins (tell (Text ''FPGA: Programming Error.  CRC Failure.'')) s;
        Some (False, s) }
      else do {
        (d, s) \<leftarrow> pins (isDONE g) s;
        (if d then do {
           (u, s) \<leftarrow> pins (tell (Text ''FPGA: Programmed successfully.'')) s;
           (u, s) \<leftarrow> pins (programByte g 0xFF) s;
           Some (True, s) }
         else do {
           (u, s) \<leftarrow> pins (programByte g 0xFF) s;
           program_end g s }) }) }"

definition program_file :: "'w disk_ops \<Rightarrow> 'g gpio \<Rightarrow> fil \<Rightarrow> ('w, 'g) prog \<Rightarrow> ((bool \<times> fil) \<times> ('w, 'g) prog) option" where
  "program_file ops g fp s = do {
     (r, s) \<leftarrow> pins (program_start g) s;
     (if \<not> r then Some ((False, fp), s)
      else do {
        (u, s) \<leftarrow> pins (tell (Text ''FPGA: Programming with firmware from SDHC Card.'')) s;
        ((ok, fp), s) \<leftarrow> program_sectors ops g 0 0 fp s;
        (if \<not> ok then Some ((False, fp), s)
         else do {
           (r, s) \<leftarrow> program_end g s;
           Some ((r, fp), s) }) }) }"

section \<open>Firmware\<close>

text \<open>A failure is fatal, that is, the call never returns, unless debugging is on.\<close>

definition programFirmware :: "'g gpio \<Rightarrow> bool \<Rightarrow> ('w, 'g) prog \<Rightarrow> (unit \<times> ('w, 'g) prog) option" where
  "programFirmware g debug s = do {
     (u, s) \<leftarrow> pins (fpga_t g) s;
     (success, s) \<leftarrow> pins (program_flash g) s;
     (if \<not> success \<and> \<not> debug then None else Some ((), s)) }"

definition programFirmwareFile :: "'w disk_ops \<Rightarrow> 'g gpio \<Rightarrow> bool \<Rightarrow> byte list \<Rightarrow> ('w, 'g) prog \<Rightarrow>
    (unit \<times> ('w, 'g) prog) option" where
  "programFirmwareFile ops g debug filename s = do {
     ((status, fp), s) \<leftarrow> card (f_open ops (Some new_fil) filename FA_READ) s;
     (if status \<noteq> FR_OK then
        pins (tell (Shown ''KS10: Unable to open firmware file \"%s\".  Status was %d'' [result_code status] [text_of filename])) s
      else do {
        fp \<leftarrow> fp;
        (u, s) \<leftarrow> pins (if debug then tell (Shown ''KS10: Opened firmware file \"%s\" for reading.'' [] [text_of filename]) else State_Monad.return ()) s;
        (u, s) \<leftarrow> pins (fpga_t g) s;
        ((success, fp), s) \<leftarrow> program_file ops g fp s;
        ((status, fp), s) \<leftarrow> card (f_close ops fp) s;
        (u, s) \<leftarrow> pins (if status \<noteq> FR_OK
          then tell (Shown ''KS10: Unable to close firmware file \"%s\".  Status was %d'' [result_code status] [text_of filename])
          else State_Monad.return ()) s;
        (if \<not> success \<and> \<not> debug then None else Some ((), s)) }) }"

end
