(* ===== verification/FpgaOps.thy ===== *)
theory FpgaOps
  imports Fpga LoaderOps
begin

text \<open>
  What programming the FPGA from a file does: the bytes of the file reach the FPGA in order, the highest bit first, up
  to the first byte after which it reports an error; and the call returns exactly when the FPGA comes to an end.
\<close>

section \<open>The configuration port of the FPGA\<close>

text \<open>
  \<open>clearing\<close> is the number of milliseconds INIT stays low after the pulse on PROG, \<open>bits\<close> what has been shifted in since,
  \<open>din\<close> and \<open>clk\<close> the levels of the two pins. INIT falls when the bits are not \<open>good\<close> (a bad checksum), DONE rises
  when they are \<open>complete\<close>.
\<close>

locale config_port =
  fixes g :: "'g gpio" and sound :: "'g \<Rightarrow> bool" and clearing :: "'g \<Rightarrow> nat" and bits :: "'g \<Rightarrow> bool list"
    and din clk :: "'g \<Rightarrow> bool" and good complete :: "bool list \<Rightarrow> bool"
  assumes enable: "sound w \<Longrightarrow> sound (g_enable g p w)"
    and outdir: "sound w \<Longrightarrow> sound (g_output g b m w)"
    and indir: "sound w \<Longrightarrow> sound (g_input g b m w)"
    and pulse: "sound w \<Longrightarrow>
      w' = g_write g GPIO_PORTB_BASE GPIO_PIN_PROG GPIO_PIN_PROG (g_delay g 1 (g_write g GPIO_PORTB_BASE GPIO_PIN_PROG 0 w)) \<Longrightarrow>
      sound w' \<and> bits w' = [] \<and> 0 < clearing w' \<and> clearing w' < 100"
    and look: "sound w \<Longrightarrow> g_read g GPIO_PORTB_BASE m w = (v, w') \<Longrightarrow> sound w' \<and> bits w' = bits w \<and> clearing w' = clearing w"
    and init: "sound w \<Longrightarrow> g_read g GPIO_PORTB_BASE GPIO_PIN_INIT w = (v, w') \<Longrightarrow> v = 0 \<longleftrightarrow> clearing w \<noteq> 0 \<or> \<not> good (bits w)"
    and finish: "sound w \<Longrightarrow> g_read g GPIO_PORTB_BASE GPIO_PIN_DONE w = (v, w') \<Longrightarrow> v \<noteq> 0 \<longleftrightarrow> clearing w = 0 \<and> complete (bits w)"
    and tick: "sound w \<Longrightarrow> w' = g_delay g n w \<Longrightarrow> sound w' \<and> bits w' = bits w \<and> clearing w' \<le> clearing w - unat n"
    and low: "sound w \<Longrightarrow> clearing w = 0 \<Longrightarrow> v AND GPIO_PIN_CCLK = 0 \<Longrightarrow>
      w' = g_write g GPIO_PORTE_BASE (GPIO_PIN_DIN OR GPIO_PIN_CCLK) v w \<Longrightarrow>
      sound w' \<and> bits w' = bits w \<and> clearing w' = 0 \<and> din w' = (v AND GPIO_PIN_DIN \<noteq> 0) \<and> \<not> clk w'"
    and rise: "sound w \<Longrightarrow> clearing w = 0 \<Longrightarrow> \<not> clk w \<Longrightarrow> w' = g_write g GPIO_PORTE_BASE GPIO_PIN_CCLK GPIO_PIN_CCLK w \<Longrightarrow>
      sound w' \<and> bits w' = bits w @ [din w] \<and> clearing w' = 0"
    and empty: "good []" "\<not> complete []"

text \<open>The bits of a byte in the order they are sent, and of a file.\<close>

definition byte_bits :: "byte \<Rightarrow> bool list" where
  "byte_bits b = map (\<lambda>k. bit b (7 - k)) [0 ..< 8]"

definition file_bits :: "byte list \<Rightarrow> bool list" where
  "file_bits bs = concat (map byte_bits bs)"

text \<open>
  What an FPGA ends up with for a file, and whether the loader calls it a success: the bytes up to the first after
  which the bits are bad; or all of them, and then bytes of ones until the bits are bad or complete, and
  one more byte in the latter case.
\<close>

fun transfer :: "(bool list \<Rightarrow> bool) \<Rightarrow> bool list \<Rightarrow> byte list \<Rightarrow> bool \<times> bool list" where
  "transfer good r [] = (True, r)"
| "transfer good r (b # bs) =
     (if good (r @ byte_bits b) then transfer good (r @ byte_bits b) bs else (False, r @ byte_bits b))"

definition padded :: "bool list \<Rightarrow> nat \<Rightarrow> bool list" where
  "padded r n = r @ replicate (8 * n) True"

inductive outcome :: "(bool list \<Rightarrow> bool) \<Rightarrow> (bool list \<Rightarrow> bool) \<Rightarrow> byte list \<Rightarrow> bool \<Rightarrow> bool list \<Rightarrow> bool" for good complete bs where
  refused: "transfer good [] bs = (False, r) \<Longrightarrow> outcome good complete bs False r"
| failed_late: "transfer good [] bs = (True, r) \<Longrightarrow> (\<And>j. j < n \<Longrightarrow> good (padded r j) \<and> \<not> complete (padded r j)) \<Longrightarrow>
    \<not> good (padded r n) \<Longrightarrow> outcome good complete bs False (padded r n)"
| completed: "transfer good [] bs = (True, r) \<Longrightarrow> (\<And>j. j < n \<Longrightarrow> good (padded r j) \<and> \<not> complete (padded r j)) \<Longrightarrow>
    good (padded r n) \<Longrightarrow> complete (padded r n) \<Longrightarrow> outcome good complete bs True (padded r (Suc n))"

lemma ones_bits: "byte_bits 0xFF = replicate 8 True"
proof -
  have "(0xFF :: byte) = - 1" by simp
  then have "byte_bits 0xFF = map (\<lambda>k. True) [0 ..< 8]" unfolding byte_bits_def by (simp only: bit_minus_1_iff) auto
  then show ?thesis by (simp add: map_replicate_const)
qed

lemma padded_simps: "padded r 0 = r" "padded (r @ byte_bits 0xFF) n = padded r (Suc n)"
  by (simp_all add: padded_def ones_bits replicate_add [symmetric])

lemma transfer_append:
  "transfer good r (bs @ cs) = (if fst (transfer good r bs) then transfer good (snd (transfer good r bs)) cs else transfer good r bs)"
  by (induction bs arbitrary: r) simp_all

context config_port
begin

definition configuring :: "bool list \<Rightarrow> 'g \<Rightarrow> bool" where
  "configuring r w \<longleftrightarrow> sound w \<and> clearing w = 0 \<and> bits w = r"

lemma isINIT_looks:
  assumes "sound (pg_pins s)"
  shows "\<exists>w. run_state (isINIT g) s = (clearing (pg_pins s) \<noteq> 0 \<or> \<not> good (bits (pg_pins s)), s\<lparr>pg_pins := w\<rparr>) \<and>
    sound w \<and> bits w = bits (pg_pins s) \<and> clearing w = clearing (pg_pins s)"
proof -
  obtain v w where v: "g_read g GPIO_PORTB_BASE GPIO_PIN_INIT (pg_pins s) = (v, w)" by fastforce
  show ?thesis using look [OF assms v] init [OF assms v] by (intro exI [of _ w]) (simp add: isINIT_def v)
qed

lemma isDONE_looks:
  assumes "sound (pg_pins s)"
  shows "\<exists>w. run_state (isDONE g) s = (clearing (pg_pins s) = 0 \<and> complete (bits (pg_pins s)), s\<lparr>pg_pins := w\<rparr>) \<and>
    sound w \<and> bits w = bits (pg_pins s) \<and> clearing w = clearing (pg_pins s)"
proof -
  obtain v w where v: "g_read g GPIO_PORTB_BASE GPIO_PIN_DONE (pg_pins s) = (v, w)" by fastforce
  show ?thesis using look [OF assms v] finish [OF assms v] by (intro exI [of _ w]) (simp add: isDONE_def v)
qed

lemma wait_init_ends:
  assumes "sound (pg_pins s)" "bits (pg_pins s) = []" "clearing (pg_pins s) < n"
  shows "\<exists>w. run_state (wait_init g n) s = (True, s\<lparr>pg_pins := w\<rparr>) \<and> configuring [] w"
  using assms
proof (induction n arbitrary: s)
  case (Suc n)
  obtain w where w: "run_state (isINIT g) s = (clearing (pg_pins s) \<noteq> 0, s\<lparr>pg_pins := w\<rparr>)"
    "sound w" "bits w = []" "clearing w = clearing (pg_pins s)"
    using isINIT_looks [OF Suc.prems(1)] Suc.prems(2) empty by auto
  show ?case
  proof (cases "clearing (pg_pins s) = 0")
    case True
    then show ?thesis using w by (intro exI [of _ w]) (simp add: configuring_def)
  next
    case False
    let ?w = "g_delay g 1 w"
    have t: "sound ?w" "bits ?w = []" "clearing ?w < n"
      using tick [OF w(2) refl, of 1] w(3,4) False Suc.prems(3) by (simp_all; linarith)+
    then show ?thesis using Suc.IH [of "s\<lparr>pg_pins := ?w\<rparr>"] w(1) False by simp
  qed
qed simp

lemma program_start_ready:
  assumes "sound (pg_pins s)"
  shows "\<exists>w. run_state (program_start g) s = (True, s\<lparr>pg_pins := w\<rparr>) \<and> configuring [] w"
proof -
  define w0 where "w0 = g_write g GPIO_PORTB_BASE GPIO_PIN_PROG GPIO_PIN_PROG (g_delay g 1 (g_write g GPIO_PORTB_BASE GPIO_PIN_PROG 0 (pg_pins s)))"
  have w0: "sound w0" "bits w0 = []" "0 < clearing w0" "clearing w0 < 100" using pulse [OF assms w0_def] by simp_all
  have p: "run_state (pulsePROG g) s = ((), s\<lparr>pg_pins := w0\<rparr>)" by (simp add: pulsePROG_def w0_def)
  obtain w1 where w1: "run_state (isINIT g) (s\<lparr>pg_pins := w0\<rparr>) = (True, s\<lparr>pg_pins := w1\<rparr>)"
    "sound w1" "bits w1 = []" "clearing w1 < 100"
    using isINIT_looks [of "s\<lparr>pg_pins := w0\<rparr>"] w0 by auto
  obtain w2 where w2: "run_state (waitINIT g) (s\<lparr>pg_pins := w1\<rparr>) = (True, s\<lparr>pg_pins := w2\<rparr>)" "configuring [] w2"
    using wait_init_ends [of "s\<lparr>pg_pins := w1\<rparr>" 100] w1 by (auto simp: waitINIT_def)
  obtain w3 where w3: "run_state (isDONE g) (s\<lparr>pg_pins := w2\<rparr>) = (False, s\<lparr>pg_pins := w3\<rparr>)" "configuring [] w3"
    using isDONE_looks [of "s\<lparr>pg_pins := w2\<rparr>"] w2(2) empty by (auto simp: configuring_def)
  show ?thesis using p w1 w2 w3 by (intro exI [of _ w3]) (simp add: program_start_def)
qed

text \<open>Sending bits keeps the file system as it is.\<close>

lemma program_bits_shift:
  assumes "configuring r (pg_pins s)" "n \<le> 8"
  shows "\<exists>s'. run_state (program_bits g n d) s = ((), s') \<and> pg_fat s' = pg_fat s \<and>
    configuring (r @ map (\<lambda>k. bit d (7 - k)) [0 ..< n]) (pg_pins s')"
  using assms
proof (induction n arbitrary: r s d)
  case 0
  then show ?case by simp
next
  case (Suc n)
  let ?v = "if d AND 0x80 \<noteq> 0 then GPIO_PIN_DIN else 0"
  define w1 where "w1 = g_write g GPIO_PORTE_BASE (GPIO_PIN_DIN OR GPIO_PIN_CCLK) ?v (pg_pins s)"
  define w2 where "w2 = g_write g GPIO_PORTE_BASE GPIO_PIN_CCLK GPIO_PIN_CCLK w1"
  have top: "d AND 0x80 \<noteq> 0 \<longleftrightarrow> bit d 7" using and_exp_eq_0_iff_not_bit [of d 7] by simp
  have v: "?v AND GPIO_PIN_CCLK = 0" "?v AND GPIO_PIN_DIN \<noteq> 0 \<longleftrightarrow> bit d 7" unfolding top by (simp_all add: pin_defs)
  have w1: "sound w1" "bits w1 = r" "clearing w1 = 0" "din w1 = bit d 7" "\<not> clk w1"
    using low [OF _ _ v(1) w1_def] Suc.prems(1) v(2) by (simp_all add: configuring_def)
  have w2: "configuring (r @ [bit d 7]) w2"
    using rise [OF w1(1,3,5) w2_def] w1(2,4) by (simp add: configuring_def)
  define s1 where "s1 = snd (run_state (count_bit (d AND 0x80 \<noteq> 0)) (s\<lparr>pg_pins := w2\<rparr>))"
  have s1: "pg_pins s1 = w2" "pg_fat s1 = pg_fat s" by (simp_all add: s1_def count_bit_def)
  have e: "run_state (program_bits g (Suc n) d) s = run_state (program_bits g n (push_bit 1 d)) s1"
    by (simp add: s1_def w2_def w1_def count_bit_def)
  have m: "map (\<lambda>k. bit (push_bit 1 d) (7 - k)) [0 ..< n] = map (\<lambda>k. bit d (7 - k)) (map Suc [0 ..< n])"
    unfolding map_map comp_def using Suc.prems(2)
    by (intro map_cong refl, unfold bit_push_bit_iff) auto
  have u: "[0 ..< Suc n] = 0 # map Suc [0 ..< n]" by (simp add: map_Suc_upt upt_conv_Cons del: upt_Suc)
  obtain s' where "run_state (program_bits g n (push_bit 1 d)) s1 = ((), s')" "pg_fat s' = pg_fat s1"
    "configuring ((r @ [bit d 7]) @ map (\<lambda>k. bit (push_bit 1 d) (7 - k)) [0 ..< n]) (pg_pins s')"
    using Suc.IH [of "r @ [bit d 7]" s1] w2 s1 Suc.prems(2) by auto
  then show ?case unfolding e u m using s1 by simp
qed

lemma programByte_shifts:
  assumes "configuring r (pg_pins s)"
  shows "\<exists>s'. run_state (programByte g b) s = ((), s') \<and> pg_fat s' = pg_fat s \<and> configuring (r @ byte_bits b) (pg_pins s')"
proof -
  let ?s = "snd (run_state (do { do_pins (g_delay g 100); tell (Printf ''Byte was 0x%02x'' [ucast b]) }) s)"
  have "configuring r (g_delay g 100 (pg_pins s))"
    using tick [OF _ refl, of "pg_pins s" 100] assms by (simp add: configuring_def)
  then show ?thesis using program_bits_shift [of r ?s 8 b] by (simp add: programByte_def byte_bits_def)
qed

lemma program_buffer_transfers:
  assumes "configuring r (pg_pins s)"
  shows "\<exists>s' n'. run_state (program_buffer g bs n) s = ((fst (transfer good r bs), n'), s') \<and> pg_fat s' = pg_fat s \<and>
    configuring (snd (transfer good r bs)) (pg_pins s')"
  using assms
proof (induction bs arbitrary: r s n)
  case (Cons b bs)
  let ?r = "r @ byte_bits b"
  obtain s1 where s1: "run_state (programByte g b) s = ((), s1)" "pg_fat s1 = pg_fat s" "configuring ?r (pg_pins s1)"
    using programByte_shifts [OF Cons.prems] by blast
  obtain w2 where w2: "run_state (isDONE g) s1 = (complete ?r, s1\<lparr>pg_pins := w2\<rparr>)" "configuring ?r w2"
    using isDONE_looks [of s1] s1(3) by (auto simp: configuring_def)
  define s2 where "s2 = snd (run_state (if complete ?r then tell (Printf ''FPGA: Programmed successfully.  Byte is %d.'' [ucast n])
    else State_Monad.return ()) (s1\<lparr>pg_pins := w2\<rparr>))"
  have s2: "pg_pins s2 = w2" "pg_fat s2 = pg_fat s1" by (simp_all add: s2_def)
  obtain w3 where w3: "run_state (isINIT g) s2 = (\<not> good ?r, s2\<lparr>pg_pins := w3\<rparr>)" "configuring ?r w3"
    using isINIT_looks [of s2] w2(2) s2(1) by (auto simp: configuring_def)
  have e: "run_state (program_buffer g (b # bs) n) s =
      (if \<not> good ?r then ((False, n), snd (run_state (tell (Printf ''FPGA: Programming Error.  CRC Failure.  Byte is %d.'' [ucast n])) (s2\<lparr>pg_pins := w3\<rparr>)))
       else run_state (program_buffer g bs (n + 1)) (s2\<lparr>pg_pins := w3\<rparr>))"
    using s1(1) w2(1) w3(1) by (simp add: s2_def split: if_splits)
  show ?case
  proof (cases "good ?r")
    case True
    then show ?thesis using Cons.IH [of ?r "s2\<lparr>pg_pins := w3\<rparr>" "n + 1"] w3(2) s1(2) s2(2) unfolding e by simp
  next
    case False
    then show ?thesis using w3(2) s1(2) s2(2) unfolding e by simp
  qed
qed simp

lemma program_end_step:
  assumes "configuring r (pg_pins s)"
  shows "\<not> good r \<Longrightarrow> \<exists>s'. program_end g s = Some (False, s') \<and> pg_fat s' = pg_fat s \<and> configuring r (pg_pins s')"
    "good r \<Longrightarrow> complete r \<Longrightarrow>
      \<exists>s'. program_end g s = Some (True, s') \<and> pg_fat s' = pg_fat s \<and> configuring (r @ byte_bits 0xFF) (pg_pins s')"
    "good r \<Longrightarrow> \<not> complete r \<Longrightarrow>
      \<exists>s'. program_end g s = program_end g s' \<and> pg_fat s' = pg_fat s \<and> configuring (r @ byte_bits 0xFF) (pg_pins s')"
proof -
  obtain w1 where w1: "run_state (isINIT g) s = (\<not> good r, s\<lparr>pg_pins := w1\<rparr>)" "configuring r w1"
    using isINIT_looks [of s] assms by (auto simp: configuring_def)
  obtain w2 where w2: "run_state (isDONE g) (s\<lparr>pg_pins := w1\<rparr>) = (complete r, s\<lparr>pg_pins := w2\<rparr>)" "configuring r w2"
    using isDONE_looks [of "s\<lparr>pg_pins := w1\<rparr>"] w1(2) by (auto simp: configuring_def)
  show "\<exists>s'. program_end g s = Some (False, s') \<and> pg_fat s' = pg_fat s \<and> configuring r (pg_pins s')" if "\<not> good r"
    using w1 that by (subst program_end.simps) (simp add: pins_def)
  show "\<exists>s'. program_end g s = Some (True, s') \<and> pg_fat s' = pg_fat s \<and> configuring (r @ byte_bits 0xFF) (pg_pins s')"
    if "good r" "complete r"
    using w1(1) w2 that programByte_shifts [of r "s\<lparr>pg_pins := w2, pg_log := pg_log s @ [Text ''FPGA: Programmed successfully.'']\<rparr>" "0xFF"]
    by (subst program_end.simps) (auto simp: pins_def)
  show "\<exists>s'. program_end g s = program_end g s' \<and> pg_fat s' = pg_fat s \<and> configuring (r @ byte_bits 0xFF) (pg_pins s')"
    if "good r" "\<not> complete r"
    using w1(1) w2 that programByte_shifts [of r "s\<lparr>pg_pins := w2\<rparr>" "0xFF"]
    by (subst program_end.simps) (auto simp: pins_def)
qed

lemma program_end_stops:
  assumes "configuring r (pg_pins s)" "\<And>j. j < n \<Longrightarrow> good (padded r j) \<and> \<not> complete (padded r j)"
    "\<not> good (padded r n) \<or> complete (padded r n)"
  shows "\<exists>s'. program_end g s = Some (good (padded r n), s') \<and> pg_fat s' = pg_fat s \<and>
    configuring (padded r (if good (padded r n) then Suc n else n)) (pg_pins s')"
  using assms
proof (induction n arbitrary: r s)
  case 0
  then show ?case using program_end_step [OF 0(1)] padded_simps(2) [of r 0] by (auto simp: padded_simps(1))
next
  case (Suc n)
  have r: "good r" "\<not> complete r" using Suc.prems(2) [of 0] by (simp_all add: padded_simps(1))
  obtain s1 where s1: "program_end g s = program_end g s1" "pg_fat s1 = pg_fat s" "configuring (r @ byte_bits 0xFF) (pg_pins s1)"
    using program_end_step(3) [OF Suc.prems(1) r] by blast
  show ?case using Suc.IH [OF s1(3)] Suc.prems(2) [of "Suc j" for j] Suc.prems(3) s1(1,2)
    by (cases "good (padded r (Suc n))") (simp_all add: padded_simps(2))
qed

lemma program_end_returns:
  assumes "program_end g s = Some y" "configuring r (pg_pins s)"
  shows "\<exists>n. \<not> good (padded r n) \<or> complete (padded r n)"
proof -
  let ?stop = "\<lambda>r. \<exists>n. \<not> good (padded r n) \<or> complete (padded r n)"
  have "\<forall>r. g = g \<longrightarrow> configuring r (pg_pins s) \<longrightarrow> ?stop r"
  proof (rule program_end.raw_induct [OF _ assms(1), where P = "\<lambda>g' s y. \<forall>r. g' = g \<longrightarrow> configuring r (pg_pins s) \<longrightarrow> ?stop r"],
      intro allI impI)
    fix f :: "'g gpio \<Rightarrow> ('w, 'g) prog \<Rightarrow> (bool \<times> ('w, 'g) prog) option" and g' s y r
    assume ih: "\<And>g' s y. f g' s = Some y \<Longrightarrow> \<forall>r. g' = g \<longrightarrow> configuring r (pg_pins s) \<longrightarrow> ?stop r"
      and body: "do { (i, s) \<leftarrow> pins (isINIT g') s;
         (if i then do { (u, s) \<leftarrow> pins (tell (Text ''FPGA: Programming Error.  CRC Failure.'')) s; Some (False, s) }
          else do {
            (d, s) \<leftarrow> pins (isDONE g') s;
            (if d then do {
               (u, s) \<leftarrow> pins (tell (Text ''FPGA: Programmed successfully.'')) s;
               (u, s) \<leftarrow> pins (programByte g' 0xFF) s;
               Some (True, s) }
             else do { (u, s) \<leftarrow> pins (programByte g' 0xFF) s; f g' s }) }) } = Some y"
      and g': "g' = g" and c: "configuring r (pg_pins s)"
    show "?stop r"
    proof (cases "good r \<and> \<not> complete r")
      case True
      obtain w1 where w1: "run_state (isINIT g) s = (False, s\<lparr>pg_pins := w1\<rparr>)" "configuring r w1"
        using isINIT_looks [of s] c True by (auto simp: configuring_def)
      obtain w2 where w2: "run_state (isDONE g) (s\<lparr>pg_pins := w1\<rparr>) = (False, s\<lparr>pg_pins := w2\<rparr>)" "configuring r w2"
        using isDONE_looks [of "s\<lparr>pg_pins := w1\<rparr>"] w1(2) True by (auto simp: configuring_def)
      obtain s3 where s3: "run_state (programByte g 0xFF) (s\<lparr>pg_pins := w2\<rparr>) = ((), s3)" "configuring (r @ byte_bits 0xFF) (pg_pins s3)"
        using programByte_shifts [of r "s\<lparr>pg_pins := w2\<rparr>" "0xFF"] w2(2) by auto
      have "f g s3 = Some y" using body w1(1) w2(1) s3(1) g' by (simp add: pins_def)
      then have "?stop (r @ byte_bits 0xFF)" using ih s3(2) by blast
      then show ?thesis unfolding padded_simps(2) by blast
    next
      case False
      then show ?thesis by (intro exI [of _ 0]) (auto simp: padded_simps(1))
    qed
  qed
  then show ?thesis using assms(2) by blast
qed

end

locale firmware_loader = online_device ops sec sound + port: config_port g psound clearing bits din clk good complete
  for ops :: "'a disk_ops" and sec sound and g :: "'g gpio" and psound clearing bits din clk good complete
begin

lemma program_sectors_transfer:
  assumes "reading q xs rest fp (pg_fat s)" "port.configuring r (pg_pins s)"
  shows "\<exists>fp' s' rest'. program_sectors ops g i n fp s = Some ((fst (transfer good r rest), fp'), s') \<and>
    keeps_view sec (vol_of (pg_fat s) q) (vol_of (pg_fat s') q) \<and> reading q xs rest' fp' (pg_fat s') \<and>
    port.configuring (snd (transfer good r rest)) (pg_pins s')"
  using assms
proof (induction rest arbitrary: fp s r i n rule: length_induct)
  case (1 rest)
  let ?t = "transfer good r rest"
  show ?case
  proof (cases "rest = []")
    case True
    have "keeps_view sec (vol_of (pg_fat s) q) (vol_of (pg_fat s) q)"
      using 1(2) fat_ok_vol by (auto simp: reading_def intro: keeps_view_refl)
    then show ?thesis using 1(2,3) True reading_end [OF 1(2)]
      by (subst program_sectors.simps) (auto simp: pins_def)
  next
    case False
    let ?b = "take 512 rest" and ?m = "if i mod 128 = 127 then tell (Text '' .'') else State_Monad.return ()"
    define s1 where "s1 = snd (run_state ?m s)"
    have s1: "run_state ?m s = ((), s1)" "pg_fat s1 = pg_fat s" "pg_pins s1 = pg_pins s" by (simp_all add: s1_def)
    obtain fp2 v2 where f: "f_read ops fp (replicate 512 0) 512 (pg_fat s) =
        Some ((FR_OK, of_nat (min 512 (length rest)), fp2, take (min 512 (length rest)) rest @ drop (min 512 (length rest)) (replicate 512 0)), put_vol q v2 (pg_fat s))"
      and v2: "keeps_view sec (vol_of (pg_fat s) q) v2" "reading q xs (drop (min 512 (length rest)) rest) fp2 (put_vol q v2 (pg_fat s))"
      using reading_step [OF 1(2), of 512 "replicate 512 0" "min 512 (length rest)"] by fastforce
    let ?s2 = "s1\<lparr>pg_fat := put_vol q v2 (pg_fat s)\<rparr>"
    have nb: "unat (of_nat (min 512 (length rest)) :: u32) = min 512 (length rest)"
      by (simp add: unat_of_nat take_bit_eq_mod)
    have buf: "take (min 512 (length rest)) (take (min 512 (length rest)) rest @ drop (min 512 (length rest)) (replicate 512 0)) = ?b"
      by (simp add: min_def)
    have rs: "drop (min 512 (length rest)) rest = drop 512 rest" by (simp add: min_def)
    obtain s3 n3 where s3: "run_state (program_buffer g ?b n) ?s2 = ((fst (transfer good r ?b), n3), s3)" "pg_fat s3 = put_vol q v2 (pg_fat s)"
      "port.configuring (snd (transfer good r ?b)) (pg_pins s3)"
      using port.program_buffer_transfers [of r ?s2 ?b n] 1(3) s1(3) by auto
    have e: "program_sectors ops g i n fp s =
        (if fst (transfer good r ?b) then program_sectors ops g (i + 1) n3 fp2 s3 else Some ((False, fp2), s3))"
      using reading_end [OF 1(2)] False s1 f s3(1) nb buf by (subst program_sectors.simps) (simp add: pins_def card_def)
    have t: "transfer good r rest = (if fst (transfer good r ?b) then transfer good (snd (transfer good r ?b)) (drop 512 rest) else transfer good r ?b)"
      using transfer_append [of good r ?b "drop 512 rest"] by simp
    have r2: "reading q xs (drop 512 rest) fp2 (pg_fat s3)" using v2(2) s3(2) rs by simp
    show ?thesis
    proof (cases "fst (transfer good r ?b)")
      case True
      have "length (drop 512 rest) < length rest" using False by (cases rest) simp_all
      then obtain fp4 s4 rest4 where
          "program_sectors ops g (i + 1) n3 fp2 s3 = Some ((fst (transfer good (snd (transfer good r ?b)) (drop 512 rest)), fp4), s4)"
        "keeps_view sec (vol_of (pg_fat s3) q) (vol_of (pg_fat s4) q)" "reading q xs rest4 fp4 (pg_fat s4)"
        "port.configuring (snd (transfer good (snd (transfer good r ?b)) (drop 512 rest))) (pg_pins s4)"
        using 1(1) r2 s3(3) by blast
      then show ?thesis using keeps_view_trans [OF v2(1)] True s3(2) unfolding e t by auto
    next
      case F: False
      then show ?thesis using r2 s3(2,3) v2(1) unfolding e t by auto
    qed
  qed
qed

lemma program_file_outcome:
  assumes "reading q xs contents fp (pg_fat s)" "psound (pg_pins s)"
  shows "case program_file ops g fp s of
      None \<Rightarrow> \<forall>ok t. \<not> outcome good complete contents ok t
    | Some ((ok, fp'), s') \<Rightarrow> outcome good complete contents ok (bits (pg_pins s')) \<and>
        keeps_view sec (vol_of (pg_fat s) q) (vol_of (pg_fat s') q) \<and> (\<exists>rest. reading q xs rest fp' (pg_fat s'))"
proof -
  let ?t = "transfer good [] contents"
  obtain w1 where w1: "run_state (program_start g) s = (True, s\<lparr>pg_pins := w1\<rparr>)" "port.configuring [] w1"
    using port.program_start_ready [OF assms(2)] by blast
  define s2 where "s2 = s\<lparr>pg_pins := w1, pg_log := pg_log s @ [Text ''FPGA: Programming with firmware from SDHC Card.'']\<rparr>"
  obtain fp3 s3 rest where s3: "program_sectors ops g 0 0 fp s2 = Some ((fst ?t, fp3), s3)"
    "keeps_view sec (vol_of (pg_fat s) q) (vol_of (pg_fat s3) q)" "reading q xs rest fp3 (pg_fat s3)"
    "port.configuring (snd ?t) (pg_pins s3)"
    using program_sectors_transfer [of q xs contents fp s2 "[]" 0 0] assms(1) w1(2) by (auto simp: s2_def)
  have e: "program_file ops g fp s = (if \<not> fst ?t then Some ((False, fp3), s3)
      else map_option (\<lambda>(r, s). ((r, fp3), s)) (program_end g s3))"
    using w1(1) s3(1) by (cases "program_end g s3") (auto simp: program_file_def pins_def s2_def)
  obtain ok r where t: "?t = (ok, r)" by fastforce
  show ?thesis
  proof (cases ok)
    case False
    then show ?thesis using s3 t outcome.refused [of good contents r complete]
      unfolding e by (auto simp: port.configuring_def)
  next
    case ok: True
    show ?thesis
    proof (cases "\<exists>n. \<not> good (padded r n) \<or> complete (padded r n)")
      case True
      define n where "n = (LEAST n. \<not> good (padded r n) \<or> complete (padded r n))"
      have n: "\<not> good (padded r n) \<or> complete (padded r n)" unfolding n_def using True by (rule LeastI_ex)
      have before: "good (padded r j) \<and> \<not> complete (padded r j)" if "j < n" for j
        using not_less_Least [OF that [unfolded n_def]] by simp
      obtain s4 where s4: "program_end g s3 = Some (good (padded r n), s4)" "pg_fat s4 = pg_fat s3"
        "port.configuring (padded r (if good (padded r n) then Suc n else n)) (pg_pins s4)"
        using port.program_end_stops [of r s3 n] s3(4) t before n by auto
      have "outcome good complete contents (good (padded r n)) (padded r (if good (padded r n) then Suc n else n))"
        using outcome.failed_late [of good contents r n complete] outcome.completed [of good contents r n complete] t ok before n by auto
      then show ?thesis using s3(2,3) s4 t ok unfolding e by (auto simp: port.configuring_def)
    next
      case False
      then have "program_end g s3 = None"
        using port.program_end_returns [of s3 _ r] s3(4) t by (cases "program_end g s3") auto
      moreover have "\<not> outcome good complete contents a b" for a b
        using False t ok by (auto elim!: outcome.cases)
      ultimately show ?thesis using t ok unfolding e by simp
    qed
  qed
qed

lemma constructor_sound:
  assumes "psound (pg_pins s)"
  shows "\<exists>w. run_state (fpga_t g) s = ((), s\<lparr>pg_pins := w\<rparr>) \<and> psound w"
  using assms
  by (intro exI [of _ "pg_pins (snd (run_state (fpga_t g) s))"]) (simp add: fpga_t_def port.enable port.outdir port.indir)

end

lemma outcome_unique:
  assumes "outcome good complete bs ok t" "outcome good complete bs ok' t'"
  shows "ok = ok' \<and> t = t'"
proof -
  have "m = n" if "\<And>j. j < n \<Longrightarrow> good (padded r j) \<and> \<not> complete (padded r j)" "\<And>j. j < m \<Longrightarrow> good (padded r j) \<and> \<not> complete (padded r j)"
    "\<not> (good (padded r n) \<and> \<not> complete (padded r n))" "\<not> (good (padded r m) \<and> \<not> complete (padded r m))" for m n r
    using that by (metis linorder_neqE_nat)
  then show ?thesis using assms by (auto elim!: outcome.cases) (metis+)
qed

context firmware_loader
begin

lemma firmware_outcome:
  fixes s :: "('a, 'g) prog"
  assumes v_def: "v = vol_of (pg_fat s) q"
    and "mounted ops sec q (pg_fat s)" "sound (s_dsk (pg_fat s))"
    "fs_csize (v_fs v) AND (fs_csize (v_fs v) - 1) = 0" "fs_n_rootdir (v_fs v) mod 16 = 0"
    "dir_clusters sec v 0 rs" "table_ok (v_fs v) rs" "valid_name base ext"
    "dir_lookup (sfn_of base ext) (dir_entries sec v (dir_sectors (v_fs v) rs)) = Some k"
    "e = entry_at sec v (dir_sectors (v_fs v) rs) k" "e ! DIR_Attr AND AM_DIR = 0"
    "file_ok sec v (entry_file (v_fs v) e) xs"
    "take (unat (ld_dword e DIR_FileSize)) (file_bytes sec v xs) = contents" "psound (pg_pins s)"
  shows "case programFirmwareFile ops g debug (path_of base ext @ [0]) s of
      None \<Rightarrow> \<forall>ok t. outcome good complete contents ok t \<longrightarrow> \<not> ok \<and> \<not> debug
    | Some (u, s') \<Rightarrow> (\<exists>ok. outcome good complete contents ok (bits (pg_pins s')) \<and> (ok \<or> debug)) \<and>
        keeps_view sec v (vol_of (pg_fat s') q)"
proof -
  obtain fp v1 where o: "f_open ops (Some new_fil) (path_of base ext @ [0]) FA_READ (pg_fat s) = Some ((FR_OK, Some fp), put_vol q v1 (pg_fat s))"
    and v1: "keeps_view sec v v1" and rd: "reading q xs contents fp (put_vol q v1 (pg_fat s))"
    using open_reads [OF v_def assms(2-13)] by blast
  let ?m = "if debug then tell (Shown ''KS10: Opened firmware file \"%s\" for reading.'' [] [text_of (path_of base ext @ [0])])
    else State_Monad.return ()"
  define s1 where "s1 = snd (run_state ?m (s\<lparr>pg_fat := put_vol q v1 (pg_fat s)\<rparr>))"
  have s1: "pg_fat s1 = put_vol q v1 (pg_fat s)" "pg_pins s1 = pg_pins s" by (simp_all add: s1_def)
  obtain w2 where w2: "run_state (fpga_t g) s1 = ((), s1\<lparr>pg_pins := w2\<rparr>)" "psound w2"
    using constructor_sound [of s1] assms(14) s1(2) by auto
  let ?s2 = "s1\<lparr>pg_pins := w2\<rparr>"
  have start: "programFirmwareFile ops g debug (path_of base ext @ [0]) s = do {
      ((success, fp), s) \<leftarrow> program_file ops g fp ?s2;
      ((status, fp), s) \<leftarrow> card (f_close ops fp) s;
      (u, s) \<leftarrow> pins (if status \<noteq> FR_OK
        then tell (Shown ''KS10: Unable to close firmware file \"%s\".  Status was %d'' [result_code status] [text_of (path_of base ext @ [0])])
        else State_Monad.return ()) s;
      (if \<not> success \<and> \<not> debug then None else Some ((), s)) }"
    using o w2(1) unfolding s1_def by (cases debug) (simp_all add: programFirmwareFile_def pins_def card_def)
  have r2: "reading q xs contents fp (pg_fat ?s2)" "psound (pg_pins ?s2)" using rd s1(1) w2(2) by simp_all
  note p = program_file_outcome [OF r2]
  show ?thesis
  proof (cases "program_file ops g fp ?s2")
    case None
    then show ?thesis using p start by simp
  next
    case (Some y)
    obtain ok fp' s3 where y: "y = ((ok, fp'), s3)" by (metis surj_pair)
    obtain rest where c: "outcome good complete contents ok (bits (pg_pins s3))" "keeps_view sec v1 (vol_of (pg_fat s3) q)"
      "reading q xs rest fp' (pg_fat s3)"
      using p s1(1) unfolding Some y by auto
    have e: "programFirmwareFile ops g debug (path_of base ext @ [0]) s = (if \<not> ok \<and> \<not> debug then None else Some ((), s3))"
      using start reading_closes [OF c(3)] unfolding Some y by (simp add: pins_def card_def)
    show ?thesis
    proof (cases "ok \<or> debug")
      case True
      then show ?thesis using e c(1) keeps_view_trans [OF v1 c(2)] by auto
    next
      case False
      then show ?thesis using e outcome_unique [OF c(1)] by auto
    qed
  qed
qed

end

section \<open>A simulated FPGA\<close>

text \<open>
  An FPGA that waits for the bits \<open>img\<close>: INIT stays low for three milliseconds after the rise of PROG and falls again when
  a bit differs; DONE rises eight clocks after the last bit.
\<close>

record sim_fpga =
  sf_prog :: bool
  sf_clk :: bool
  sf_din :: bool
  sf_clear :: nat
  sf_bits :: "bool list"

definition img_good :: "bool list \<Rightarrow> bool list \<Rightarrow> bool" where
  "img_good img r \<longleftrightarrow> take (length img) r = take (length r) img"

definition img_complete :: "bool list \<Rightarrow> bool list \<Rightarrow> bool" where
  "img_complete img r \<longleftrightarrow> length img + 8 \<le> length r"

definition sim_levels :: "bool list \<Rightarrow> sim_fpga \<Rightarrow> byte" where
  "sim_levels img w = (if sf_clear w = 0 \<and> img_good img (sf_bits w) then GPIO_PIN_INIT else 0) OR
     (if sf_clear w = 0 \<and> img_complete img (sf_bits w) then GPIO_PIN_DONE else 0)"

definition sim_write :: "u32 \<Rightarrow> byte \<Rightarrow> byte \<Rightarrow> sim_fpga \<Rightarrow> sim_fpga" where
  "sim_write b m v w =
     (if b = GPIO_PORTB_BASE then
        (if m AND GPIO_PIN_PROG = 0 then w
         else if v AND GPIO_PIN_PROG = 0 then w\<lparr>sf_prog := False\<rparr>
         else if sf_prog w then w
         else w\<lparr>sf_prog := True, sf_clear := 3, sf_bits := []\<rparr>)
      else
        (let d = (if m AND GPIO_PIN_DIN \<noteq> 0 then v AND GPIO_PIN_DIN \<noteq> 0 else sf_din w);
             c = (if m AND GPIO_PIN_CCLK \<noteq> 0 then v AND GPIO_PIN_CCLK \<noteq> 0 else sf_clk w)
         in w\<lparr>sf_din := d, sf_clk := c,
              sf_bits := (if c \<and> \<not> sf_clk w \<and> sf_clear w = 0 then sf_bits w @ [d] else sf_bits w)\<rparr>))"

definition sim_gpio :: "bool list \<Rightarrow> sim_fpga gpio" where
  "sim_gpio img = \<lparr>g_enable = (\<lambda>p w. w), g_output = (\<lambda>b m w. w), g_input = (\<lambda>b m w. w),
     g_read = (\<lambda>b m w. (if b = GPIO_PORTB_BASE then sim_levels img w AND m else 0, w)), g_write = sim_write,
     g_delay = (\<lambda>n w. w\<lparr>sf_clear := sf_clear w - unat n\<rparr>)\<rparr>"

interpretation cfp: config_port "sim_gpio img" "\<lambda>w. True" sf_clear sf_bits sf_din sf_clk "img_good img" "img_complete img"
  by unfold_locales
    (auto simp: sim_gpio_def sim_write_def sim_levels_def pin_defs port_defs img_good_def img_complete_def split: if_splits)

lemma transfer_image: "img = r @ file_bits bs \<Longrightarrow> transfer (img_good img) r bs = (True, img)"
  by (induction bs arbitrary: r) (simp_all add: file_bits_def img_good_def)

lemma image_outcome: "outcome (img_good (file_bits bs)) (img_complete (file_bits bs)) bs True (padded (file_bits bs) (Suc 1))"
  by (rule outcome.completed) (simp_all add: transfer_image padded_def img_good_def img_complete_def)

interpretation fwl: firmware_loader "sd_disk sim_io" sd_sec healthy "sim_gpio img" "\<lambda>w. True" sf_clear sf_bits sf_din sf_clk
    "img_good img" "img_complete img"
  by unfold_locales

text \<open>The example volume with the file as firmware.\<close>

definition demo_prog :: "(sim sd, sim_fpga) prog" where
  "demo_prog = \<lparr>pg_pins = \<lparr>sf_prog = True, sf_clk = True, sf_din = False, sf_clear = 0, sf_bits = [True]\<rparr>,
     pg_fat = con_fat sav_console, pg_bitcnt = 0, pg_log = []\<rparr>"

text \<open>C7: \<open>programFirmware\<close> with a file, completely: on a sound, mounted volume whose root directory has the file, and
  for an FPGA that keeps the contract of its configuration port, the call returns exactly when the FPGA comes to an
  end (bad or complete bits) and that is a success or debugging is on; what has been shifted into the FPGA is then
  exactly the outcome the specification gives for the bytes of the file, and the volume keeps its contents. Otherwise
  the call never returns.\<close>

theorem programFirmwareFile_configures:
  fixes s :: "('w, 'g) prog"
  assumes "online_device ops sec sound" "config_port g psound clearing bits din clk good complete"
    and "mounted ops sec q (pg_fat s)" "sound (s_dsk (pg_fat s))"
    "fs_csize (s_obj (pg_fat s) q) AND (fs_csize (s_obj (pg_fat s) q) - 1) = 0" "fs_n_rootdir (s_obj (pg_fat s) q) mod 16 = 0"
    "dir_clusters sec (vol_of (pg_fat s) q) 0 rs" "table_ok (s_obj (pg_fat s) q) rs" "valid_name base ext"
    "dir_lookup (sfn_of base ext) (dir_entries sec (vol_of (pg_fat s) q) (dir_sectors (s_obj (pg_fat s) q) rs)) = Some k"
    "e = entry_at sec (vol_of (pg_fat s) q) (dir_sectors (s_obj (pg_fat s) q) rs) k" "e ! DIR_Attr AND AM_DIR = 0"
    "file_ok sec (vol_of (pg_fat s) q) (entry_file (s_obj (pg_fat s) q) e) xs"
    "take (unat (ld_dword e DIR_FileSize)) (file_bytes sec (vol_of (pg_fat s) q) xs) = contents" "psound (pg_pins s)"
  shows "case programFirmwareFile ops g debug (path_of base ext @ [0]) s of
      None \<Rightarrow> \<forall>ok t. outcome good complete contents ok t \<longrightarrow> \<not> ok \<and> \<not> debug
    | Some (u, s') \<Rightarrow> (\<exists>ok. outcome good complete contents ok (bits (pg_pins s')) \<and> (ok \<or> debug)) \<and>
        keeps_view sec (vol_of (pg_fat s) q) (vol_of (pg_fat s') q)"
proof -
  have loc: "firmware_loader ops sec sound g psound clearing bits din clk good complete"
    using assms(1,2) by (rule firmware_loader.intro)
  show ?thesis
    by (rule firmware_loader.firmware_outcome [OF loc refl assms(3,4) assms(5-13) [folded fs_vol_of(1)] assms(14,15)])
qed

lemma programFirmwareFile_configures_witness:
  "\<exists>s'. programFirmwareFile (sd_disk sim_io) (sim_gpio (file_bits sav_demo)) False
      [0x68, 0x65, 0x6C, 0x6C, 0x6F, 0x2E, 0x74, 0x78, 0x74, 0] demo_prog = Some ((), s') \<and>
    sf_bits (pg_pins s') = padded (file_bits sav_demo) 2"
proof -
  let ?b = "[0x68, 0x65, 0x6C, 0x6C, 0x6F] :: byte list" and ?e = "[0x74, 0x78, 0x74] :: byte list"
  let ?img = "file_bits sav_demo"
  have p: "path_of ?b ?e @ [0] = [0x68, 0x65, 0x6C, 0x6C, 0x6F, 0x2E, 0x74, 0x78, 0x74, 0]" by (simp add: path_of_def)
  have g: "fs_csize file_fs AND (fs_csize file_fs - 1) = 0" "fs_n_rootdir file_fs mod 16 = 0" by (simp_all add: file_fs_def)
  have d: "dir_lookup (sfn_of ?b ?e) (dir_entries sd_sec sav_vol (dir_sectors file_fs [])) = Some 0"
    "take 32 demo_root = entry_at sd_sec sav_vol (dir_sectors file_fs []) 0" using sav_directory(3-5) demo_path_name by simp_all
  have t: "take (unat (ld_dword (take 32 demo_root) DIR_FileSize)) (file_bytes sd_sec sav_vol [2, 3]) = sav_demo"
    unfolding demo_entry_fields(2) sav_contents using length_sav_demo by simp
  have s: "pg_fat demo_prog = con_fat sav_console" by (simp add: demo_prog_def)
  have h: "healthy (s_dsk (con_fat sav_console))" using sav_healthy by (simp add: sav_state)
  note r = programFirmwareFile_configures [OF sdo.online_device_axioms cfp.config_port_axioms [of ?img], of 0 demo_prog "[]" ?b ?e 0
      "take 32 demo_root" "[2, 3]" sav_demo False, unfolded s sav_state, OF sav_mounted h [unfolded sav_state] g sav_directory(1,2) demo_path_valid d
      demo_entry_fields(1) sav_file_ok t TrueI, unfolded p]
  show ?thesis
  proof (cases "programFirmwareFile (sd_disk sim_io) (sim_gpio ?img) False
      [0x68, 0x65, 0x6C, 0x6C, 0x6F, 0x2E, 0x74, 0x78, 0x74, 0] demo_prog")
    case None
    then show ?thesis using r image_outcome [of sav_demo] by auto
  next
    case (Some y)
    then show ?thesis using r outcome_unique [OF image_outcome [of sav_demo]]
      by (cases y) (fastforce simp: numeral_2_eq_2)
  qed
qed

end
