(* ===== verification/Spec2Isabelle.thy ===== *)
theory Spec2Isabelle
  imports Cmdline DiskIO SdInit FatPath FatOps FatFileOps DasmOps Ks10Ops CommandOps FpgaOps
begin

text \<open>
  Verification of the console software of the KS10 FPGA, a re-implementation of the DEC KS10 computer.
  The console is a small ARM microcontroller (\<^verbatim>\<open>src/code\<close>): it reads commands from a terminal line, controls
  the KS10 processor in the FPGA through the console registers, and loads software and configuration from
  a FAT file system on an SD card. The development models the parts of \<^verbatim>\<open>src/code\<close> that hold the program's own
  logic and proves them correct, or shows where they are not.

  \<^bold>\<open>Parts and how they interact.\<close> Key strokes go to the command line editor (\<^verbatim>\<open>cmdlinelib\<close>), which edits a line,
  keeps the history of lines and hands a finished line to the command interpreter (\<^verbatim>\<open>commands.cpp\<close>). Commands
  act on the KS10 interface object (\<^verbatim>\<open>ks10.cpp\<close>), which runs bus cycles through the console registers of the
  FPGA, and on files: \<^verbatim>\<open>ff.c\<close> (FatFs) over the disk layer \<^verbatim>\<open>diskio.c\<close> over the SD card driver \<^verbatim>\<open>sd.cpp\<close>. The loader
  of \<^verbatim>\<open>.SAV\<close> files joins the two. Everything prints with \<^verbatim>\<open>stdio.cpp\<close>; \<^verbatim>\<open>dasm.cpp\<close> disassembles instructions.

  \<^bold>\<open>Conventions.\<close> Machine integers keep their width (\<open>byte\<close>, \<open>u16\<close>, \<open>u32\<close>, \<open>u64\<close>). An option result is \<^term>\<open>None\<close>
  exactly where the code has no defined result: an access outside an object, or a call that never returns
  (\<^verbatim>\<open>fatal()\<close> and endless loops). Loops without an obvious bound are partial functions, so that returning is
  something to prove; no fuel is used except the counters the code itself has (100 looks at GO, 1000 at the halt pin).
  Hardware is a parameter: a record of operations on an abstract device state, with what the code relies on
  stated in a locale, and each locale interpreted on a simulated device.

  \<^bold>\<open>Theories.\<close>
  \<^item> \<open>Prelude\<close>: machine types, arrays with bounds, word lemmas.
  \<^item> \<open>Hist\<close>, \<open>Cmdline\<close>: \<^verbatim>\<open>hist.cpp\<close>, \<^verbatim>\<open>cursor.hpp\<close>, \<^verbatim>\<open>cmdline.cpp\<close>. The byte ring of the history implements a list of
    commands (locale of the history contract, interpreted on the ring); the editor implements an abstract line with
    a cursor, stays inside its buffer, and fails exactly for \<^verbatim>\<open>^T\<close> at the ends of the line.
  \<^item> \<open>SdCard\<close>, \<open>SdSim\<close>: \<^verbatim>\<open>sd.cpp\<close> and a simulated SD card; \<open>DiskIO\<close>: \<^verbatim>\<open>diskio.c\<close>, which on that card is a block device.
    \<open>SdInit\<close>: the initialization sequence on a second simulated card, which refuses every command that is out of order, lacks
    its prefix or its check bytes, or has a wrong argument.
  \<^item> \<open>FatBase\<close>, \<open>FatWindow\<close>, \<open>FatTable\<close>, \<open>FatDir\<close>, \<open>FatName\<close>, \<open>FatMount\<close>, \<open>FatFile\<close>, \<open>FatPath\<close>: the operations of \<^verbatim>\<open>ff.c\<close> in
    the order of the source, in the configuration of \<^verbatim>\<open>ffconf.h\<close>.
  \<^item> \<open>FatEntries\<close>, \<open>FatChain\<close>, \<open>FatBoot\<close>, \<open>FatReliable\<close>, \<open>FatVolume\<close>: the allocation table as a map from clusters to links; reading,
    storing, allocating and freeing in it for any block device, and exactly on a reliable one. The logical contents of a volume
    (\<open>view\<close>, and with it \<open>keeps_view\<close> and \<open>fat_step\<close>) leave out sector 0, under whose number the window is kept after a mount
    and after the FSInfo sector was written; \<open>FatBoot\<close> follows that sector, and shows how it can be spoiled.
  \<^item> \<open>FatMounted\<close>, \<open>FatLookup\<close>, \<open>FatSearch\<close>, \<open>FatNames\<close>, \<open>FatOps\<close>: mounting a boot record that fits establishes the invariant; looking things up
    returns on any volume and changes nothing; \<open>dir_find\<close> is the search of a list of entries; names in both directions.
  \<^item> \<open>FatRead\<close>, \<open>FatFileOps\<close>: \<open>f_read\<close> delivers the bytes of a file. Requests are below 1024 bytes: from there on the disk
    layer is asked for several sectors at once, which it does wrong (see \<open>DiskIO\<close>).
  \<^item> \<open>Stdio\<close>, \<open>StdioText\<close>, \<open>StdioOps\<close>: \<^verbatim>\<open>stdio.cpp\<close>; what each format prints, and that the size given to
    \<^verbatim>\<open>snprintf\<close> is ignored. \<open>Dasm\<close>, \<open>DasmOps\<close>: \<^verbatim>\<open>dasm.cpp\<close> over that model; its lines read back, and overrun its buffer.
  \<^item> \<open>Ks10\<close>, \<open>Ks10Bus\<close>, \<open>Ks10Ops\<close>: \<^verbatim>\<open>ks10.cpp\<close> in the state monad; the contract of the console port and of a processor
    that executes one instruction (locales), a simulated FPGA after \<^verbatim>\<open>src/fpga/ks10/csl/csl.v\<close>, and the properties.
  \<^item> \<open>Loader\<close>, \<open>LoaderOps\<close>: the state of \<^verbatim>\<open>commands.cpp\<close> with the loader of \<^verbatim>\<open>.SAV\<close> files and the configuration
    (\<^verbatim>\<open>config.cpp\<close>); a file on the card arrives in the memory of the KS10 word for word, over the contracts of the
    block device and of the console port together.
  \<^item> \<open>Terminal\<close>: the terminal while the processor runs and the disassembly of words of memory; \<open>Rh11\<close>, \<open>Dz11\<close>, \<open>Lp20\<close>:
    \<^verbatim>\<open>rh11.cpp\<close>, \<^verbatim>\<open>dz11.cpp\<close> and \<^verbatim>\<open>lp20.cpp\<close>, which boot from and test the devices through their registers.
  \<^item> \<open>Commands\<close>, \<open>CommandOps\<close>: the handlers, the table and the dispatch of \<^verbatim>\<open>commands.cpp\<close> with the directory listing
    \<^verbatim>\<open>dir.c\<close>. A line of memory commands implements an abstract memory console, and the accumulators are shown without a
    trace in memory; both are proved in locales (status registers that read nothing pending; a halted processor) that are
    interpreted on the simulated FPGA.
  \<^item> \<open>Fpga\<close>, \<open>FpgaOps\<close>: \<^verbatim>\<open>fpga.cpp\<close> and \<open>programFirmware\<close> of \<^verbatim>\<open>ks10.cpp\<close>; the contract of the configuration port of the
    FPGA (a locale with a simulated FPGA), and what arrives there for a file on the card, or that the call does not return.
  \<^bold>\<open>Not modelled.\<close> The hardware and its drivers (\<^verbatim>\<open>driverlib\<close>, \<^verbatim>\<open>epi.cpp\<close>, \<^verbatim>\<open>uart.cpp\<close>, start-up code), the operating system
  (\<^verbatim>\<open>SafeRTOS\<close>, \<^verbatim>\<open>taskutil.cpp\<close>, \<^verbatim>\<open>main.cpp\<close>, \<^verbatim>\<open>console.cpp\<close> and \<^verbatim>\<open>startCommandTask\<close>: task set-up), the network (\<^verbatim>\<open>lwiplib\<close>, a third-party stack, and \<^verbatim>\<open>telnetlib\<close> on top of it; the addresses the network
  commands print are a parameter), and everything outside \<^verbatim>\<open>src/code\<close>: the Verilog of the machine, microcode,
  diagnostics and tools. Printing is left out or kept as a log where it does not influence the code; of a text of
  several lines the log keeps the first with the values printed. Interrupts and tasks are not interleaved with the
  operations.
\<close>

end
